(* ===== verification/Prelude.thy ===== *)
theory Prelude
  imports
    Complex_Main
    "HOL-Library.List_Lexorder"
    "HOL-Library.Char_ord"
    "HOL-Library.Product_Lexorder"
    "HOL-Library.Multiset"
    "HOL-Library.Sublist"
begin

section \<open>Prelude: the parts of Python the program uses\<close>

text \<open>
  The built-in operations of the language that the sources call, and the lemmas on them that
  every component shares.

  \<^item> A Python \<^verbatim>\<open>str\<close> is a \<^typ>\<open>string\<close>: the UTF-8 bytes of the text. Equality, order,
    concatenation, prefix, suffix and splitting at ASCII characters agree with Python's on all
    text; \<^verbatim>\<open>len\<close> and slices count bytes, and the character classes (\<^verbatim>\<open>isspace\<close>,
    \<^verbatim>\<open>isalnum\<close>, \<^verbatim>\<open>lower\<close>) are the ASCII ones, so they are exact on ASCII text.
  \<^item> A Python \<^verbatim>\<open>float\<close> that the program computes with is a \<^typ>\<open>real\<close>: rounding errors of
    binary floating point are not modelled. Where a NaN or an infinity can enter (numbers read
    from JSON) the component has a type of its own for it.
  \<^item> A Python \<^verbatim>\<open>int\<close> is an \<^typ>\<open>int\<close>, or a \<^typ>\<open>nat\<close> where it is a length or a count.
\<close>

named_theorems py_simps \<open>unfolding rules of the Python library functions\<close>

subsection \<open>Non-empty lists\<close>

text \<open>A list that is never empty by construction: its first element and the rest.\<close>

type_synonym 'a nelist = "'a \<times> 'a list"

definition ne_list :: "'a nelist \<Rightarrow> 'a list" where
  "ne_list c = fst c # snd c"

definition ne_snoc :: "'a nelist \<Rightarrow> 'a \<Rightarrow> 'a nelist" where
  "ne_snoc c x = (fst c, snd c @ [x])"

lemma ne_list_simps [simp]:
  "ne_list (x, xs) = x # xs"
  "ne_list (ne_snoc c x) = ne_list c @ [x]"
  "ne_list c \<noteq> []"
  by (simp_all add: ne_list_def ne_snoc_def)

subsection \<open>max with a key\<close>

text \<open>Python's \<^verbatim>\<open>max(xs, key=k)\<close> returns the first element with the greatest key.\<close>

fun max_by_from :: "('a \<Rightarrow> 'k::linorder) \<Rightarrow> 'a \<Rightarrow> 'a list \<Rightarrow> 'a" where
  "max_by_from key best [] = best"
| "max_by_from key best (x # xs) =
     max_by_from key (if key best < key x then x else best) xs"

definition py_max_by :: "('a \<Rightarrow> 'k::linorder) \<Rightarrow> 'a nelist \<Rightarrow> 'a" where
  "py_max_by key c = max_by_from key (fst c) (snd c)"

lemma max_by_from_in: "max_by_from key b xs \<in> insert b (set xs)"
  by (induction xs arbitrary: b) (auto split: if_splits)

lemma max_by_from_ge: "y \<in> insert b (set xs) \<Longrightarrow> key y \<le> key (max_by_from key b xs)"
proof (induction xs arbitrary: b y)
  case Nil
  then show ?case by simp
next
  case (Cons x xs)
  let ?b = "if key b < key x then x else b"
  have best: "key ?b \<le> key (max_by_from key ?b xs)"
    by (rule Cons.IH) simp
  have "key b \<le> key ?b" "key x \<le> key ?b"
    by auto
  with best have "key b \<le> key (max_by_from key ?b xs)" "key x \<le> key (max_by_from key ?b xs)"
    by (meson order_trans)+
  moreover have "y \<in> set xs \<Longrightarrow> key y \<le> key (max_by_from key ?b xs)"
    by (rule Cons.IH) simp
  ultimately show ?case
    using Cons.prems by auto
qed

lemma py_max_by_in: "py_max_by key c \<in> set (ne_list c)"
  using max_by_from_in [of key "fst c" "snd c"] by (simp add: py_max_by_def ne_list_def)

lemma py_max_by_ge: "y \<in> set (ne_list c) \<Longrightarrow> key y \<le> key (py_max_by key c)"
  using max_by_from_ge [of y "fst c" "snd c" key] by (simp add: py_max_by_def ne_list_def)

subsection \<open>round\<close>

text \<open>\<^verbatim>\<open>round(x, k)\<close>: to the nearest multiple of ten to the minus \<open>k\<close>, a tie to the even one.\<close>

definition round_half_even :: "real \<Rightarrow> int" where
  "round_half_even x =
     (let n = \<lfloor>x\<rfloor>; d = x - of_int n
      in if d < 1 / 2 then n else if d > 1 / 2 then n + 1 else if even n then n else n + 1)"

definition py_round :: "nat \<Rightarrow> real \<Rightarrow> real" where
  "py_round k x = of_int (round_half_even (x * 10 ^ k)) / 10 ^ k"

lemma round_half_even_of_int [simp]: "round_half_even (of_int n) = n"
  by (simp add: round_half_even_def)

lemma round_half_even_mono: "x \<le> y \<Longrightarrow> round_half_even x \<le> round_half_even y"
proof -
  assume le: "x \<le> y"
  have fl: "\<lfloor>x\<rfloor> \<le> \<lfloor>y\<rfloor>"
    using le by (rule floor_mono)
  show ?thesis
  proof (cases "\<lfloor>x\<rfloor> = \<lfloor>y\<rfloor>")
    case True
    with le show ?thesis by (auto simp: round_half_even_def Let_def)
  next
    case False
    with fl have "\<lfloor>x\<rfloor> + 1 \<le> \<lfloor>y\<rfloor>" by simp
    then show ?thesis by (auto simp: round_half_even_def Let_def)
  qed
qed

lemma round_half_even_error: "\<bar>of_int (round_half_even x) - x\<bar> \<le> 1 / 2"
proof -
  have "of_int \<lfloor>x\<rfloor> \<le> x" "x < of_int \<lfloor>x\<rfloor> + 1"
    by linarith+
  then show ?thesis
    by (auto simp: round_half_even_def Let_def abs_le_iff)
qed

lemma py_round_mono: "x \<le> y \<Longrightarrow> py_round k x \<le> py_round k y"
  by (simp add: py_round_def divide_right_mono round_half_even_mono)

lemma py_round_of_int [simp]: "py_round k (of_int n) = of_int n"
proof -
  have "of_int n * 10 ^ k = (of_int (n * 10 ^ k) :: real)" by simp
  then show ?thesis
    unfolding py_round_def by (simp only: round_half_even_of_int) simp
qed

lemma py_round_0_1 [simp]: "py_round k 0 = 0" "py_round k 1 = 1"
  using py_round_of_int [of k 0] py_round_of_int [of k 1] by simp_all

lemma py_round_unit: "0 \<le> x \<Longrightarrow> x \<le> 1 \<Longrightarrow> 0 \<le> py_round k x \<and> py_round k x \<le> 1"
  using py_round_mono [of 0 x k] py_round_mono [of x 1 k] by simp

lemma py_round_error: "\<bar>py_round k x - x\<bar> \<le> 1 / (2 * 10 ^ k)"
proof -
  have "\<bar>of_int (round_half_even (x * 10 ^ k)) - x * 10 ^ k\<bar> / 10 ^ k \<le> (1 / 2) / 10 ^ k"
    by (rule divide_right_mono [OF round_half_even_error]) simp
  moreover have "py_round k x - x = (of_int (round_half_even (x * 10 ^ k)) - x * 10 ^ k) / 10 ^ k"
    by (simp add: py_round_def field_simps)
  ultimately show ?thesis
    by (simp add: abs_divide)
qed

subsection \<open>dict.fromkeys and grouping dictionaries\<close>

text \<open>\<^verbatim>\<open>dict.fromkeys(xs)\<close> keeps the first occurrence of every element, in order.\<close>

definition dict_fromkeys :: "'a list \<Rightarrow> 'a list" where
  "dict_fromkeys xs = rev (remdups (rev xs))"

lemma set_dict_fromkeys [simp]: "set (dict_fromkeys xs) = set xs"
  by (simp add: dict_fromkeys_def)

lemma distinct_dict_fromkeys [simp]: "distinct (dict_fromkeys xs)"
  by (simp add: dict_fromkeys_def)

text \<open>\<^verbatim>\<open>groups.setdefault(k, []).append(x)\<close> on a dictionary in insertion order: every group is
  non-empty.\<close>

fun group_add :: "'k \<Rightarrow> 'a \<Rightarrow> ('k \<times> 'a nelist) list \<Rightarrow> ('k \<times> 'a nelist) list" where
  "group_add k x [] = [(k, (x, []))]"
| "group_add k x ((k', g) # rest) =
     (if k = k' then (k', ne_snoc g x) # rest else (k', g) # group_add k x rest)"

definition group_values :: "('k \<times> 'a nelist) list \<Rightarrow> 'a list" where
  "group_values gs = concat (map (\<lambda>g. ne_list (snd g)) gs)"

lemma group_values_add: "mset (group_values (group_add k x gs)) = add_mset x (mset (group_values gs))"
  by (induction k x gs rule: group_add.induct) (auto simp: group_values_def)

definition groups_keyed :: "('a \<Rightarrow> 'k) \<Rightarrow> ('k \<times> 'a nelist) list \<Rightarrow> bool" where
  "groups_keyed key gs \<longleftrightarrow> list_all (\<lambda>g. list_all (\<lambda>y. key y = fst g) (ne_list (snd g))) gs"

lemma groups_keyed_Nil [simp]: "groups_keyed key []"
  by (simp add: groups_keyed_def)

lemma groups_keyed_add [simp]:
  "groups_keyed key gs \<Longrightarrow> key x = k \<Longrightarrow> groups_keyed key (group_add k x gs)"
  by (induction k x gs rule: group_add.induct) (auto simp: groups_keyed_def)

lemma groups_keyed_member:
  "groups_keyed key gs \<Longrightarrow> g \<in> set gs \<Longrightarrow> y \<in> set (ne_list (snd g)) \<Longrightarrow> key y = fst g"
  by (simp add: groups_keyed_def list_all_iff)

lemma group_add_dom: "fst ` set (group_add k x gs) = insert k (fst ` set gs)"
  by (induction k x gs rule: group_add.induct) auto

lemma group_add_distinct: "distinct (map fst gs) \<Longrightarrow> distinct (map fst (group_add k x gs))"
proof (induction k x gs rule: group_add.induct)
  case (2 k x k' g rest)
  then show ?case
    using group_add_dom [of k x rest] by (auto simp: image_iff)
qed simp

subsection \<open>Products and means of numbers between 0 and 1\<close>

lemma prod_list_unit:
  fixes xs :: "real list"
  assumes "\<forall>x \<in> set xs. 0 \<le> x \<and> x \<le> 1"
  shows "0 \<le> prod_list xs \<and> prod_list xs \<le> 1"
  using assms by (induction xs) (auto intro: mult_le_one)

lemma prod_list_le_member:
  fixes xs :: "real list"
  assumes "\<forall>x \<in> set xs. 0 \<le> x \<and> x \<le> 1" and "y \<in> set xs"
  shows "prod_list xs \<le> y"
  using assms
proof (induction xs)
  case (Cons x xs)
  then have unit: "0 \<le> prod_list xs" "prod_list xs \<le> 1" "0 \<le> x" "x \<le> 1"
    using prod_list_unit [of xs] by auto
  show ?case
  proof (cases "y = x")
    case True
    with unit show ?thesis by (simp add: mult_left_le)
  next
    case False
    with Cons have "prod_list xs \<le> y" by simp
    moreover have "x * prod_list xs \<le> prod_list xs"
      using unit by (simp add: mult_left_le_one_le)
    ultimately show ?thesis by simp
  qed
qed simp

text \<open>A weighted mean lies between the bounds of the values.\<close>

lemma weighted_mean_bounds:
  fixes w x :: "'a \<Rightarrow> real"
  assumes "xs \<noteq> []" and w: "\<And>a. a \<in> set xs \<Longrightarrow> 0 < w a"
    and x: "\<And>a. a \<in> set xs \<Longrightarrow> lo \<le> x a \<and> x a \<le> hi"
  shows "lo \<le> sum_list (map (\<lambda>a. x a * w a) xs) / sum_list (map w xs) \<and>
         sum_list (map (\<lambda>a. x a * w a) xs) / sum_list (map w xs) \<le> hi"
proof -
  have pos: "0 < sum_list (map w xs)"
    using assms(1) w
  proof (induction xs rule: list_nonempty_induct)
    case (cons y ys)
    then have "0 < w y" "0 < sum_list (map w ys)" by simp_all
    then show ?case by simp
  qed simp
  have "lo * sum_list (map w xs) = sum_list (map (\<lambda>a. lo * w a) xs)"
    by (simp add: sum_list_const_mult)
  also have "\<dots> \<le> sum_list (map (\<lambda>a. x a * w a) xs)"
    using w x by (intro sum_list_mono) (simp add: less_imp_le mult_right_mono)
  finally have lo: "lo * sum_list (map w xs) \<le> sum_list (map (\<lambda>a. x a * w a) xs)" .
  have "sum_list (map (\<lambda>a. x a * w a) xs) \<le> sum_list (map (\<lambda>a. hi * w a) xs)"
    using w x by (intro sum_list_mono) (simp add: less_imp_le mult_right_mono)
  also have "\<dots> = hi * sum_list (map w xs)"
    by (simp add: sum_list_const_mult)
  finally show ?thesis
    using lo pos by (simp add: pos_le_divide_eq pos_divide_le_eq)
qed

end
