(* ===== verification/PyStr.thy ===== *)
theory PyStr
  imports Prelude
begin

section \<open>Python strings\<close>

text \<open>
  The methods of \<^verbatim>\<open>str\<close> that the sources call, on the ASCII range, and their laws: what
  \<^verbatim>\<open>splitlines\<close> returns and how it inverts joining by newlines, what \<^verbatim>\<open>strip\<close> leaves, and
  the decimal text of a number and its reading.
\<close>

text \<open>A character outside ASCII is its UTF-8 bytes.\<close>

definition EM_DASH :: string where
  "EM_DASH = [CHR 0xE2, CHR 0x80, CHR 0x94]"

subsection \<open>Character classes\<close>

definition code :: "char \<Rightarrow> nat" where
  "code c = of_char c"

definition is_space :: "char \<Rightarrow> bool" where
  "is_space c \<longleftrightarrow> code c = 32 \<or> (9 \<le> code c \<and> code c \<le> 13) \<or> (28 \<le> code c \<and> code c \<le> 31)"

definition is_linebreak :: "char \<Rightarrow> bool" where
  "is_linebreak c \<longleftrightarrow> (10 \<le> code c \<and> code c \<le> 13) \<or> (28 \<le> code c \<and> code c \<le> 30)"

definition is_digit :: "char \<Rightarrow> bool" where
  "is_digit c \<longleftrightarrow> 48 \<le> code c \<and> code c \<le> 57"

definition is_upper :: "char \<Rightarrow> bool" where
  "is_upper c \<longleftrightarrow> 65 \<le> code c \<and> code c \<le> 90"

definition is_lower :: "char \<Rightarrow> bool" where
  "is_lower c \<longleftrightarrow> 97 \<le> code c \<and> code c \<le> 122"

definition is_alnum :: "char \<Rightarrow> bool" where
  "is_alnum c \<longleftrightarrow> is_digit c \<or> is_upper c \<or> is_lower c"

definition is_word :: "char \<Rightarrow> bool" where
  "is_word c \<longleftrightarrow> is_alnum c \<or> code c = 95"

definition is_ascii :: "string \<Rightarrow> bool" where
  "is_ascii s \<longleftrightarrow> list_all (\<lambda>c. code c < 128) s"

lemmas char_class_defs = code_def is_space_def is_linebreak_def is_digit_def is_upper_def
  is_lower_def is_alnum_def is_word_def

declare char_class_defs [py_simps]

definition lower_char :: "char \<Rightarrow> char" where
  "lower_char c = (if is_upper c then char_of (code c + 32) else c)"

definition py_lower :: "string \<Rightarrow> string" where
  "py_lower s = map lower_char s"

subsection \<open>strip, lstrip and rstrip\<close>

definition py_lstrip :: "string \<Rightarrow> string" where
  "py_lstrip s = dropWhile is_space s"

definition py_rstrip :: "string \<Rightarrow> string" where
  "py_rstrip s = rev (dropWhile is_space (rev s))"

definition py_strip :: "string \<Rightarrow> string" where
  "py_strip s = py_rstrip (py_lstrip s)"

text \<open>\<^verbatim>\<open>s.lstrip(chars)\<close> removes every leading character that occurs in \<^verbatim>\<open>chars\<close>.\<close>

definition py_lstrip_chars :: "string \<Rightarrow> string \<Rightarrow> string" where
  "py_lstrip_chars cs s = dropWhile (\<lambda>c. c \<in> set cs) s"

subsection \<open>Joining, splitting, replacing, searching\<close>

fun py_join :: "string \<Rightarrow> string list \<Rightarrow> string" where
  "py_join sep [] = []"
| "py_join sep [x] = x"
| "py_join sep (x # y # zs) = x @ sep @ py_join sep (y # zs)"

text \<open>\<^verbatim>\<open>s.split(c)\<close> for one separator character: always at least one field.\<close>

fun py_split :: "char \<Rightarrow> string \<Rightarrow> string list" where
  "py_split c [] = [[]]"
| "py_split c (x # xs) =
     (if x = c then [] # py_split c xs
      else (case py_split c xs of [] \<Rightarrow> [[x]] | f # fs \<Rightarrow> (x # f) # fs))"

text \<open>\<^verbatim>\<open>s.split()\<close>: the maximal runs of characters that are not white space.\<close>

fun split_ws_from :: "string \<Rightarrow> string \<Rightarrow> string list" where
  "split_ws_from acc [] = (if acc = [] then [] else [rev acc])"
| "split_ws_from acc (c # cs) =
     (if is_space c then (if acc = [] then [] else [rev acc]) @ split_ws_from [] cs
      else split_ws_from (c # acc) cs)"

definition py_split_ws :: "string \<Rightarrow> string list" where
  "py_split_ws s = split_ws_from [] s"

text \<open>\<^verbatim>\<open>s.splitlines()\<close>: a carriage return with its newline is one break, every other line
  break ends a line too, and no empty line follows the last break.\<close>

fun splitlines_from :: "string \<Rightarrow> string \<Rightarrow> string list" where
  "splitlines_from acc [] = (if acc = [] then [] else [rev acc])"
| "splitlines_from acc (c # cs) =
     (if code c = 13 then
        rev acc # splitlines_from [] (if cs \<noteq> [] \<and> code (hd cs) = 10 then tl cs else cs)
      else if is_linebreak c then rev acc # splitlines_from [] cs
      else splitlines_from (c # acc) cs)"

declare splitlines_from.simps(2) [simp del]

definition py_splitlines :: "string \<Rightarrow> string list" where
  "py_splitlines s = splitlines_from [] s"

definition py_replace :: "char \<Rightarrow> char \<Rightarrow> string \<Rightarrow> string" where
  "py_replace a b s = map (\<lambda>c. if c = a then b else c) s"

fun py_contains :: "string \<Rightarrow> string \<Rightarrow> bool" where
  "py_contains pat [] = (pat = [])"
| "py_contains pat (c # cs) = (prefix pat (c # cs) \<or> py_contains pat cs)"

abbreviation startswith :: "string \<Rightarrow> string \<Rightarrow> bool" where
  "startswith s p \<equiv> prefix p s"

abbreviation endswith :: "string \<Rightarrow> string \<Rightarrow> bool" where
  "endswith s p \<equiv> suffix p s"

text \<open>\<^verbatim>\<open>s.rsplit(c, 1)[-1]\<close>: what follows the last \<open>c\<close>, or the whole string.\<close>

definition after_last :: "char \<Rightarrow> string \<Rightarrow> string" where
  "after_last c s = rev (takeWhile (\<lambda>x. x \<noteq> c) (rev s))"

text \<open>\<^verbatim>\<open>s.partition(c)\<close> and \<^verbatim>\<open>s.rpartition(c)\<close> without the separator: what stands before the first and after
  it, and the same for the last.\<close>

definition py_rpartition :: "char \<Rightarrow> string \<Rightarrow> string \<times> string" where
  "py_rpartition c s =
     (if c \<in> set s then (rev (tl (dropWhile (\<lambda>x. x \<noteq> c) (rev s))), after_last c s) else ([], s))"

definition py_partition :: "char \<Rightarrow> string \<Rightarrow> string \<times> string" where
  "py_partition c s = (takeWhile (\<lambda>x. x \<noteq> c) s, tl (dropWhile (\<lambda>x. x \<noteq> c) s))"

subsection \<open>Decimal text\<close>

definition digit_char :: "nat \<Rightarrow> char" where
  "digit_char n = char_of (48 + n)"

fun py_str_nat :: "nat \<Rightarrow> string" where
  "py_str_nat n = (if n < 10 then [digit_char n] else py_str_nat (n div 10) @ [digit_char (n mod 10)])"

declare py_str_nat.simps [simp del]

definition py_str_int :: "int \<Rightarrow> string" where
  "py_str_int i = (if i < 0 then CHR ''-'' # py_str_nat (nat (- i)) else py_str_nat (nat i))"

text \<open>The value of a run of digits, as \<^verbatim>\<open>int(s)\<close> reads it.\<close>

definition digits_value :: "string \<Rightarrow> nat" where
  "digits_value s = foldl (\<lambda>n c. 10 * n + (code c - 48)) 0 s"

text \<open>\<^verbatim>\<open>f"{n:>k}"\<close>: right-justified in \<open>k\<close> columns.\<close>

definition rjust :: "nat \<Rightarrow> string \<Rightarrow> string" where
  "rjust k s = replicate (k - length s) CHR '' '' @ s"

text \<open>\<^verbatim>\<open>f"{n:<k}"\<close>: left-justified in \<open>k\<close> columns.\<close>

definition ljust :: "nat \<Rightarrow> string \<Rightarrow> string" where
  "ljust k s = s @ replicate (k - length s) CHR '' ''"

text \<open>\<^verbatim>\<open>f"{x:.kf}"\<close>: the number rounded to \<open>k\<close> places, with all \<open>k\<close> digits shown; a negative number
  keeps its sign when it rounds to zero.\<close>

definition py_fixed :: "nat \<Rightarrow> real \<Rightarrow> string" where
  "py_fixed k x =
     (let n = round_half_even (x * 10 ^ k); m = nat \<bar>n\<bar>; frac = py_str_nat (m mod 10 ^ k)
      in (if x < 0 then ''-'' else []) @ py_str_nat (m div 10 ^ k) @
         (if k = 0 then [] else ''.'' @ replicate (k - length frac) CHR ''0'' @ frac))"

text \<open>\<^verbatim>\<open>f"{x:+.kf}"\<close>: a number that is not negative gets a plus sign.\<close>

definition py_signed :: "nat \<Rightarrow> real \<Rightarrow> string" where
  "py_signed k x = (if x < 0 then [] else ''+'') @ py_fixed k x"

subsection \<open>Laws\<close>

lemma py_strip_space_free_iff: "py_strip s = [] \<longleftrightarrow> list_all is_space s"
proof -
  have "py_strip s = [] \<longleftrightarrow> (\<forall>c\<in>set (dropWhile is_space s). is_space c)"
    by (simp add: py_strip_def py_rstrip_def py_lstrip_def dropWhile_eq_Nil_conv)
  also have "\<dots> \<longleftrightarrow> (\<forall>c\<in>set s. is_space c)"
    by (metis dropWhile_eq_Nil_conv hd_dropWhile list.set_sel(1) set_dropWhileD)
  finally show ?thesis
    by (simp add: list_all_iff)
qed

lemma py_lstrip_ends: "py_lstrip s = [] \<or> \<not> is_space (hd (py_lstrip s))"
  using hd_dropWhile [of is_space s] by (simp add: py_lstrip_def) blast

lemma dropWhile_idem_hd: "xs = [] \<or> \<not> P (hd xs) \<Longrightarrow> dropWhile P xs = xs"
  by (cases xs) auto

lemma last_rstrip: "py_rstrip s = [] \<or> \<not> is_space (last (py_rstrip s))"
  using hd_dropWhile [of is_space "rev s"] by (auto simp: py_rstrip_def last_rev)

lemma hd_rstrip: "py_rstrip s \<noteq> [] \<Longrightarrow> hd (py_rstrip s) = hd s"
proof -
  assume ne: "py_rstrip s \<noteq> []"
  have "rev s = takeWhile is_space (rev s) @ dropWhile is_space (rev s)"
    by simp
  then have "s = py_rstrip s @ rev (takeWhile is_space (rev s))"
    unfolding py_rstrip_def by (metis rev_append rev_rev_ident)
  with ne show ?thesis
    by (metis hd_append2)
qed

lemma py_strip_idem [simp]: "py_strip (py_strip s) = py_strip s"
proof (cases "py_strip s = []")
  case True
  then show ?thesis
    by (simp only: True) (simp add: py_strip_def py_lstrip_def py_rstrip_def)
next
  case False
  then have l: "py_lstrip s \<noteq> []"
    by (auto simp: py_strip_def py_rstrip_def)
  have "hd (py_strip s) = hd (py_lstrip s)"
    using False by (simp add: py_strip_def hd_rstrip)
  with l py_lstrip_ends [of s] have "\<not> is_space (hd (py_strip s))"
    by simp
  then have a: "py_lstrip (py_strip s) = py_strip s"
    unfolding py_lstrip_def by (intro dropWhile_idem_hd) simp
  have "\<not> is_space (last (py_strip s))"
    using False last_rstrip [of "py_lstrip s"] by (simp add: py_strip_def)
  then have b: "py_rstrip (py_strip s) = py_strip s"
    unfolding py_rstrip_def using False by (subst dropWhile_idem_hd) (simp_all add: hd_rev)
  from a b show ?thesis
    by (simp add: py_strip_def [of "py_strip s"])
qed

lemma length_py_strip: "length (py_strip s) \<le> length s"
proof -
  have "length (py_rstrip t) \<le> length t" for t
    using length_dropWhile_le [of is_space "rev t"] by (simp add: py_rstrip_def)
  from this [of "py_lstrip s"] show ?thesis
    using length_dropWhile_le [of is_space s] by (simp add: py_strip_def py_lstrip_def)
qed

definition line_free :: "string \<Rightarrow> bool" where
  "line_free s \<longleftrightarrow> list_all (\<lambda>c. \<not> is_linebreak c) s"

lemma code_13_break: "code c = 13 \<Longrightarrow> is_linebreak c"
  by (simp add: is_linebreak_def)

lemma splitlines_from_line_free:
  "line_free acc \<Longrightarrow> l \<in> set (splitlines_from acc s) \<Longrightarrow> line_free l"
proof (induction acc s rule: splitlines_from.induct)
  case (1 acc)
  then show ?case by (auto simp: line_free_def split: if_splits)
next
  case (2 acc c cs)
  have "line_free (rev acc)" "line_free []"
    using "2.prems"(1) by (simp_all add: line_free_def)
  moreover have "\<not> is_linebreak c \<Longrightarrow> line_free (c # acc)"
    using "2.prems"(1) by (simp add: line_free_def)
  ultimately show ?case
    using "2.prems"(2) "2.IH" by (auto simp: splitlines_from.simps(2) split: if_splits)
qed

lemma splitlines_from_step:
  "\<not> is_linebreak c \<Longrightarrow> splitlines_from acc (c # cs) = splitlines_from (c # acc) cs"
  "is_linebreak c \<Longrightarrow> code c \<noteq> 13 \<Longrightarrow>
     splitlines_from acc (c # cs) = rev acc # splitlines_from [] cs"
  by (auto simp: splitlines_from.simps(2) code_13_break)

text \<open>No line that \<^verbatim>\<open>splitlines\<close> returns holds a line break.\<close>

lemma splitlines_line_free: "l \<in> set (py_splitlines s) \<Longrightarrow> line_free l"
  unfolding py_splitlines_def by (rule splitlines_from_line_free) (simp_all add: line_free_def)

lemma newline_code: "code CHR 0x0A = 10" "is_linebreak CHR 0x0A"
  by (simp_all add: code_def is_linebreak_def)

lemma splitlines_from_run:
  "line_free l \<Longrightarrow> splitlines_from acc (l @ s) = splitlines_from (rev l @ acc) s"
  by (induction l arbitrary: acc) (auto simp: line_free_def splitlines_from_step)

text \<open>\<^verbatim>\<open>splitlines\<close> inverts joining with newlines, if the last line is not empty.\<close>

lemma splitlines_join:
  assumes "list_all line_free ls" and "ls \<noteq> []" and "last ls \<noteq> []"
  shows "py_splitlines (py_join [CHR 0x0A] ls) = ls"
  using assms unfolding py_splitlines_def
proof (induction "[CHR 0x0A]" ls rule: py_join.induct)
  case (2 x)
  then show ?case
    using splitlines_from_run [of x "[]" "[]"] by simp
next
  case (3 x y zs)
  then show ?case
    using splitlines_from_run [of x "[]" "[CHR 0x0A] @ py_join [CHR 0x0A] (y # zs)"]
    by (simp add: newline_code splitlines_from_step)
qed simp

lemma digit_char_code: "n < 10 \<Longrightarrow> code (digit_char n) = 48 + n"
  by (simp add: code_def digit_char_def)

lemma is_digit_digit_char: "n < 10 \<Longrightarrow> is_digit (digit_char n)"
  by (simp add: is_digit_def digit_char_code)

lemma py_str_nat_digits: "list_all is_digit (py_str_nat n)"
proof (induction n rule: py_str_nat.induct)
  case (1 n)
  then show ?case
    by (subst py_str_nat.simps) (simp add: is_digit_digit_char)
qed

lemma py_str_nat_nonempty [simp]: "py_str_nat n \<noteq> []"
  by (subst py_str_nat.simps) simp

text \<open>Printing a number and reading it back.\<close>

lemma digits_value_str_nat [simp]: "digits_value (py_str_nat n) = n"
proof (induction n rule: py_str_nat.induct)
  case (1 n)
  show ?case
  proof (cases "n < 10")
    case True
    then show ?thesis
      by (subst py_str_nat.simps) (simp add: digits_value_def digit_char_code)
  next
    case False
    with 1 have "digits_value (py_str_nat (n div 10)) = n div 10" by simp
    with False show ?thesis
      by (subst py_str_nat.simps) (simp add: digits_value_def digit_char_code)
  qed
qed

text \<open>Cutting a text at a character it was joined with.\<close>

lemma takeWhile_until: "x \<notin> set xs \<Longrightarrow> takeWhile (\<lambda>y. y \<noteq> x) (xs @ x # ys) = xs"
  by (induction xs) auto

lemma dropWhile_until: "x \<notin> set xs \<Longrightarrow> dropWhile (\<lambda>y. y \<noteq> x) (xs @ x # ys) = x # ys"
  by (induction xs) auto

lemma py_rpartition_text: "c \<notin> set s \<Longrightarrow> py_rpartition c (p @ c # s) = (p, s)"
  by (simp add: py_rpartition_def after_last_def takeWhile_until dropWhile_until)

lemma py_partition_text: "c \<notin> set s \<Longrightarrow> py_partition c (s @ c # t) = (s, t)"
  by (simp add: py_partition_def takeWhile_until dropWhile_until)

lemma py_partition_absent: "c \<notin> set s \<Longrightarrow> py_partition c s = (s, [])"
proof -
  assume "c \<notin> set s"
  then have "takeWhile (\<lambda>y. y \<noteq> c) s = s \<and> dropWhile (\<lambda>y. y \<noteq> c) s = []"
    by (induction s) auto
  then show ?thesis by (simp only: py_partition_def list.sel)
qed

end
