(* ===== verification/Aggregator.thy ===== *)
theory Aggregator
  imports Domain
begin

section \<open>The aggregator: four opinions into one review\<close>

text \<open>
  \<^verbatim>\<open>orchestration/aggregator.py\<close>. Findings are clustered first-fit by \<open>same_issue\<close>, every
  cluster is collapsed into one finding, repeated recommendations are folded, and the result is
  sorted. The code also writes \<^verbatim>\<open>merged_into\<close> on the findings it absorbs; \<open>collapse\<close> and
  \<open>fold_group\<close> therefore return the new finding and the cluster as they leave it.
\<close>

subsection \<open>When two findings are one issue\<close>

definition TITLE_SIMILARITY_THRESHOLD :: real where
  "TITLE_SIMILARITY_THRESHOLD = 45 / 100"

definition words :: "string \<Rightarrow> string list" where
  "words text =
     remdups (filter (\<lambda>w. 2 < length w)
       (py_split_ws (map (\<lambda>c. if is_alnum c then lower_char c else CHR '' '') text)))"

definition STOP_WORDS :: "string list" where
  "STOP_WORDS =
     [''the'', ''a'', ''an'', ''is'', ''in'', ''of'', ''to'', ''on'', ''and'', ''for'', ''this'',
      ''that'', ''with'']"

definition content_words :: "string \<Rightarrow> string set" where
  "content_words t = set (filter (\<lambda>w. w \<notin> set STOP_WORDS) (words t))"

definition title_similarity :: "string \<Rightarrow> string \<Rightarrow> real" where
  "title_similarity a b =
     (let ta = content_words a; tb = content_words b
      in if ta = {} \<or> tb = {} then 0 else real (card (ta \<inter> tb)) / real (card (ta \<union> tb)))"

definition same_issue :: "finding \<Rightarrow> finding \<Rightarrow> bool" where
  "same_issue a b \<longleftrightarrow>
     (if \<not> overlaps a b then False
      else if f_category a = f_category b then True
      else if f_category a \<noteq> OTHER \<and> f_category b \<noteq> OTHER \<and>
              family_of (f_category a) = family_of (f_category b) then True
      else TITLE_SIMILARITY_THRESHOLD \<le> title_similarity (f_title a) (f_title b))"

subsection \<open>Clustering\<close>

text \<open>The inner loop with its \<^verbatim>\<open>else\<close>: the first cluster with a member that is the same issue takes
  the finding, otherwise it opens a cluster of its own.\<close>

fun place :: "finding \<Rightarrow> finding nelist list \<Rightarrow> finding nelist list" where
  "place f [] = [(f, [])]"
| "place f (c # cs) =
     (if list_ex (same_issue f) (ne_list c) then ne_snoc c f # cs else c # place f cs)"

definition clusters :: "finding list \<Rightarrow> finding nelist list" where
  "clusters fs = foldl (\<lambda>cs f. place f cs) [] fs"

subsection \<open>Collapsing a cluster\<close>

definition primary_key :: "finding \<Rightarrow> nat \<times> real" where
  "primary_key f = (severity_index (f_severity f), f_confidence f)"

definition primary_of :: "finding nelist \<Rightarrow> finding" where
  "primary_of c = py_max_by primary_key c"

definition cluster_agents :: "finding list \<Rightarrow> agent_type list" where
  "cluster_agents fs = remdups (map f_agent fs)"

definition best_of_agent :: "finding list \<Rightarrow> agent_type \<Rightarrow> real" where
  "best_of_agent fs a = Max (set (map f_confidence (filter (\<lambda>f. f_agent f = a) fs)))"

definition noisy_or :: "finding list \<Rightarrow> real" where
  "noisy_or fs =
     min (99 / 100) (1 - prod_list (map (\<lambda>a. 1 - best_of_agent fs a) (cluster_agents fs)))"

definition merge_bodies :: "finding \<Rightarrow> finding list \<Rightarrow> string" where
  "merge_bodies primary fs =
     f_body primary @
     concat (dict_fromkeys
       (map (\<lambda>f. NEWLINE @ NEWLINE @ ''_Also raised by the '' @ agent_str (f_agent f) @
                  '' agent:_ '' @ f_title f)
         (filter (\<lambda>f. f_id f \<noteq> f_id primary \<and> f_agent f \<noteq> f_agent primary) fs)))"

definition evidence_key :: "evidence \<Rightarrow> string \<times> int option \<times> string" where
  "evidence_key e = (e_file_path e, e_line_start e, take 80 (e_excerpt e))"

fun dedupe_loop :: "(string \<times> int option \<times> string) list \<Rightarrow> evidence list \<Rightarrow> evidence list" where
  "dedupe_loop seen [] = []"
| "dedupe_loop seen (e # es) =
     (if evidence_key e \<in> set seen then dedupe_loop seen es
      else e # dedupe_loop (evidence_key e # seen) es)"

definition dedupe_evidence :: "finding list \<Rightarrow> evidence list" where
  "dedupe_evidence fs = take 6 (dedupe_loop [] (concat (map f_evidence fs)))"

definition mark_merged :: "finding \<Rightarrow> finding list \<Rightarrow> finding list" where
  "mark_merged primary fs =
     map (\<lambda>f. if f_id f \<noteq> f_id primary then f\<lparr>f_merged_into := Some (f_id primary)\<rparr> else f) fs"

definition collapse :: "finding nelist \<Rightarrow> finding \<times> finding list" where
  "collapse c =
     (if snd c = [] then (fst c, [fst c])
      else
        (let fs = ne_list c; primary = primary_of c; agents = cluster_agents fs;
             confidence = (if 1 < length agents then noisy_or fs else f_confidence primary);
             merged = primary\<lparr>f_confidence := confidence,
                              f_agreeing := sort (map agent_str agents),
                              f_categories := sort (remdups (map (\<lambda>f. category_str (f_category f)) fs)),
                              f_line_start := Min (set (map f_line_start fs)),
                              f_line_end := Max (set (map f_line_end fs)),
                              f_evidence := dedupe_evidence fs,
                              f_body := merge_bodies primary fs\<rparr>
         in (merged, mark_merged primary fs)))"

definition merge_findings :: "finding list \<Rightarrow> finding list" where
  "merge_findings fs = map (\<lambda>c. fst (collapse c)) (clusters fs)"

subsection \<open>Folding a repeated recommendation\<close>

definition fold_listing :: "finding list \<Rightarrow> string" where
  "fold_listing others =
     py_join NEWLINE
       (map (\<lambda>f. ''- `'' @ f_file_path f @ '':'' @ py_str_int (f_line_start f) @ ''` '' @ EM_DASH @
                  '' '' @ f_title f)
         (sort_key (\<lambda>f. (f_file_path f, f_line_start f)) others))"

definition fold_body :: "finding \<Rightarrow> finding list \<Rightarrow> nat \<Rightarrow> string" where
  "fold_body primary others n =
     f_body primary @ NEWLINE @ NEWLINE @
     ''The same gap appears at '' @ py_str_nat (length others) @
     '' other place(s) in this change:'' @ NEWLINE @ NEWLINE @ fold_listing others @
     NEWLINE @ NEWLINE @
     ''_Collapsed into one comment: this is one piece of work, not '' @ py_str_nat n @
     '' separate ones._''"

definition location_evidence :: "finding \<Rightarrow> evidence" where
  "location_evidence f =
     \<lparr>e_kind = ''diff'', e_file_path = f_file_path f, e_line_start = Some (f_line_start f),
      e_line_end = Some (f_line_end f), e_excerpt = take 200 (f_title f)\<rparr>"

definition fold_group :: "finding nelist \<Rightarrow> finding \<times> finding list" where
  "fold_group g =
     (let fs = ne_list g; primary = primary_of g;
          others = filter (\<lambda>f. f_id f \<noteq> f_id primary) fs
      in (primary\<lparr>f_body := fold_body primary others (length fs),
                  f_evidence := take 12 (f_evidence primary @ map location_evidence others),
                  f_confidence := Max (set (map f_confidence fs)),
                  f_title := f_title primary @ '' (and '' @ py_str_nat (length others) @ '' more)''\<rparr>,
          mark_merged primary fs))"

definition repeat_groups :: "finding list \<Rightarrow> ((agent_type \<times> category) \<times> finding nelist) list" where
  "repeat_groups fs =
     foldl (\<lambda>gs f. if f_category f \<in> set COLLAPSIBLE_CATEGORIES
                     then group_add (f_agent f, f_category f) f gs else gs) [] fs"

definition emit_group :: "int \<Rightarrow> finding nelist \<Rightarrow> finding list" where
  "emit_group threshold g =
     (if int (length (ne_list g)) < threshold then ne_list g else [fst (fold_group g)])"

definition collapse_repeated :: "settings \<Rightarrow> finding list \<Rightarrow> finding list" where
  "collapse_repeated s fs =
     filter (\<lambda>f. f_category f \<notin> set COLLAPSIBLE_CATEGORIES) fs @
     concat (map (\<lambda>g. emit_group (s_collapse_repeated_after s) (snd g)) (repeat_groups fs))"

subsection \<open>The whole fan-in\<close>

definition panel_health :: "agent_verdict list \<Rightarrow> real" where
  "panel_health vs =
     (if vs \<noteq> [] then real (length (filter v_ok vs)) / real (length vs) else 0)"

definition overall_confidence :: "finding list \<Rightarrow> agent_verdict list \<Rightarrow> real" where
  "overall_confidence fs vs =
     (if fs = [] then py_round 3 (panel_health vs)
      else
        (let weight_sum = sum_list (map (\<lambda>f. weight (f_severity f)) fs);
             weighted = sum_list (map (\<lambda>f. f_confidence f * weight (f_severity f)) fs) / weight_sum
         in py_round 3 (weighted * panel_health vs)))"

definition review_key :: "finding \<Rightarrow> int \<times> real \<times> string" where
  "review_key f = (- int (severity_index (f_severity f)), - f_confidence f, f_file_path f)"

definition ok_findings :: "agent_verdict list \<Rightarrow> finding list" where
  "ok_findings vs = concat (map v_findings (filter v_ok vs))"

definition aggregate :: "settings \<Rightarrow> agent_verdict list \<Rightarrow> finding list \<times> real" where
  "aggregate s vs =
     (let merged = sort_key review_key (collapse_repeated s (merge_findings (ok_findings vs)))
      in (merged, overall_confidence merged vs))"

definition summarise :: "finding list \<Rightarrow> agent_verdict list \<Rightarrow> string" where
  "summarise fs vs =
     (let count = (\<lambda>s. length (filter (\<lambda>f. f_severity f = s) fs));
          parts = map (\<lambda>s. py_str_nat (count s) @ '' '' @ severity_str s)
                    (filter (\<lambda>s. count s \<noteq> 0) (rev SEVERITY_ORDER));
          head = (if parts \<noteq> [] then py_join '', '' parts else ''no findings'');
          failed = map (\<lambda>v. agent_str (v_agent v)) (filter (\<lambda>v. \<not> v_ok v) vs);
          tail = (if failed \<noteq> [] then '' (agents unavailable: '' @ py_join '', '' failed @ '')'' else [])
      in head @ tail)"

definition agent_breakdown :: "agent_verdict list \<Rightarrow> agent_type \<rightharpoonup> nat" where
  "agent_breakdown vs = map_of (rev (map (\<lambda>v. (v_agent v, length (v_findings v))) vs))"

subsection \<open>Clustering keeps every finding, and only in the cluster it belongs to\<close>

lemma mset_place:
  "mset (concat (map ne_list (place f cs))) = add_mset f (mset (concat (map ne_list cs)))"
  by (induction f cs rule: place.induct) auto

lemma mset_clusters_foldl:
  "mset (concat (map ne_list (foldl (\<lambda>cs f. place f cs) cs fs))) =
     mset (concat (map ne_list cs)) + mset fs"
  by (induction fs arbitrary: cs) (simp_all add: mset_place)

lemma mset_clusters: "mset (concat (map ne_list (clusters fs))) = mset fs"
  by (simp add: clusters_def mset_clusters_foldl)

lemma set_clusters: "(\<Union>c \<in> set (clusters fs). set (ne_list c)) = set fs"
  using mset_clusters [of fs] by (metis set_concat set_map set_mset_mset image_image)

lemma clusters_member: "f \<in> set fs \<Longrightarrow> \<exists>c \<in> set (clusters fs). f \<in> set (ne_list c)"
  using set_clusters [of fs] by blast

lemma cluster_member_input: "c \<in> set (clusters fs) \<Longrightarrow> f \<in> set (ne_list c) \<Longrightarrow> f \<in> set fs"
  using set_clusters [of fs] by blast

text \<open>Every member after the first joined because it is the same issue as an earlier member.\<close>

fun linked_from :: "finding list \<Rightarrow> finding list \<Rightarrow> bool" where
  "linked_from seen [] = True"
| "linked_from seen (x # xs) = (list_ex (same_issue x) seen \<and> linked_from (seen @ [x]) xs)"

definition linked :: "finding nelist \<Rightarrow> bool" where
  "linked c \<longleftrightarrow> linked_from [fst c] (snd c)"

lemma linked_from_snoc:
  "linked_from seen (xs @ [y]) \<longleftrightarrow> linked_from seen xs \<and> list_ex (same_issue y) (seen @ xs)"
  by (induction xs arbitrary: seen) auto

lemma linked_snoc: "linked c \<Longrightarrow> list_ex (same_issue f) (ne_list c) \<Longrightarrow> linked (ne_snoc c f)"
  by (simp add: linked_def ne_snoc_def ne_list_def linked_from_snoc)

lemma linked_place: "\<forall>c \<in> set cs. linked c \<Longrightarrow> \<forall>c \<in> set (place f cs). linked c"
proof (induction f cs rule: place.induct)
  case (1 f)
  then show ?case by (simp add: linked_def)
next
  case (2 f c cs)
  then show ?case by (auto simp: linked_snoc)
qed

lemma linked_clusters_foldl:
  "\<forall>c \<in> set cs. linked c \<Longrightarrow> \<forall>c \<in> set (foldl (\<lambda>cs f. place f cs) cs fs). linked c"
proof (induction fs arbitrary: cs)
  case (Cons f fs)
  from linked_place [OF Cons.prems] show ?case
    unfolding foldl_Cons by (rule Cons.IH)
qed simp

lemma linked_clusters: "c \<in> set (clusters fs) \<Longrightarrow> linked c"
  using linked_clusters_foldl [of "[]" fs] by (simp add: clusters_def)

lemma same_issue_path: "same_issue a b \<Longrightarrow> f_file_path a = f_file_path b"
  by (simp add: same_issue_def overlaps_def split: if_splits)

lemma linked_from_path:
  "\<forall>f \<in> set seen. f_file_path f = p \<Longrightarrow> linked_from seen xs \<Longrightarrow> \<forall>f \<in> set xs. f_file_path f = p"
proof (induction seen xs rule: linked_from.induct)
  case (2 seen x xs)
  then obtain y where "y \<in> set seen" "same_issue x y"
    by (auto simp: list_ex_iff)
  with 2 have "f_file_path x = p"
    using same_issue_path [of x y] by simp
  with 2 show ?case by simp
qed simp

lemma linked_path: "linked c \<Longrightarrow> f \<in> set (ne_list c) \<Longrightarrow> f_file_path f = f_file_path (fst c)"
  using linked_from_path [of "[fst c]" "f_file_path (fst c)" "snd c"]
  by (auto simp: linked_def ne_list_def)

subsection \<open>What collapsing keeps\<close>

lemma primary_in: "primary_of c \<in> set (ne_list c)"
  unfolding primary_of_def by (rule py_max_by_in)

lemma primary_severity:
  "f \<in> set (ne_list c) \<Longrightarrow> severity_index (f_severity f) \<le> severity_index (f_severity (primary_of c))"
  using py_max_by_ge [of f c primary_key] by (auto simp: primary_of_def primary_key_def less_eq_prod_def)

lemma primary_confidence:
  "f \<in> set (ne_list c) \<Longrightarrow> f_severity f = f_severity (primary_of c) \<Longrightarrow>
     f_confidence f \<le> f_confidence (primary_of c)"
  using py_max_by_ge [of f c primary_key] by (auto simp: primary_of_def primary_key_def less_eq_prod_def)

lemma collapse_single: "snd c = [] \<Longrightarrow> fst (collapse c) = fst c"
  by (simp add: collapse_def)

lemma primary_single: "snd c = [] \<Longrightarrow> primary_of c = fst c"
  using primary_in [of c] by (simp add: ne_list_def)

text \<open>The fields the merged finding takes over from the primary.\<close>

lemma collapse_keeps [simp]:
  "f_id (fst (collapse c)) = f_id (primary_of c)"
  "f_agent (fst (collapse c)) = f_agent (primary_of c)"
  "f_category (fst (collapse c)) = f_category (primary_of c)"
  "f_severity (fst (collapse c)) = f_severity (primary_of c)"
  "f_file_path (fst (collapse c)) = f_file_path (primary_of c)"
  "f_title (fst (collapse c)) = f_title (primary_of c)"
  "f_rationale (fst (collapse c)) = f_rationale (primary_of c)"
  "f_merged_into (fst (collapse c)) = f_merged_into (primary_of c)"
  by (simp_all add: collapse_def Let_def primary_single)

lemma collapse_span:
  assumes "f \<in> set (ne_list c)"
  shows "f_line_start (fst (collapse c)) \<le> f_line_start f" "f_line_end f \<le> f_line_end (fst (collapse c))"
  using assms by (cases "snd c = []"; simp add: collapse_def Let_def; simp add: ne_list_def)+

lemma collapse_span_attained:
  "\<exists>f \<in> set (ne_list c). f_line_start (fst (collapse c)) = f_line_start f"
  "\<exists>f \<in> set (ne_list c). f_line_end (fst (collapse c)) = f_line_end f"
proof -
  have "Min (f_line_start ` set (ne_list c)) \<in> f_line_start ` set (ne_list c)"
    "Max (f_line_end ` set (ne_list c)) \<in> f_line_end ` set (ne_list c)"
    by simp_all
  then show "\<exists>f \<in> set (ne_list c). f_line_start (fst (collapse c)) = f_line_start f"
    "\<exists>f \<in> set (ne_list c). f_line_end (fst (collapse c)) = f_line_end f"
    by (cases "snd c = []"; auto simp: collapse_def Let_def; simp add: ne_list_def)+
qed

text \<open>A merged finding of several members names every category among them.\<close>

lemma collapse_categories:
  "snd c \<noteq> [] \<Longrightarrow> set (f_categories (fst (collapse c))) = category_str ` f_category ` set (ne_list c)"
  by (simp add: collapse_def Let_def image_image)

lemma collapse_agreeing:
  "snd c \<noteq> [] \<Longrightarrow> set (f_agreeing (fst (collapse c))) = agent_str ` f_agent ` set (ne_list c)"
  by (simp add: collapse_def Let_def cluster_agents_def image_image)

lemma collapse_security:
  assumes "f \<in> set (ne_list c)" and "f_category f \<in> set SECURITY_CATEGORIES"
  shows "is_security (fst (collapse c))"
proof (cases "snd c = []")
  case True
  with assms show ?thesis by (simp add: collapse_single is_security_def ne_list_def)
next
  case False
  with assms(1) have "category_str (f_category f) \<in> set (f_categories (fst (collapse c)))"
    by (simp add: collapse_categories)
  then show ?thesis using assms(2) by (rule is_security_by_categories)
qed

subsection \<open>Confidence of a merged finding\<close>

definition unit_confidence :: "finding \<Rightarrow> bool" where
  "unit_confidence f \<longleftrightarrow> 0 \<le> f_confidence f \<and> f_confidence f \<le> 1"

lemma best_of_agent_attained:
  assumes "a \<in> f_agent ` set fs"
  shows "\<exists>f \<in> set fs. f_agent f = a \<and> best_of_agent fs a = f_confidence f"
proof -
  have "f_confidence ` {f \<in> set fs. f_agent f = a} \<noteq> {}"
    using assms by auto
  then have "best_of_agent fs a \<in> f_confidence ` {f \<in> set fs. f_agent f = a}"
    unfolding best_of_agent_def set_map set_filter by (intro Max_in) simp_all
  then show ?thesis by auto
qed

lemma best_of_agent_ge: "f \<in> set fs \<Longrightarrow> f_confidence f \<le> best_of_agent fs (f_agent f)"
  unfolding best_of_agent_def set_map set_filter by (intro Max_ge) auto

lemma set_cluster_agents [simp]: "set (cluster_agents fs) = f_agent ` set fs"
  by (simp add: cluster_agents_def)

lemma doubts_unit:
  assumes "\<forall>f \<in> set fs. unit_confidence f"
  shows "\<forall>x \<in> set (map (\<lambda>a. 1 - best_of_agent fs a) (cluster_agents fs)). 0 \<le> x \<and> x \<le> 1"
proof
  fix x assume "x \<in> set (map (\<lambda>a. 1 - best_of_agent fs a) (cluster_agents fs))"
  then obtain a where "a \<in> f_agent ` set fs" and x: "x = 1 - best_of_agent fs a"
    by auto
  then obtain f where "f \<in> set fs" "best_of_agent fs a = f_confidence f"
    using best_of_agent_attained by blast
  with assms x show "0 \<le> x \<and> x \<le> 1"
    by (simp add: unit_confidence_def)
qed

lemma noisy_or_bounds:
  assumes "\<forall>f \<in> set fs. unit_confidence f"
  shows "0 \<le> noisy_or fs \<and> noisy_or fs \<le> 99 / 100"
  using prod_list_unit [OF doubts_unit [OF assms]] unfolding noisy_or_def
  by (intro conjI min.cobounded1) simp

lemma noisy_or_ge:
  assumes "\<forall>f \<in> set fs. unit_confidence f" and "f \<in> set fs"
  shows "min (99 / 100) (f_confidence f) \<le> noisy_or fs"
proof -
  have "1 - best_of_agent fs (f_agent f) \<in> set (map (\<lambda>a. 1 - best_of_agent fs a) (cluster_agents fs))"
    using assms(2) by auto
  then have "prod_list (map (\<lambda>a. 1 - best_of_agent fs a) (cluster_agents fs)) \<le>
      1 - best_of_agent fs (f_agent f)"
    by (rule prod_list_le_member [OF doubts_unit [OF assms(1)]])
  with best_of_agent_ge [OF assms(2)] show ?thesis
    by (simp add: noisy_or_def min_def)
qed

text \<open>The loop over the set of agents multiplies in some order; the result is the product over the
  set, whatever the order.\<close>

lemma noisy_or_set:
  "noisy_or fs = min (99 / 100) (1 - (\<Prod>a \<in> f_agent ` set fs. 1 - best_of_agent fs a))"
proof -
  have "prod_list (map (\<lambda>a. 1 - best_of_agent fs a) (cluster_agents fs)) =
      (\<Prod>a \<in> set (cluster_agents fs). 1 - best_of_agent fs a)"
    by (rule prod.distinct_set_conv_list [symmetric]) (simp add: cluster_agents_def)
  then show ?thesis by (simp add: noisy_or_def)
qed

lemma collapse_confidence:
  "snd c \<noteq> [] \<Longrightarrow> f_confidence (fst (collapse c)) =
     (if 1 < length (cluster_agents (ne_list c)) then noisy_or (ne_list c)
      else f_confidence (primary_of c))"
  by (simp add: collapse_def Let_def)

lemma collapse_wf:
  assumes "\<forall>f \<in> set (ne_list c). wf_finding f"
  shows "wf_finding (fst (collapse c))"
proof (cases "snd c = []")
  case True
  with assms show ?thesis by (simp add: collapse_single ne_list_def)
next
  case False
  have unit: "\<forall>f \<in> set (ne_list c). unit_confidence f"
    using assms by (auto simp: wf_finding_def unit_confidence_def)
  have p: "wf_finding (primary_of c)"
    using assms primary_in by blast
  have "0 \<le> f_confidence (fst (collapse c)) \<and> f_confidence (fst (collapse c)) \<le> 1"
    using noisy_or_bounds [OF unit] p by (simp add: collapse_confidence [OF False] wf_finding_def)
  moreover have "f_line_start (fst (collapse c)) \<le> f_line_end (fst (collapse c))"
    using collapse_span [OF primary_in, of c] p by (simp add: wf_finding_def)
  ultimately show ?thesis
    using p by (simp add: wf_finding_def)
qed

subsection \<open>Folding\<close>

lemma fold_keeps [simp]:
  "f_id (fst (fold_group g)) = f_id (primary_of g)"
  "f_agent (fst (fold_group g)) = f_agent (primary_of g)"
  "f_category (fst (fold_group g)) = f_category (primary_of g)"
  "f_severity (fst (fold_group g)) = f_severity (primary_of g)"
  "f_file_path (fst (fold_group g)) = f_file_path (primary_of g)"
  "f_rationale (fst (fold_group g)) = f_rationale (primary_of g)"
  "f_line_start (fst (fold_group g)) = f_line_start (primary_of g)"
  "f_line_end (fst (fold_group g)) = f_line_end (primary_of g)"
  "f_categories (fst (fold_group g)) = f_categories (primary_of g)"
  "f_merged_into (fst (fold_group g)) = f_merged_into (primary_of g)"
  by (simp_all add: fold_group_def Let_def)

lemma fold_confidence:
  "f_confidence (fst (fold_group g)) = Max (f_confidence ` set (ne_list g))"
  by (simp add: fold_group_def Let_def)

lemma fold_confidence_ge: "f \<in> set (ne_list g) \<Longrightarrow> f_confidence f \<le> f_confidence (fst (fold_group g))"
  by (simp add: fold_confidence)

lemma fold_confidence_attained:
  "\<exists>f \<in> set (ne_list g). f_confidence (fst (fold_group g)) = f_confidence f"
proof -
  have "Max (f_confidence ` set (ne_list g)) \<in> f_confidence ` set (ne_list g)"
    by (rule Max_in) simp_all
  then obtain f where "f \<in> set (ne_list g)" "Max (f_confidence ` set (ne_list g)) = f_confidence f"
    by (rule imageE)
  then show ?thesis by (auto simp: fold_confidence)
qed

lemma py_strip_append_ne: "py_strip a \<noteq> [] \<Longrightarrow> py_strip (a @ b) \<noteq> []"
  by (simp add: py_strip_space_free_iff)

lemma fold_wf:
  assumes "\<forall>f \<in> set (ne_list g). wf_finding f"
  shows "wf_finding (fst (fold_group g))"
proof -
  have p: "wf_finding (primary_of g)"
    using assms primary_in by blast
  have "0 \<le> f_confidence (fst (fold_group g)) \<and> f_confidence (fst (fold_group g)) \<le> 1"
    using fold_confidence_attained [of g] assms by (auto simp: wf_finding_def)
  moreover have "f_title (fst (fold_group g)) =
      f_title (primary_of g) @ '' (and '' @
        py_str_nat (length (filter (\<lambda>f. f_id f \<noteq> f_id (primary_of g)) (ne_list g))) @ '' more)''"
    by (simp add: fold_group_def Let_def)
  ultimately show ?thesis
    using p by (simp add: wf_finding_def py_strip_append_ne)
qed

subsection \<open>Grouping\<close>

lemma repeat_groups_values_foldl:
  "mset (group_values (foldl (\<lambda>gs f. if f_category f \<in> set COLLAPSIBLE_CATEGORIES
       then group_add (f_agent f, f_category f) f gs else gs) gs fs)) =
   mset (group_values gs) + mset (filter (\<lambda>f. f_category f \<in> set COLLAPSIBLE_CATEGORIES) fs)"
  by (induction fs arbitrary: gs) (auto simp: group_values_add)

lemma repeat_groups_values:
  "mset (group_values (repeat_groups fs)) =
     mset (filter (\<lambda>f. f_category f \<in> set COLLAPSIBLE_CATEGORIES) fs)"
  unfolding repeat_groups_def repeat_groups_values_foldl by (simp add: group_values_def)

lemma repeat_groups_set:
  "(\<Union>g \<in> set (repeat_groups fs). set (ne_list (snd g))) =
     {f \<in> set fs. f_category f \<in> set COLLAPSIBLE_CATEGORIES}"
proof -
  have "set (group_values (repeat_groups fs)) =
      set (filter (\<lambda>f. f_category f \<in> set COLLAPSIBLE_CATEGORIES) fs)"
    by (metis repeat_groups_values set_mset_mset)
  then show ?thesis by (simp add: group_values_def)
qed

lemma repeat_groups_member:
  "f \<in> set fs \<Longrightarrow> f_category f \<in> set COLLAPSIBLE_CATEGORIES \<Longrightarrow>
     \<exists>g \<in> set (repeat_groups fs). f \<in> set (ne_list (snd g))"
  using repeat_groups_set [of fs] by blast

lemma repeat_groups_input:
  "g \<in> set (repeat_groups fs) \<Longrightarrow> f \<in> set (ne_list (snd g)) \<Longrightarrow>
     f \<in> set fs \<and> f_category f \<in> set COLLAPSIBLE_CATEGORIES"
  using repeat_groups_set [of fs] by blast

lemma repeat_groups_keyed:
  "groups_keyed (\<lambda>f. (f_agent f, f_category f)) (repeat_groups fs)"
proof -
  have "groups_keyed (\<lambda>f. (f_agent f, f_category f)) gs \<Longrightarrow>
    groups_keyed (\<lambda>f. (f_agent f, f_category f))
      (foldl (\<lambda>gs f. if f_category f \<in> set COLLAPSIBLE_CATEGORIES
         then group_add (f_agent f, f_category f) f gs else gs) gs fs)" for gs
    by (induction fs arbitrary: gs) (simp_all del: set_simps)
  from this [of "[]"] show ?thesis
    by (simp add: repeat_groups_def)
qed

lemma repeat_groups_distinct: "distinct (map fst (repeat_groups fs))"
proof -
  have "distinct (map fst gs) \<Longrightarrow>
    distinct (map fst (foldl (\<lambda>gs f. if f_category f \<in> set COLLAPSIBLE_CATEGORIES
       then group_add (f_agent f, f_category f) f gs else gs) gs fs))" for gs
    by (induction fs arbitrary: gs) (simp_all add: group_add_distinct)
  from this [of "[]"] show ?thesis
    by (simp add: repeat_groups_def)
qed

text \<open>Every finding that leaves the folding step went in unchanged, or is the fold of a group of
  findings that went in.\<close>

lemma collapse_repeated_cases:
  assumes "f \<in> set (collapse_repeated s fs)"
  obtains "f \<in> set fs"
  | g where "g \<in> set (repeat_groups fs)" "f = fst (fold_group (snd g))"
      "\<forall>x \<in> set (ne_list (snd g)). x \<in> set fs"
  using assms repeat_groups_input unfolding collapse_repeated_def emit_group_def
  by (auto split: if_splits)

lemma collapse_repeated_keeps:
  "f \<in> set fs \<Longrightarrow> f_category f \<notin> set COLLAPSIBLE_CATEGORIES \<Longrightarrow> f \<in> set (collapse_repeated s fs)"
  by (simp add: collapse_repeated_def)

lemma collapse_repeated_represents:
  assumes "f \<in> set fs"
  shows "f \<in> set (collapse_repeated s fs) \<or>
    (\<exists>g \<in> set (repeat_groups fs). f \<in> set (ne_list (snd g)) \<and>
       fst (fold_group (snd g)) \<in> set (collapse_repeated s fs))"
proof (cases "f_category f \<in> set COLLAPSIBLE_CATEGORIES")
  case True
  with assms obtain g where g: "g \<in> set (repeat_groups fs)" "f \<in> set (ne_list (snd g))"
    using repeat_groups_member by blast
  then have "set (emit_group (s_collapse_repeated_after s) (snd g)) \<subseteq> set (collapse_repeated s fs)"
    by (auto simp: collapse_repeated_def)
  with g show ?thesis
    by (auto simp: emit_group_def split: if_splits)
next
  case False
  with assms show ?thesis by (simp add: collapse_repeated_keeps)
qed

lemma collapse_repeated_wf:
  assumes "\<forall>f \<in> set fs. wf_finding f" and "f \<in> set (collapse_repeated s fs)"
  shows "wf_finding f"
  using assms(2)
proof (cases rule: collapse_repeated_cases)
  case 1
  with assms(1) show ?thesis by blast
next
  case (2 g)
  with assms(1) show ?thesis by (auto intro: fold_wf)
qed

subsection \<open>Provenance: the aggregator invents nothing\<close>

text \<open>An output finding stands for an input finding when it carries that finding's identity, agent,
  category, severity, file and rationale, and its title and body extend that finding's text.\<close>

definition stands_for :: "finding \<Rightarrow> finding \<Rightarrow> bool" where
  "stands_for out inp \<longleftrightarrow>
     f_id out = f_id inp \<and> f_agent out = f_agent inp \<and> f_category out = f_category inp \<and>
     f_severity out = f_severity inp \<and> f_file_path out = f_file_path inp \<and>
     f_rationale out = f_rationale inp \<and> f_merged_into out = f_merged_into inp \<and>
     prefix (f_title inp) (f_title out) \<and> prefix (f_body inp) (f_body out)"

lemma stands_for_refl: "stands_for f f"
  by (simp add: stands_for_def)

lemma stands_for_trans: "stands_for a b \<Longrightarrow> stands_for b c \<Longrightarrow> stands_for a c"
  by (auto simp: stands_for_def)

lemma collapse_stands_for: "stands_for (fst (collapse c)) (primary_of c)"
proof -
  have "prefix (f_body (primary_of c)) (f_body (fst (collapse c)))"
    by (cases "snd c = []") (simp_all add: collapse_def Let_def primary_single merge_bodies_def)
  then show ?thesis by (simp add: stands_for_def)
qed

lemma fold_stands_for: "stands_for (fst (fold_group g)) (primary_of g)"
  by (simp add: stands_for_def) (simp add: fold_group_def Let_def fold_body_def)

lemma merge_findings_input:
  assumes "m \<in> set (merge_findings fs)"
  obtains c where "c \<in> set (clusters fs)" "m = fst (collapse c)" "primary_of c \<in> set fs"
  using assms primary_in cluster_member_input unfolding merge_findings_def by fastforce

lemma merge_findings_stands_for:
  assumes "m \<in> set (merge_findings fs)"
  shows "\<exists>f \<in> set fs. stands_for m f"
  using assms by (elim merge_findings_input) (auto intro: collapse_stands_for)

lemma collapse_repeated_stands_for:
  assumes "out \<in> set (collapse_repeated s fs)"
  shows "\<exists>f \<in> set fs. stands_for out f"
  using assms
proof (cases rule: collapse_repeated_cases)
  case 1
  then show ?thesis by (auto intro: stands_for_refl)
next
  case (2 g)
  then show ?thesis using primary_in [of "snd g"] by (auto intro: fold_stands_for)
qed

lemma set_aggregate:
  "set (fst (aggregate s vs)) = set (collapse_repeated s (merge_findings (ok_findings vs)))"
  by (simp add: aggregate_def Let_def)

lemma ok_findings_iff: "f \<in> set (ok_findings vs) \<longleftrightarrow> (\<exists>v \<in> set vs. v_ok v \<and> f \<in> set (v_findings v))"
  by (auto simp: ok_findings_def)

lemma aggregate_stands_for:
  assumes "out \<in> set (fst (aggregate s vs))"
  shows "\<exists>f \<in> set (ok_findings vs). stands_for out f"
proof -
  from assms obtain m where "m \<in> set (merge_findings (ok_findings vs))" "stands_for out m"
    unfolding set_aggregate using collapse_repeated_stands_for by blast
  moreover from this(1) obtain f where "f \<in> set (ok_findings vs)" "stands_for m f"
    using merge_findings_stands_for by blast
  ultimately show ?thesis
    using stands_for_trans by blast
qed

text \<open>A panel that reports one finding: the review is that finding.\<close>

lemma aggregate_single:
  assumes "ok_findings vs = [f]" and "f_category f \<noteq> TEST_COVERAGE"
  shows "fst (aggregate s vs) = [f]"
  using assms by (simp add: aggregate_def Let_def merge_findings_def clusters_def collapse_single
      collapse_repeated_def repeat_groups_def COLLAPSIBLE_CATEGORIES_def)

lemma aggregate_sample: "fst (aggregate s [sample_verdict]) = [sample_injection]"
  by (rule aggregate_single) (simp_all add: ok_findings_def, simp add: sample_injection_def)

text \<open>C3. The aggregator invents nothing: every finding of the merged review stands for one finding
  that an agent whose verdict is ok reported, with the same identity, agent, category, severity,
  file and rationale, and with that finding's title and body at the front of its own.\<close>

theorem aggregate_invents_nothing:
  assumes "out \<in> set (fst (aggregate s vs))"
  shows "\<exists>v \<in> set vs. v_ok v \<and> (\<exists>f \<in> set (v_findings v). stands_for out f)"
  using aggregate_stands_for [OF assms] unfolding Bex_def ok_findings_iff by blast

lemma aggregate_invents_nothing_witness:
  "\<exists>v \<in> set [sample_verdict]. v_ok v \<and> (\<exists>f \<in> set (v_findings v). stands_for sample_injection f)"
  by (rule aggregate_invents_nothing [where s = default_settings]) (simp add: aggregate_sample)

subsection \<open>Nothing a healthy agent said is lost\<close>

lemma merge_findings_covers:
  assumes "f \<in> set fs"
  obtains m where "m \<in> set (merge_findings fs)" "f_file_path m = f_file_path f"
    "f_line_start m \<le> f_line_start f" "f_line_end f \<le> f_line_end m"
    "severity_index (f_severity f) \<le> severity_index (f_severity m)"
    "f_category f \<in> set SECURITY_CATEGORIES \<longrightarrow> is_security m"
proof -
  from clusters_member [OF assms] obtain c where c: "c \<in> set (clusters fs)" "f \<in> set (ne_list c)"
    by blast
  let ?m = "fst (collapse c)"
  have "?m \<in> set (merge_findings fs)"
    using c(1) by (simp add: merge_findings_def)
  moreover have "f_file_path ?m = f_file_path f"
    using linked_path [OF linked_clusters [OF c(1)]] c(2) primary_in [of c] by simp
  moreover have "severity_index (f_severity f) \<le> severity_index (f_severity ?m)"
    using primary_severity [OF c(2)] by simp
  moreover have "f_category f \<in> set SECURITY_CATEGORIES \<longrightarrow> is_security ?m"
    using collapse_security [OF c(2)] by blast
  ultimately show thesis
    using that collapse_span [OF c(2)] by blast
qed

text \<open>C4. Nothing is lost: every finding of an ok verdict is represented in the merged review by a
  finding at least as severe, which covers the same lines of the same file, unless it was folded
  into one test-coverage recommendation.\<close>

theorem aggregate_represents_every_finding:
  assumes "v \<in> set vs" and "v_ok v" and "f \<in> set (v_findings v)"
  shows "\<exists>out \<in> set (fst (aggregate s vs)).
    severity_index (f_severity f) \<le> severity_index (f_severity out) \<and>
    (f_file_path out = f_file_path f \<and> f_line_start out \<le> f_line_start f \<and> f_line_end f \<le> f_line_end out
     \<or> f_category out \<in> set COLLAPSIBLE_CATEGORIES)"
proof -
  have "f \<in> set (ok_findings vs)"
    using assms by (auto simp: ok_findings_iff)
  then obtain m where m: "m \<in> set (merge_findings (ok_findings vs))" "f_file_path m = f_file_path f"
    "f_line_start m \<le> f_line_start f" "f_line_end f \<le> f_line_end m"
    "severity_index (f_severity f) \<le> severity_index (f_severity m)"
    by (rule merge_findings_covers)
  from collapse_repeated_represents [OF m(1), of s]
  show ?thesis
  proof
    assume "m \<in> set (collapse_repeated s (merge_findings (ok_findings vs)))"
    with m show ?thesis unfolding set_aggregate by blast
  next
    assume "\<exists>g \<in> set (repeat_groups (merge_findings (ok_findings vs))). m \<in> set (ne_list (snd g)) \<and>
      fst (fold_group (snd g)) \<in> set (collapse_repeated s (merge_findings (ok_findings vs)))"
    then obtain g where g: "g \<in> set (repeat_groups (merge_findings (ok_findings vs)))"
      "m \<in> set (ne_list (snd g))"
      "fst (fold_group (snd g)) \<in> set (fst (aggregate s vs))"
      unfolding set_aggregate by blast
    have "severity_index (f_severity f) \<le> severity_index (f_severity (fst (fold_group (snd g))))"
      using m(5) primary_severity [OF g(2)] by simp
    moreover have "f_category (fst (fold_group (snd g))) \<in> set COLLAPSIBLE_CATEGORIES"
      using repeat_groups_input [OF g(1) primary_in] by simp
    ultimately show ?thesis using g(3) by blast
  qed
qed

lemma aggregate_represents_every_finding_witness:
  "\<exists>out \<in> set (fst (aggregate default_settings [sample_verdict])).
    severity_index (f_severity sample_injection) \<le> severity_index (f_severity out) \<and>
    (f_file_path out = f_file_path sample_injection \<and>
       f_line_start out \<le> f_line_start sample_injection \<and>
       f_line_end sample_injection \<le> f_line_end out
     \<or> f_category out \<in> set COLLAPSIBLE_CATEGORIES)"
  by (rule aggregate_represents_every_finding [where v = sample_verdict]) simp_all

subsection \<open>The merged review is well formed and ordered\<close>

lemma merge_findings_wf:
  assumes "\<forall>f \<in> set fs. wf_finding f" and "m \<in> set (merge_findings fs)"
  shows "wf_finding m"
  using assms(2)
proof (rule merge_findings_input)
  fix c assume "c \<in> set (clusters fs)" "m = fst (collapse c)"
  with assms(1) show ?thesis
    by (auto intro!: collapse_wf dest: cluster_member_input)
qed

lemma panel_health_bounds: "0 \<le> panel_health vs \<and> panel_health vs \<le> 1"
  by (simp add: panel_health_def divide_le_eq_1 order_trans [OF length_filter_le])

lemma panel_health_1_iff: "panel_health vs = 1 \<longleftrightarrow> vs \<noteq> [] \<and> (\<forall>v \<in> set vs. v_ok v)"
proof -
  have "length (filter v_ok vs) = length vs \<longleftrightarrow> (\<forall>v \<in> set vs. v_ok v)"
    by (metis filter_id_conv filter_True length_filter_less less_irrefl)
  then show ?thesis by (auto simp: panel_health_def)
qed

lemma overall_confidence_le_health:
  assumes "\<forall>f \<in> set fs. unit_confidence f"
  shows "0 \<le> overall_confidence fs vs \<and> overall_confidence fs vs \<le> py_round 3 (panel_health vs)"
proof (cases "fs = []")
  case True
  then show ?thesis
    using panel_health_bounds [of vs] py_round_unit [of "panel_health vs" 3]
    by (simp add: overall_confidence_def)
next
  case False
  define m where "m = sum_list (map (\<lambda>f. f_confidence f * weight (f_severity f)) fs) /
    sum_list (map (\<lambda>f. weight (f_severity f)) fs)"
  have m: "0 \<le> m \<and> m \<le> 1"
    using assms False unfolding m_def
    by (intro weighted_mean_bounds) (auto simp: weight_pos unit_confidence_def)
  have "0 \<le> m * panel_health vs" "m * panel_health vs \<le> panel_health vs"
    using m panel_health_bounds [of vs] by (simp_all add: mult_left_le_one_le)
  then show ?thesis
    using False py_round_mono [of 0 "m * panel_health vs" 3]
      py_round_mono [of "m * panel_health vs" "panel_health vs" 3]
    by (simp add: overall_confidence_def m_def)
qed

text \<open>C5. The merged review is well formed: from well-formed findings, every output finding has its
  lines in order, a confidence between 0 and 1 and a title and rationale that are not blank; the
  list is in the review order (severity first, then confidence, then path); and the overall
  confidence lies between 0 and the rounded share of the panel that reported.\<close>

theorem aggregate_well_formed:
  assumes "\<forall>v \<in> set vs. \<forall>f \<in> set (v_findings v). wf_finding f"
  shows "(\<forall>out \<in> set (fst (aggregate s vs)). wf_finding out) \<and>
    sorted (map review_key (fst (aggregate s vs))) \<and>
    0 \<le> snd (aggregate s vs) \<and> snd (aggregate s vs) \<le> py_round 3 (panel_health vs)"
proof -
  have "\<forall>f \<in> set (ok_findings vs). wf_finding f"
    using assms by (auto simp: ok_findings_iff)
  then have wf: "\<forall>out \<in> set (fst (aggregate s vs)). wf_finding out"
    unfolding set_aggregate using merge_findings_wf collapse_repeated_wf by blast
  then have "\<forall>out \<in> set (fst (aggregate s vs)). unit_confidence out"
    by (auto simp: wf_finding_def unit_confidence_def)
  from overall_confidence_le_health [OF this, of vs] wf show ?thesis
    by (simp add: aggregate_def Let_def)
qed

lemma aggregate_well_formed_witness:
  "wf_finding sample_injection \<and> 0 \<le> snd (aggregate default_settings [sample_verdict])"
  using aggregate_well_formed [of "[sample_verdict]" default_settings]
  by (simp add: sample_injection_wf)

text \<open>C6. The confidence of a finding several agents agree on is a capped noisy-OR: one minus the
  product, over the agents of the cluster, of the doubt that remains after that agent's most confident
  finding. It is never below what any contributor gave (up to the cap) and never above 0.99.\<close>

theorem collapse_noisy_or:
  assumes "\<forall>f \<in> set (ne_list c). wf_finding f" and "f \<in> set (ne_list c)"
    and "f_agent f \<noteq> f_agent (primary_of c)"
  shows "f_confidence (fst (collapse c)) =
      min (99 / 100) (1 - (\<Prod>a \<in> f_agent ` set (ne_list c). 1 - best_of_agent (ne_list c) a)) \<and>
    min (99 / 100) (f_confidence f) \<le> f_confidence (fst (collapse c)) \<and>
    f_confidence (fst (collapse c)) \<le> 99 / 100"
proof -
  have unit: "\<forall>f \<in> set (ne_list c). unit_confidence f"
    using assms(1) by (auto simp: wf_finding_def unit_confidence_def)
  have "snd c \<noteq> []"
    using assms(2,3) primary_single [of c] by (cases c) auto
  moreover have "1 < length (cluster_agents (ne_list c))"
  proof -
    have "{f_agent f, f_agent (primary_of c)} \<subseteq> set (cluster_agents (ne_list c))"
      using assms(2) primary_in [of c] by auto
    from card_mono [OF _ this] have "2 \<le> card (set (cluster_agents (ne_list c)))"
      using assms(3) by simp
    with card_length [of "cluster_agents (ne_list c)"] show ?thesis by linarith
  qed
  ultimately have conf: "f_confidence (fst (collapse c)) = noisy_or (ne_list c)"
    by (simp add: collapse_confidence)
  then show ?thesis
    using noisy_or_set [of "ne_list c"] noisy_or_bounds [OF unit] noisy_or_ge [OF unit assms(2)]
    by presburger
qed

lemma collapse_noisy_or_witness:
  "f_confidence (fst (collapse (sample_injection, [sample_injection\<lparr>f_agent := DOCS\<rparr>]))) \<le> 99 / 100"
proof -
  let ?c = "(sample_injection, [sample_injection\<lparr>f_agent := DOCS\<rparr>])"
  have "primary_of ?c = sample_injection"
    by (simp add: primary_of_def py_max_by_def primary_key_def less_prod_def)
  then show ?thesis
    using collapse_noisy_or [of ?c "sample_injection\<lparr>f_agent := DOCS\<rparr>"] sample_injection_wf
    by (simp add: wf_finding_def) (simp add: sample_injection_def)
qed

end
