(* ===== verification/Gate.thy ===== *)
theory Gate
  imports Aggregator
begin

section \<open>The confidence gate\<close>

text \<open>
  \<^verbatim>\<open>gate/confidence.py\<close>: \<open>evaluate\<close> decides whether a review is posted, escalated to a human
  or suppressed, by the rules of the module's docstring in their order, and
  \<open>render_review_body\<close> writes the body of the review that is posted. The properties say exactly
  when each decision is taken, that only findings which clear both bars can be posted, and, together
  with the aggregator, that a critical finding of a security category is escalated and not posted.
\<close>

record gate_result =
  g_decision :: decision
  g_reason :: "escalation_reason option"
  g_postable :: "finding list"
  g_priority :: int
  g_explanation :: string

definition clears_bars :: "settings \<Rightarrow> finding \<Rightarrow> bool" where
  "clears_bars s f \<longleftrightarrow>
     s_finding_post_confidence s \<le> f_confidence f \<and>
     severity_index (s_post_min_severity s) \<le> severity_index (f_severity f)"

definition critical_security :: "finding list \<Rightarrow> finding list" where
  "critical_security fs = filter (\<lambda>f. f_severity f = CRITICAL \<and> is_security f) fs"

definition held_low_confidence :: "settings \<Rightarrow> finding list \<Rightarrow> nat" where
  "held_low_confidence s fs = length (filter (\<lambda>f. f_confidence f < s_finding_post_confidence s) fs)"

definition held_low_severity :: "settings \<Rightarrow> finding list \<Rightarrow> nat" where
  "held_low_severity s fs =
     length (filter (\<lambda>f. s_finding_post_confidence s \<le> f_confidence f \<and>
                          severity_index (f_severity f) < severity_index (s_post_min_severity s)) fs)"

definition held_reasons :: "settings \<Rightarrow> finding list \<Rightarrow> string list" where
  "held_reasons s fs =
     (if held_low_confidence s fs \<noteq> 0
      then [py_str_nat (held_low_confidence s fs) @ '' below the confidence threshold''] else []) @
     (if held_low_severity s fs \<noteq> 0
      then [py_str_nat (held_low_severity s fs) @ '' below '' @
            severity_str (s_post_min_severity s) @ '' severity''] else [])"

definition evaluate ::
  "settings \<Rightarrow> finding list \<Rightarrow> agent_verdict list \<Rightarrow> real \<Rightarrow> bool \<Rightarrow> bool \<Rightarrow> gate_result" where
  "evaluate s fs vs overall budget_exhausted is_public_repo =
     (if budget_exhausted
      then \<lparr>g_decision = ESCALATE, g_reason = Some BUDGET_EXCEEDED, g_postable = [], g_priority = 10,
            g_explanation = ''Cost cap reached before the panel finished; review is incomplete.''\<rparr>
      else
        (let failed = filter (\<lambda>v. \<not> v_ok v) vs in
         if failed \<noteq> []
         then \<lparr>g_decision = ESCALATE, g_reason = Some AGENT_FAILURE, g_postable = [], g_priority = 20,
               g_explanation = ''Incomplete panel '' @ EM_DASH @ '' '' @
                 py_join '', '' (map (\<lambda>v. agent_str (v_agent v)) failed) @ '' did not return.''\<rparr>
         else if critical_security fs \<noteq> [] \<and> s_escalate_critical_security s
         then \<lparr>g_decision = ESCALATE, g_reason = Some CRITICAL_SECURITY, g_postable = [],
               g_priority = 1,
               g_explanation = py_str_nat (length (critical_security fs)) @
                 '' critical security finding(s); not posted to the '' @
                 (if is_public_repo then ''public repository'' else ''pull request'') @
                 '' to avoid disclosure. Route through the security channel.''\<rparr>
         else
           (let postable = filter (clears_bars s) fs in
            if postable = []
            then \<lparr>g_decision = SUPPRESS, g_reason = None, g_postable = [], g_priority = 100,
                  g_explanation =
                    ''Nothing cleared the per-finding posting threshold. Staying quiet.''\<rparr>
            else if overall < s_auto_post_confidence s
            then \<lparr>g_decision = ESCALATE, g_reason = Some LOW_CONFIDENCE, g_postable = [],
                  g_priority = 50,
                  g_explanation = ''Overall confidence '' @ py_fixed 2 overall @ '' is below the '' @
                    py_fixed 2 (s_auto_post_confidence s) @ '' auto-post threshold.''\<rparr>
            else \<lparr>g_decision = AUTO_POST, g_reason = None, g_postable = postable, g_priority = 100,
                  g_explanation = ''Posting '' @ py_str_nat (length postable) @ '' finding(s)'' @
                    (if held_reasons s fs \<noteq> []
                     then ''; held back: '' @ py_join '', '' (held_reasons s fs) @ ''.''
                     else ''.'')\<rparr>)))"

definition render_review_body :: "finding list \<Rightarrow> string \<Rightarrow> int \<Rightarrow> string \<Rightarrow> string" where
  "render_review_body postable summary held_back bundle =
     (let head = ''### pr-sentinel review'' @ NEWLINE @ NEWLINE @ summary @ ''. '' @
                 py_str_nat (length postable) @ '' comment(s) below.'';
          held = (if held_back \<noteq> 0
                  then '' '' @ py_str_int held_back @ '' lower-confidence observation(s) withheld.''
                  else []);
          agreed = filter (\<lambda>f. 1 < length (f_agreeing f)) postable;
          agree = (if agreed \<noteq> []
                   then NEWLINE @ NEWLINE @ py_str_nat (length agreed) @
                        '' finding(s) were raised independently by more than one '' @
                        ''specialist, which is the strongest signal this tool produces.''
                   else [])
      in head @ held @ agree @ NEWLINE @ NEWLINE @
         ''<sub>Advisory only '' @ EM_DASH @ '' this review never blocks a merge. '' @
         ''Reply to any comment to dispute it; disputes are recorded. '' @
         ''Prompt bundle `'' @ bundle @ ''`.</sub>'')"

subsection \<open>The decision table\<close>

lemma failed_empty_iff: "filter (\<lambda>v. \<not> v_ok v) vs = [] \<longleftrightarrow> (\<forall>v \<in> set vs. v_ok v)"
  by (simp add: filter_empty_conv)

lemma critical_security_empty_iff:
  "critical_security fs = [] \<longleftrightarrow> (\<forall>f \<in> set fs. \<not> (f_severity f = CRITICAL \<and> is_security f))"
  by (simp add: critical_security_def filter_empty_conv)

lemmas gate_tests = failed_empty_iff critical_security_empty_iff filter_empty_conv

text \<open>The rules of the docstring as a specification: the decision and the reason of the first rule,
  in this order, whose condition holds.\<close>

definition gate_rules ::
  "settings \<Rightarrow> finding list \<Rightarrow> agent_verdict list \<Rightarrow> real \<Rightarrow> bool \<Rightarrow>
     (bool \<times> decision \<times> escalation_reason option \<times> int) list" where
  "gate_rules s fs vs overall exhausted =
     [(exhausted, ESCALATE, Some BUDGET_EXCEEDED, 10),
      (\<exists>v \<in> set vs. \<not> v_ok v, ESCALATE, Some AGENT_FAILURE, 20),
      (s_escalate_critical_security s \<and> (\<exists>f \<in> set fs. f_severity f = CRITICAL \<and> is_security f),
       ESCALATE, Some CRITICAL_SECURITY, 1),
      (\<forall>f \<in> set fs. \<not> clears_bars s f, SUPPRESS, None, 100),
      (overall < s_auto_post_confidence s, ESCALATE, Some LOW_CONFIDENCE, 50),
      (True, AUTO_POST, None, 100)]"

lemma evaluate_first_rule:
  "List.find fst (gate_rules s fs vs overall exhausted) =
     Some (True, g_decision (evaluate s fs vs overall exhausted pub),
       g_reason (evaluate s fs vs overall exhausted pub),
       g_priority (evaluate s fs vs overall exhausted pub))"
  by (auto simp: gate_rules_def evaluate_def gate_tests Let_def)

text \<open>C2. The gate posts exactly when the budget held, every agent of the panel returned, no critical
  security finding is to be escalated, at least one finding clears both bars and the overall
  confidence reaches the auto-post threshold; and then it posts exactly the findings that clear both
  bars, in their order.\<close>

theorem evaluate_auto_post_iff:
  "g_decision (evaluate s fs vs overall exhausted pub) = AUTO_POST \<and>
     g_postable (evaluate s fs vs overall exhausted pub) = posted \<longleftrightarrow>
   \<not> exhausted \<and> (\<forall>v \<in> set vs. v_ok v) \<and>
     (s_escalate_critical_security s \<longrightarrow> (\<forall>f \<in> set fs. \<not> (f_severity f = CRITICAL \<and> is_security f))) \<and>
     posted \<noteq> [] \<and> posted = filter (clears_bars s) fs \<and> s_auto_post_confidence s \<le> overall"
  by (auto simp: evaluate_def gate_tests Let_def)

lemma evaluate_auto_post:
  assumes "g_decision (evaluate s fs vs overall exhausted pub) = AUTO_POST"
  shows "\<not> exhausted" "list_all v_ok vs" "s_auto_post_confidence s \<le> overall"
    "s_escalate_critical_security s \<Longrightarrow> critical_security fs = []"
    "g_postable (evaluate s fs vs overall exhausted pub) = filter (clears_bars s) fs"
    "filter (clears_bars s) fs \<noteq> []"
  using assms by (auto simp: evaluate_def list_all_iff filter_empty_conv Let_def split: if_splits)

lemma evaluate_escalate:
  "g_decision (evaluate s fs vs overall exhausted pub) = ESCALATE \<longleftrightarrow>
     g_reason (evaluate s fs vs overall exhausted pub) \<noteq> None"
  by (simp add: evaluate_def Let_def)

lemma evaluate_postable_nonempty:
  "g_postable (evaluate s fs vs overall exhausted pub) \<noteq> [] \<longleftrightarrow>
     g_decision (evaluate s fs vs overall exhausted pub) = AUTO_POST"
  by (simp add: evaluate_def Let_def)

lemma evaluate_postable_clears:
  "f \<in> set (g_postable (evaluate s fs vs overall exhausted pub)) \<Longrightarrow> f \<in> set fs \<and> clears_bars s f"
  by (auto simp: evaluate_def Let_def split: if_splits)

text \<open>The two counts of the explanation account for every finding that is held back.\<close>

lemma held_counts:
  "length (filter (clears_bars s) fs) + held_low_confidence s fs + held_low_severity s fs = length fs"
  by (induction fs) (auto simp: clears_bars_def held_low_confidence_def held_low_severity_def)

subsection \<open>A critical finding of a security category is never posted\<close>

text \<open>Folding keeps a group together only when it is long enough, and a group of the security agent stays a
  security finding.\<close>

lemma filter_primary_le:
  "length (filter P (map primary_of cs)) \<le> length (filter P (concat (map ne_list cs)))"
proof (induction cs)
  case (Cons c cs)
  have "P (primary_of c) \<Longrightarrow> 0 < length (filter P (ne_list c))"
    using primary_in [of c] by (auto simp: filter_empty_conv)
  then have "length (filter P [primary_of c]) \<le> length (filter P (ne_list c))"
    by (simp add: Suc_le_eq)
  with Cons show ?case by (simp split: if_splits)
qed simp

lemma merged_test_coverage_le:
  "length (filter (\<lambda>f. f_category f = k) (merge_findings fs)) \<le>
   length (filter (\<lambda>f. f_category f = k) fs)"
proof -
  have "length (filter (\<lambda>f. f_category f = k) (merge_findings fs)) =
      length (filter (\<lambda>f. f_category f = k) (map primary_of (clusters fs)))"
    by (simp add: merge_findings_def filter_map comp_def)
  also have "\<dots> \<le> length (filter (\<lambda>f. f_category f = k) (concat (map ne_list (clusters fs))))"
    by (rule filter_primary_le)
  also have "\<dots> = length (filter (\<lambda>f. f_category f = k) fs)"
    by (metis mset_clusters mset_filter size_mset)
  finally show ?thesis .
qed

lemma repeat_group_length:
  assumes "g \<in> set (repeat_groups fs)"
  shows "length (ne_list (snd g)) \<le> length (filter (\<lambda>f. f_category f \<in> set COLLAPSIBLE_CATEGORIES) fs)"
proof -
  have "length (group_values (repeat_groups fs)) =
      length (filter (\<lambda>f. f_category f \<in> set COLLAPSIBLE_CATEGORIES) fs)"
    by (metis repeat_groups_values size_mset)
  moreover have "length (ne_list (snd g)) \<le> length (group_values (repeat_groups fs))"
    using assms by (force simp: group_values_def length_concat intro: member_le_sum_list)
  ultimately show ?thesis by simp
qed

lemma fold_security:
  assumes g: "g \<in> set (repeat_groups fs)" "f \<in> set (ne_list (snd g))" and "f_agent f = SECURITY"
  shows "is_security (fst (fold_group (snd g)))"
proof -
  have "f_agent (primary_of (snd g)) = f_agent f"
    using groups_keyed_member [OF repeat_groups_keyed g]
      groups_keyed_member [OF repeat_groups_keyed g(1) primary_in] by (metis prod.inject)
  with assms(3) show ?thesis by (simp add: is_security_def)
qed

lemma collapse_repeated_short:
  assumes "f \<in> set fs"
    and "int (length (filter (\<lambda>g. f_category g \<in> set COLLAPSIBLE_CATEGORIES) fs)) < s_collapse_repeated_after s"
  shows "f \<in> set (collapse_repeated s fs)"
proof (cases "f_category f \<in> set COLLAPSIBLE_CATEGORIES")
  case True
  with assms(1) obtain g where g: "g \<in> set (repeat_groups fs)" "f \<in> set (ne_list (snd g))"
    using repeat_groups_member by blast
  with repeat_group_length [OF g(1)] assms(2)
  have "f \<in> set (emit_group (s_collapse_repeated_after s) (snd g))"
    by (simp add: emit_group_def)
  with g(1) show ?thesis by (auto simp: collapse_repeated_def)
next
  case False
  with assms(1) show ?thesis by (simp add: collapse_repeated_keeps)
qed

lemma aggregate_keeps_critical_security:
  assumes "f \<in> set (ok_findings vs)" and "f_severity f = CRITICAL"
    and "f_category f \<in> set SECURITY_CATEGORIES"
    and unfolded: "(\<forall>g \<in> set (ok_findings vs).
        \<not> (f_severity g = CRITICAL \<and> f_category g = TEST_COVERAGE \<and> f_agent g \<noteq> SECURITY)) \<or>
      int (length (filter (\<lambda>g. f_category g = TEST_COVERAGE) (ok_findings vs))) < s_collapse_repeated_after s"
  shows "\<exists>out \<in> set (fst (aggregate s vs)). f_severity out = CRITICAL \<and> is_security out"
proof -
  let ?ms = "merge_findings (ok_findings vs)"
  from assms(1) obtain m where m: "m \<in> set ?ms"
    "severity_index (f_severity f) \<le> severity_index (f_severity m)"
    "f_category f \<in> set SECURITY_CATEGORIES \<longrightarrow> is_security m"
    by (rule merge_findings_covers)
  from m(2) assms(2) have crit: "f_severity m = CRITICAL"
    by (simp add: severity_index_critical)
  from m(3) assms(3) have sec: "is_security m" by blast
  have "m \<in> set (collapse_repeated s ?ms) \<or> f_category m = TEST_COVERAGE \<and> f_agent m = SECURITY"
    using unfolded
  proof
    assume no: "\<forall>g \<in> set (ok_findings vs).
        \<not> (f_severity g = CRITICAL \<and> f_category g = TEST_COVERAGE \<and> f_agent g \<noteq> SECURITY)"
    from merge_findings_stands_for [OF m(1)] no crit
    have "f_category m = TEST_COVERAGE \<longrightarrow> f_agent m = SECURITY" by (auto simp: stands_for_def)
    then show ?thesis
      using collapse_repeated_keeps [OF m(1)] by (auto simp: COLLAPSIBLE_CATEGORIES_def)
  next
    assume "int (length (filter (\<lambda>g. f_category g = TEST_COVERAGE) (ok_findings vs)))
      < s_collapse_repeated_after s"
    with merged_test_coverage_le [of TEST_COVERAGE "ok_findings vs"]
    show ?thesis
      by (intro disjI1 collapse_repeated_short [OF m(1)]) (simp add: COLLAPSIBLE_CATEGORIES_def)
  qed
  then show ?thesis
  proof
    assume "m \<in> set (collapse_repeated s ?ms)"
    with crit sec show ?thesis unfolding set_aggregate by blast
  next
    assume tests: "f_category m = TEST_COVERAGE \<and> f_agent m = SECURITY"
    from collapse_repeated_represents [OF m(1), of s] show ?thesis
    proof
      assume "m \<in> set (collapse_repeated s ?ms)"
      with crit sec show ?thesis unfolding set_aggregate by blast
    next
      assume "\<exists>g \<in> set (repeat_groups ?ms). m \<in> set (ne_list (snd g)) \<and>
        fst (fold_group (snd g)) \<in> set (collapse_repeated s ?ms)"
      then obtain g where g: "g \<in> set (repeat_groups ?ms)" "m \<in> set (ne_list (snd g))"
        "fst (fold_group (snd g)) \<in> set (collapse_repeated s ?ms)" by blast
      from primary_severity [OF g(2)] crit have "f_severity (fst (fold_group (snd g))) = CRITICAL"
        by (simp add: severity_index_critical)
      with fold_security [OF g(1,2)] tests g(3) show ?thesis unfolding set_aggregate by blast
    qed
  qed
qed

text \<open>C1. When the setting for it is on and an agent that returned reports a critical finding in a security
  category, the aggregated review is escalated and nothing of it is posted, whatever else the panel
  says - unless repeated test requests can be folded over it: either no other agent than the security
  agent reports a critical test-coverage finding, or the panel's test-coverage findings are fewer than
  the number from which they are folded. The condition is needed: \<^verbatim>\<open>folding_hides_critical_security\<close> at the
  end of this theory is a panel whose critical injection is posted.\<close>

theorem critical_security_never_posted:
  assumes "s_escalate_critical_security s"
    and "v \<in> set vs" "v_ok v" "f \<in> set (v_findings v)"
    and "f_severity f = CRITICAL" "f_category f \<in> set SECURITY_CATEGORIES"
    and "(\<forall>g \<in> set (ok_findings vs).
        \<not> (f_severity g = CRITICAL \<and> f_category g = TEST_COVERAGE \<and> f_agent g \<noteq> SECURITY)) \<or>
      int (length (filter (\<lambda>g. f_category g = TEST_COVERAGE) (ok_findings vs))) < s_collapse_repeated_after s"
  shows "g_decision (evaluate s (fst (aggregate s vs)) vs (snd (aggregate s vs)) exhausted pub) = ESCALATE \<and>
    g_postable (evaluate s (fst (aggregate s vs)) vs (snd (aggregate s vs)) exhausted pub) = []"
proof -
  have "f \<in> set (ok_findings vs)"
    using assms(2-4) by (auto simp: ok_findings_iff)
  from aggregate_keeps_critical_security [OF this assms(5-7)]
  have "critical_security (fst (aggregate s vs)) \<noteq> []"
    unfolding critical_security_empty_iff by blast
  then show ?thesis
    using assms(1) by (simp add: evaluate_def Let_def)
qed


text \<open>A concrete panel: the security agent reports an injection that the correctness agent files as
  a logic error, and the merged finding is led by the correctness agent.\<close>

definition sample_logic :: finding where
  "sample_logic = sample_injection\<lparr>f_id := 2, f_agent := CORRECTNESS, f_category := LOGIC,
     f_confidence := 95 / 100, f_line_end := 11\<rparr>"

definition sample_panel :: "finding \<Rightarrow> finding \<Rightarrow> agent_verdict list" where
  "sample_panel a b =
     [(default_verdict SECURITY)\<lparr>v_findings := [a]\<rparr>,
      (default_verdict CORRECTNESS)\<lparr>v_findings := [b]\<rparr>]"

lemmas sample_defs = sample_injection_def sample_logic_def sample_panel_def default_verdict_def
  default_settings_def v_ok_def

lemma evaluate_auto_post_iff_witness:
  "g_postable (evaluate default_settings [sample_logic] [] 1 False True) = [sample_logic]"
proof -
  have "clears_bars default_settings sample_logic" "\<not> is_security sample_logic"
    by (simp_all add: clears_bars_def is_security_def SECURITY_CATEGORIES_def sample_defs)
  then show ?thesis
    using evaluate_auto_post_iff [of default_settings "[sample_logic]" "[]" 1 False True "[sample_logic]"]
    by (simp add: default_settings_def)
qed

lemma critical_security_never_posted_witness:
  "g_decision (evaluate default_settings
     (fst (aggregate default_settings (sample_panel sample_injection sample_logic)))
     (sample_panel sample_injection sample_logic)
     (snd (aggregate default_settings (sample_panel sample_injection sample_logic))) False True) = ESCALATE"
  using critical_security_never_posted [of default_settings
      "(default_verdict SECURITY)\<lparr>v_findings := [sample_injection]\<rparr>"
      "sample_panel sample_injection sample_logic" sample_injection False True]
  by (simp add: sample_defs SECURITY_CATEGORIES_def ok_findings_def)

text \<open>The converse of the safety property fails for a finding that is a security finding only by its
  agent: agreement with a more confident correctness finding of the same category takes the lead of
  the merged finding, and the security agent is then named only in \<^const>\<open>f_agreeing\<close>, which
  \<^const>\<open>is_security\<close> does not read.\<close>

definition sample_agent_only :: finding where
  "sample_agent_only = sample_injection\<lparr>f_category := LOGIC\<rparr>"

lemma sample_merge:
  "merge_findings [sample_agent_only, sample_logic] =
     [fst (collapse (sample_agent_only, [sample_logic]))]"
  by (simp add: merge_findings_def clusters_def ne_list_def ne_snoc_def same_issue_def overlaps_def
      sample_agent_only_def sample_defs)

lemma sample_primary: "primary_of (sample_agent_only, [sample_logic]) = sample_logic"
  by (simp add: primary_of_def py_max_by_def primary_key_def sample_agent_only_def sample_defs
      less_prod_def)

lemma sample_noisy_or: "noisy_or [sample_agent_only, sample_logic] = 99 / 100"
  by (simp add: noisy_or_def cluster_agents_def best_of_agent_def sample_agent_only_def sample_defs)

lemma sample_collapse:
  "f_confidence (fst (collapse (sample_agent_only, [sample_logic]))) = 99 / 100"
  "\<not> is_security (fst (collapse (sample_agent_only, [sample_logic])))"
  using collapse_categories [of "(sample_agent_only, [sample_logic])"]
  by (simp_all add: collapse_confidence sample_noisy_or sample_primary is_security_def list_ex_iff)
    (simp_all add: cluster_agents_def sample_agent_only_def sample_defs SECURITY_CATEGORIES_def)

lemma sample_aggregate:
  "aggregate default_settings (sample_panel sample_agent_only sample_logic) =
     ([fst (collapse (sample_agent_only, [sample_logic]))], 99 / 100)"
proof -
  have ok: "ok_findings (sample_panel sample_agent_only sample_logic) = [sample_agent_only, sample_logic]"
    by (simp add: ok_findings_def sample_panel_def default_verdict_def v_ok_def)
  have cat: "f_category sample_logic = LOGIC" "f_severity sample_logic = CRITICAL"
    by (simp_all add: sample_defs)
  have health: "panel_health (sample_panel sample_agent_only sample_logic) = 1"
    by (simp add: panel_health_def sample_panel_def default_verdict_def v_ok_def)
  show ?thesis
    by (simp add: aggregate_def ok sample_merge collapse_repeated_def repeat_groups_def
        COLLAPSIBLE_CATEGORIES_def sample_primary cat overall_confidence_def health sample_collapse(1)
        py_round_def round_half_even_def)
qed

text \<open>A critical finding that the security agent reports in a correctness category is a security
  finding on its own, but a correctness finding of the same category merged over it makes the gate
  post it.\<close>

theorem agreement_hides_security_agent:
  "is_security sample_agent_only \<and> f_severity sample_agent_only = CRITICAL \<and>
   g_decision (evaluate default_settings
     (fst (aggregate default_settings (sample_panel sample_agent_only sample_logic)))
     (sample_panel sample_agent_only sample_logic)
     (snd (aggregate default_settings (sample_panel sample_agent_only sample_logic))) False True) = AUTO_POST"
proof -
  let ?m = "fst (collapse (sample_agent_only, [sample_logic]))"
  have alone: "is_security sample_agent_only" "f_severity sample_agent_only = CRITICAL"
    by (simp_all add: is_security_def sample_agent_only_def sample_defs)
  have "clears_bars default_settings ?m"
    by (simp add: clears_bars_def sample_collapse(1) sample_primary) (simp add: sample_defs)
  moreover have "critical_security [?m] = []"
    by (simp add: critical_security_def sample_collapse(2))
  moreover have "filter (\<lambda>v. \<not> v_ok v) (sample_panel sample_agent_only sample_logic) = []"
    by (simp add: sample_panel_def default_verdict_def v_ok_def)
  ultimately show ?thesis
    using alone by (simp add: sample_aggregate evaluate_def Let_def) (simp add: default_settings_def)
qed

text \<open>Folding is the gap in the rule: three critical test-coverage findings of the tests agent are
  folded into one, and the one that was merged with the injection the security agent reported is not
  the one whose categories the fold keeps.\<close>

definition untested :: "nat \<Rightarrow> string \<Rightarrow> real \<Rightarrow> finding" where
  "untested i path c = sample_injection\<lparr>f_id := i, f_agent := TESTS, f_category := TEST_COVERAGE,
     f_file_path := path, f_confidence := c\<rparr>"

lemma untested_fields [simp]:
  "f_id (untested i p c) = i" "f_agent (untested i p c) = TESTS"
  "f_category (untested i p c) = TEST_COVERAGE" "f_severity (untested i p c) = CRITICAL"
  "f_confidence (untested i p c) = c" "f_categories (untested i p c) = []"
  by (simp_all add: untested_def sample_injection_def)

definition folding_panel :: "agent_verdict list" where
  "folding_panel =
     [(default_verdict SECURITY)\<lparr>v_findings := [sample_injection]\<rparr>,
      (default_verdict TESTS)\<lparr>v_findings :=
         [untested 2 ''app/db.py'' (9 / 10), untested 3 ''b.py'' (99 / 100), untested 4 ''c.py'' (9 / 10)]\<rparr>]"

lemma title_similarity_refl:
  assumes "content_words t \<noteq> {}"
  shows "title_similarity t t = 1"
proof -
  have "finite (content_words t)" by (simp add: content_words_def)
  with assms show ?thesis by (simp add: title_similarity_def Let_def)
qed

lemma sample_title_words: "content_words ''SQL injection'' \<noteq> {}"
  by code_simp

lemma folding_merge:
  "merge_findings (ok_findings folding_panel) =
     [fst (collapse (sample_injection, [untested 2 ''app/db.py'' (9 / 10)])),
      untested 3 ''b.py'' (99 / 100), untested 4 ''c.py'' (9 / 10)]"
  using title_similarity_refl [OF sample_title_words]
  by (simp add: merge_findings_def ok_findings_def folding_panel_def clusters_def ne_list_def ne_snoc_def
      same_issue_def overlaps_def untested_def sample_defs TITLE_SIMILARITY_THRESHOLD_def collapse_single)

lemma folding_primary:
  "primary_of (sample_injection, [untested 2 ''app/db.py'' (9 / 10)]) = untested 2 ''app/db.py'' (9 / 10)"
  by (simp add: primary_of_def py_max_by_def primary_key_def untested_def sample_defs less_prod_def)

definition folded_group :: "finding nelist" where
  "folded_group =
     (fst (collapse (sample_injection, [untested 2 ''app/db.py'' (9 / 10)])),
      [untested 3 ''b.py'' (99 / 100), untested 4 ''c.py'' (9 / 10)])"

lemma folding_noisy_or:
  "f_confidence (fst (collapse (sample_injection, [untested 2 ''app/db.py'' (9 / 10)]))) = 98 / 100"
  by (simp add: collapse_confidence noisy_or_def cluster_agents_def best_of_agent_def ne_list_def
      untested_def sample_defs)

lemma sample_injection_severity: "f_severity sample_injection = CRITICAL"
  by (simp add: sample_injection_def)

lemma folded_group_primary: "primary_of folded_group = untested 3 ''b.py'' (99 / 100)"
  by (simp add: primary_of_def py_max_by_def primary_key_def folded_group_def folding_noisy_or
      folding_primary less_prod_def sample_injection_severity)

lemma folded_group_confidence: "f_confidence (fst (fold_group folded_group)) = 99 / 100"
  by (simp add: fold_confidence folded_group_def folding_noisy_or)

lemma folding_aggregate:
  "aggregate default_settings folding_panel = ([fst (fold_group folded_group)], 99 / 100)"
proof -
  have health: "panel_health folding_panel = 1"
    by (simp add: panel_health_def folding_panel_def default_verdict_def v_ok_def)
  have "repeat_groups (merge_findings (ok_findings folding_panel)) = [((TESTS, TEST_COVERAGE), folded_group)]"
    by (simp add: folding_merge repeat_groups_def COLLAPSIBLE_CATEGORIES_def folding_primary ne_snoc_def
        folded_group_def)
  moreover have "filter (\<lambda>f. f_category f \<notin> set COLLAPSIBLE_CATEGORIES)
      (merge_findings (ok_findings folding_panel)) = []"
    by (simp add: folding_merge COLLAPSIBLE_CATEGORIES_def folding_primary)
  moreover have "length (ne_list folded_group) = 3"
    by (simp add: folded_group_def ne_list_def)
  ultimately have folded: "collapse_repeated default_settings (merge_findings (ok_findings folding_panel)) =
      [fst (fold_group folded_group)]"
    by (simp add: collapse_repeated_def emit_group_def default_settings_def)
  have "overall_confidence [fst (fold_group folded_group)] folding_panel = 99 / 100"
    by (simp add: overall_confidence_def health folded_group_confidence folded_group_primary
        py_round_def round_half_even_def)
  then show ?thesis
    by (simp add: aggregate_def folded Let_def)
qed

theorem folding_hides_critical_security:
  "(\<exists>v \<in> set folding_panel. v_ok v \<and> sample_injection \<in> set (v_findings v)) \<and>
   f_severity sample_injection = CRITICAL \<and> f_category sample_injection \<in> set SECURITY_CATEGORIES \<and>
   g_decision (evaluate default_settings (fst (aggregate default_settings folding_panel)) folding_panel
     (snd (aggregate default_settings folding_panel)) False True) = AUTO_POST"
proof -
  let ?m = "fst (fold_group folded_group)"
  have reported: "\<exists>v \<in> set folding_panel. v_ok v \<and> sample_injection \<in> set (v_findings v)"
    by (simp add: folding_panel_def default_verdict_def v_ok_def)
  have "clears_bars default_settings ?m"
    by (simp add: clears_bars_def folded_group_confidence folded_group_primary default_settings_def)
  moreover have "\<not> is_security ?m"
    by (simp add: is_security_def folded_group_primary SECURITY_CATEGORIES_def)
  then have "critical_security [?m] = []"
    by (simp add: critical_security_def)
  moreover have "filter (\<lambda>v. \<not> v_ok v) folding_panel = []"
    by (simp add: folding_panel_def default_verdict_def v_ok_def)
  ultimately show ?thesis
    using reported
    by (simp add: folding_aggregate evaluate_def Let_def)
      (simp add: default_settings_def sample_injection_def SECURITY_CATEGORIES_def)
qed

end
