(* ===== verification/Regex.thy ===== *)
theory Regex
  imports PyStr
begin

section \<open>Regular expressions\<close>

text \<open>
  The part of Python's \<^verbatim>\<open>re\<close> module that the sources use, so that every pattern of the program is
  translated construct by construct. A pattern denotes, at a position of the subject, the list of the
  ways it can match, in the order in which a backtracking matcher tries them; the first one is the
  match. Repetition is only ever applied to a character class in the sources, so \<open>Rep\<close> takes
  a class, a minimum, an optional maximum and whether it is greedy.

  A position carries the character before it (for \<^verbatim>\<open>^\<close> and \<^verbatim>\<open>\b\<close>), the text after it and
  the groups captured so far.
\<close>

datatype rx =
    Eps
  | Lit string
  | LitI string
  | Chr "char \<Rightarrow> bool"
  | Rep "char \<Rightarrow> bool" nat "nat option" bool
  | Seq rx rx
  | Alt rx rx
  | Grp string rx
  | Bol
  | BolM
  | Eol
  | WordB

type_synonym rx_pos = "char option \<times> string \<times> (string \<times> string) list"

definition advance :: "nat \<Rightarrow> rx_pos \<Rightarrow> rx_pos" where
  "advance n st =
     (case st of (pv, s, g) \<Rightarrow> (if n = 0 then pv else Some (s ! (n - 1)), drop n s, g))"

definition rep_counts :: "nat \<Rightarrow> nat option \<Rightarrow> nat \<Rightarrow> nat list" where
  "rep_counts lo hi run = (let m = (case hi of None \<Rightarrow> run | Some h \<Rightarrow> min h run) in [lo..<Suc m])"

definition opt_word :: "char option \<Rightarrow> bool" where
  "opt_word c = (case c of None \<Rightarrow> False | Some x \<Rightarrow> is_word x)"

fun mt :: "rx \<Rightarrow> rx_pos \<Rightarrow> rx_pos list" where
  "mt Eps st = [st]"
| "mt (Lit w) (pv, s, g) = (if prefix w s then [advance (length w) (pv, s, g)] else [])"
| "mt (LitI w) (pv, s, g) =
     (if prefix (py_lower w) (py_lower s) then [advance (length w) (pv, s, g)] else [])"
| "mt (Chr p) (pv, s, g) =
     (case s of [] \<Rightarrow> [] | c # cs \<Rightarrow> if p c then [(Some c, cs, g)] else [])"
| "mt (Rep p lo hi greedy) (pv, s, g) =
     (let ns = rep_counts lo hi (length (takeWhile p s))
      in map (\<lambda>n. advance n (pv, s, g)) (if greedy then rev ns else ns))"
| "mt (Seq a b) st = concat (map (mt b) (mt a st))"
| "mt (Alt a b) st = mt a st @ mt b st"
| "mt (Grp name r) (pv, s, g) =
     map (\<lambda>(pv', s', g'). (pv', s', (name, take (length s - length s') s) # g')) (mt r (pv, s, g))"
| "mt Bol (pv, s, g) = (if pv = None then [(pv, s, g)] else [])"
| "mt BolM (pv, s, g) = (if pv = None \<or> pv = Some (CHR 0x0A) then [(pv, s, g)] else [])"
| "mt Eol (pv, s, g) = (if s = [] \<or> s = [CHR 0x0A] then [(pv, s, g)] else [])"
| "mt WordB (pv, s, g) =
     (if opt_word pv \<noteq> (case s of [] \<Rightarrow> False | c # _ \<Rightarrow> is_word c) then [(pv, s, g)] else [])"

fun rx_seq :: "rx list \<Rightarrow> rx" where
  "rx_seq [] = Eps"
| "rx_seq [r] = r"
| "rx_seq (r # q # rs) = Seq r (rx_seq (q # rs))"

fun rx_alts :: "rx \<Rightarrow> rx list \<Rightarrow> rx" where
  "rx_alts r [] = r"
| "rx_alts r (q # rs) = Alt r (rx_alts q rs)"

definition rx_opt :: "rx \<Rightarrow> rx" where
  "rx_opt r = Alt r Eps"

subsection \<open>match, search and findall\<close>

definition group_of :: "string \<Rightarrow> rx_pos \<Rightarrow> string option" where
  "group_of name st = map_of (snd (snd st)) name"

definition rx_match_at :: "rx \<Rightarrow> char option \<Rightarrow> string \<Rightarrow> rx_pos option" where
  "rx_match_at r pv s = (case mt r (pv, s, []) of [] \<Rightarrow> None | st # _ \<Rightarrow> Some st)"

definition rx_match :: "rx \<Rightarrow> string \<Rightarrow> rx_pos option" where
  "rx_match r s = rx_match_at r None s"

fun rx_search_from :: "rx \<Rightarrow> char option \<Rightarrow> string \<Rightarrow> rx_pos option" where
  "rx_search_from r pv [] = rx_match_at r pv []"
| "rx_search_from r pv (c # cs) =
     (case rx_match_at r pv (c # cs) of
        Some st \<Rightarrow> Some st
      | None \<Rightarrow> rx_search_from r (Some c) cs)"

definition rx_search :: "rx \<Rightarrow> string \<Rightarrow> rx_pos option" where
  "rx_search r s = rx_search_from r None s"

text \<open>Every match of \<^verbatim>\<open>finditer\<close> from left to right, as the matched text and the position after
  it. The patterns it is used with never match the empty text.\<close>

function rx_finditer_from :: "rx \<Rightarrow> char option \<Rightarrow> string \<Rightarrow> (string \<times> rx_pos) list" where
  "rx_finditer_from r pv [] = []"
| "rx_finditer_from r pv (c # cs) =
     (case rx_match_at r pv (c # cs) of
        Some (pv', s', g) \<Rightarrow>
          (if length s' < length (c # cs)
           then (take (length (c # cs) - length s') (c # cs), (pv', s', g)) # rx_finditer_from r pv' s'
           else rx_finditer_from r (Some c) cs)
      | None \<Rightarrow> rx_finditer_from r (Some c) cs)"
  by pat_completeness auto
termination by (relation "measure (\<lambda>(r, pv, s). length s)") auto

definition rx_finditer :: "rx \<Rightarrow> string \<Rightarrow> (string \<times> rx_pos) list" where
  "rx_finditer r s = rx_finditer_from r None s"

definition rx_findall :: "rx \<Rightarrow> string \<Rightarrow> string list" where
  "rx_findall r s = map fst (rx_finditer r s)"

text \<open>\<^verbatim>\<open>sub\<close> with the empty replacement: the subject without its matches.\<close>

function rx_delete_from :: "rx \<Rightarrow> char option \<Rightarrow> string \<Rightarrow> string" where
  "rx_delete_from r pv [] = []"
| "rx_delete_from r pv (c # cs) =
     (case rx_match_at r pv (c # cs) of
        Some (pv', s', g) \<Rightarrow>
          (if length s' < length (c # cs) then rx_delete_from r pv' s'
           else c # rx_delete_from r (Some c) cs)
      | None \<Rightarrow> c # rx_delete_from r (Some c) cs)"
  by pat_completeness auto
termination by (relation "measure (\<lambda>(r, pv, s). length s)") auto

definition rx_delete :: "rx \<Rightarrow> string \<Rightarrow> string" where
  "rx_delete r s = rx_delete_from r None s"

subsection \<open>Classes\<close>

definition any_char :: "char \<Rightarrow> bool" where
  "any_char c \<longleftrightarrow> c \<noteq> CHR 0x0A"

abbreviation rx_star :: "(char \<Rightarrow> bool) \<Rightarrow> rx" where
  "rx_star p \<equiv> Rep p 0 None True"

abbreviation rx_plus :: "(char \<Rightarrow> bool) \<Rightarrow> rx" where
  "rx_plus p \<equiv> Rep p 1 None True"

subsection \<open>What a match is\<close>

text \<open>The relational meaning of a pattern, without the order of the alternatives.\<close>

inductive matches :: "rx \<Rightarrow> rx_pos \<Rightarrow> rx_pos \<Rightarrow> bool" where
  m_Eps: "matches Eps st st"
| m_Lit: "prefix w s \<Longrightarrow> matches (Lit w) (pv, s, g) (advance (length w) (pv, s, g))"
| m_LitI: "prefix (py_lower w) (py_lower s) \<Longrightarrow>
    matches (LitI w) (pv, s, g) (advance (length w) (pv, s, g))"
| m_Chr: "p c \<Longrightarrow> matches (Chr p) (pv, c # cs, g) (Some c, cs, g)"
| m_Rep: "lo \<le> n \<Longrightarrow> (case hi of None \<Rightarrow> True | Some h \<Rightarrow> n \<le> h) \<Longrightarrow> n \<le> length s \<Longrightarrow>
    list_all p (take n s) \<Longrightarrow> matches (Rep p lo hi greedy) (pv, s, g) (advance n (pv, s, g))"
| m_Seq: "matches a st st' \<Longrightarrow> matches b st' st'' \<Longrightarrow> matches (Seq a b) st st''"
| m_AltL: "matches a st st' \<Longrightarrow> matches (Alt a b) st st'"
| m_AltR: "matches b st st' \<Longrightarrow> matches (Alt a b) st st'"
| m_Grp: "matches r (pv, s, g) (pv', s', g') \<Longrightarrow>
    matches (Grp name r) (pv, s, g) (pv', s', (name, take (length s - length s') s) # g')"
| m_Bol: "matches Bol (None, s, g) (None, s, g)"
| m_BolM: "pv = None \<or> pv = Some (CHR 0x0A) \<Longrightarrow> matches BolM (pv, s, g) (pv, s, g)"
| m_Eol: "s = [] \<or> s = [CHR 0x0A] \<Longrightarrow> matches Eol (pv, s, g) (pv, s, g)"
| m_WordB: "opt_word pv \<noteq> (case s of [] \<Rightarrow> False | c # _ \<Rightarrow> is_word c) \<Longrightarrow>
    matches WordB (pv, s, g) (pv, s, g)"

inductive_cases matches_Eps: "matches Eps st st'"
inductive_cases matches_Lit: "matches (Lit w) st st'"
inductive_cases matches_LitI: "matches (LitI w) st st'"
inductive_cases matches_Chr: "matches (Chr p) st st'"
inductive_cases matches_Rep: "matches (Rep p lo hi greedy) st st'"
inductive_cases matches_Seq: "matches (Seq a b) st st'"
inductive_cases matches_Alt: "matches (Alt a b) st st'"
inductive_cases matches_Grp: "matches (Grp name r) st st'"
inductive_cases matches_Bol: "matches Bol st st'"
inductive_cases matches_BolM: "matches BolM st st'"
inductive_cases matches_Eol: "matches Eol st st'"
inductive_cases matches_WordB: "matches WordB st st'"

lemma run_length_iff: "n \<le> length (takeWhile p s) \<longleftrightarrow> n \<le> length s \<and> list_all p (take n s)"
proof (induction s arbitrary: n)
  case (Cons c s)
  then show ?case by (cases n) auto
qed simp

lemma in_rep_counts:
  "n \<in> set (rep_counts lo hi run) \<longleftrightarrow>
     lo \<le> n \<and> n \<le> run \<and> (case hi of None \<Rightarrow> True | Some h \<Rightarrow> n \<le> h)"
  by (auto simp: rep_counts_def Let_def split: option.splits)

lemma mt_Rep_set:
  "set (mt (Rep p lo hi greedy) (pv, s, g)) =
     (\<lambda>n. advance n (pv, s, g)) ` set (rep_counts lo hi (length (takeWhile p s)))"
  by (simp add: Let_def)

text \<open>The matcher finds every match, and only matches.\<close>

lemma mt_matches: "st' \<in> set (mt r st) \<Longrightarrow> matches r st st'"
proof (induction r st arbitrary: st' rule: mt.induct)
  case (4 p pv s g)
  then show ?case by (cases s) (auto intro: matches.intros split: if_splits)
next
  case (5 p lo hi greedy pv s g)
  then obtain n where n: "n \<in> set (rep_counts lo hi (length (takeWhile p s)))"
    "st' = advance n (pv, s, g)"
    unfolding mt_Rep_set by blast
  then show ?case
    unfolding n(2) by (intro m_Rep) (auto simp: in_rep_counts run_length_iff)
next
  case (6 a b st)
  then obtain mid where "mid \<in> set (mt a st)" "st' \<in> set (mt b mid)" by auto
  with 6 show ?case by (blast intro: m_Seq)
next
  case (8 name r pv s g)
  then show ?case by (auto intro!: m_Grp)
qed (auto intro: matches.intros split: if_splits)

lemma matches_mt: "matches r st st' \<Longrightarrow> st' \<in> set (mt r st)"
proof (induction rule: matches.induct)
  case (m_Rep lo n hi s p greedy pv g)
  then show ?case
    unfolding mt_Rep_set by (intro imageI) (simp add: in_rep_counts run_length_iff)
next
  case (m_Grp r pv s g pv' s' g' name)
  then show ?case by force
qed auto

lemma mt_iff_matches: "st' \<in> set (mt r st) \<longleftrightarrow> matches r st st'"
  using mt_matches matches_mt by blast

text \<open>A match consumes a prefix of the text.\<close>

lemma advance_suffix: "suffix (fst (snd (advance n st))) (fst (snd st))"
  by (cases st) (simp add: advance_def suffix_drop)

lemma matches_suffix: "matches r st st' \<Longrightarrow> suffix (fst (snd st')) (fst (snd st))"
proof (induction rule: matches.induct)
  case (m_Seq a st st' b st'')
  then show ?case by (meson suffix_order.trans)
qed (auto simp: advance_def suffix_drop intro: suffix_ConsI)

lemma rx_match_at_suffix: "rx_match_at r pv s = Some (pv', s', g) \<Longrightarrow> suffix s' s"
  using mt_matches [of "(pv', s', g)" r "(pv, s, [])"] matches_suffix [of r "(pv, s, [])" "(pv', s', g)"]
  by (auto simp: rx_match_at_def split: list.splits)

subsection \<open>Committed repetition\<close>

text \<open>A greedy repetition whose continuation cannot begin with a character of the class has one way
  to match: the whole run.\<close>

definition stops :: "(char \<Rightarrow> bool) \<Rightarrow> rx \<Rightarrow> bool" where
  "stops p r \<longleftrightarrow> (\<forall>pv c cs g. p c \<longrightarrow> mt r (pv, c # cs, g) = [])"

definition last_of :: "char option \<Rightarrow> string \<Rightarrow> char option" where
  "last_of pv ds = (if ds = [] then pv else Some (last ds))"

lemma advance_append: "advance (length ds) (pv, ds @ t, g) = (last_of pv ds, t, g)"
  by (cases ds rule: rev_cases) (auto simp: advance_def last_of_def nth_append)

lemma takeWhile_run: "list_all p ds \<Longrightarrow> t = [] \<or> \<not> p (hd t) \<Longrightarrow> takeWhile p (ds @ t) = ds"
  by (cases t) (auto simp: list_all_iff takeWhile_append)

lemma mt_stops_short:
  assumes "stops p r" and "list_all p ds" and "n < length ds"
  shows "mt r (pv, drop n (ds @ t), g) = []"
proof -
  obtain c cs where c: "drop n ds = c # cs"
    using assms(3) by (metis drop_eq_Nil linorder_not_less list.exhaust)
  then have "p c"
    using assms(2) by (metis in_set_dropD list.set_intros(1) list_all_iff)
  with c assms show ?thesis by (simp add: stops_def)
qed

lemma concat_rev_upt_commit:
  assumes "lo \<le> m" and "\<And>n. lo \<le> n \<Longrightarrow> n < m \<Longrightarrow> f n = []"
  shows "concat (map f (rev [lo..<Suc m])) = f m"
proof -
  have "concat (map f (rev [lo..<m])) = []"
    using assms(2) by simp
  with assms(1) show ?thesis by simp
qed

lemma mt_commit:
  assumes "stops p r" and "list_all p ds" and "t = [] \<or> \<not> p (hd t)" and "lo \<le> length ds"
  shows "mt (Seq (Rep p lo None True) r) (pv, ds @ t, g) = mt r (last_of pv ds, t, g)"
proof -
  have "concat (map (\<lambda>n. mt r (advance n (pv, ds @ t, g))) (rev [lo..<Suc (length ds)])) =
      mt r (advance (length ds) (pv, ds @ t, g))"
    using mt_stops_short [OF assms(1,2)] by (intro concat_rev_upt_commit [OF assms(4)]) (simp add: advance_def)
  then show ?thesis
    using takeWhile_run [OF assms(2,3)]
    by (simp add: rep_counts_def Let_def map_concat comp_def advance_append del: upt_Suc)
qed

lemma mt_commit_group:
  assumes "stops p r" and "list_all p ds" and "t = [] \<or> \<not> p (hd t)" and "lo \<le> length ds"
  shows "mt (Seq (Grp name (Rep p lo None True)) r) (pv, ds @ t, g) =
    mt r (last_of pv ds, t, (name, ds) # g)"
proof -
  let ?s = "ds @ t"
  let ?h = "\<lambda>(pv', s', g'). (pv', s', (name, take (length ?s - length s') ?s) # g')"
  have "concat (map (\<lambda>n. mt r (?h (advance n (pv, ?s, g)))) (rev [lo..<Suc (length ds)])) =
      mt r (?h (advance (length ds) (pv, ?s, g)))"
    using mt_stops_short [OF assms(1,2)] by (intro concat_rev_upt_commit [OF assms(4)]) (simp add: advance_def)
  then show ?thesis
    using takeWhile_run [OF assms(2,3)]
    by (simp add: rep_counts_def Let_def map_concat comp_def advance_append del: upt_Suc)
qed

lemma mt_Lit_append [simp]: "mt (Lit w) (pv, w @ t, g) = [(last_of pv w, t, g)]"
  using advance_append [of w pv t g] by simp

subsection \<open>Calculating with sequences\<close>

lemma concat_map_concat: "concat (map f (concat (map g xs))) = concat (map (\<lambda>x. concat (map f (g x))) xs)"
  by (induction xs) simp_all

lemma mt_Seq_assoc: "mt (Seq (Seq a b) c) st = mt (Seq a (Seq b c)) st"
proof -
  have "mt (Seq b c) = (\<lambda>x. concat (map (mt c) (mt b x)))"
    by (rule ext) simp
  then show ?thesis by (simp add: concat_map_concat)
qed

lemma mt_Seq_Lit: "mt (Seq (Lit w) r) (pv, w @ t, g) = mt r (last_of pv w, t, g)"
  using mt_Lit_append [of w pv t g] by simp

lemma mt_Seq_opt: "mt (Seq (rx_opt a) r) st = mt (Seq a r) st @ mt r st"
  by (simp add: rx_opt_def)

lemma mt_Seq_Lit_other: "w \<noteq> [] \<Longrightarrow> s = [] \<or> hd w \<noteq> hd s \<Longrightarrow> mt (Seq (Lit w) r) (pv, s, g) = []"
  by (cases w; cases s) auto

lemma stops_Lit: "w \<noteq> [] \<Longrightarrow> \<not> p (hd w) \<Longrightarrow> stops p (Seq (Lit w) r)"
  by (cases w) (auto simp: stops_def)

lemma stops_opt: "stops p (Seq a r) \<Longrightarrow> stops p r \<Longrightarrow> stops p (Seq (rx_opt a) r)"
  by (simp add: stops_def mt_Seq_opt del: mt.simps)

lemma stops_assoc: "stops p (Seq a (Seq b c)) \<Longrightarrow> stops p (Seq (Seq a b) c)"
  by (simp add: stops_def mt_Seq_assoc del: mt.simps)

lemma stops_any_Eol: "stops any_char Eol"
  by (auto simp: stops_def any_char_def)

end
