(* ===== verification/Exceptions.thy ===== *)
theory Exceptions
  imports PyStr
begin

section \<open>Exceptions\<close>

text \<open>
  The exceptions the program raises and catches, as values: those it defines itself
  (\<^verbatim>\<open>reliability/\<close>, \<^verbatim>\<open>llm/provider.py\<close>, \<^verbatim>\<open>forge/github.py\<close>) and the built-in ones
  its handlers name. \<open>exc_isinstance\<close> is Python's class hierarchy on them; \<open>OtherError\<close>
  stands for an exception of any other subclass of \<^verbatim>\<open>Exception\<close>. A \<^verbatim>\<open>RetryableGitHubError\<close>
  carries the headers of the response that was attached to it, if any. A computation that may raise is a
  value of the sum type, \<^const>\<open>Inl\<close> the exception.
\<close>

datatype exc =
    ValueError string
  | JSONDecodeError string
  | TypeError string
  | KeyError string
  | AttributeError string
  | OverflowError string
  | AssertionError
  | PyTimeoutError
  | ImportError string
  | FileNotFoundError string
  | LLMError string
  | LLMRefusal "string option" "string option"
  | CircuitOpen string real
  | RetryExhausted nat exc
  | BudgetExceeded string real real
  | GitHubError int string
  | RetryableGitHubError int string "(string \<times> string) list option"
  | OtherError string string
  | CancelledError
  | SystemExit

datatype exc_class =
    BaseException_c | Exception_c | ValueError_c | LLMError_c | LLMRefusal_c | GitHubError_c
  | RetryableGitHubError_c | BudgetExceeded_c | TimeoutError_c | JSONDecodeError_c
  | TypeError_c | OverflowError_c | ImportError_c | CancelledError_c

fun exc_isinstance :: "exc \<Rightarrow> exc_class \<Rightarrow> bool" where
  "exc_isinstance e BaseException_c = True"
| "exc_isinstance e Exception_c = (e \<noteq> CancelledError \<and> e \<noteq> SystemExit)"
| "exc_isinstance e ValueError_c =
     (case e of ValueError _ \<Rightarrow> True | JSONDecodeError _ \<Rightarrow> True | _ \<Rightarrow> False)"
| "exc_isinstance e LLMError_c = (case e of LLMError _ \<Rightarrow> True | LLMRefusal _ _ \<Rightarrow> True | _ \<Rightarrow> False)"
| "exc_isinstance e LLMRefusal_c = (case e of LLMRefusal _ _ \<Rightarrow> True | _ \<Rightarrow> False)"
| "exc_isinstance e GitHubError_c =
     (case e of GitHubError _ _ \<Rightarrow> True | RetryableGitHubError _ _ _ \<Rightarrow> True | _ \<Rightarrow> False)"
| "exc_isinstance e RetryableGitHubError_c =
     (case e of RetryableGitHubError _ _ _ \<Rightarrow> True | _ \<Rightarrow> False)"
| "exc_isinstance e BudgetExceeded_c = (case e of BudgetExceeded _ _ _ \<Rightarrow> True | _ \<Rightarrow> False)"
| "exc_isinstance e TimeoutError_c = (e = PyTimeoutError)"
| "exc_isinstance e JSONDecodeError_c = (case e of JSONDecodeError _ \<Rightarrow> True | _ \<Rightarrow> False)"
| "exc_isinstance e TypeError_c = (case e of TypeError _ \<Rightarrow> True | _ \<Rightarrow> False)"
| "exc_isinstance e OverflowError_c = (case e of OverflowError _ \<Rightarrow> True | _ \<Rightarrow> False)"
| "exc_isinstance e ImportError_c = (case e of ImportError _ \<Rightarrow> True | _ \<Rightarrow> False)"
| "exc_isinstance e CancelledError_c = (e = CancelledError)"

text \<open>\<^verbatim>\<open>isinstance(exc, tuple(classes))\<close>.\<close>

definition isinstance_any :: "exc \<Rightarrow> exc_class list \<Rightarrow> bool" where
  "isinstance_any e cs \<longleftrightarrow> list_ex (exc_isinstance e) cs"

definition opt_str :: "string option \<Rightarrow> string" where
  "opt_str s = (case s of None \<Rightarrow> ''None'' | Some x \<Rightarrow> x)"

fun type_name :: "exc \<Rightarrow> string" where
  "type_name (ValueError _) = ''ValueError''"
| "type_name (JSONDecodeError _) = ''JSONDecodeError''"
| "type_name (TypeError _) = ''TypeError''"
| "type_name (KeyError _) = ''KeyError''"
| "type_name (AttributeError _) = ''AttributeError''"
| "type_name (OverflowError _) = ''OverflowError''"
| "type_name AssertionError = ''AssertionError''"
| "type_name PyTimeoutError = ''TimeoutError''"
| "type_name (ImportError _) = ''ImportError''"
| "type_name (FileNotFoundError _) = ''FileNotFoundError''"
| "type_name (LLMError _) = ''LLMError''"
| "type_name (LLMRefusal _ _) = ''LLMRefusal''"
| "type_name (CircuitOpen _ _) = ''CircuitOpen''"
| "type_name (RetryExhausted _ _) = ''RetryExhausted''"
| "type_name (BudgetExceeded _ _ _) = ''BudgetExceeded''"
| "type_name (GitHubError _ _) = ''GitHubError''"
| "type_name (RetryableGitHubError _ _ _) = ''RetryableGitHubError''"
| "type_name (OtherError n _) = n"
| "type_name CancelledError = ''CancelledError''"
| "type_name SystemExit = ''SystemExit''"

fun exc_str :: "exc \<Rightarrow> string" where
  "exc_str (ValueError m) = m"
| "exc_str (JSONDecodeError m) = m"
| "exc_str (TypeError m) = m"
| "exc_str (KeyError m) = CHR 0x27 # m @ [CHR 0x27]"
| "exc_str (AttributeError m) = m"
| "exc_str (OverflowError m) = m"
| "exc_str AssertionError = []"
| "exc_str PyTimeoutError = []"
| "exc_str (ImportError m) = m"
| "exc_str (FileNotFoundError m) = m"
| "exc_str (LLMError m) = m"
| "exc_str (LLMRefusal c x) = ''model refused ('' @ opt_str c @ ''): '' @ opt_str x"
| "exc_str (CircuitOpen n r) =
     ''circuit '' @ CHR 0x27 # n @ CHR 0x27 # '' is open; retry in '' @ py_fixed 1 r @ ''s''"
| "exc_str (RetryExhausted k e) =
     ''gave up after '' @ py_str_nat k @ '' attempts: '' @ type_name e @ '': '' @ exc_str e"
| "exc_str (BudgetExceeded scope spent cap) =
     scope @ '' budget exhausted: $'' @ py_fixed 4 spent @ '' of $'' @ py_fixed 2 cap"
| "exc_str (GitHubError st m) = ''github '' @ py_str_int st @ '': '' @ m"
| "exc_str (RetryableGitHubError st m _) = ''github '' @ py_str_int st @ '': '' @ m"
| "exc_str (OtherError _ m) = m"
| "exc_str CancelledError = []"
| "exc_str SystemExit = []"

text \<open>\<^verbatim>\<open>f"{type(exc).__name__}: {exc}"\<close>, the text the program stores for a failure.\<close>

definition exc_text :: "exc \<Rightarrow> string" where
  "exc_text e = type_name e @ '': '' @ exc_str e"

text \<open>Every class but the base class lies below \<^verbatim>\<open>Exception\<close>, apart from cancellation; a refusal is an
  \<^verbatim>\<open>LLMError\<close> and a retryable GitHub error a \<^verbatim>\<open>GitHubError\<close>.\<close>

lemma isinstance_Exception:
  "exc_isinstance e c \<Longrightarrow> c \<noteq> BaseException_c \<Longrightarrow> c \<noteq> CancelledError_c \<Longrightarrow> exc_isinstance e Exception_c"
  by (cases c) (auto split: exc.splits)

lemma isinstance_subclasses:
  "exc_isinstance e LLMRefusal_c \<Longrightarrow> exc_isinstance e LLMError_c"
  "exc_isinstance e RetryableGitHubError_c \<Longrightarrow> exc_isinstance e GitHubError_c"
  "exc_isinstance e JSONDecodeError_c \<Longrightarrow> exc_isinstance e ValueError_c"
  by (auto split: exc.splits)

subsection \<open>Computations that may raise\<close>

definition ebind :: "exc + 'a \<Rightarrow> ('a \<Rightarrow> exc + 'b) \<Rightarrow> exc + 'b" where
  "ebind m k = (case m of Inl e \<Rightarrow> Inl e | Inr x \<Rightarrow> k x)"

lemma ebind_simps [simp]: "ebind (Inl e) k = Inl e" "ebind (Inr x) k = k x"
  by (simp_all add: ebind_def)

lemma ebind_Inr: "ebind m k = Inr y \<longleftrightarrow> (\<exists>x. m = Inr x \<and> k x = Inr y)"
  by (cases m) simp_all

lemma ebind_Inl: "ebind m k = Inl e \<longleftrightarrow> m = Inl e \<or> (\<exists>x. m = Inr x \<and> k x = Inl e)"
  by (cases m) simp_all

fun e_traverse :: "('a \<Rightarrow> exc + 'b) \<Rightarrow> 'a list \<Rightarrow> exc + 'b list" where
  "e_traverse f [] = Inr []"
| "e_traverse f (x # xs) = ebind (f x) (\<lambda>y. ebind (e_traverse f xs) (\<lambda>ys. Inr (y # ys)))"

lemma e_traverse_length: "e_traverse f xs = Inr ys \<Longrightarrow> length ys = length xs"
  by (induction xs arbitrary: ys) (auto simp: ebind_Inr)

text \<open>When a traversal returns, what it returns, and when it fails.\<close>

lemma e_traverse_Inr: "(\<And>x. f x = Inr (g x)) \<Longrightarrow> e_traverse f xs = Inr (map g xs)"
  by (induction xs) simp_all

lemma e_traverse_id: "\<forall>x \<in> set xs. f x = Inr x \<Longrightarrow> e_traverse f xs = Inr xs"
  by (induction xs) simp_all

lemma e_traverse_mapped: "(\<And>x. x \<in> set xs \<Longrightarrow> f (g x) = Inr (h x)) \<Longrightarrow> e_traverse f (map g xs) = Inr (map h xs)"
  by (induction xs) simp_all

lemma e_traverse_snoc: "e_traverse f xs = Inr ys \<Longrightarrow> f x = Inr y \<Longrightarrow> e_traverse f (xs @ [x]) = Inr (ys @ [y])"
  by (induction xs arbitrary: ys) (auto simp: ebind_Inr)

lemma e_traverse_take_drop:
  assumes "e_traverse f xs = Inr ys"
  shows "e_traverse f (take n xs) = Inr (take n ys)" "e_traverse f (drop n xs) = Inr (drop n ys)"
  using assms
  by (induction xs arbitrary: n ys) (auto simp: ebind_Inr take_Cons drop_Cons split: nat.splits)

lemma e_traverse_member: "e_traverse f xs = Inr ys \<Longrightarrow> y \<in> set ys \<Longrightarrow> \<exists>x \<in> set xs. f x = Inr y"
  by (induction xs arbitrary: ys) (auto simp: ebind_Inr)

lemma traverse_members: "e_traverse f xs = Inr ys \<Longrightarrow> list_all2 (\<lambda>x y. f x = Inr y) xs ys"
proof (induction xs arbitrary: ys)
  case (Cons x xs)
  then obtain z zs where "f x = Inr z" "e_traverse f xs = Inr zs" "ys = z # zs" by (auto simp: ebind_Inr)
  with Cons.IH [of zs] show ?case by simp
qed simp

lemma traverse_fails: "x \<in> set xs \<Longrightarrow> f x = Inl e \<Longrightarrow> \<exists>e'. e_traverse f xs = Inl e'"
proof (cases "e_traverse f xs")
  case (Inr ys)
  assume "x \<in> set xs" "f x = Inl e"
  moreover have "\<forall>z \<in> set xs. \<exists>y. f z = Inr y"
    using traverse_members [OF Inr] by (auto simp: list_all2_conv_all_nth in_set_conv_nth)
  ultimately show ?thesis by auto
qed simp

lemma traverse_result: "e_traverse f xs = Inr ys \<Longrightarrow> x \<in> set xs \<Longrightarrow> f x = Inr y \<Longrightarrow> y \<in> set ys"
proof (induction xs arbitrary: ys)
  case (Cons z xs)
  then obtain w ws where "f z = Inr w" "e_traverse f xs = Inr ws" "ys = w # ws" by (auto simp: ebind_Inr)
  with Cons show ?case by auto
qed simp

end
