(* ===== verification/Json.thy ===== *)
theory Json
  imports Exceptions
begin

section \<open>JSON values as Python sees them\<close>

text \<open>
  What \<^verbatim>\<open>json.loads\<close> returns and what the program does with it: truth value, \<^verbatim>\<open>dict.get\<close>,
  \<^verbatim>\<open>str\<close>, \<^verbatim>\<open>int\<close> and \<^verbatim>\<open>float\<close>. A float of a document may be infinite or not a
  number. The text Python prints for a float or a container is an argument (\<open>repr_of\<close>) of the
  functions that may print one.
\<close>

datatype pyfloat = Fin real | PInf | NInf | NaN

datatype json =
    JNull
  | JBool bool
  | JInt int
  | JFloat pyfloat
  | JStr string
  | JList "json list"
  | JObj "(string \<times> json) list"

fun truthy :: "json \<Rightarrow> bool" where
  "truthy JNull = False"
| "truthy (JBool b) = b"
| "truthy (JInt i) = (i \<noteq> 0)"
| "truthy (JFloat x) = (x \<noteq> Fin 0)"
| "truthy (JStr s) = (s \<noteq> [])"
| "truthy (JList xs) = (xs \<noteq> [])"
| "truthy (JObj kvs) = (kvs \<noteq> [])"

text \<open>\<^verbatim>\<open>obj.get(key)\<close> on the items of a dictionary.\<close>

definition jget :: "string \<Rightarrow> (string \<times> json) list \<Rightarrow> json option" where
  "jget k kvs = map_of kvs k"

definition jget_or :: "string \<Rightarrow> json \<Rightarrow> (string \<times> json) list \<Rightarrow> json" where
  "jget_or k d kvs = (case jget k kvs of None \<Rightarrow> d | Some v \<Rightarrow> v)"

fun py_str :: "(json \<Rightarrow> string) \<Rightarrow> json \<Rightarrow> string" where
  "py_str repr_of JNull = ''None''"
| "py_str repr_of (JBool b) = (if b then ''True'' else ''False'')"
| "py_str repr_of (JInt i) = py_str_int i"
| "py_str repr_of (JStr s) = s"
| "py_str repr_of v = repr_of v"

subsection \<open>int and float\<close>

text \<open>A run of digits in which single underscores may separate digits.\<close>

fun digits_underscored :: "bool \<Rightarrow> string \<Rightarrow> string option" where
  "digits_underscored after_digit [] = (if after_digit then Some [] else None)"
| "digits_underscored after_digit (c # cs) =
     (if is_digit c then map_option ((#) c) (digits_underscored True cs)
      else if c = CHR ''_'' \<and> after_digit then digits_underscored False cs
      else None)"

definition int_of_str :: "string \<Rightarrow> int option" where
  "int_of_str s =
     (case py_strip s of
        [] \<Rightarrow> None
      | c # cs \<Rightarrow>
          (if c = CHR ''-'' then map_option (\<lambda>d. - int (digits_value d)) (digits_underscored False cs)
           else if c = CHR ''+'' then map_option (\<lambda>d. int (digits_value d)) (digits_underscored False cs)
           else map_option (\<lambda>d. int (digits_value d)) (digits_underscored False (c # cs))))"

definition truncate_real :: "real \<Rightarrow> int" where
  "truncate_real x = (if x < 0 then \<lceil>x\<rceil> else \<lfloor>x\<rfloor>)"

fun py_int :: "json \<Rightarrow> exc + int" where
  "py_int (JInt i) = Inr i"
| "py_int (JBool b) = Inr (if b then 1 else 0)"
| "py_int (JFloat (Fin x)) = Inr (truncate_real x)"
| "py_int (JFloat NaN) = Inl (ValueError ''cannot convert float NaN to integer'')"
| "py_int (JFloat _) = Inl (OverflowError ''cannot convert float infinity to integer'')"
| "py_int (JStr s) =
     (case int_of_str s of
        None \<Rightarrow> Inl (ValueError ''invalid literal for int() with base 10'')
      | Some i \<Rightarrow> Inr i)"
| "py_int _ = Inl (TypeError ''int() argument must be a string or a real number'')"

text \<open>\<^verbatim>\<open>float(s)\<close> on a string: an optional sign, then \<^verbatim>\<open>inf\<close>, \<^verbatim>\<open>infinity\<close> or \<^verbatim>\<open>nan\<close> in
  any case, or a decimal number with an optional exponent.\<close>

definition negate_float :: "pyfloat \<Rightarrow> pyfloat" where
  "negate_float x =
     (case x of Fin r \<Rightarrow> Fin (- r) | PInf \<Rightarrow> NInf | NInf \<Rightarrow> PInf | NaN \<Rightarrow> NaN)"

definition decimal_parts :: "string \<Rightarrow> (string \<times> string) option" where
  "decimal_parts m =
     (let ip = takeWhile (\<lambda>c. c \<noteq> CHR ''.'') m; rest = dropWhile (\<lambda>c. c \<noteq> CHR ''.'') m in
      case rest of
        [] \<Rightarrow> map_option (\<lambda>i. (i, [])) (digits_underscored False ip)
      | _ # fp \<Rightarrow>
          (if ip = [] then map_option (\<lambda>f. ([], f)) (digits_underscored False fp)
           else if fp = [] then map_option (\<lambda>i. (i, [])) (digits_underscored False ip)
           else (case (digits_underscored False ip, digits_underscored False fp) of
                   (Some i, Some f) \<Rightarrow> Some (i, f)
                 | _ \<Rightarrow> None)))"

definition decimal_value :: "string \<Rightarrow> real option" where
  "decimal_value m =
     map_option (\<lambda>(i, f). real (digits_value i) + real (digits_value f) / 10 ^ length f)
       (decimal_parts m)"

definition exponent_of :: "string \<Rightarrow> int option" where
  "exponent_of e =
     (case e of
        [] \<Rightarrow> None
      | c # cs \<Rightarrow>
          (if c = CHR ''-'' then map_option (\<lambda>d. - int (digits_value d)) (digits_underscored False cs)
           else if c = CHR ''+'' then map_option (\<lambda>d. int (digits_value d)) (digits_underscored False cs)
           else map_option (\<lambda>d. int (digits_value d)) (digits_underscored False e)))"

definition unsigned_float :: "string \<Rightarrow> pyfloat option" where
  "unsigned_float s =
     (let t = py_lower s in
      if t = ''inf'' \<or> t = ''infinity'' then Some PInf
      else if t = ''nan'' then Some NaN
      else
        (let m = takeWhile (\<lambda>c. c \<noteq> CHR ''e'') t; rest = dropWhile (\<lambda>c. c \<noteq> CHR ''e'') t in
         case rest of
           [] \<Rightarrow> map_option Fin (decimal_value m)
         | _ # e \<Rightarrow>
             (case (decimal_value m, exponent_of e) of
                (Some x, Some k) \<Rightarrow> Some (Fin (if k < 0 then x / 10 ^ nat (- k) else x * 10 ^ nat k))
              | _ \<Rightarrow> None)))"

definition float_of_str :: "string \<Rightarrow> pyfloat option" where
  "float_of_str s =
     (case py_strip s of
        [] \<Rightarrow> None
      | c # cs \<Rightarrow>
          (if c = CHR ''-'' then map_option negate_float (unsigned_float cs)
           else if c = CHR ''+'' then unsigned_float cs
           else unsigned_float (c # cs)))"

fun py_float :: "json \<Rightarrow> exc + pyfloat" where
  "py_float (JInt i) = Inr (Fin (of_int i))"
| "py_float (JBool b) = Inr (Fin (if b then 1 else 0))"
| "py_float (JFloat x) = Inr x"
| "py_float (JStr s) =
     (case float_of_str s of
        None \<Rightarrow> Inl (ValueError ''could not convert string to float'')
      | Some x \<Rightarrow> Inr x)"
| "py_float _ = Inl (TypeError ''float() argument must be a string or a real number'')"

text \<open>\<^verbatim>\<open>max(0.0, min(1.0, x))\<close>: \<^verbatim>\<open>min\<close> keeps its first argument unless the second is
  smaller, and no comparison with a NaN holds, so a NaN becomes 1.\<close>

fun clamp_unit :: "pyfloat \<Rightarrow> real" where
  "clamp_unit (Fin x) = max 0 (min 1 x)"
| "clamp_unit PInf = 1"
| "clamp_unit NInf = 0"
| "clamp_unit NaN = 1"

lemma clamp_unit_bounds: "0 \<le> clamp_unit x \<and> clamp_unit x \<le> 1"
  by (cases x) auto

lemma clamp_unit_id: "0 \<le> x \<Longrightarrow> x \<le> 1 \<Longrightarrow> clamp_unit (Fin x) = x"
  by simp

lemma digits_underscored_digits:
  "list_all is_digit ds \<Longrightarrow> ds \<noteq> [] \<or> b \<Longrightarrow> digits_underscored b ds = Some ds"
  by (induction ds arbitrary: b) auto

lemma digit_not_space: "is_digit c \<Longrightarrow> \<not> is_space c \<and> c \<noteq> CHR ''-'' \<and> c \<noteq> CHR ''+''"
  by (auto simp: is_digit_def is_space_def code_def)

lemma py_strip_id:
  assumes "list_all (\<lambda>c. \<not> is_space c) s"
  shows "py_strip s = s"
proof -
  have "dropWhile is_space s = s" "dropWhile is_space (rev s) = rev s"
    using assms by (auto intro!: dropWhile_idem_hd simp: list_all_iff hd_rev)
  then show ?thesis by (simp add: py_strip_def py_lstrip_def py_rstrip_def)
qed

text \<open>Printing an integer and reading it with \<^verbatim>\<open>int\<close>.\<close>

lemma int_of_str_str_int: "int_of_str (py_str_int i) = Some i"
proof -
  have digits: "digits_underscored False (py_str_nat n) = Some (py_str_nat n)" for n
    by (rule digits_underscored_digits) (simp_all add: py_str_nat_digits)
  have nospace: "list_all (\<lambda>c. \<not> is_space c) (py_str_nat n)" for n
    using py_str_nat_digits [of n] by (auto simp: list_all_iff dest: digit_not_space)
  show ?thesis
  proof (cases "i < 0")
    case True
    have "\<not> is_space CHR ''-''" by (simp add: is_space_def code_def)
    then have "py_strip (CHR ''-'' # py_str_nat (nat (- i))) = CHR ''-'' # py_str_nat (nat (- i))"
      using nospace by (intro py_strip_id) simp
    with True digits show ?thesis by (simp add: int_of_str_def py_str_int_def)
  next
    case False
    obtain c cs where c: "py_str_nat (nat i) = c # cs"
      by (cases "py_str_nat (nat i)") simp_all
    then have "is_digit c" using py_str_nat_digits [of "nat i"] by simp
    moreover have "py_strip (c # cs) = c # cs"
      using nospace [of "nat i"] by (intro py_strip_id) (simp add: c)
    moreover have "digits_value (c # cs) = nat i"
      using digits_value_str_nat [of "nat i"] by (simp add: c)
    ultimately show ?thesis
      using False c digits [of "nat i"] digit_not_space [of c] by (simp add: int_of_str_def py_str_int_def)
  qed
qed

lemma py_int_str: "py_int (JStr (py_str_int i)) = Inr i"
  by (simp add: int_of_str_str_int)

subsection \<open>Access that may raise\<close>

text \<open>\<^verbatim>\<open>v[key]\<close> and \<^verbatim>\<open>v.get(key, default)\<close> on a JSON value.\<close>

definition json_index :: "string \<Rightarrow> json \<Rightarrow> exc + json" where
  "json_index k v =
     (case v of
        JObj kvs \<Rightarrow> (case jget k kvs of Some x \<Rightarrow> Inr x | None \<Rightarrow> Inl (KeyError k))
      | _ \<Rightarrow> Inl (TypeError ''object is not subscriptable by a string''))"

definition json_get :: "string \<Rightarrow> json \<Rightarrow> json \<Rightarrow> exc + json" where
  "json_get k d v =
     (case v of JObj kvs \<Rightarrow> Inr (jget_or k d kvs) | _ \<Rightarrow> Inl (AttributeError ''get''))"

definition json_or :: "json \<Rightarrow> json \<Rightarrow> json" where
  "json_or v d = (if truthy v then v else d)"

definition str_field :: "json \<Rightarrow> exc + string" where
  "str_field v = (case v of JStr s \<Rightarrow> Inr s | _ \<Rightarrow> Inl (ValueError ''Input should be a valid string''))"

end
