(* ===== verification/Diff.thy ===== *)
theory Diff
  imports Domain Regex Json
begin

section \<open>Unified diffs\<close>

text \<open>
  \<^verbatim>\<open>forge/diff.py\<close>: parsing the \<^verbatim>\<open>patch\<close> field of a changed file into hunks, rendering the diff
  with explicit line numbers for a model, and the two retrieval queries built from it. The streaming
  parser is proved equal to a reference definition that cuts the patch at its headers and numbers the
  lines of the new file, so the lines a comment may be attached to are exactly the lines of the new
  side.
\<close>

subsection \<open>Parsing a patch\<close>

definition HUNK_HEADER :: rx where
  "HUNK_HEADER =
     rx_seq
       [Bol, Lit ''@@ -'', Grp ''old_start'' (rx_plus is_digit),
        rx_opt (Seq (Lit '','') (Grp ''old_lines'' (rx_plus is_digit))),
        Lit '' +'', Grp ''new_start'' (rx_plus is_digit),
        rx_opt (Seq (Lit '','') (Grp ''new_lines'' (rx_plus is_digit))),
        Lit '' @@'', Grp ''header'' (rx_star any_char), Eol]"

definition group_int :: "rx_pos \<Rightarrow> string \<Rightarrow> int" where
  "group_int m name =
     (case group_of name m of None \<Rightarrow> 1 | Some d \<Rightarrow> if d = [] then 1 else int (digits_value d))"

definition parse_header :: "string \<Rightarrow> hunk option" where
  "parse_header line =
     (case rx_match HUNK_HEADER line of
        None \<Rightarrow> None
      | Some m \<Rightarrow>
          Some \<lparr>h_old_start = group_int m ''old_start'', h_old_lines = group_int m ''old_lines'',
                h_new_start = group_int m ''new_start'', h_new_lines = group_int m ''new_lines'',
                h_header = py_strip (case group_of ''header'' m of None \<Rightarrow> [] | Some h \<Rightarrow> h),
                h_added_lines = [], h_context_lines = [], h_text = []\<rparr>)"

text \<open>The local variables of the loop of \<^verbatim>\<open>parse_patch\<close>.\<close>

record parse_state =
  ps_hunks :: "hunk list"
  ps_current :: "hunk option"
  ps_new_line :: int
  ps_buf :: "string list"

definition close_hunk :: "parse_state \<Rightarrow> hunk list" where
  "close_hunk st =
     (case ps_current st of
        None \<Rightarrow> ps_hunks st
      | Some h \<Rightarrow> ps_hunks st @ [h\<lparr>h_text := py_join NEWLINE (ps_buf st)\<rparr>])"

definition patch_step :: "parse_state \<Rightarrow> string \<Rightarrow> parse_state" where
  "patch_step st line =
     (case parse_header line of
        Some h \<Rightarrow>
          \<lparr>ps_hunks = close_hunk st, ps_current = Some h, ps_new_line = h_new_start h - 1,
           ps_buf = [line]\<rparr>
      | None \<Rightarrow>
          (case ps_current st of
             None \<Rightarrow> st
           | Some h \<Rightarrow>
               (let st' = st\<lparr>ps_buf := ps_buf st @ [line]\<rparr>; n = ps_new_line st + 1 in
                if startswith line ''+'' then
                  st'\<lparr>ps_new_line := n, ps_current := Some (h\<lparr>h_added_lines := h_added_lines h @ [n]\<rparr>)\<rparr>
                else if startswith line ''-'' then st'
                else if startswith line [CHR 0x5C] then st'
                else
                  st'\<lparr>ps_new_line := n,
                      ps_current := Some (h\<lparr>h_context_lines := h_context_lines h @ [n]\<rparr>)\<rparr>)))"

definition parse_patch :: "string \<Rightarrow> hunk list" where
  "parse_patch patch =
     close_hunk (foldl patch_step \<lparr>ps_hunks = [], ps_current = None, ps_new_line = 0, ps_buf = []\<rparr>
       (py_splitlines patch))"

subsection \<open>Building a file from GitHub's payload\<close>

definition build_diff_file :: "(string \<times> json) list \<Rightarrow> exc + diff_file" where
  "build_diff_file payload =
     (let patch_v = (case jget ''patch'' payload of
                       None \<Rightarrow> JStr [] | Some v \<Rightarrow> if truthy v then v else JStr []);
          status_v = jget_or ''status'' (JStr ''modified'') payload
      in case jget ''filename'' payload of
           None \<Rightarrow> Inl (KeyError ''filename'')
         | Some path_v \<Rightarrow>
             ebind (py_int (jget_or ''additions'' (JInt 0) payload)) (\<lambda>additions.
             ebind (py_int (jget_or ''deletions'' (JInt 0) payload)) (\<lambda>deletions.
             ebind (case patch_v of
                      JStr p \<Rightarrow> Inr p | _ \<Rightarrow> Inl (AttributeError ''splitlines'')) (\<lambda>patch.
             ebind (str_field path_v) (\<lambda>path.
             ebind (case jget ''previous_filename'' payload of
                      None \<Rightarrow> Inr None | Some JNull \<Rightarrow> Inr None
                    | Some v \<Rightarrow> ebind (str_field v) (\<lambda>s. Inr (Some s))) (\<lambda>previous.
             ebind (str_field status_v) (\<lambda>status.
               Inr \<lparr>df_path = path, df_previous_path = previous, df_status = status,
                    df_additions = additions, df_deletions = deletions,
                    df_hunks = parse_patch patch, df_patch = patch,
                    df_binary = (patch = [] \<and> jget ''status'' payload \<noteq> Some (JStr ''removed''))\<rparr>)))))))"

subsection \<open>Rendering for a prompt\<close>

definition added_row :: "int \<Rightarrow> string \<Rightarrow> string" where
  "added_row n text = rjust 6 (py_str_int n) @ '' + '' @ text"

definition context_row :: "int \<Rightarrow> string \<Rightarrow> string" where
  "context_row n text = rjust 6 (py_str_int n) @ ''   '' @ text"

fun render_lines :: "int \<Rightarrow> string list \<Rightarrow> string list" where
  "render_lines n [] = []"
| "render_lines n (line # lines) =
     (if startswith line ''+'' then added_row (n + 1) (drop 1 line) # render_lines (n + 1) lines
      else if startswith line ''-'' then (''       - '' @ drop 1 line) # render_lines n lines
      else if startswith line [CHR 0x5C] then render_lines n lines
      else context_row (n + 1) (if startswith line '' '' then drop 1 line else line) #
           render_lines (n + 1) lines)"

definition hunk_line :: "hunk \<Rightarrow> string" where
  "hunk_line h =
     ''@@ -'' @ py_str_int (h_old_start h) @ '','' @ py_str_int (h_old_lines h) @ '' +'' @
     py_str_int (h_new_start h) @ '','' @ py_str_int (h_new_lines h) @ '' @@ '' @ h_header h"

definition render_hunk :: "hunk \<Rightarrow> string list" where
  "render_hunk h =
     hunk_line h # render_lines (h_new_start h - 1) (drop 1 (py_splitlines (h_text h)))"

definition render_file :: "diff_file \<Rightarrow> string" where
  "render_file f =
     py_join NEWLINE
       ((''+++ '' @ df_path f @ ''  ('' @ df_status f @ '', +'' @ py_str_int (df_additions f) @ ''/-'' @
         py_str_int (df_deletions f) @ '')'') # concat (map render_hunk (df_hunks f)))"

text \<open>The loop over the files: the parts so far, the characters used, whether a file was left out.\<close>

definition render_step ::
  "nat \<Rightarrow> string list \<times> nat \<times> bool \<Rightarrow> diff_file \<Rightarrow> string list \<times> nat \<times> bool" where
  "render_step max_bytes acc f =
     (case acc of (out, used, truncated) \<Rightarrow>
        if df_binary f then
          (out @ [''+++ '' @ df_path f @ NEWLINE @ ''[binary file, '' @ py_str_int (df_additions f) @
                  '' additions]''], used, truncated)
        else if max_bytes < used + length (render_file f) then
          (out @ [''+++ '' @ df_path f @ NEWLINE @ ''[omitted: diff budget exhausted]''], used, True)
        else (out @ [render_file f], used + length (render_file f), truncated))"

definition render_for_prompt :: "diff_file list \<Rightarrow> nat \<Rightarrow> string \<times> bool" where
  "render_for_prompt files max_bytes =
     (case foldl (render_step max_bytes) ([], 0, False) files of
        (out, used, truncated) \<Rightarrow> (py_join (NEWLINE @ NEWLINE) out, truncated))"

subsection \<open>Retrieval queries\<close>

definition diff_query_text :: "diff_file list \<Rightarrow> nat \<Rightarrow> string" where
  "diff_query_text files limit =
     take limit (py_join '' ''
       (concat (map (\<lambda>f.
          py_replace CHR ''.'' CHR '' '' (py_replace CHR ''_'' CHR '' ''
            (py_replace CHR ''/'' CHR '' '' (df_path f))) #
          concat (map (\<lambda>h.
            (if h_header h \<noteq> [] then [h_header h] else []) @
            map (\<lambda>l. py_strip (drop 1 l))
              (filter (\<lambda>l. startswith l ''+'' \<and> \<not> startswith l ''+++'') (py_splitlines (h_text h))))
            (df_hunks f))) files)))"

definition IDENTIFIER :: rx where
  "IDENTIFIER =
     Seq (Chr (\<lambda>c. is_upper c \<or> is_lower c \<or> c = CHR ''_''))
         (Rep (\<lambda>c. is_alnum c \<or> c = CHR ''_'') 3 None True)"

definition STOPWORDS :: "string list" where
  "STOPWORDS =
     [''self'', ''none'', ''true'', ''false'', ''null'', ''this'', ''return'', ''import'', ''from'',
      ''class'', ''def'', ''func'', ''function'', ''const'', ''type'', ''interface'', ''struct'',
      ''public'', ''private'', ''static'', ''async'', ''await'', ''with'', ''else'', ''elif'',
      ''then'', ''when'', ''case'', ''while'', ''for'', ''and'', ''not'', ''the'', ''that'',
      ''value'', ''data'', ''item'', ''items'', ''args'', ''kwargs'', ''test'', ''tests'',
      ''assert'', ''raise'', ''throw'', ''catch'', ''except'', ''finally'', ''print'', ''string'',
      ''number'', ''boolean'', ''object'', ''list'', ''dict'', ''array'', ''param'', ''params'']"

text \<open>\<^verbatim>\<open>re.split(r"[/._-]", path)\<close>.\<close>

fun split_on :: "(char \<Rightarrow> bool) \<Rightarrow> string \<Rightarrow> string list" where
  "split_on p [] = [[]]"
| "split_on p (x # xs) =
     (if p x then [] # split_on p xs
      else (case split_on p xs of [] \<Rightarrow> [[x]] | f # fs \<Rightarrow> (x # f) # fs))"

fun bump :: "string \<Rightarrow> nat \<Rightarrow> (string \<times> nat) list \<Rightarrow> (string \<times> nat) list" where
  "bump k n [] = [(k, n)]"
| "bump k n ((k', m) # rest) = (if k = k' then (k', m + n) # rest else (k', m) # bump k n rest)"

definition path_terms :: "diff_file \<Rightarrow> (string \<times> nat) list" where
  "path_terms f =
     map (\<lambda>s. (py_lower s, 3))
       (filter (\<lambda>s. 4 \<le> length s \<and> py_lower s \<notin> set STOPWORDS)
         (split_on (\<lambda>c. c \<in> set ''/._-'') (df_path f)))"

definition line_terms :: "string \<Rightarrow> (string \<times> nat) list" where
  "line_terms line =
     (if \<not> startswith line ''+'' \<or> startswith line ''+++'' then []
      else map (\<lambda>t. (py_lower t, 1))
             (filter (\<lambda>t. py_lower t \<notin> set STOPWORDS) (rx_findall IDENTIFIER line)))"

definition file_terms :: "diff_file \<Rightarrow> (string \<times> nat) list" where
  "file_terms f =
     path_terms f @
     concat (map (\<lambda>h. concat (map line_terms (py_splitlines (h_text h)))) (df_hunks f))"

definition term_counts :: "diff_file list \<Rightarrow> (string \<times> nat) list" where
  "term_counts files = foldl (\<lambda>cs (k, n). bump k n cs) [] (concat (map file_terms files))"

definition fts_terms :: "diff_file list \<Rightarrow> nat \<Rightarrow> string list" where
  "fts_terms files max_terms =
     map fst (take max_terms (sort_key (\<lambda>(k, n). (- int n, k)) (term_counts files)))"

definition fts_query :: "diff_file list \<Rightarrow> nat \<Rightarrow> string" where
  "fts_query files max_terms = py_join '' or '' (fts_terms files max_terms)"

subsection \<open>The parser computes the reference reading of the patch\<close>

text \<open>The reference: lines before the first header are dropped, every header opens a segment that
  runs to the next header, and the lines of a segment that belong to the new file are numbered
  consecutively from the header's start.\<close>

definition deleted_line :: "string \<Rightarrow> bool" where
  "deleted_line l \<longleftrightarrow> startswith l ''-'' \<or> startswith l [CHR 0x5C]"

fun new_numbers :: "int \<Rightarrow> string list \<Rightarrow> (int \<times> string) list" where
  "new_numbers n [] = []"
| "new_numbers n (l # ls) =
     (if deleted_line l then new_numbers n ls else (n, l) # new_numbers (n + 1) ls)"

definition added_numbers :: "int \<Rightarrow> string list \<Rightarrow> int list" where
  "added_numbers n body = map fst (filter (\<lambda>(_, l). startswith l ''+'') (new_numbers n body))"

definition context_numbers :: "int \<Rightarrow> string list \<Rightarrow> int list" where
  "context_numbers n body = map fst (filter (\<lambda>(_, l). \<not> startswith l ''+'') (new_numbers n body))"

fun segments :: "string list \<Rightarrow> (hunk \<times> string \<times> string list) list" where
  "segments [] = []"
| "segments (l # ls) =
     (case parse_header l of
        None \<Rightarrow> segments ls
      | Some h \<Rightarrow> (h, l, takeWhile (\<lambda>x. parse_header x = None) ls) # segments ls)"

definition extend_hunk :: "hunk \<Rightarrow> int \<Rightarrow> string list \<Rightarrow> string list \<Rightarrow> hunk" where
  "extend_hunk h n buf body =
     h\<lparr>h_added_lines := h_added_lines h @ added_numbers n body,
       h_context_lines := h_context_lines h @ context_numbers n body,
       h_text := py_join NEWLINE (buf @ body)\<rparr>"

definition hunk_of_segment :: "hunk \<times> string \<times> string list \<Rightarrow> hunk" where
  "hunk_of_segment seg = (case seg of (h, l, body) \<Rightarrow> extend_hunk h (h_new_start h) [l] body)"

lemma plus_not_deleted: "startswith l ''+'' \<Longrightarrow> \<not> deleted_line l"
  by (cases l) (auto simp: deleted_line_def)

lemma numbers_Cons:
  "deleted_line l \<Longrightarrow> added_numbers n (l # ls) = added_numbers n ls"
  "deleted_line l \<Longrightarrow> context_numbers n (l # ls) = context_numbers n ls"
  "startswith l ''+'' \<Longrightarrow> added_numbers n (l # ls) = n # added_numbers (n + 1) ls"
  "startswith l ''+'' \<Longrightarrow> context_numbers n (l # ls) = context_numbers (n + 1) ls"
  "\<not> deleted_line l \<Longrightarrow> \<not> startswith l ''+'' \<Longrightarrow> added_numbers n (l # ls) = added_numbers (n + 1) ls"
  "\<not> deleted_line l \<Longrightarrow> \<not> startswith l ''+'' \<Longrightarrow> context_numbers n (l # ls) = n # context_numbers (n + 1) ls"
  by (auto simp: added_numbers_def context_numbers_def dest: plus_not_deleted)

text \<open>One line of a hunk's body: what the step makes of the open hunk.\<close>

definition body_hunk :: "hunk \<Rightarrow> int \<Rightarrow> string \<Rightarrow> hunk" where
  "body_hunk h n l =
     (if startswith l ''+'' then h\<lparr>h_added_lines := h_added_lines h @ [n]\<rparr>
      else if deleted_line l then h
      else h\<lparr>h_context_lines := h_context_lines h @ [n]\<rparr>)"

lemma patch_step_header:
  "parse_header l = Some h \<Longrightarrow>
     patch_step st l = \<lparr>ps_hunks = close_hunk st, ps_current = Some h, ps_new_line = h_new_start h - 1,
       ps_buf = [l]\<rparr>"
  by (simp add: patch_step_def)

lemma patch_step_skip: "parse_header l = None \<Longrightarrow> ps_current st = None \<Longrightarrow> patch_step st l = st"
  by (simp add: patch_step_def)

lemma patch_step_body:
  assumes "parse_header l = None" and "ps_current st = Some h"
  shows "patch_step st l =
      \<lparr>ps_hunks = ps_hunks st, ps_current = Some (body_hunk h (ps_new_line st + 1) l),
       ps_new_line = ps_new_line st + (if deleted_line l then 0 else 1), ps_buf = ps_buf st @ [l]\<rparr>"
  using assms plus_not_deleted [of l]
  by (cases st) (auto simp: patch_step_def Let_def body_hunk_def deleted_line_def)

lemma extend_body_hunk:
  "extend_hunk (body_hunk h n l) (n + (if deleted_line l then 0 else 1)) (buf @ [l]) body =
     extend_hunk h n buf (l # body)"
  using plus_not_deleted [of l] by (cases h) (simp add: extend_hunk_def body_hunk_def numbers_Cons)

lemma extend_hunk_Nil: "extend_hunk h n buf [] = h\<lparr>h_text := py_join NEWLINE buf\<rparr>"
  by (simp add: extend_hunk_def added_numbers_def context_numbers_def)

lemma parse_loop:
  "close_hunk (foldl patch_step st ls) =
     (case ps_current st of
        None \<Rightarrow> ps_hunks st
      | Some h \<Rightarrow> ps_hunks st @
          [extend_hunk h (ps_new_line st + 1) (ps_buf st) (takeWhile (\<lambda>x. parse_header x = None) ls)]) @
     map hunk_of_segment (segments ls)"
proof (induction ls arbitrary: st)
  case Nil
  then show ?case
    by (simp add: close_hunk_def extend_hunk_Nil split: option.splits)
next
  case (Cons l ls)
  show ?case
  proof (cases "parse_header l")
    case (Some h)
    have "close_hunk st = (case ps_current st of
        None \<Rightarrow> ps_hunks st
      | Some h \<Rightarrow> ps_hunks st @ [extend_hunk h (ps_new_line st + 1) (ps_buf st) []])"
      by (simp add: close_hunk_def extend_hunk_Nil split: option.split)
    with Some show ?thesis
      by (simp add: Cons.IH patch_step_header hunk_of_segment_def split: option.split)
  next
    case None
    show ?thesis
    proof (cases "ps_current st")
      case (Some h)
      have "ps_new_line st + 1 + (if deleted_line l then 0 else 1) =
          ps_new_line st + (if deleted_line l then 0 else 1) + 1"
        by simp
      with None Some extend_body_hunk [of h "ps_new_line st + 1" l "ps_buf st"] show ?thesis
        by (simp only: foldl_Cons Cons.IH patch_step_body [OF None Some]) simp
    next
      case no_hunk: None
      with None show ?thesis by (simp add: Cons.IH patch_step_skip)
    qed
  qed
qed

lemma parse_patch_segments:
  "parse_patch patch = map hunk_of_segment (segments (py_splitlines patch))"
  by (simp add: parse_patch_def parse_loop)

text \<open>C30. The streaming parser is the reference reading: \<^verbatim>\<open>parse_patch\<close> cuts the lines of the patch
  at the hunk headers and gives every hunk its text, the numbers of its added lines and the numbers of
  its context lines, counted from the start the header names.\<close>

theorem parse_patch_reference:
  "parse_patch patch = map hunk_of_segment (segments (py_splitlines patch))"
  by (rule parse_patch_segments)

text \<open>The lines of the new side are consecutive, and added and context lines divide them.\<close>

lemma new_numbers_upto:
  "map fst (new_numbers n body) = [n..n + int (length (filter (\<lambda>l. \<not> deleted_line l) body)) - 1]"
proof (induction body arbitrary: n)
  case (Cons l ls)
  have "[n..n + int (Suc k) - 1] = n # [n + 1..n + 1 + int k - 1]" for k
    by (subst upto_rec1) simp_all
  with Cons show ?case by simp
qed simp

lemma set_added_context:
  "set (added_numbers n body) \<union> set (context_numbers n body) =
     {n..n + int (length (filter (\<lambda>l. \<not> deleted_line l) body)) - 1}"
proof -
  have "set (added_numbers n body) \<union> set (context_numbers n body) = fst ` set (new_numbers n body)"
    by (force simp: added_numbers_def context_numbers_def)
  also have "\<dots> = set [n..n + int (length (filter (\<lambda>l. \<not> deleted_line l) body)) - 1]"
    using new_numbers_upto [of n body] by (metis set_map)
  finally show ?thesis by simp
qed

lemma new_numbers_distinct: "distinct (map fst (new_numbers n body))"
  by (simp add: new_numbers_upto)

lemma added_context_disjoint: "set (added_numbers n body) \<inter> set (context_numbers n body) = {}"
  using new_numbers_distinct [of n body]
  by (auto simp: added_numbers_def context_numbers_def dest: eq_key_imp_eq_value)

lemma hunk_of_segment_simps [simp]:
  "h_added_lines (hunk_of_segment (h, l, body)) = h_added_lines h @ added_numbers (h_new_start h) body"
  "h_context_lines (hunk_of_segment (h, l, body)) =
     h_context_lines h @ context_numbers (h_new_start h) body"
  "h_text (hunk_of_segment (h, l, body)) = py_join NEWLINE (l # body)"
  "h_new_start (hunk_of_segment (h, l, body)) = h_new_start h"
  by (simp_all add: hunk_of_segment_def extend_hunk_def)

lemma parse_header_fresh:
  "parse_header l = Some h \<Longrightarrow> h_added_lines h = [] \<and> h_context_lines h = [] \<and> h_text h = []"
  by (auto simp: parse_header_def split: option.splits)

lemma segments_header:
  "(h, l, body) \<in> set (segments ls) \<Longrightarrow>
     parse_header l = Some h \<and> l \<in> set ls \<and> set body \<subseteq> set ls \<and> (\<forall>x \<in> set body. parse_header x = None)"
proof (induction ls)
  case (Cons x xs)
  then show ?case
    by (auto split: option.splits dest: set_takeWhileD)
qed simp

text \<open>C31. The lines of a hunk that a comment may be attached to are the lines of the new file the hunk
  shows: an unbroken range that starts where the header says and is as long as the number of body
  lines that are neither deletions nor the no-newline marker, divided into added and context lines.\<close>

theorem parse_patch_lines:
  assumes "h \<in> set (parse_patch patch)"
  shows "\<exists>header body. h_text h = py_join NEWLINE (header # body) \<and> parse_header header \<noteq> None \<and>
    set (h_added_lines h) \<union> set (h_context_lines h) =
      {h_new_start h..h_new_start h + int (length (filter (\<lambda>l. \<not> deleted_line l) body)) - 1} \<and>
    set (h_added_lines h) \<inter> set (h_context_lines h) = {} \<and>
    length (h_added_lines h) = length (filter (\<lambda>l. startswith l ''+'') body)"
proof -
  from assms obtain h0 l body where seg: "(h0, l, body) \<in> set (segments (py_splitlines patch))"
    and h: "h = hunk_of_segment (h0, l, body)"
    unfolding parse_patch_segments by auto
  from segments_header [OF seg] have "parse_header l = Some h0" by blast
  moreover from parse_header_fresh [OF this] have "h_added_lines h0 = []" "h_context_lines h0 = []"
    by simp_all
  moreover have "length (added_numbers n body) = length (filter (\<lambda>l. startswith l ''+'') body)" for n
    by (induction body arbitrary: n)
      (auto simp: added_numbers_def dest: plus_not_deleted)
  ultimately show ?thesis
    using set_added_context [of "h_new_start h0" body] added_context_disjoint [of "h_new_start h0" body]
    unfolding h by (intro exI [of _ l] exI [of _ body]) simp
qed

lemma addressable_build:
  assumes "build_diff_file payload = Inr f"
  shows "df_hunks f = parse_patch (df_patch f)"
  using assms by (auto simp: build_diff_file_def Let_def ebind_Inr split: option.splits)

subsection \<open>Headers: printing and parsing\<close>

text \<open>An optional group of digits after a comma, with the comma present.\<close>

lemma mt_opt_comma:
  assumes "stops is_digit r" and "list_all is_digit ds" and "ds \<noteq> []" and "t = [] \<or> \<not> is_digit (hd t)"
    and "\<And>pv g. mt r (pv, '','' @ ds @ t, g) = []"
  shows "mt (Seq (rx_opt (Seq (Lit '','') (Grp name (rx_plus is_digit)))) r) (pv, '','' @ ds @ t, g) =
    mt r (Some (last ds), t, (name, ds) # g)"
proof -
  have "mt (Seq (Seq (Lit '','') (Grp name (rx_plus is_digit))) r) (pv, '','' @ ds @ t, g) =
      mt (Seq (Grp name (rx_plus is_digit)) r) (last_of pv '','', ds @ t, g)"
    unfolding mt_Seq_assoc mt_Seq_Lit by (rule refl)
  also have "\<dots> = mt r (last_of (last_of pv '','') ds, t, (name, ds) # g)"
    using assms(1-4) by (intro mt_commit_group) (simp_all add: Suc_le_eq)
  finally show ?thesis
    using assms(3,5) unfolding mt_Seq_opt by (simp add: last_of_def del: mt.simps)
qed

text \<open>A line that begins like a hunk header, with both line counts given.\<close>

definition header_text :: "string \<Rightarrow> string \<Rightarrow> string \<Rightarrow> string \<Rightarrow> string \<Rightarrow> string" where
  "header_text a b c d rest = ''@@ -'' @ a @ '','' @ b @ '' +'' @ c @ '','' @ d @ '' @@'' @ rest"

lemma mt_header:
  assumes ds: "list_all is_digit a" "list_all is_digit b" "list_all is_digit c" "list_all is_digit d"
    and ne: "a \<noteq> []" "b \<noteq> []" "c \<noteq> []" "d \<noteq> []" and rest: "list_all any_char rest"
  shows "rx_match HUNK_HEADER (header_text a b c d rest) =
    Some (last_of (Some CHR ''@'') rest, [],
      [(''header'', rest), (''new_lines'', d), (''new_start'', c), (''old_lines'', b), (''old_start'', a)])"
proof -
  define r8 where "r8 = Seq (Grp ''header'' (rx_star any_char)) Eol"
  define r7 where "r7 = Seq (Lit '' @@'') r8"
  define r6 where "r6 = Seq (rx_opt (Seq (Lit '','') (Grp ''new_lines'' (rx_plus is_digit)))) r7"
  define r5 where "r5 = Seq (Grp ''new_start'' (rx_plus is_digit)) r6"
  define r4 where "r4 = Seq (Lit '' +'') r5"
  define r3 where "r3 = Seq (rx_opt (Seq (Lit '','') (Grp ''old_lines'' (rx_plus is_digit)))) r4"
  define r2 where "r2 = Seq (Grp ''old_start'' (rx_plus is_digit)) r3"
  have H: "HUNK_HEADER = Seq Bol (Seq (Lit ''@@ -'') r2)"
    by (simp add: HUNK_HEADER_def r2_def r3_def r4_def r5_def r6_def r7_def r8_def)
  have nd: "\<not> is_digit CHR '' ''" "\<not> is_digit CHR '',''"
    by (simp_all add: is_digit_def code_def)
  have s7: "stops is_digit r7" and s4: "stops is_digit r4"
    unfolding r7_def r4_def using nd by (auto intro!: stops_Lit)
  have s6: "stops is_digit r6" and s3: "stops is_digit r3"
    unfolding r6_def r3_def using nd s7 s4 by (auto intro!: stops_opt stops_assoc stops_Lit)
  have e8: "mt r8 (pv, rest, g) = [(last_of pv rest, [], (''header'', rest) # g)]" for pv g
    using mt_commit_group [OF stops_any_Eol rest, of "[]" 0 "''header''" pv g]
    by (simp add: r8_def del: mt.simps) simp
  have e7: "mt r7 (pv, '' @@'' @ rest, g) = [(last_of (Some CHR ''@'') rest, [], (''header'', rest) # g)]" for pv g
    unfolding r7_def mt_Seq_Lit e8 by (simp add: last_of_def)
  have e6: "mt r6 (pv, '','' @ d @ '' @@'' @ rest, g) = mt r7 (Some (last d), '' @@'' @ rest, (''new_lines'', d) # g)" for pv g
    unfolding r6_def using ds ne nd s7
    by (intro mt_opt_comma) (simp_all add: r7_def mt_Seq_Lit_other del: mt.simps)
  have e5: "mt r5 (pv, c @ '','' @ d @ '' @@'' @ rest, g) =
      mt r6 (last_of pv c, '','' @ d @ '' @@'' @ rest, (''new_start'', c) # g)" for pv g
    unfolding r5_def using ds ne nd s6 by (intro mt_commit_group) (simp_all add: Suc_le_eq)
  have e3: "mt r3 (pv, '','' @ b @ '' +'' @ c @ '','' @ d @ '' @@'' @ rest, g) =
      mt r4 (Some (last b), '' +'' @ c @ '','' @ d @ '' @@'' @ rest, (''old_lines'', b) # g)" for pv g
    unfolding r3_def using ds ne nd s4
    by (intro mt_opt_comma) (simp_all add: r4_def mt_Seq_Lit_other del: mt.simps)
  have e2: "mt r2 (pv, a @ '','' @ b @ '' +'' @ c @ '','' @ d @ '' @@'' @ rest, g) =
      mt r3 (last_of pv a, '','' @ b @ '' +'' @ c @ '','' @ d @ '' @@'' @ rest, (''old_start'', a) # g)" for pv g
    unfolding r2_def using ds ne nd s3 by (intro mt_commit_group) (simp_all add: Suc_le_eq)
  have "mt HUNK_HEADER (None, header_text a b c d rest, []) =
      mt (Seq (Lit ''@@ -'') r2) (None, header_text a b c d rest, [])"
    unfolding H by simp
  also have "\<dots> = [(last_of (Some CHR ''@'') rest, [],
      [(''header'', rest), (''new_lines'', d), (''new_start'', c), (''old_lines'', b), (''old_start'', a)])]"
    unfolding header_text_def mt_Seq_Lit e2 e3 r4_def e5 e6 e7 by (rule refl)
  finally show ?thesis
    by (simp add: rx_match_def rx_match_at_def)
qed

text \<open>A hunk line printed for the prompt parses back: reading the header text that
  \<^verbatim>\<open>render_for_prompt\<close> writes for a hunk gives that hunk's four numbers and its trimmed header.\<close>

theorem hunk_line_roundtrip:
  assumes "0 \<le> h_old_start h" "0 \<le> h_old_lines h" "0 \<le> h_new_start h" "0 \<le> h_new_lines h"
    and "list_all any_char (h_header h)"
  shows "parse_header (hunk_line h) =
    Some (h\<lparr>h_header := py_strip ('' '' @ h_header h), h_added_lines := [], h_context_lines := [], h_text := []\<rparr>)"
proof -
  let ?n = "\<lambda>i. py_str_nat (nat i)"
  have "hunk_line h = header_text (?n (h_old_start h)) (?n (h_old_lines h)) (?n (h_new_start h))
      (?n (h_new_lines h)) ('' '' @ h_header h)"
    using assms(1-4) by (simp add: hunk_line_def header_text_def py_str_int_def)
  moreover have "list_all any_char ('' '' @ h_header h)"
    using assms(5) by (simp add: any_char_def)
  ultimately have "rx_match HUNK_HEADER (hunk_line h) =
    Some (last_of (Some CHR ''@'') ('' '' @ h_header h), [],
      [(''header'', '' '' @ h_header h), (''new_lines'', ?n (h_new_lines h)),
       (''new_start'', ?n (h_new_start h)), (''old_lines'', ?n (h_old_lines h)),
       (''old_start'', ?n (h_old_start h))])"
    using mt_header [OF py_str_nat_digits py_str_nat_digits py_str_nat_digits py_str_nat_digits]
    by simp
  then show ?thesis
    using assms(1-4) by (cases h) (simp add: parse_header_def group_int_def group_of_def)
qed

definition sample_hunk :: hunk where
  "sample_hunk =
     \<lparr>h_old_start = 1, h_old_lines = 2, h_new_start = 7, h_new_lines = 2, h_header = ''def f'',
      h_added_lines = [], h_context_lines = [], h_text = []\<rparr>"

lemma hunk_line_roundtrip_witness:
  "parse_header (hunk_line sample_hunk) = Some sample_hunk"
  using hunk_line_roundtrip [of sample_hunk]
  by (simp add: sample_hunk_def any_char_def py_strip_def py_lstrip_def py_rstrip_def is_space_def code_def)

definition sample_patch :: string where
  "sample_patch = py_join NEWLINE [''@@ -1,2 +7,2 @@ def f'', '' a'', ''-b'', ''+c'']"

lemma sample_patch_parse:
  "parse_patch sample_patch =
     [sample_hunk\<lparr>h_added_lines := [8], h_context_lines := [7], h_text := sample_patch\<rparr>]"
  by code_simp

lemma parse_patch_lines_witness:
  "\<exists>header body. sample_patch = py_join NEWLINE (header # body) \<and> parse_header header \<noteq> None"
  using parse_patch_lines [of "sample_hunk\<lparr>h_added_lines := [8], h_context_lines := [7], h_text := sample_patch\<rparr>"
      sample_patch]
  unfolding sample_patch_parse by auto

definition sample_pr :: pull_request where
  "sample_pr =
     \<lparr>pr_repo_full_name = ''o/r'', pr_repo_github_id = 1, pr_is_private = True, pr_number = 4,
      pr_title = ''t'', pr_body = [], pr_author = ''a'', pr_head_sha = ''h'', pr_base_sha = ''b'',
      pr_base_ref = ''main'',
      pr_files = [\<lparr>df_path = ''a.py'', df_previous_path = None, df_status = ''modified'',
        df_additions = 1, df_deletions = 1, df_hunks = parse_patch sample_patch,
        df_patch = sample_patch, df_binary = False\<rparr>],
      pr_truncated = False\<rparr>"

end
