(* ===== verification/Grounding.thy ===== *)
theory Grounding
  imports Diff
begin

section \<open>Grounding what a model says in the diff\<close>

text \<open>
  The parsing half of \<^verbatim>\<open>agents/base.py\<close>: a model's answer is read as JSON, and every finding in
  it is tied to a file of the pull request and to lines the diff shows, or dropped. Not under the
  sources and therefore arguments of the definitions:
  \<^item> \<open>loads\<close>, the JSON reader (\<^const>\<open>None\<close> is \<^verbatim>\<open>JSONDecodeError\<close>), and \<open>repr_of\<close>,
    Python's text for floats and containers;
  \<^item> \<open>int_field\<close>, Pydantic's reading of a JSON value for a field of type \<^verbatim>\<open>int | None\<close>;
  \<^item> \<open>order\<close>, the order in which Python iterates over a set of integers, which decides between two
    lines that are equally near;
  \<^item> \<open>new_id\<close>, the fresh identifier of a finding.
\<close>

definition SNAP_WINDOW :: int where
  "SNAP_WINDOW = 3"

definition MAX_EVIDENCE :: nat where
  "MAX_EVIDENCE = 12"

text \<open>\<^verbatim>\<open>min(xs, key=k)\<close>: the first element with the smallest key.\<close>

fun min_by :: "('a \<Rightarrow> int) \<Rightarrow> 'a \<Rightarrow> 'a list \<Rightarrow> 'a" where
  "min_by key best [] = best"
| "min_by key best (x # xs) = min_by key (if key x < key best then x else best) xs"

definition nearest_line :: "(int set \<Rightarrow> int list) \<Rightarrow> int set \<Rightarrow> int \<Rightarrow> int" where
  "nearest_line order lines start =
     (case order lines of [] \<Rightarrow> start | n # ns \<Rightarrow> min_by (\<lambda>n. \<bar>n - start\<bar>) n ns)"

subsection \<open>Coercions\<close>

definition coerce_category :: "(json \<Rightarrow> string) \<Rightarrow> json \<Rightarrow> category" where
  "coerce_category repr_of v =
     (case category_of_str (py_lower (py_str repr_of v)) of None \<Rightarrow> OTHER | Some c \<Rightarrow> c)"

definition coerce_severity :: "(json \<Rightarrow> string) \<Rightarrow> json \<Rightarrow> severity" where
  "coerce_severity repr_of v =
     (case severity_of_str (py_lower (py_str repr_of v)) of None \<Rightarrow> MINOR | Some c \<Rightarrow> c)"

text \<open>The elements a \<^verbatim>\<open>for\<close> loop over a JSON value visits; a number is not iterable.\<close>

definition json_iter :: "json \<Rightarrow> exc + json list" where
  "json_iter v =
     (case v of
        JList xs \<Rightarrow> Inr xs
      | JObj kvs \<Rightarrow> Inr (map (\<lambda>kv. JStr (fst kv)) kvs)
      | JStr s \<Rightarrow> Inr (map (\<lambda>c. JStr [c]) s)
      | _ \<Rightarrow> Inl (TypeError ''object is not iterable''))"

definition or_empty :: "json \<Rightarrow> json" where
  "or_empty v = (if truthy v then v else JList [])"

definition evidence_item ::
  "(json \<Rightarrow> string) \<Rightarrow> (json \<Rightarrow> int option option) \<Rightarrow> string \<Rightarrow> json \<Rightarrow> evidence option" where
  "evidence_item repr_of int_field default_path v =
     (case v of
        JObj item \<Rightarrow>
          (case (int_field (jget_or ''line_start'' JNull item), int_field (jget_or ''line_end'' JNull item)) of
             (Some ls, Some le) \<Rightarrow>
               Some \<lparr>e_kind = py_str repr_of (jget_or ''kind'' (JStr ''diff'') item),
                     e_file_path = (let p = jget_or ''file_path'' JNull item
                                    in if truthy p then py_str repr_of p else default_path),
                     e_line_start = ls, e_line_end = le,
                     e_excerpt = take 500 (py_str repr_of (jget_or ''excerpt'' (JStr []) item))\<rparr>
           | _ \<Rightarrow> None)
      | _ \<Rightarrow> None)"

definition evidence_of ::
  "(json \<Rightarrow> string) \<Rightarrow> (json \<Rightarrow> int option option) \<Rightarrow> json \<Rightarrow> string \<Rightarrow> exc + evidence list" where
  "evidence_of repr_of int_field raw default_path =
     ebind (json_iter (or_empty raw)) (\<lambda>items.
       Inr (take MAX_EVIDENCE (List.map_filter (evidence_item repr_of int_field default_path) items)))"

subsection \<open>Grounding one finding\<close>

definition find_diff_file :: "pull_request \<Rightarrow> string \<Rightarrow> diff_file option" where
  "find_diff_file pr path =
     (case pr_file pr path of
        Some f \<Rightarrow> Some f
      | None \<Rightarrow>
          (case filter (\<lambda>f. endswith (df_path f) path \<or> endswith path (df_path f)) (pr_files pr) of
             [f] \<Rightarrow> Some f
           | _ \<Rightarrow> None))"

definition raw_numbers :: "(string \<times> json) list \<Rightarrow> exc + int \<times> int \<times> pyfloat" where
  "raw_numbers raw =
     ebind (py_int (jget_or ''line_start'' (JInt 0) raw)) (\<lambda>start.
     ebind (py_int (jget_or ''line_end'' (JInt start) raw)) (\<lambda>end_line.
     ebind (py_float (jget_or ''confidence'' (JFloat (Fin 0)) raw)) (\<lambda>confidence.
       Inr (start, end_line, confidence))))"

definition snap_lines ::
  "(int set \<Rightarrow> int list) \<Rightarrow> int set \<Rightarrow> int \<Rightarrow> int \<Rightarrow> (int \<times> int \<times> bool) option" where
  "snap_lines order lines start end_line =
     (if start \<notin> lines then
        (let nearest = nearest_line order lines start in
         if SNAP_WINDOW < \<bar>nearest - start\<bar> then None
         else
           (let end1 = max nearest (min end_line (Max lines))
            in Some (nearest, max nearest (min end1 (Max lines)), True)))
      else Some (start, max start (min end_line (Max lines)), False))"

definition raw_finding ::
  "(json \<Rightarrow> string) \<Rightarrow> agent_type \<Rightarrow> uuid \<Rightarrow> (string \<times> json) list \<Rightarrow> string \<Rightarrow> int \<Rightarrow> int \<Rightarrow> pyfloat \<Rightarrow>
     evidence list \<Rightarrow> finding" where
  "raw_finding repr_of agent new_id raw path ls le confidence ev =
     \<lparr>f_id = new_id, f_agent = agent,
      f_category = coerce_category repr_of (jget_or ''category'' JNull raw),
      f_severity = coerce_severity repr_of (jget_or ''severity'' JNull raw),
      f_file_path = path, f_line_start = ls, f_line_end = le,
      f_title = take 200 (py_str repr_of (jget_or ''title'' (JStr []) raw)),
      f_body = take 4000 (py_str repr_of (jget_or ''body'' (JStr []) raw)),
      f_rationale = take 4000 (py_str repr_of (jget_or ''rationale'' (JStr []) raw)),
      f_confidence = clamp_unit confidence, f_evidence = ev, f_agreeing = [], f_categories = [],
      f_merged_into = None\<rparr>"

definition raw_path :: "(json \<Rightarrow> string) \<Rightarrow> (string \<times> json) list \<Rightarrow> string" where
  "raw_path repr_of raw =
     py_lstrip_chars ''./'' (py_str repr_of (jget_or ''file_path'' (JStr []) raw))"

definition ground ::
  "(json \<Rightarrow> string) \<Rightarrow> (json \<Rightarrow> int option option) \<Rightarrow> (int set \<Rightarrow> int list) \<Rightarrow> agent_type \<Rightarrow>
     pull_request \<Rightarrow> uuid \<Rightarrow> (string \<times> json) list \<Rightarrow> exc + (finding \<times> bool) option" where
  "ground repr_of int_field order agent pr new_id raw =
     (case find_diff_file pr (raw_path repr_of raw) of
        None \<Rightarrow> Inr None
      | Some f \<Rightarrow>
          (if addressable_lines f = {} then Inr None
           else case raw_numbers raw of
             Inl e \<Rightarrow> (if isinstance_any e [TypeError_c, ValueError_c] then Inr None else Inl e)
           | Inr (start, end_line, confidence) \<Rightarrow>
               (case snap_lines order (addressable_lines f) start end_line of
                  None \<Rightarrow> Inr None
                | Some (ls, le, was_snapped) \<Rightarrow>
                    ebind (evidence_of repr_of int_field (jget_or ''evidence'' JNull raw) (df_path f)) (\<lambda>ev.
                      Inr (map_option (\<lambda>x. (x, was_snapped)) (validate_finding
                        (raw_finding repr_of agent new_id raw (df_path f) ls le confidence ev)))))))"

subsection \<open>Parsing an answer\<close>

definition find_first :: "char \<Rightarrow> string \<Rightarrow> nat option" where
  "find_first c s = (if c \<in> set s then Some (length (takeWhile (\<lambda>x. x \<noteq> c) s)) else None)"

definition find_last :: "char \<Rightarrow> string \<Rightarrow> nat option" where
  "find_last c s =
     (if c \<in> set s then Some (length s - 1 - length (takeWhile (\<lambda>x. x \<noteq> c) (rev s))) else None)"

definition salvage_json :: "(string \<Rightarrow> json option) \<Rightarrow> string \<Rightarrow> (string \<times> json) list option" where
  "salvage_json loads text =
     (case (find_first CHR 0x7B text, find_last CHR 0x7D text) of
        (Some i, Some j) \<Rightarrow>
          (if j \<le> i then None
           else (case loads (take (j + 1 - i) (drop i text)) of Some (JObj kvs) \<Rightarrow> Some kvs | _ \<Rightarrow> None))
      | _ \<Rightarrow> None)"

record parsed =
  p_findings :: "finding list"
  p_dropped :: nat
  p_snapped :: nat
  p_summary :: string

definition parse_item ::
  "((string \<times> json) list \<Rightarrow> uuid \<Rightarrow> exc + (finding \<times> bool) option) \<Rightarrow> parsed \<Rightarrow> uuid \<Rightarrow> json \<Rightarrow> exc + parsed" where
  "parse_item grounder acc new_id raw =
     (case raw of
        JObj kvs \<Rightarrow>
          ebind (grounder kvs new_id) (\<lambda>g. Inr (case g of
              None \<Rightarrow> acc\<lparr>p_dropped := p_dropped acc + 1\<rparr>
            | Some (f, was_snapped) \<Rightarrow>
                acc\<lparr>p_snapped := p_snapped acc + (if was_snapped then 1 else 0),
                    p_findings := p_findings acc @ [f]\<rparr>))
      | _ \<Rightarrow> Inr (acc\<lparr>p_dropped := p_dropped acc + 1\<rparr>))"

fun parse_items ::
  "((string \<times> json) list \<Rightarrow> uuid \<Rightarrow> exc + (finding \<times> bool) option) \<Rightarrow> parsed \<Rightarrow> uuid \<Rightarrow> json list \<Rightarrow> exc + parsed" where
  "parse_items grounder acc new_id [] = Inr acc"
| "parse_items grounder acc new_id (r # rs) =
     ebind (parse_item grounder acc new_id r) (\<lambda>acc'. parse_items grounder acc' (new_id + 1) rs)"

definition parse_answer ::
  "(string \<Rightarrow> json option) \<Rightarrow> (json \<Rightarrow> string) \<Rightarrow> (json \<Rightarrow> int option option) \<Rightarrow> (int set \<Rightarrow> int list) \<Rightarrow>
     agent_type \<Rightarrow> pull_request \<Rightarrow> uuid \<Rightarrow> string \<Rightarrow> exc + parsed" where
  "parse_answer loads repr_of int_field order agent pr new_id text =
     (let payload = (case loads text of
                       Some v \<Rightarrow> Some v
                     | None \<Rightarrow> map_option JObj (salvage_json loads text))
      in case payload of
           None \<Rightarrow> Inr \<lparr>p_findings = [], p_dropped = 0, p_snapped = 0,
                         p_summary = ''(model returned unparseable output)''\<rparr>
         | Some (JObj kvs) \<Rightarrow>
             ebind (json_iter (or_empty (jget_or ''findings'' (JList []) kvs)))
               (parse_items (\<lambda>raw i. ground repr_of int_field order agent pr i raw)
                  \<lparr>p_findings = [], p_dropped = 0, p_snapped = 0,
                   p_summary = take 1000 (py_str repr_of (jget_or ''summary'' (JStr []) kvs))\<rparr> new_id)
         | Some _ \<Rightarrow> Inl (AttributeError ''get''))"

subsection \<open>Every finding that survives is grounded\<close>

lemma min_by_in: "min_by key b xs \<in> insert b (set xs)"
  by (induction xs arbitrary: b) (auto split: if_splits)

lemma min_by_le: "y \<in> insert b (set xs) \<Longrightarrow> key (min_by key b xs) \<le> key y"
proof (induction xs arbitrary: b y)
  case (Cons x xs)
  let ?b = "if key x < key b then x else b"
  have "key (min_by key ?b xs) \<le> key ?b" by (rule Cons.IH) simp
  moreover have "key ?b \<le> key b" "key ?b \<le> key x" by simp_all
  moreover have "y \<in> set xs \<Longrightarrow> key (min_by key ?b xs) \<le> key y" by (rule Cons.IH) simp
  ultimately show ?case using Cons.prems by (auto intro: order_trans)
qed simp

lemma nearest_line_in:
  "set (order lines) = lines \<Longrightarrow> lines \<noteq> {} \<Longrightarrow> nearest_line order lines start \<in> lines"
  using min_by_in [of "\<lambda>n. \<bar>n - start\<bar>"] by (fastforce simp: nearest_line_def split: list.splits)

lemma nearest_line_least:
  "set (order lines) = lines \<Longrightarrow> n \<in> lines \<Longrightarrow> \<bar>nearest_line order lines start - start\<bar> \<le> \<bar>n - start\<bar>"
  using min_by_le [of n _ _ "\<lambda>n. \<bar>n - start\<bar>"] by (fastforce simp: nearest_line_def split: list.splits)

lemma finite_addressable [simp]: "finite (addressable_lines f)"
  by (simp add: addressable_lines_def)

lemma find_diff_file_in: "find_diff_file pr path = Some f \<Longrightarrow> f \<in> set (pr_files pr)"
  unfolding find_diff_file_def pr_file_def
  by (auto simp: find_Some_iff split: option.splits list.splits
      dest!: arg_cong [of "filter _ _" "[_]" set])

lemma snap_lines_sound:
  assumes "snap_lines order lines start end_line = Some (ls, le, snapped)"
    and "set (order lines) = lines" "lines \<noteq> {}" "finite lines"
  shows "ls \<in> lines \<and> ls \<le> le \<and> le \<le> Max lines \<and> \<bar>ls - start\<bar> \<le> SNAP_WINDOW \<and>
    (snapped \<longleftrightarrow> start \<notin> lines) \<and> (\<forall>n \<in> lines. \<bar>ls - start\<bar> \<le> \<bar>n - start\<bar>)"
proof -
  let ?n = "nearest_line order lines start"
  have n: "?n \<in> lines" "\<forall>n \<in> lines. \<bar>?n - start\<bar> \<le> \<bar>n - start\<bar>"
    using assms(2,3) by (auto simp: nearest_line_in nearest_line_least)
  then have "?n \<le> Max lines" "\<And>x. x \<in> lines \<Longrightarrow> x \<le> Max lines"
    using assms(4) by simp_all
  with n assms(1) show ?thesis
    by (auto simp: snap_lines_def SNAP_WINDOW_def Let_def split: if_splits)
qed

lemma evidence_of_length: "evidence_of repr_of int_field raw p = Inr ev \<Longrightarrow> length ev \<le> MAX_EVIDENCE"
  by (auto simp: evidence_of_def ebind_Inr)

text \<open>What a grounded finding satisfies, for a pull request.\<close>

definition grounded :: "agent_type \<Rightarrow> pull_request \<Rightarrow> finding \<Rightarrow> bool" where
  "grounded agent pr f \<longleftrightarrow>
     f_agent f = agent \<and> wf_finding f \<and> f_merged_into f = None \<and>
     length (f_evidence f) \<le> MAX_EVIDENCE \<and> length (f_title f) \<le> 200 \<and>
     (\<exists>df \<in> set (pr_files pr). f_file_path f = df_path df \<and>
        f_line_start f \<in> addressable_lines df \<and> f_line_end f \<le> Max (addressable_lines df))"

lemma validate_finding_Some:
  "validate_finding f = Some g \<Longrightarrow>
     wf_finding g \<and> g = f\<lparr>f_line_end := max (f_line_end f) (f_line_start f),
       f_title := py_strip (f_title f), f_rationale := py_strip (f_rationale f)\<rparr>"
  by (auto simp: validate_finding_wf) (auto simp: validate_finding_def split: if_splits)

lemma raw_finding_simps [simp]:
  "f_agent (raw_finding repr_of agent new_id raw path ls le confidence ev) = agent"
  "f_file_path (raw_finding repr_of agent new_id raw path ls le confidence ev) = path"
  "f_line_start (raw_finding repr_of agent new_id raw path ls le confidence ev) = ls"
  "f_line_end (raw_finding repr_of agent new_id raw path ls le confidence ev) = le"
  "f_evidence (raw_finding repr_of agent new_id raw path ls le confidence ev) = ev"
  "f_merged_into (raw_finding repr_of agent new_id raw path ls le confidence ev) = None"
  "f_title (raw_finding repr_of agent new_id raw path ls le confidence ev) =
     take 200 (py_str repr_of (jget_or ''title'' (JStr []) raw))"
  "f_rationale (raw_finding repr_of agent new_id raw path ls le confidence ev) =
     take 4000 (py_str repr_of (jget_or ''rationale'' (JStr []) raw))"
  "f_confidence (raw_finding repr_of agent new_id raw path ls le confidence ev) = clamp_unit confidence"
  by (simp_all add: raw_finding_def)

lemma ground_cases:
  assumes "ground repr_of int_field order agent pr new_id raw = Inr (Some (g, snapped))"
  obtains df start end_line conf ls le ev where
    "find_diff_file pr (raw_path repr_of raw) = Some df"
    "addressable_lines df \<noteq> {}" "raw_numbers raw = Inr (start, end_line, conf)"
    "snap_lines order (addressable_lines df) start end_line = Some (ls, le, snapped)"
    "evidence_of repr_of int_field (jget_or ''evidence'' JNull raw) (df_path df) = Inr ev"
    "validate_finding (raw_finding repr_of agent new_id raw (df_path df) ls le conf ev) = Some g"
  using assms unfolding ground_def
  by (auto simp: ebind_Inr split: option.splits sum.splits prod.splits if_splits) blast

lemma ground_grounded:
  assumes "ground repr_of int_field order agent pr new_id raw = Inr (Some (g, snapped))"
    and order: "\<And>A. finite A \<Longrightarrow> set (order A) = A"
  shows "grounded agent pr g"
  using assms(1)
proof (rule ground_cases)
  fix df :: diff_file and start end_line conf ls le ev
  let ?f0 = "raw_finding repr_of agent new_id raw (df_path df) ls le conf ev"
  assume a: "find_diff_file pr (raw_path repr_of raw) = Some df" "addressable_lines df \<noteq> {}"
    "snap_lines order (addressable_lines df) start end_line = Some (ls, le, snapped)"
    "evidence_of repr_of int_field (jget_or ''evidence'' JNull raw) (df_path df) = Inr ev"
    "validate_finding ?f0 = Some g"
  from snap_lines_sound [OF a(3) order a(2)] have snap: "ls \<in> addressable_lines df" "ls \<le> le"
    "le \<le> Max (addressable_lines df)" by simp_all
  have wf: "wf_finding g"
    by (rule conjunct1 [OF validate_finding_Some [OF a(5)]])
  have g: "g = ?f0\<lparr>f_line_end := max le ls, f_title := py_strip (f_title ?f0),
      f_rationale := py_strip (f_rationale ?f0)\<rparr>"
    using conjunct2 [OF validate_finding_Some [OF a(5)]] by simp
  have "f_agent g = agent" "f_merged_into g = None" "f_evidence g = ev" "f_file_path g = df_path df"
    "f_line_start g = ls" "f_line_end g = le" "f_title g = py_strip (f_title ?f0)"
    using snap(2) by (simp_all add: g)
  moreover have "length (py_strip (f_title ?f0)) \<le> 200"
    using length_py_strip by (rule order_trans) simp
  ultimately show ?thesis
    using snap wf find_diff_file_in [OF a(1)] evidence_of_length [OF a(4)]
    unfolding grounded_def by auto
qed

text \<open>A finding that cites a file of the diff by its path and a line the diff shows, with a title and
  a rationale, is never dropped and keeps the line it cites.\<close>

lemma ground_complete:
  assumes "pr_file pr (raw_path repr_of raw) = Some df" and "raw_numbers raw = Inr (start, end_line, conf)"
    and "start \<in> addressable_lines df"
    and "evidence_of repr_of int_field (jget_or ''evidence'' JNull raw) (df_path df) = Inr ev"
    and "py_strip (take 200 (py_str repr_of (jget_or ''title'' (JStr []) raw))) \<noteq> []"
    and "py_strip (take 4000 (py_str repr_of (jget_or ''rationale'' (JStr []) raw))) \<noteq> []"
  shows "\<exists>g. ground repr_of int_field order agent pr new_id raw = Inr (Some (g, False)) \<and>
    f_file_path g = df_path df \<and> f_line_start g = start"
  using assms clamp_unit_bounds [of conf]
  by (auto simp: ground_def find_diff_file_def snap_lines_def validate_finding_def)

lemma parse_items_sound:
  assumes "parse_items grounder acc i rs = Inr r"
    and "\<And>raw j f b. grounder raw j = Inr (Some (f, b)) \<Longrightarrow> P f"
    and "\<forall>f \<in> set (p_findings acc). P f"
  shows "(\<forall>f \<in> set (p_findings r). P f) \<and>
    length (p_findings r) + p_dropped r = length (p_findings acc) + p_dropped acc + length rs"
  using assms(1,3)
proof (induction rs arbitrary: acc i)
  case (Cons x xs)
  from Cons.prems(1) obtain acc' where acc': "parse_item grounder acc i x = Inr acc'"
    "parse_items grounder acc' (i + 1) xs = Inr r"
    by (auto simp: ebind_Inr)
  have "(\<forall>f \<in> set (p_findings acc'). P f) \<and>
      length (p_findings acc') + p_dropped acc' = length (p_findings acc) + p_dropped acc + 1"
    using acc'(1) Cons.prems(2) assms(2)
    by (auto simp: parse_item_def ebind_Inr split: json.splits option.splits prod.splits)
  with Cons.IH [OF acc'(2)] show ?case by simp
qed simp

lemma answer_sound:
  assumes "parse_answer loads repr_of int_field order agent pr new_id text = Inr r"
    and "\<And>A. finite A \<Longrightarrow> set (order A) = A"
  shows "(\<forall>f \<in> set (p_findings r). grounded agent pr f) \<and>
    (\<forall>kvs items. loads text = Some (JObj kvs) \<and>
       json_iter (or_empty (jget_or ''findings'' (JList []) kvs)) = Inr items \<longrightarrow>
       length (p_findings r) + p_dropped r = length items)"
proof -
  let ?g = "\<lambda>raw i. ground repr_of int_field order agent pr i raw"
  have P: "?g raw j = Inr (Some (f, b)) \<Longrightarrow> grounded agent pr f" for raw j f b
    using ground_grounded [OF _ assms(2)] by blast
  show ?thesis
    using assms(1) parse_items_sound [where P = "grounded agent pr" and grounder = ?g, OF _ P]
    unfolding parse_answer_def Let_def
    by (fastforce simp: ebind_Inr split: option.splits json.splits)
qed

lemmas answer_grounded = answer_sound [THEN conjunct1]

text \<open>C12. Grounding: whatever a model writes, every finding kept from its answer names a file of the
  pull request, starts on a line the diff shows, ends no later than the last such line, has a
  confidence between 0 and 1, a title and a rationale, and at most twelve pieces of evidence; and the
  findings kept and the items dropped account for every item of the answer.\<close>

theorem parse_answer_grounded:
  assumes "parse_answer loads repr_of int_field order agent pr new_id text = Inr r"
    and "\<And>A. finite A \<Longrightarrow> set (order A) = A"
  shows "(\<forall>f \<in> set (p_findings r). grounded agent pr f) \<and>
    (\<forall>kvs items. loads text = Some (JObj kvs) \<and>
       json_iter (or_empty (jget_or ''findings'' (JList []) kvs)) = Inr items \<longrightarrow>
       length (p_findings r) + p_dropped r = length items)"
  using assms by (rule answer_sound)

definition sample_answer :: json where
  "sample_answer =
     JObj [(''summary'', JStr ''one''),
           (''findings'', JList
             [JObj [(''file_path'', JStr ''./a.py''), (''line_start'', JInt 10), (''title'', JStr ''t''),
                    (''rationale'', JStr ''r''), (''confidence'', JInt 2)],
              JObj [(''file_path'', JStr ''b.py''), (''line_start'', JInt 8)]])]"

definition sample_parsed :: "exc + parsed" where
  "sample_parsed =
     parse_answer (\<lambda>_. Some sample_answer) (\<lambda>_. []) (\<lambda>_. Some None) sorted_list_of_set SECURITY
       sample_pr 1 []"

lemma sample_parsed_value:
  "(case sample_parsed of
      Inl _ \<Rightarrow> None
    | Inr r \<Rightarrow> Some (map f_line_start (p_findings r), p_dropped r, p_snapped r)) = Some ([8], 1, 1)"
  by code_simp

lemma parse_answer_grounded_witness:
  "\<exists>r. sample_parsed = Inr r \<and> (\<forall>f \<in> set (p_findings r). grounded SECURITY sample_pr f) \<and>
     length (p_findings r) = 1"
proof -
  obtain r where r: "sample_parsed = Inr r" "length (p_findings r) = 1"
    using sample_parsed_value by (auto split: sum.splits)
  with parse_answer_grounded [of "\<lambda>_. Some sample_answer" "\<lambda>_. []" "\<lambda>_. Some None" sorted_list_of_set
      SECURITY sample_pr 1 "[]" r]
  show ?thesis by (simp add: sample_parsed_def)
qed

end
