(* ===== verification/Retry.thy ===== *)
theory Retry
  imports Exceptions
begin

section \<open>Retry with exponential backoff\<close>

text \<open>
  \<^verbatim>\<open>reliability/retry.py\<close>. The function that is retried is a state transformer that returns a
  value or raises, so a call through the circuit breaker can be retried; the result of a retried call
  is its outcome, the state after the last attempt and the delays slept in between. The jitter is an
  argument: \<open>jitter k c\<close> is what \<^verbatim>\<open>random.uniform(0, c)\<close> returned before the next attempt after
  attempt \<open>k\<close>.
\<close>

record retry_policy =
  rp_attempts :: nat
  rp_base_delay :: real
  rp_max_delay :: real
  rp_retry_on :: "exc_class list"
  rp_give_up_on :: "exc_class list"

definition default_policy :: retry_policy where
  "default_policy =
     \<lparr>rp_attempts = 3, rp_base_delay = 1 / 2, rp_max_delay = 20, rp_retry_on = [Exception_c],
      rp_give_up_on = []\<rparr>"

definition delay_ceiling :: "retry_policy \<Rightarrow> nat \<Rightarrow> real" where
  "delay_ceiling p attempt = min (rp_max_delay p) (rp_base_delay p * 2 ^ attempt)"

definition delay_for :: "(nat \<Rightarrow> real \<Rightarrow> real) \<Rightarrow> retry_policy \<Rightarrow> nat \<Rightarrow> real" where
  "delay_for jitter p attempt = jitter attempt (delay_ceiling p attempt)"

type_synonym ('s, 'a) effect = "'s \<Rightarrow> (exc + 'a) \<times> 's"

text \<open>The exceptions after which the loop goes on: not cancellation, not on the give-up list, and on the
  retry list.\<close>

definition retryable :: "retry_policy \<Rightarrow> exc \<Rightarrow> bool" where
  "retryable p e \<longleftrightarrow>
     \<not> exc_isinstance e CancelledError_c \<and> \<not> isinstance_any e (rp_give_up_on p) \<and>
     isinstance_any e (rp_retry_on p)"

function retry_loop ::
  "(nat \<Rightarrow> real \<Rightarrow> real) \<Rightarrow> (exc \<Rightarrow> real option) \<Rightarrow> retry_policy \<Rightarrow> ('s, 'a) effect \<Rightarrow> nat \<Rightarrow> exc option \<Rightarrow>
     real list \<Rightarrow> 's \<Rightarrow> (exc + 'a) \<times> 's \<times> real list" where
  "retry_loop jitter retry_after p fn attempt last_exc slept s =
     (if attempt < rp_attempts p then
        (case fn s of
           (Inr x, s') \<Rightarrow> (Inr x, s', slept)
         | (Inl e, s') \<Rightarrow>
             (if \<not> retryable p e then (Inl e, s', slept)
              else if attempt = rp_attempts p - 1 then
                (Inl (RetryExhausted (rp_attempts p) e), s', slept)
              else
                (let delay = (case retry_after e of Some d \<Rightarrow> d | None \<Rightarrow> delay_for jitter p attempt)
                 in retry_loop jitter retry_after p fn (attempt + 1) (Some e) (slept @ [delay]) s')))
      else
        ((case last_exc of None \<Rightarrow> Inl AssertionError | Some e \<Rightarrow> Inl (RetryExhausted (rp_attempts p) e)),
         s, slept))"
  by pat_completeness auto
termination by (relation "measure (\<lambda>(j, r, p, fn, attempt, l, sl, s). rp_attempts p - attempt)") auto

declare retry_loop.simps [simp del]

definition with_retry ::
  "(nat \<Rightarrow> real \<Rightarrow> real) \<Rightarrow> (exc \<Rightarrow> real option) \<Rightarrow> retry_policy \<Rightarrow> ('s, 'a) effect \<Rightarrow> 's \<Rightarrow>
     (exc + 'a) \<times> 's \<times> real list" where
  "with_retry jitter retry_after p fn s = retry_loop jitter retry_after p fn 0 None [] s"

lemma retry_loop_next:
  assumes "fn s = (Inl e, s')" and "retryable p e" and "attempt + 1 < rp_attempts p"
  shows "retry_loop jitter retry_after p fn attempt l slept s =
    retry_loop jitter retry_after p fn (attempt + 1) (Some e)
      (slept @ [case retry_after e of Some d \<Rightarrow> d | None \<Rightarrow> delay_for jitter p attempt]) s'"
proof -
  have "attempt < rp_attempts p" "attempt \<noteq> rp_attempts p - 1" using assms(3) by simp_all
  with assms(1,2) show ?thesis by (subst retry_loop.simps) simp
qed

subsection \<open>The attempts a retried call makes\<close>

text \<open>The states and results of calling a function again and again.\<close>

fun state_at :: "('s, 'a) effect \<Rightarrow> nat \<Rightarrow> 's \<Rightarrow> 's" where
  "state_at fn 0 s = s"
| "state_at fn (Suc k) s = state_at fn k (snd (fn s))"

definition outcome_at :: "('s, 'a) effect \<Rightarrow> nat \<Rightarrow> 's \<Rightarrow> exc + 'a" where
  "outcome_at fn k s = fst (fn (state_at fn k s))"

lemma outcome_at_Suc: "outcome_at fn (Suc k) s = outcome_at fn k (snd (fn s))"
  by (simp add: outcome_at_def)

lemma outcome_at_0: "outcome_at fn 0 s = fst (fn s)"
  by (simp add: outcome_at_def)

text \<open>\<open>stops_at\<close>: attempt \<open>k\<close> is the first that does not raise a retryable exception.\<close>

definition stops_at :: "retry_policy \<Rightarrow> ('s, 'a) effect \<Rightarrow> nat \<Rightarrow> 's \<Rightarrow> bool" where
  "stops_at p fn k s \<longleftrightarrow>
     (\<forall>j < k. \<exists>e. outcome_at fn j s = Inl e \<and> retryable p e) \<and>
     (\<forall>e. outcome_at fn k s = Inl e \<longrightarrow> \<not> retryable p e)"

lemma stops_at_Suc:
  "stops_at p fn (Suc k) s \<longleftrightarrow>
     (\<exists>e. fst (fn s) = Inl e \<and> retryable p e) \<and> stops_at p fn k (snd (fn s))"
  unfolding stops_at_def outcome_at_Suc [symmetric]
  by (auto simp: outcome_at_0 less_Suc_eq_0_disj)

lemma stops_at_0: "stops_at p fn 0 s \<longleftrightarrow> (\<forall>e. fst (fn s) = Inl e \<longrightarrow> \<not> retryable p e)"
  by (simp add: stops_at_def outcome_at_0)

lemma retry_loop_stops:
  "stops_at p fn k s \<Longrightarrow> attempt + k < rp_attempts p \<Longrightarrow>
     \<exists>d. length d = k \<and>
       retry_loop jitter retry_after p fn attempt l slept s =
         (outcome_at fn k s, state_at fn (Suc k) s, slept @ d)"
proof (induction k arbitrary: attempt s l slept)
  case 0
  then show ?case
    by (subst retry_loop.simps) (auto simp: stops_at_0 outcome_at_0 split: prod.splits sum.splits)
next
  case (Suc k)
  from Suc.prems(1) obtain e where e: "fst (fn s) = Inl e" "retryable p e"
    and st: "stops_at p fn k (snd (fn s))"
    unfolding stops_at_Suc by blast
  obtain s' where s': "fn s = (Inl e, s')" using e(1) by (metis prod.collapse)
  let ?delay = "case retry_after e of Some d \<Rightarrow> d | None \<Rightarrow> delay_for jitter p attempt"
  have "attempt \<noteq> rp_attempts p - 1" "attempt < rp_attempts p" "attempt + 1 + k < rp_attempts p"
    using Suc.prems(2) by auto
  with Suc.IH [OF st, of "attempt + 1" "Some e" "slept @ [?delay]"] obtain d where
    "length d = k" "retry_loop jitter retry_after p fn (attempt + 1) (Some e) (slept @ [?delay]) s' =
      (outcome_at fn k s', state_at fn (Suc k) s', (slept @ [?delay]) @ d)"
    by (auto simp: s')
  with s' e(2) \<open>attempt \<noteq> _\<close> \<open>attempt < _\<close> show ?case
    by (subst retry_loop.simps) (auto simp: outcome_at_Suc intro!: exI [of _ "?delay # d"])
qed

lemma retry_loop_exhausts:
  assumes "\<forall>j < rp_attempts p - attempt. \<exists>e. outcome_at fn j s = Inl e \<and> retryable p e"
    and "attempt < rp_attempts p"
  shows "\<exists>e d. outcome_at fn (rp_attempts p - attempt - 1) s = Inl e \<and>
    length d = rp_attempts p - attempt - 1 \<and>
    retry_loop jitter retry_after p fn attempt l slept s =
      (Inl (RetryExhausted (rp_attempts p) e), state_at fn (rp_attempts p - attempt) s, slept @ d)"
  using assms
proof (induction "rp_attempts p - attempt - 1" arbitrary: attempt s l slept)
  case 0
  then have one: "rp_attempts p = Suc attempt" by simp
  from 0(2) one obtain e where "outcome_at fn 0 s = Inl e" "retryable p e" by auto
  then obtain s' where "fn s = (Inl e, s')" by (metis outcome_at_0 prod.collapse)
  with one \<open>retryable p e\<close> show ?case
    by (subst retry_loop.simps) (auto simp: outcome_at_def)
next
  case (Suc k)
  then have rest: "rp_attempts p - attempt = Suc (rp_attempts p - (attempt + 1))"
    "attempt + 1 < rp_attempts p" by auto
  from Suc.prems(1) rest obtain e where e: "outcome_at fn 0 s = Inl e" "retryable p e" by fastforce
  then obtain s' where s': "fn s = (Inl e, s')" by (metis outcome_at_0 prod.collapse)
  let ?delay = "case retry_after e of Some d \<Rightarrow> d | None \<Rightarrow> delay_for jitter p attempt"
  have "\<forall>j < rp_attempts p - (attempt + 1). \<exists>e. outcome_at fn j s' = Inl e \<and> retryable p e"
    using Suc.prems(1) rest(1) by (auto simp: outcome_at_Suc [of fn _ s, unfolded s', simplified, symmetric])
  with Suc.hyps rest obtain x d where x: "outcome_at fn (rp_attempts p - (attempt + 1) - 1) s' = Inl x"
    "length d = rp_attempts p - (attempt + 1) - 1"
    "retry_loop jitter retry_after p fn (attempt + 1) (Some e) (slept @ [?delay]) s' =
      (Inl (RetryExhausted (rp_attempts p) x), state_at fn (rp_attempts p - (attempt + 1)) s',
       (slept @ [?delay]) @ d)"
    by (metis Suc_eq_plus1 diff_Suc_1 diff_diff_left)
  have loop: "retry_loop jitter retry_after p fn attempt l slept s =
      retry_loop jitter retry_after p fn (attempt + 1) (Some e) (slept @ [?delay]) s'"
    using s' e(2) rest(2) by (rule retry_loop_next)
  obtain m where m: "rp_attempts p = Suc (Suc (attempt + m))"
    using rest(2) by (metis Suc_eq_plus1 add_Suc less_iff_Suc_add)
  show ?case
    unfolding loop x(3) using x(1,2) s' m
    by (intro exI [of _ x] exI [of _ "?delay # d"]) (simp add: outcome_at_Suc)
qed

lemma stops_or_all_retryable:
  fixes fn :: "('s, 'a) effect"
  shows "(\<exists>k < n. stops_at p fn k s) \<or> (\<forall>j < n. \<exists>e. outcome_at fn j s = Inl e \<and> retryable p e)"
proof (rule disjCI)
  assume "\<not> (\<forall>j < n. \<exists>e. outcome_at fn j s = Inl e \<and> retryable p e)"
  then obtain j where j: "j < n" "\<not> (\<exists>e. outcome_at fn j s = Inl e \<and> retryable p e)" by blast
  define k where "k = (LEAST j. \<not> (\<exists>e. outcome_at fn j s = Inl e \<and> retryable p e))"
  have "\<not> (\<exists>e. outcome_at fn k s = Inl e \<and> retryable p e)"
    unfolding k_def by (rule LeastI) (rule j(2))
  moreover have "\<exists>e. outcome_at fn i s = Inl e \<and> retryable p e" if "i < k" for i
    using not_less_Least [of i] that unfolding k_def by blast
  moreover have "k \<le> j" unfolding k_def by (rule Least_le) (rule j(2))
  ultimately have "stops_at p fn k s" "k < n" using j(1) by (auto simp: stops_at_def)
  then show "\<exists>k < n. stops_at p fn k s" by blast
qed

lemma retry_cases:
  assumes "0 < rp_attempts p"
  shows "(\<exists>k d. k < rp_attempts p \<and> stops_at p fn k s \<and> length d = k \<and>
       with_retry jitter retry_after p fn s = (outcome_at fn k s, state_at fn (Suc k) s, d)) \<or>
     (\<exists>e d. (\<forall>j < rp_attempts p. \<exists>x. outcome_at fn j s = Inl x \<and> retryable p x) \<and>
       outcome_at fn (rp_attempts p - 1) s = Inl e \<and> length d = rp_attempts p - 1 \<and>
       with_retry jitter retry_after p fn s =
         (Inl (RetryExhausted (rp_attempts p) e), state_at fn (rp_attempts p) s, d))"
  using stops_or_all_retryable [of "rp_attempts p" p fn s]
proof
  assume "\<exists>k < rp_attempts p. stops_at p fn k s"
  then obtain k where k: "k < rp_attempts p" "stops_at p fn k s" by blast
  with retry_loop_stops [OF k(2), of 0] show ?thesis
    unfolding with_retry_def by (metis add_0 append_Nil)
next
  assume all: "\<forall>j < rp_attempts p. \<exists>e. outcome_at fn j s = Inl e \<and> retryable p e"
  with retry_loop_exhausts [of p 0 fn s] assms obtain e d where
    "outcome_at fn (rp_attempts p - 1) s = Inl e" "length d = rp_attempts p - 1"
    "with_retry jitter retry_after p fn s =
       (Inl (RetryExhausted (rp_attempts p) e), state_at fn (rp_attempts p) s, d)"
    unfolding with_retry_def by (metis append_Nil diff_zero)
  with all show ?thesis by blast
qed

text \<open>C16. What a retried call does, for a policy with at least one attempt. Either some attempt within
  the limit is the first that returns or raises an exception that is not retryable: then the call ends
  with exactly that outcome, after exactly that many attempts and one delay before each later one. Or
  every attempt raises a retryable exception: then all attempts are made and the call raises
  \<^verbatim>\<open>RetryExhausted\<close> with the last of them.\<close>

theorem with_retry_outcome:
  assumes "0 < rp_attempts p"
  shows "(\<exists>k d. k < rp_attempts p \<and> stops_at p fn k s \<and> length d = k \<and>
       with_retry jitter retry_after p fn s = (outcome_at fn k s, state_at fn (Suc k) s, d)) \<or>
     (\<exists>e d. (\<forall>j < rp_attempts p. \<exists>x. outcome_at fn j s = Inl x \<and> retryable p x) \<and>
       outcome_at fn (rp_attempts p - 1) s = Inl e \<and> length d = rp_attempts p - 1 \<and>
       with_retry jitter retry_after p fn s =
         (Inl (RetryExhausted (rp_attempts p) e), state_at fn (rp_attempts p) s, d))"
  using assms by (rule retry_cases)

lemma with_retry_outcome_witness:
  "\<exists>e d. with_retry (\<lambda>_ c. c) (\<lambda>_. None) default_policy (\<lambda>n::nat. (Inl (LLMError ''x'') :: exc + unit, n + 1)) 0 =
     (Inl (RetryExhausted 3 e), 3, d) \<and> length d = 2"
proof -
  let ?fn = "\<lambda>n::nat. (Inl (LLMError ''x'') :: exc + unit, n + 1)"
  have "retryable default_policy (LLMError ''x'')"
    by (simp add: retryable_def default_policy_def isinstance_any_def)
  then have "\<not> stops_at default_policy ?fn k 0" for k
    by (simp add: stops_at_def outcome_at_def)
  moreover have "state_at ?fn k n = k + n" for k n
    by (induction k arbitrary: n) simp_all
  ultimately show ?thesis
    using with_retry_outcome [of default_policy ?fn 0 "\<lambda>_ c. c" "\<lambda>_. None"]
    by (auto simp: default_policy_def)
qed

text \<open>Cancellation and exceptions outside the policy are raised at once, unchanged.\<close>

lemma with_retry_first_fatal:
  assumes "fn s = (Inl e, s')" and "\<not> retryable p e" and "0 < rp_attempts p"
  shows "with_retry jitter retry_after p fn s = (Inl e, s', [])"
  using assms unfolding with_retry_def by (subst retry_loop.simps) simp

lemma with_retry_first_ok:
  assumes "fn s = (Inr x, s')" and "0 < rp_attempts p"
  shows "with_retry jitter retry_after p fn s = (Inr x, s', [])"
  using assms unfolding with_retry_def by (subst retry_loop.simps) simp

text \<open>Every delay is the one the server asked for or lies below the ceiling of the policy.\<close>

lemma retry_loop_delays:
  assumes "\<And>k c. 0 \<le> c \<Longrightarrow> 0 \<le> jitter k c \<and> jitter k c \<le> c"
    and "0 \<le> rp_base_delay p" "0 \<le> rp_max_delay p"
    and "\<And>d. d \<in> set slept \<Longrightarrow> (0 \<le> d \<and> d \<le> rp_max_delay p) \<or> (\<exists>e. retry_after e = Some d)"
    and "d \<in> set (snd (snd (retry_loop jitter retry_after p fn attempt l slept s)))"
  shows "(0 \<le> d \<and> d \<le> rp_max_delay p) \<or> (\<exists>e. retry_after e = Some d)"
  using assms(4,5)
proof (induction "rp_attempts p - attempt" arbitrary: attempt l slept s)
  case 0
  then show ?case by (subst (asm) retry_loop.simps) simp
next
  case (Suc k)
  have "0 \<le> delay_ceiling p attempt" "delay_ceiling p attempt \<le> rp_max_delay p"
    using assms(2,3) by (simp_all add: delay_ceiling_def)
  with assms(1) [of "delay_ceiling p attempt" attempt]
  have j: "0 \<le> delay_for jitter p attempt \<and> delay_for jitter p attempt \<le> rp_max_delay p"
    by (simp add: delay_for_def)
  obtain r s' where r: "fn s = (r, s')" by fastforce
  show ?case
  proof (cases "\<exists>e. r = Inl e \<and> retryable p e \<and> attempt \<noteq> rp_attempts p - 1")
    case False
    with Suc r show ?thesis
      by (subst (asm) (2) retry_loop.simps) (auto split: if_splits sum.splits)
  next
    case True
    then obtain e where e: "r = Inl e" "retryable p e" "attempt \<noteq> rp_attempts p - 1" by blast
    let ?delay = "case retry_after e of Some d \<Rightarrow> d | None \<Rightarrow> delay_for jitter p attempt"
    have "retry_loop jitter retry_after p fn attempt l slept s =
        retry_loop jitter retry_after p fn (attempt + 1) (Some e) (slept @ [?delay]) s'"
      using Suc.hyps(2) r e by (intro retry_loop_next) simp_all
    moreover have "d' \<in> set (slept @ [?delay]) \<Longrightarrow>
        (0 \<le> d' \<and> d' \<le> rp_max_delay p) \<or> (\<exists>e. retry_after e = Some d')" for d'
      using Suc.prems(1) [of d'] j by (auto split: option.splits)
    moreover have "k = rp_attempts p - (attempt + 1)" using Suc.hyps(2) by simp
    ultimately show ?thesis
      using Suc.hyps(1) [of "attempt + 1" "slept @ [?delay]" "Some e" s'] Suc.prems(2) by simp
  qed
qed

end
