(* ===== verification/Circuit.thy ===== *)
theory Circuit
  imports Retry Transition
begin

section \<open>The circuit breaker\<close>

text \<open>
  \<^verbatim>\<open>reliability/circuit.py\<close>. A breaker is a record; the clock (\<^verbatim>\<open>time.monotonic()\<close>) is an
  argument of every operation that reads it. \<open>breaker_call\<close> is one call with nothing else going
  on; because \<^verbatim>\<open>call\<close> awaits the wrapped function between admitting it and recording its result,
  the concurrent behaviour is the step relation \<open>cb_step\<close>, where calls are admitted, rejected and
  completed in any order while the clock advances.
\<close>

datatype cb_state = CLOSED | OPEN | HALF_OPEN

record breaker =
  cb_name :: string
  cb_failure_threshold :: int
  cb_recovery_time :: real
  cb_success_threshold :: int
  cb_state_field :: cb_state
  cb_failures :: int
  cb_successes :: int
  cb_opened_at :: real

definition new_breaker :: "string \<Rightarrow> int \<Rightarrow> real \<Rightarrow> int \<Rightarrow> breaker" where
  "new_breaker name failure_threshold recovery_time success_threshold =
     \<lparr>cb_name = name, cb_failure_threshold = failure_threshold, cb_recovery_time = recovery_time,
      cb_success_threshold = success_threshold, cb_state_field = CLOSED, cb_failures = 0,
      cb_successes = 0, cb_opened_at = 0\<rparr>"

text \<open>The property \<^verbatim>\<open>state\<close>: reading it moves an open breaker whose recovery time is over to
  half open.\<close>

definition read_state :: "real \<Rightarrow> breaker \<Rightarrow> breaker" where
  "read_state now cb =
     (if cb_state_field cb = OPEN \<and> cb_recovery_time cb \<le> now - cb_opened_at cb
      then cb\<lparr>cb_state_field := HALF_OPEN, cb_successes := 0\<rparr> else cb)"

definition on_success :: "breaker \<Rightarrow> breaker" where
  "on_success cb =
     (if cb_state_field cb = HALF_OPEN then
        (let cb' = cb\<lparr>cb_successes := cb_successes cb + 1\<rparr> in
         if cb_success_threshold cb' \<le> cb_successes cb'
         then cb'\<lparr>cb_state_field := CLOSED, cb_failures := 0\<rparr> else cb')
      else cb\<lparr>cb_failures := 0\<rparr>)"

definition on_failure :: "real \<Rightarrow> breaker \<Rightarrow> breaker" where
  "on_failure now cb =
     (let cb' = cb\<lparr>cb_failures := cb_failures cb + 1\<rparr> in
      if cb_state_field cb' = HALF_OPEN \<or> cb_failure_threshold cb' \<le> cb_failures cb'
      then cb'\<lparr>cb_state_field := OPEN, cb_opened_at := now\<rparr> else cb')"

text \<open>What happens to the breaker when the awaited call ends: cancellation and the like are not
  \<^verbatim>\<open>Exception\<close>s and leave no trace.\<close>

definition record_result :: "real \<Rightarrow> exc + 'a \<Rightarrow> breaker \<Rightarrow> breaker" where
  "record_result now r cb =
     (case r of
        Inl e \<Rightarrow> if exc_isinstance e Exception_c then on_failure now cb else cb
      | Inr _ \<Rightarrow> on_success cb)"

text \<open>One call: the clock is read when the state is checked (\<open>t0\<close>), for the message of a rejection
  (\<open>t1\<close>) and when a failure is recorded (\<open>t2\<close>). The wrapped function works on a state of
  its own.\<close>

definition breaker_call ::
  "real \<Rightarrow> real \<Rightarrow> real \<Rightarrow> ('s, 'a) effect \<Rightarrow> breaker \<times> 's \<Rightarrow> (exc + 'a) \<times> breaker \<times> 's" where
  "breaker_call t0 t1 t2 fn st =
     (case st of (cb, s) \<Rightarrow>
        let cb' = read_state t0 cb in
        if cb_state_field cb' = OPEN
        then (Inl (CircuitOpen (cb_name cb') (cb_recovery_time cb' - (t1 - cb_opened_at cb'))), cb', s)
        else (case fn s of (r, s') \<Rightarrow> (r, record_result t2 r cb', s')))"

subsection \<open>The registry\<close>

definition get_breaker ::
  "string \<Rightarrow> int \<Rightarrow> real \<Rightarrow> int \<Rightarrow> (string \<rightharpoonup> breaker) \<Rightarrow> breaker \<times> (string \<rightharpoonup> breaker)" where
  "get_breaker name ft rt st reg =
     (case reg name of
        Some cb \<Rightarrow> (cb, reg)
      | None \<Rightarrow> (let cb = new_breaker name ft rt st in (cb, reg(name \<mapsto> cb))))"

definition reset_all :: "(string \<rightharpoonup> breaker) \<Rightarrow> (string \<rightharpoonup> breaker)" where
  "reset_all reg = Map.empty"

lemma get_breaker_stable:
  "get_breaker name ft rt st reg = (cb, reg') \<Longrightarrow> get_breaker name ft' rt' st' reg' = (cb, reg')"
  by (auto simp: get_breaker_def Let_def split: option.splits)

subsection \<open>Concurrent callers\<close>

record cb_world =
  w_cb :: breaker
  w_now :: real
  w_inflight :: nat

inductive cb_step :: "cb_world \<Rightarrow> cb_world \<Rightarrow> bool" where
  tick: "w_now w \<le> t \<Longrightarrow> cb_step w (w\<lparr>w_now := t\<rparr>)"
| admit: "cb_state_field (read_state (w_now w) (w_cb w)) \<noteq> OPEN \<Longrightarrow>
    cb_step w (w\<lparr>w_cb := read_state (w_now w) (w_cb w), w_inflight := w_inflight w + 1\<rparr>)"
| reject: "cb_state_field (read_state (w_now w) (w_cb w)) = OPEN \<Longrightarrow>
    cb_step w (w\<lparr>w_cb := read_state (w_now w) (w_cb w)\<rparr>)"
| complete: "0 < w_inflight w \<Longrightarrow>
    cb_step w (w\<lparr>w_cb := record_result (w_now w) (r :: exc + unit) (w_cb w), w_inflight := w_inflight w - 1\<rparr>)"

inductive_cases cb_stepE: "cb_step w w'"

definition cb_init :: "cb_world \<Rightarrow> bool" where
  "cb_init w \<longleftrightarrow>
     (\<exists>name ft rt st. w_cb w = new_breaker name ft rt st \<and> 0 < ft \<and> 0 \<le> rt \<and> 0 < st) \<and>
     0 \<le> w_now w \<and> w_inflight w = 0"

definition cb_inv :: "cb_world \<Rightarrow> bool" where
  "cb_inv w \<longleftrightarrow>
     0 < cb_failure_threshold (w_cb w) \<and> 0 < cb_success_threshold (w_cb w) \<and>
     0 \<le> cb_recovery_time (w_cb w) \<and> 0 \<le> cb_failures (w_cb w) \<and> 0 \<le> cb_successes (w_cb w) \<and>
     cb_opened_at (w_cb w) \<le> w_now w \<and>
     (cb_state_field (w_cb w) = CLOSED \<longrightarrow> cb_failures (w_cb w) < cb_failure_threshold (w_cb w)) \<and>
     (cb_state_field (w_cb w) = HALF_OPEN \<longrightarrow> cb_successes (w_cb w) < cb_success_threshold (w_cb w))"

lemmas cb_ops = read_state_def on_success_def on_failure_def record_result_def Let_def

interpretation cb: invariant_system cb_init cb_step cb_inv
proof
  fix w assume "cb_init w"
  then show "cb_inv w" by (auto simp: cb_init_def cb_inv_def new_breaker_def)
next
  fix w w' assume inv: "cb_inv w" and step: "cb_step w w'"
  from step show "cb_inv w'"
  proof (cases rule: cb_step.cases)
    case (tick t)
    with inv show ?thesis by (auto simp: cb_inv_def)
  next
    case admit
    with inv show ?thesis by (auto simp: cb_inv_def read_state_def split: if_splits)
  next
    case reject
    with inv show ?thesis by (auto simp: cb_inv_def read_state_def split: if_splits)
  next
    case (complete r)
    with inv show ?thesis
      by (cases "cb_state_field (w_cb w)"; cases r) (auto simp: cb_inv_def cb_ops)
  qed
qed

text \<open>C17. Whatever the interleaving of its callers, a breaker that is closed has seen fewer consecutive
  failures than its threshold, one that is half open fewer successful probes than it needs to close,
  and the counters and the opening time stay within their ranges.\<close>

theorem breaker_invariant:
  assumes "reachable cb_init cb_step w"
  shows "cb_inv w"
  using assms by (rule cb.reachable_inv)

lemma breaker_invariant_witness:
  "cb_inv \<lparr>w_cb = new_breaker ''llm'' 5 30 2, w_now = 7, w_inflight = 1\<rparr>"
proof -
  let ?w = "\<lparr>w_cb = new_breaker ''llm'' 5 30 2, w_now = 7, w_inflight = 0\<rparr>"
  have "reachable cb_init cb_step ?w"
    by (rule reach_init) (force simp: cb_init_def)
  moreover have "cb_step ?w (?w\<lparr>w_cb := read_state (w_now ?w) (w_cb ?w), w_inflight := w_inflight ?w + 1\<rparr>)"
    by (rule admit) (simp add: read_state_def new_breaker_def)
  ultimately have "reachable cb_init cb_step
      (?w\<lparr>w_cb := read_state (w_now ?w) (w_cb ?w), w_inflight := w_inflight ?w + 1\<rparr>)"
    by (rule reach_step)
  from breaker_invariant [OF this] show ?thesis
    by (simp add: read_state_def new_breaker_def)
qed

subsection \<open>An open breaker stays open for its recovery time\<close>

lemma cb_step_open:
  assumes "cb_step w w'" and "cb_state_field (w_cb w) = OPEN"
    and "w_now w' < cb_opened_at (w_cb w) + cb_recovery_time (w_cb w)"
    and "cb_opened_at (w_cb w) \<le> w_now w"
  shows "cb_state_field (w_cb w') = OPEN \<and> cb_opened_at (w_cb w) \<le> cb_opened_at (w_cb w') \<and>
    cb_opened_at (w_cb w') \<le> w_now w' \<and> w_now w \<le> w_now w' \<and>
    cb_recovery_time (w_cb w') = cb_recovery_time (w_cb w)"
  using assms
proof (cases rule: cb_step.cases)
  case (complete r)
  with assms show ?thesis by (cases r) (auto simp: cb_ops)
qed (auto simp: read_state_def split: if_splits)

text \<open>C18. Once a breaker is open, every attempt made before its recovery time is over is rejected, however
  calls that were already under way end: it is still open, and it can only have been opened again
  later.\<close>

theorem open_breaker_rejects:
  assumes "steps cb_step w w'" and "cb_state_field (w_cb w) = OPEN"
    and "cb_opened_at (w_cb w) \<le> w_now w"
    and "w_now w' < cb_opened_at (w_cb w) + cb_recovery_time (w_cb w)"
  shows "cb_state_field (read_state (w_now w') (w_cb w')) = OPEN"
proof -
  have "cb_state_field (w_cb w') = OPEN \<and> cb_opened_at (w_cb w) \<le> cb_opened_at (w_cb w') \<and>
    cb_opened_at (w_cb w') \<le> w_now w' \<and> w_now w \<le> w_now w' \<and>
    cb_recovery_time (w_cb w') = cb_recovery_time (w_cb w)"
    using assms
  proof (induction rule: steps.induct)
    case (steps_step s t u)
    have "w_now t \<le> w_now u" using steps_step.hyps(2) by (cases rule: cb_step.cases) auto
    with steps_step have "cb_state_field (w_cb t) = OPEN \<and> cb_opened_at (w_cb s) \<le> cb_opened_at (w_cb t) \<and>
      cb_opened_at (w_cb t) \<le> w_now t \<and> w_now s \<le> w_now t \<and>
      cb_recovery_time (w_cb t) = cb_recovery_time (w_cb s)"
      by linarith
    with cb_step_open [OF steps_step.hyps(2)] steps_step.prems show ?case by auto
  qed simp
  with assms(4) show ?thesis by (simp add: read_state_def)
qed

lemma open_breaker_rejects_witness:
  "cb_state_field (read_state 20 (on_failure 1 ((new_breaker ''github'' 1 30 2)))) = OPEN"
proof -
  let ?w = "\<lparr>w_cb = on_failure 1 (new_breaker ''github'' 1 30 2), w_now = 1, w_inflight = 0\<rparr>"
  have "cb_step ?w (?w\<lparr>w_now := 20\<rparr>)"
    by (rule tick) simp
  then have "steps cb_step ?w (?w\<lparr>w_now := 20\<rparr>)"
    by (rule steps_step [where step = cb_step, OF steps_refl])
  from open_breaker_rejects [OF this] show ?thesis
    by (simp add: on_failure_def new_breaker_def Let_def)
qed

text \<open>A rejection names a positive waiting time, no longer than the recovery time, if the clock has not
  moved on between the test and the message.\<close>

lemma breaker_call_rejects:
  assumes "breaker_call t t t2 fn (cb, s) = (Inl (CircuitOpen n d), cb', s')" and "cb_opened_at cb \<le> t"
    and "cb_state_field (read_state t cb) = OPEN"
  shows "0 < d \<and> d \<le> cb_recovery_time cb \<and> s' = s"
  using assms by (auto simp: breaker_call_def Let_def read_state_def split: if_splits)

text \<open>Failures in a row open a closed breaker at the threshold; one failed probe opens it again.\<close>

fun fail_times :: "nat \<Rightarrow> real \<Rightarrow> breaker \<Rightarrow> breaker" where
  "fail_times 0 now cb = cb"
| "fail_times (Suc n) now cb = fail_times n now (on_failure now cb)"

lemma fail_times_opens:
  assumes "cb_state_field cb = CLOSED" and "0 \<le> cb_failures cb" and "0 < n"
    and "cb_failures cb + int n = cb_failure_threshold cb"
  shows "cb_state_field (fail_times n now cb) = OPEN \<and> cb_opened_at (fail_times n now cb) = now"
  using assms
proof (induction n arbitrary: cb)
  case (Suc n)
  show ?case
  proof (cases "n = 0")
    case True
    with Suc.prems show ?thesis by (simp add: on_failure_def Let_def)
  next
    case False
    let ?cb = "on_failure now cb"
    have "cb_state_field ?cb = CLOSED" "0 \<le> cb_failures ?cb"
      "cb_failures ?cb + int n = cb_failure_threshold ?cb"
      using Suc.prems False by (auto simp: on_failure_def Let_def)
    with Suc.IH [of ?cb] False show ?thesis by simp
  qed
qed simp

lemma probe_failure_opens:
  "cb_state_field cb = HALF_OPEN \<Longrightarrow>
     cb_state_field (on_failure now cb) = OPEN \<and> cb_opened_at (on_failure now cb) = now"
  by (simp add: on_failure_def Let_def)

subsection \<open>Recovery\<close>

text \<open>Calls one after another, each with its three readings of the clock.\<close>

fun call_times ::
  "(real \<times> real \<times> real) list \<Rightarrow> ('s, 'a) effect \<Rightarrow> breaker \<times> 's \<Rightarrow> (exc + 'a) list \<times> breaker \<times> 's" where
  "call_times [] fn st = ([], st)"
| "call_times ((t0, t1, t2) # ts) fn st =
     (case breaker_call t0 t1 t2 fn st of (r, st') \<Rightarrow>
        case call_times ts fn st' of (rs, st'') \<Rightarrow> (r # rs, st''))"

text \<open>How many successful calls a breaker is away from being closed.\<close>

definition probes_needed :: "breaker \<Rightarrow> nat" where
  "probes_needed cb =
     (case cb_state_field cb of
        CLOSED \<Rightarrow> 0
      | HALF_OPEN \<Rightarrow> nat (cb_success_threshold cb - cb_successes cb)
      | OPEN \<Rightarrow> nat (cb_success_threshold cb))"

definition recovering :: "real \<Rightarrow> breaker \<Rightarrow> bool" where
  "recovering since cb \<longleftrightarrow>
     0 < cb_success_threshold cb \<and>
     (cb_state_field cb = HALF_OPEN \<longrightarrow> cb_successes cb < cb_success_threshold cb) \<and>
     (cb_state_field cb = OPEN \<longrightarrow> cb_opened_at cb + cb_recovery_time cb \<le> since)"

lemma successful_call:
  assumes "recovering since cb" and "since \<le> t0" and "fn s = (Inr x, s')"
  shows "\<exists>cb'. breaker_call t0 t1 t2 fn (cb, s) = (Inr x, cb', s') \<and> recovering since cb' \<and>
    probes_needed cb' = probes_needed cb - 1 \<and> (cb_state_field cb' = CLOSED \<longrightarrow> cb_failures cb' = 0)"
  using assms
  by (cases "cb_state_field cb")
    (auto simp: breaker_call_def recovering_def probes_needed_def cb_ops split: cb_state.splits)

lemma successful_calls:
  assumes "recovering since cb" and "\<forall>t \<in> set ts. since \<le> fst t" and "\<And>s. \<exists>x s'. fn s = (Inr x, s')"
    and "call_times ts fn (cb, s) = (rs, cb', s')"
  shows "(\<forall>r \<in> set rs. \<exists>x. r = Inr x) \<and> length rs = length ts \<and> recovering since cb' \<and>
    probes_needed cb' = probes_needed cb - length ts \<and>
    (ts \<noteq> [] \<and> cb_state_field cb' = CLOSED \<longrightarrow> cb_failures cb' = 0)"
  using assms(1,2,4)
proof (induction ts arbitrary: cb s rs)
  case (Cons u ts)
  obtain t0 t1 t2 where u: "u = (t0, t1, t2)" by (cases u)
  obtain x s1 where fn: "fn s = (Inr x, s1)" using assms(3) by blast
  have "since \<le> t0" using Cons.prems(2) by (simp add: u)
  then obtain cb1 where call: "breaker_call t0 t1 t2 fn (cb, s) = (Inr x, cb1, s1)"
    and cb1: "recovering since cb1" "probes_needed cb1 = probes_needed cb - 1"
      "cb_state_field cb1 = CLOSED \<longrightarrow> cb_failures cb1 = 0"
    using successful_call [where fn = fn and s = s, OF Cons.prems(1) _ fn] by blast
  obtain rs1 where rest: "call_times ts fn (cb1, s1) = (rs1, cb', s')" and rs: "rs = Inr x # rs1"
    using Cons.prems(3) by (auto simp: u call split: prod.splits)
  have "\<forall>t \<in> set ts. since \<le> fst t" using Cons.prems(2) by simp
  from Cons.IH [OF cb1(1) this rest] cb1 rest show ?case by (cases ts) (auto simp: rs)
qed simp

text \<open>C22. A tripped breaker heals. From every state the breaker can reach, if the wrapped function succeeds from
  some time on that is past the recovery time, no call is rejected and after as many calls as the success
  threshold the breaker is closed with its failures forgotten.\<close>

theorem breaker_recovers:
  assumes "reachable cb_init cb_step w" and "call_times ts fn (w_cb w, s) = (rs, cb', s')"
    and "\<And>s. \<exists>x s'. fn s = (Inr x, s')"
    and "\<forall>t \<in> set ts. cb_opened_at (w_cb w) + cb_recovery_time (w_cb w) \<le> fst t"
    and "cb_success_threshold (w_cb w) \<le> int (length ts)"
  shows "cb_state_field cb' = CLOSED \<and> cb_failures cb' = 0 \<and> length rs = length ts \<and>
    (\<forall>r \<in> set rs. \<exists>x. r = Inr x)"
proof -
  have inv: "cb_inv w" using assms(1) by (rule cb.reachable_inv)
  have "recovering (cb_opened_at (w_cb w) + cb_recovery_time (w_cb w)) (w_cb w)"
    using inv by (simp add: recovering_def cb_inv_def)
  note run = successful_calls [OF this assms(4,3,2)]
  have "probes_needed (w_cb w) \<le> length ts" and "ts \<noteq> []"
    using assms(5) inv by (auto simp: probes_needed_def cb_inv_def split: cb_state.splits)
  with run have "probes_needed cb' = 0" by simp
  with run have "cb_state_field cb' = CLOSED"
    by (auto simp: probes_needed_def recovering_def split: cb_state.splits)
  with run \<open>ts \<noteq> []\<close> show ?thesis by simp
qed

definition healthy_calls :: "unit \<Rightarrow> (exc + nat) \<times> unit" where
  "healthy_calls s = (Inr 1, ())"

definition tripped :: breaker where
  "tripped = on_failure 7 (new_breaker ''llm'' 1 30 2)"

lemma reachable_tripped: "reachable cb_init cb_step \<lparr>w_cb = tripped, w_now = 7, w_inflight = 0\<rparr>"
proof -
  let ?w = "\<lparr>w_cb = new_breaker ''llm'' 1 30 2, w_now = 7, w_inflight = 0\<rparr>"
  let ?v = "\<lparr>w_cb = new_breaker ''llm'' 1 30 2, w_now = 7, w_inflight = 1\<rparr>"
  have "cb_step ?w ?v"
    using admit [of ?w] by (simp add: read_state_def new_breaker_def)
  moreover have "cb_step ?v \<lparr>w_cb = tripped, w_now = 7, w_inflight = 0\<rparr>"
    using complete [of ?v "Inl PyTimeoutError"] by (simp add: record_result_def tripped_def)
  moreover have "reachable cb_init cb_step ?w"
    by (rule reach_init) (force simp: cb_init_def)
  ultimately show ?thesis by (blast intro: reach_step)
qed

lemma breaker_recovers_witness:
  "cb_state_field tripped = OPEN \<and>
   cb_state_field (fst (snd (call_times [(40, 40, 40), (41, 41, 41)] healthy_calls (tripped, ())))) = CLOSED"
proof -
  obtain rs cb' s' where c: "call_times [(40, 40, 40), (41, 41, 41)] healthy_calls
      (w_cb \<lparr>w_cb = tripped, w_now = 7, w_inflight = 0\<rparr>, ()) = (rs, cb', s')"
    by (metis prod.exhaust)
  have "cb_state_field cb' = CLOSED \<and> cb_failures cb' = 0"
    using breaker_recovers [OF reachable_tripped c]
    by (simp add: healthy_calls_def tripped_def new_breaker_def on_failure_def Let_def)
  with c show ?thesis by (simp add: tripped_def new_breaker_def on_failure_def Let_def)
qed

end
