(* ===== verification/Budget.thy ===== *)
theory Budget
  imports Domain Exceptions Transition
begin

section \<open>The cost guard\<close>

text \<open>
  \<^verbatim>\<open>reliability/budget.py\<close>. The guard is checked before a model call with the call's worst-case
  cost and charged with the actual cost when the call returns. The agents of a panel share one guard and
  run concurrently, so the accounting is also given as a step relation in which several calls can be
  between their check and their charge.
\<close>

record budget_guard =
  b_review_id :: uuid
  b_day_spent :: real
  b_review_spent :: real
  b_enabled :: bool

text \<open>\<^verbatim>\<open>load\<close>: the day's spend comes from a database query that may fail, and then counts as 0.\<close>

definition budget_load :: "exc + real \<Rightarrow> uuid \<Rightarrow> exc + budget_guard" where
  "budget_load spend review_id =
     (case spend of
        Inr x \<Rightarrow> Inr \<lparr>b_review_id = review_id, b_day_spent = x, b_review_spent = 0, b_enabled = True\<rparr>
      | Inl e \<Rightarrow>
          (if exc_isinstance e Exception_c
           then Inr \<lparr>b_review_id = review_id, b_day_spent = 0, b_review_spent = 0, b_enabled = True\<rparr>
           else Inl e))"

definition budget_check :: "settings \<Rightarrow> budget_guard \<Rightarrow> real \<Rightarrow> exc + unit" where
  "budget_check s b estimated =
     (if \<not> b_enabled b then Inr ()
      else if s_review_cost_cap_usd s < b_review_spent b + estimated
      then Inl (BudgetExceeded ''review'' (b_review_spent b) (s_review_cost_cap_usd s))
      else if s_daily_cost_cap_usd s < b_day_spent b + b_review_spent b + estimated
      then Inl (BudgetExceeded ''daily'' (b_day_spent b + b_review_spent b) (s_daily_cost_cap_usd s))
      else Inr ())"

definition budget_charge :: "budget_guard \<Rightarrow> real \<Rightarrow> budget_guard" where
  "budget_charge b usd = b\<lparr>b_review_spent := b_review_spent b + usd\<rparr>"

definition remaining_review_usd :: "settings \<Rightarrow> budget_guard \<Rightarrow> real" where
  "remaining_review_usd s b = max 0 (s_review_cost_cap_usd s - b_review_spent b)"

lemma budget_check_ok:
  "b_enabled b \<Longrightarrow> budget_check s b est = Inr () \<longleftrightarrow>
     b_review_spent b + est \<le> s_review_cost_cap_usd s \<and>
     b_day_spent b + b_review_spent b + est \<le> s_daily_cost_cap_usd s"
  by (auto simp: budget_check_def)

subsection \<open>Concurrent calls\<close>

text \<open>The guard, the estimates of the calls in flight, and the estimate and the cost of every call that has
  returned. \<open>n\<close> bounds how many calls run at once and \<open>E\<close> every estimate; what a call costs when it
  returns is not bounded by anything, as in the code.\<close>

type_synonym budget_world = "budget_guard \<times> real list \<times> (real \<times> real) list"

inductive budget_step :: "settings \<Rightarrow> nat \<Rightarrow> real \<Rightarrow> budget_world \<Rightarrow> budget_world \<Rightarrow> bool"
  for s :: settings and n :: nat and E :: real where
  start: "length fl < n \<Longrightarrow> 0 \<le> est \<Longrightarrow> est \<le> E \<Longrightarrow> budget_check s b est = Inr () \<Longrightarrow>
    budget_step s n E (b, fl, h) (b, fl @ [est], h)"
| charge: "0 \<le> usd \<Longrightarrow>
    budget_step s n E (b, xs @ est # ys, h) (budget_charge b usd, xs @ ys, h @ [(est, usd)])"
| fail: "budget_step s n E (b, xs @ est # ys, h) (b, xs @ ys, h)"

definition budget_init :: "settings \<Rightarrow> budget_world \<Rightarrow> bool" where
  "budget_init s w \<longleftrightarrow> (case w of (b, fl, h) \<Rightarrow> b_enabled b \<and> b_review_spent b = 0 \<and> fl = [] \<and> h = [])"

text \<open>\<open>D\<close> is by how much a call costs more than it was estimated.\<close>

definition exceeds_by :: "real \<Rightarrow> (real \<times> real) list \<Rightarrow> bool" where
  "exceeds_by D h \<longleftrightarrow> (\<forall>(est, usd) \<in> set h. usd \<le> est + D)"

lemma exceeds_by_snoc [simp]: "exceeds_by D (h @ [(est, usd)]) \<longleftrightarrow> exceeds_by D h \<and> usd \<le> est + D"
  by (auto simp: exceeds_by_def)

text \<open>The invariant: what is spent and what is in flight together exceed the cap by no more than the
  estimates of the other calls in flight when the last one was admitted, and the excess of each call.\<close>

definition budget_inv :: "settings \<Rightarrow> nat \<Rightarrow> real \<Rightarrow> real \<Rightarrow> budget_world \<Rightarrow> bool" where
  "budget_inv s n E D w \<longleftrightarrow>
     (case w of (b, fl, h) \<Rightarrow>
        b_enabled b \<and> b_review_spent b = sum_list (map snd h) \<and> length fl \<le> n \<and>
        (\<forall>x \<in> set fl. 0 \<le> x \<and> x \<le> E) \<and>
        (exceeds_by D h \<longrightarrow>
           h = [] \<and> fl = [] \<or>
           b_review_spent b + sum_list fl + real (length fl) * D \<le>
             s_review_cost_cap_usd s + real (n - 1) * E + real n * D))"

lemma sum_list_bound: "\<forall>x \<in> set xs. x \<le> (E :: real) \<Longrightarrow> sum_list xs \<le> real (length xs) * E"
  by (induction xs) (auto simp: algebra_simps)

lemma budget_step_inv:
  assumes "0 \<le> E" "0 \<le> D" and "budget_inv s n E D w" and "budget_step s n E w w'"
  shows "budget_inv s n E D w'"
  using assms(4)
proof (cases rule: budget_step.cases)
  case (start fl est b h)
  have "sum_list fl \<le> real (length fl) * E"
    using assms(3) start(1) by (intro sum_list_bound) (auto simp: budget_inv_def)
  also have "\<dots> \<le> real (n - 1) * E"
    using start(3) assms(1) by (intro mult_right_mono) simp_all
  finally have "sum_list fl \<le> real (n - 1) * E" .
  moreover have "real (length fl + 1) * D \<le> real n * D"
    using start(3) assms(2) by (intro mult_right_mono) simp_all
  moreover have "b_review_spent b + est \<le> s_review_cost_cap_usd s"
    using start assms(3) by (simp add: budget_inv_def budget_check_ok)
  ultimately have "b_review_spent b + sum_list (fl @ [est]) + real (length (fl @ [est])) * D \<le>
      s_review_cost_cap_usd s + real (n - 1) * E + real n * D" by simp
  with start assms(3) show ?thesis by (auto simp: budget_inv_def)
next
  case (charge usd b xs est ys h)
  then show ?thesis using assms(3) by (auto simp: budget_inv_def budget_charge_def algebra_simps)
next
  case (fail b xs est ys h)
  then show ?thesis using assms(2,3) by (auto simp: budget_inv_def algebra_simps)
qed

interpretation bud: invariant_system "budget_init s" "budget_step s n (max 0 E)" "budget_inv s n (max 0 E) (max 0 D)"
proof
  show "budget_inv s n (max 0 E) (max 0 D) w" if "budget_init s w" for w
    using that by (auto simp: budget_init_def budget_inv_def)
  show "budget_inv s n (max 0 E) (max 0 D) w'"
    if "budget_inv s n (max 0 E) (max 0 D) w" "budget_step s n (max 0 E) w w'" for w w'
    using that by (rule budget_step_inv [OF max.cobounded1 max.cobounded1])
qed

text \<open>C19. The review's cost cap under concurrency: if at most \<open>n\<close> model calls are under way at a time, each
  checked with an estimate of at most \<open>E\<close>, then the guard holds exactly what the returned calls cost, and
  that is never more than the cap plus \<open>n - 1\<close> estimates plus \<open>n\<close> times the most by which a call cost
  more than its estimate. The code does not bound that excess \<open>D\<close> (the estimate counts a quarter of the
  characters of the prompt at the plain input rate), so the cap is exceeded even by one call at a time
  when a call is underestimated.\<close>

theorem review_spend_bounded:
  assumes "reachable (budget_init s) (budget_step s n E) (b, fl, h)" and "0 \<le> E"
    and "0 \<le> s_review_cost_cap_usd s" and "0 \<le> D" and "\<forall>(est, usd) \<in> set h. usd \<le> est + D"
  shows "b_review_spent b = sum_list (map snd h) \<and>
    b_review_spent b \<le> s_review_cost_cap_usd s + real (n - 1) * E + real n * D"
proof -
  from assms(1,2,4) have inv: "budget_inv s n E D (b, fl, h)"
    using bud.reachable_inv [of s n E "(b, fl, h)" D] by (simp add: max_absorb2)
  then have "0 \<le> sum_list fl"
    by (intro sum_list_nonneg) (simp add: budget_inv_def)
  moreover have "0 \<le> real (n - 1) * E" "0 \<le> real n * D" "0 \<le> real (length fl) * D" using assms(2,4) by simp_all
  moreover have "exceeds_by D h" using assms(5) by (simp add: exceeds_by_def)
  ultimately show ?thesis using inv assms(3) by (auto simp: budget_inv_def)
qed

text \<open>The overshoot is real: two concurrent calls, each allowed by the check, spend together whatever they
  cost.\<close>

definition sample_guard :: budget_guard where
  "sample_guard = \<lparr>b_review_id = 1, b_day_spent = 0, b_review_spent = 0, b_enabled = True\<rparr>"

lemma sample_overspend:
  assumes "0 \<le> usd"
  shows "reachable (budget_init default_settings) (budget_step default_settings 2 (3 / 2))
     (budget_charge (budget_charge sample_guard usd) usd, [], [(3 / 2, usd), (3 / 2, usd)])"
proof -
  let ?R = "reachable (budget_init default_settings) (budget_step default_settings 2 (3 / 2))"
  have ok: "budget_check default_settings sample_guard (3 / 2) = Inr ()"
    by (simp add: budget_check_def sample_guard_def default_settings_def)
  have "?R (sample_guard, [], [])" by (rule reach_init) (simp add: budget_init_def sample_guard_def)
  then have "?R (sample_guard, [] @ [3 / 2], [])"
    by (rule reach_step) (rule start, simp_all add: ok)
  then have "?R (sample_guard, ([] @ [3 / 2]) @ [3 / 2], [])"
    by (rule reach_step) (rule start, simp_all add: ok)
  then have "?R (sample_guard, [3 / 2] @ (3 / 2) # [], [])" by simp
  then have "?R (budget_charge sample_guard usd, [3 / 2] @ [], [] @ [(3 / 2, usd)])"
    by (rule reach_step) (rule charge, rule assms)
  then have "?R (budget_charge sample_guard usd, [] @ (3 / 2) # [], [(3 / 2, usd)])" by simp
  then have "?R (budget_charge (budget_charge sample_guard usd) usd, [] @ [], [(3 / 2, usd)] @ [(3 / 2, usd)])"
    by (rule reach_step) (rule charge, rule assms)
  then show ?thesis by simp
qed

lemma review_spend_bounded_witness:
  "b_review_spent (budget_charge (budget_charge sample_guard (7 / 4)) (7 / 4)) \<le>
     s_review_cost_cap_usd default_settings + real (2 - 1) * (3 / 2) + real 2 * (1 / 4)"
  using review_spend_bounded [OF sample_overspend [of "7 / 4"], of "1 / 4"] by (simp add: default_settings_def)

text \<open>The cap is not a hard limit for the concurrent panel: from an unused guard with the default cap
  of 1.50 dollars, two calls that are each allowed by the check can spend 3.00 dollars, although neither
  costs more than it was estimated.\<close>

theorem concurrent_calls_overspend:
  "\<exists>b. reachable (budget_init default_settings) (budget_step default_settings 2 (3 / 2))
       (b, [], [(3 / 2, 3 / 2), (3 / 2, 3 / 2)]) \<and>
     b_review_spent b = 3 \<and> s_review_cost_cap_usd default_settings = 3 / 2"
  using sample_overspend [of "3 / 2"]
  by (intro exI [of _ "budget_charge (budget_charge sample_guard (3 / 2)) (3 / 2)"])
    (simp add: budget_charge_def sample_guard_def default_settings_def)

end
