(* ===== verification/Spine.thy ===== *)
theory Spine
  imports Json Domain
begin

section \<open>The event spine\<close>

text \<open>
  \<^verbatim>\<open>events/spine.py\<close>. The spine of a review carries the identifiers stamped on every row, the
  stack of open spans and the count of rows it failed to write; here it also carries the rows that
  reached the table \<^verbatim>\<open>agent_events\<close> and the next fresh identifier. How a row is written is the
  argument \<open>put\<close> of the operations: \<open>spine_write\<close> for \<^verbatim>\<open>EventSpine\<close>, where the database
  may refuse a row, and \<open>null_write\<close> for \<^verbatim>\<open>NullSpine\<close>. What the operations rely on is the
  locale \<open>event_sink\<close>, interpreted on both.
\<close>

record event =
  ev_review_id :: "uuid option"
  ev_delivery_id :: "string option"
  ev_repo :: "string option"
  ev_span_id :: "uuid option"
  ev_parent :: "uuid option"
  ev_kind :: string
  ev_name :: string
  ev_agent :: json
  ev_model :: json
  ev_prompt_version :: json
  ev_status :: json
  ev_duration :: json
  ev_input_tokens :: json
  ev_output_tokens :: json
  ev_cached_tokens :: json
  ev_cost_usd :: json
  ev_attributes :: "(string \<times> json) list"

record spine =
  es_review_id :: "uuid option"
  es_delivery_id :: "string option"
  es_repo :: "string option"
  es_stack :: "uuid list"
  es_dropped :: nat
  es_rows :: "event list"
  es_next_id :: uuid

definition new_spine :: "uuid option \<Rightarrow> string option \<Rightarrow> string option \<Rightarrow> uuid \<Rightarrow> spine" where
  "new_spine review_id delivery_id repo next_id =
     \<lparr>es_review_id = review_id, es_delivery_id = delivery_id, es_repo = repo, es_stack = [],
      es_dropped = 0, es_rows = [], es_next_id = next_id\<rparr>"

subsection \<open>Writing a row\<close>

text \<open>A row with the fields that are not given left empty; \<^verbatim>\<open>_write\<close> stamps the identifiers.\<close>

definition blank_event :: "string \<Rightarrow> string \<Rightarrow> event" where
  "blank_event kind name =
     \<lparr>ev_review_id = None, ev_delivery_id = None, ev_repo = None, ev_span_id = None, ev_parent = None,
      ev_kind = kind, ev_name = name, ev_agent = JNull, ev_model = JNull, ev_prompt_version = JNull,
      ev_status = JNull, ev_duration = JNull, ev_input_tokens = JNull, ev_output_tokens = JNull,
      ev_cached_tokens = JNull, ev_cost_usd = JNull, ev_attributes = []\<rparr>"

definition stamp :: "spine \<Rightarrow> event \<Rightarrow> event" where
  "stamp s e =
     e\<lparr>ev_review_id := es_review_id s, ev_delivery_id := es_delivery_id s, ev_repo := es_repo s\<rparr>"

text \<open>The column \<^verbatim>\<open>cost_usd NUMERIC(12, 6)\<close> of \<^verbatim>\<open>agent_events\<close> (\<^verbatim>\<open>migrations/003_timeseries.sql\<close>) keeps six
  places; a cost is rounded to them when it is stored, halves away from zero.\<close>

definition numeric6 :: "real \<Rightarrow> real" where
  "numeric6 x =
     (if 0 \<le> x then of_int \<lfloor>x * 1000000 + 1 / 2\<rfloor> else - of_int \<lfloor>1 / 2 - x * 1000000\<rfloor>) / 1000000"

definition column_cost :: "json \<Rightarrow> json" where
  "column_cost j = (case j of JFloat (Fin x) \<Rightarrow> JFloat (Fin (numeric6 x)) | _ \<Rightarrow> j)"

definition stored_event :: "event \<Rightarrow> event" where
  "stored_event e = e\<lparr>ev_cost_usd := column_cost (ev_cost_usd e)\<rparr>"

text \<open>\<open>db_ok\<close> says which inserts succeed; a failed one is counted and never raised.\<close>

definition spine_write :: "(event \<Rightarrow> bool) \<Rightarrow> event \<Rightarrow> spine \<Rightarrow> spine" where
  "spine_write db_ok e s =
     (if db_ok (stamp s e) then s\<lparr>es_rows := es_rows s @ [stored_event (stamp s e)]\<rparr>
      else s\<lparr>es_dropped := es_dropped s + 1\<rparr>)"

lemma numeric6_error: "\<bar>numeric6 x - x\<bar> \<le> 1 / 2000000"
proof -
  have half: "\<bar>of_int \<lfloor>y * 1000000 + 1 / 2\<rfloor> / 1000000 - y\<bar> \<le> 1 / 2000000" for y :: real
  proof -
    have "of_int \<lfloor>y * 1000000 + 1 / 2\<rfloor> \<le> y * 1000000 + 1 / 2" "y * 1000000 + 1 / 2 < of_int \<lfloor>y * 1000000 + 1 / 2\<rfloor> + 1"
      by linarith+
    then show ?thesis by (intro abs_leI) linarith+
  qed
  show ?thesis
  proof (cases "0 \<le> x")
    case True
    with half [of x] show ?thesis by (simp add: numeric6_def)
  next
    case False
    then have "numeric6 x - x = - (of_int \<lfloor>- x * 1000000 + 1 / 2\<rfloor> / 1000000 - (- x))" by (simp add: numeric6_def)
    with half [of "- x"] show ?thesis by (simp only: abs_minus_cancel)
  qed
qed

lemma stored_event_fields [simp]:
  "ev_kind (stored_event e) = ev_kind e" "ev_name (stored_event e) = ev_name e"
  "ev_review_id (stored_event e) = ev_review_id e" "ev_span_id (stored_event e) = ev_span_id e"
  "ev_parent (stored_event e) = ev_parent e"
  by (simp_all add: stored_event_def)

definition null_write :: "event \<Rightarrow> spine \<Rightarrow> spine" where
  "null_write e s = s"

definition stack_top :: "spine \<Rightarrow> uuid option" where
  "stack_top s = (if es_stack s = [] then None else Some (last (es_stack s)))"

subsection \<open>Spans\<close>

record span =
  sp_id :: uuid
  sp_name :: string
  sp_agent :: json
  sp_model :: json
  sp_prompt_version :: json
  sp_status :: json
  sp_attributes :: "(string \<times> json) list"
  sp_input_tokens :: json
  sp_output_tokens :: json
  sp_cached_tokens :: json
  sp_cost_usd :: json

definition dict_set :: "string \<Rightarrow> json \<Rightarrow> (string \<times> json) list \<Rightarrow> (string \<times> json) list" where
  "dict_set k v d =
     (if k \<in> fst ` set d then map (\<lambda>(k', v'). if k' = k then (k', v) else (k', v')) d else d @ [(k, v)])"

text \<open>\<^verbatim>\<open>Span.set\<close>: a key that names a field of the span sets it, any other key becomes an
  attribute.\<close>

definition span_set1 :: "string \<times> json \<Rightarrow> span \<Rightarrow> span" where
  "span_set1 kv sp =
     (case kv of (k, v) \<Rightarrow>
        if k = ''agent'' then sp\<lparr>sp_agent := v\<rparr>
        else if k = ''model'' then sp\<lparr>sp_model := v\<rparr>
        else if k = ''prompt_version'' then sp\<lparr>sp_prompt_version := v\<rparr>
        else if k = ''status'' then sp\<lparr>sp_status := v\<rparr>
        else if k = ''input_tokens'' then sp\<lparr>sp_input_tokens := v\<rparr>
        else if k = ''output_tokens'' then sp\<lparr>sp_output_tokens := v\<rparr>
        else if k = ''cached_tokens'' then sp\<lparr>sp_cached_tokens := v\<rparr>
        else if k = ''cost_usd'' then sp\<lparr>sp_cost_usd := v\<rparr>
        else sp\<lparr>sp_attributes := dict_set k v (sp_attributes sp)\<rparr>)"

definition span_set :: "(string \<times> json) list \<Rightarrow> span \<Rightarrow> span" where
  "span_set kvs sp = foldl (\<lambda>sp kv. span_set1 kv sp) sp kvs"

definition SPAN_FIELDS :: "string list" where
  "SPAN_FIELDS = [''agent'', ''model'', ''prompt_version'']"

definition new_span :: "uuid \<Rightarrow> string \<Rightarrow> (string \<times> json) list \<Rightarrow> span" where
  "new_span i name flds =
     \<lparr>sp_id = i, sp_name = name, sp_agent = jget_or ''agent'' JNull flds,
      sp_model = jget_or ''model'' JNull flds,
      sp_prompt_version = jget_or ''prompt_version'' JNull flds, sp_status = JStr ''ok'',
      sp_attributes = filter (\<lambda>kv. fst kv \<notin> set SPAN_FIELDS) flds, sp_input_tokens = JInt 0,
      sp_output_tokens = JInt 0, sp_cached_tokens = JInt 0, sp_cost_usd = JFloat (Fin 0)\<rparr>"

text \<open>Entering a span: a fresh identifier is pushed and the start row is written with the previous top
  of the stack as parent. Leaving it: the stack is popped and the end row written.\<close>

definition span_enter ::
  "(event \<Rightarrow> spine \<Rightarrow> spine) \<Rightarrow> string \<Rightarrow> (string \<times> json) list \<Rightarrow> spine \<Rightarrow> span \<times> uuid option \<times> spine" where
  "span_enter put name flds s =
     (let sp = new_span (es_next_id s) name flds; parent = stack_top s;
          s1 = s\<lparr>es_stack := es_stack s @ [sp_id sp], es_next_id := es_next_id s + 1\<rparr>
      in (sp, parent,
          put ((blank_event ''span_start'' name)
            \<lparr>ev_span_id := Some (sp_id sp), ev_parent := parent, ev_agent := sp_agent sp,
             ev_model := sp_model sp, ev_prompt_version := sp_prompt_version sp,
             ev_attributes := sp_attributes sp\<rparr>) s1))"

definition span_exit ::
  "(event \<Rightarrow> spine \<Rightarrow> spine) \<Rightarrow> int \<Rightarrow> uuid option \<Rightarrow> span \<Rightarrow> spine \<Rightarrow> spine" where
  "span_exit put elapsed_ms parent sp s =
     put ((blank_event ''span_end'' (sp_name sp))
       \<lparr>ev_span_id := Some (sp_id sp), ev_parent := parent, ev_agent := sp_agent sp,
        ev_model := sp_model sp, ev_prompt_version := sp_prompt_version sp, ev_status := sp_status sp,
        ev_duration := JInt elapsed_ms, ev_input_tokens := sp_input_tokens sp,
        ev_output_tokens := sp_output_tokens sp, ev_cached_tokens := sp_cached_tokens sp,
        ev_cost_usd := sp_cost_usd sp, ev_attributes := sp_attributes sp\<rparr>)
       (s\<lparr>es_stack := butlast (es_stack s)\<rparr>)"

definition span_failed :: "exc \<Rightarrow> span \<Rightarrow> span" where
  "span_failed e sp =
     (if exc_isinstance e Exception_c
      then sp\<lparr>sp_status := JStr ''error'',
              sp_attributes := dict_set ''error'' (JStr (exc_text e)) (sp_attributes sp)\<rparr>
      else sp)"

text \<open>\<^verbatim>\<open>async with spine.span(...)\<close> around a body that works on the span and the spine.\<close>

definition with_span ::
  "(event \<Rightarrow> spine \<Rightarrow> spine) \<Rightarrow> int \<Rightarrow> string \<Rightarrow> (string \<times> json) list \<Rightarrow>
     (span \<Rightarrow> spine \<Rightarrow> (exc + 'a) \<times> span \<times> spine) \<Rightarrow> spine \<Rightarrow> (exc + 'a) \<times> spine" where
  "with_span put elapsed_ms name flds body s =
     (case span_enter put name flds s of (sp, parent, s1) \<Rightarrow>
      case body sp s1 of (r, sp', s2) \<Rightarrow>
        (r, span_exit put elapsed_ms parent
              (case r of Inl e \<Rightarrow> span_failed e sp' | Inr _ \<Rightarrow> sp') s2))"

subsection \<open>Single rows\<close>

definition spine_llm_call ::
  "(event \<Rightarrow> spine \<Rightarrow> spine) \<Rightarrow> string \<Rightarrow> json \<Rightarrow> string \<Rightarrow> string \<Rightarrow> int \<Rightarrow> int \<Rightarrow> int \<Rightarrow> real \<Rightarrow> int \<Rightarrow>
     (string \<times> json) list \<Rightarrow> spine \<Rightarrow> spine" where
  "spine_llm_call put name agent model prompt_version inp out cached cost duration attrs s =
     put ((blank_event ''llm_call'' name)
       \<lparr>ev_span_id := stack_top s, ev_agent := agent, ev_model := JStr model,
        ev_prompt_version := JStr prompt_version, ev_status := JStr ''ok'', ev_duration := JInt duration,
        ev_input_tokens := JInt inp, ev_output_tokens := JInt out, ev_cached_tokens := JInt cached,
        ev_cost_usd := JFloat (Fin cost), ev_attributes := attrs\<rparr>) s"

definition spine_decision ::
  "(event \<Rightarrow> spine \<Rightarrow> spine) \<Rightarrow> string \<Rightarrow> (string \<times> json) list \<Rightarrow> spine \<Rightarrow> spine" where
  "spine_decision put name attrs s =
     put ((blank_event ''decision'' name)
       \<lparr>ev_span_id := stack_top s, ev_status := JStr ''ok'', ev_attributes := attrs\<rparr>) s"

definition spine_retrieval ::
  "(event \<Rightarrow> spine \<Rightarrow> spine) \<Rightarrow> string \<Rightarrow> int \<Rightarrow> (string \<times> json) list \<Rightarrow> spine \<Rightarrow> spine" where
  "spine_retrieval put name duration attrs s =
     put ((blank_event ''retrieval'' name)
       \<lparr>ev_span_id := stack_top s, ev_status := JStr ''ok'', ev_duration := JInt duration,
        ev_attributes := attrs\<rparr>) s"

definition spine_error ::
  "(event \<Rightarrow> spine \<Rightarrow> spine) \<Rightarrow> string \<Rightarrow> exc \<Rightarrow> (string \<times> json) list \<Rightarrow> spine \<Rightarrow> spine" where
  "spine_error put name e attrs s =
     put ((blank_event ''error'' name)
       \<lparr>ev_span_id := stack_top s, ev_status := JStr ''error'',
        ev_attributes := foldl (\<lambda>d (k, v). dict_set k v d) [(''error'', JStr (exc_text e))] attrs\<rparr>) s"

subsection \<open>The contract of a sink\<close>

text \<open>What the operations rely on: writing a row never touches the stack, the identifiers or the supply of
  fresh ones, and only ever appends to the table.\<close>

locale event_sink =
  fixes put :: "event \<Rightarrow> spine \<Rightarrow> spine"
  assumes put_stack: "es_stack (put e s) = es_stack s"
    and put_ids: "es_review_id (put e s) = es_review_id s" "es_delivery_id (put e s) = es_delivery_id s"
      "es_repo (put e s) = es_repo s" "es_next_id (put e s) = es_next_id s"
    and put_rows: "prefix (es_rows s) (es_rows (put e s))"
begin

lemma single_rows_keep_stack:
  "es_stack (spine_llm_call put name agent model pv i out c cost d attrs s) = es_stack s"
  "es_stack (spine_decision put name attrs s) = es_stack s"
  "es_stack (spine_retrieval put name duration attrs s) = es_stack s"
  "es_stack (spine_error put name e attrs s) = es_stack s"
  by (simp_all add: spine_llm_call_def spine_decision_def spine_retrieval_def spine_error_def put_stack)

lemma span_enter_stack:
  "span_enter put name flds s = (sp, parent, s') \<Longrightarrow>
     es_stack s' = es_stack s @ [sp_id sp] \<and> parent = stack_top s \<and> sp_id sp = es_next_id s \<and>
     prefix (es_rows s) (es_rows s')"
  using put_rows [of "s\<lparr>es_stack := es_stack s @ [es_next_id s], es_next_id := es_next_id s + 1\<rparr>"]
  by (auto simp: span_enter_def Let_def put_stack new_span_def)

text \<open>A body that leaves the stack as it found it makes the whole span balanced, whether it returns
  or raises.\<close>

lemma with_span_balanced:
  assumes "\<And>sp s r sp' s'. body sp s = (r, sp', s') \<Longrightarrow> es_stack s' = es_stack s"
    and "with_span put ms name flds body s = (r, s')"
  shows "es_stack s' = es_stack s"
proof -
  obtain sp parent s1 where e: "span_enter put name flds s = (sp, parent, s1)"
    by (metis prod.collapse)
  obtain r' sp' s2 where b: "body sp s1 = (r', sp', s2)" by (metis prod.collapse)
  from span_enter_stack [OF e] assms(1) [OF b] have "es_stack s2 = es_stack s @ [sp_id sp]" by simp
  with assms(2) e b show ?thesis
    by (auto simp: with_span_def span_exit_def put_stack)
qed

text \<open>The result of the body is the result of the span.\<close>

lemma with_span_result:
  assumes "with_span put ms name flds body s = (r, s')"
  obtains sp s1 sp' s2 where "body sp s1 = (r, sp', s2)" "es_stack s1 = es_stack s @ [sp_id sp]"
proof -
  obtain sp parent s1 where e: "span_enter put name flds s = (sp, parent, s1)"
    by (metis prod.collapse)
  obtain r' sp' s2 where b: "body sp s1 = (r', sp', s2)" by (metis prod.collapse)
  from assms e b have "r' = r" by (simp add: with_span_def)
  with b span_enter_stack [OF e] that show thesis by blast
qed

end

interpretation event_spine: event_sink "spine_write db_ok"
  by unfold_locales (simp_all add: spine_write_def)

interpretation null_spine: event_sink null_write
  by unfold_locales (simp_all add: null_write_def)

text \<open>Losing a row never fails a review: a write that the database refuses is counted, one that it takes
  is appended with the identifiers of the review.\<close>

lemma spine_write_accounts:
  "length (es_rows (spine_write db_ok e s)) + es_dropped (spine_write db_ok e s) =
     length (es_rows s) + es_dropped s + 1"
  by (simp add: spine_write_def)

text \<open>A span is balanced: whatever its body does, if the body leaves the stack of open spans as it
  found it then so does the span, whether the body returns or raises, and the start row carries the
  enclosing span as its parent.\<close>

theorem span_balanced:
  assumes "\<And>sp s r sp' s'. body sp s = (r, sp', s') \<Longrightarrow> es_stack s' = es_stack s"
    and "with_span (spine_write db_ok) ms name flds body s = (r, s')"
  shows "es_stack s' = es_stack s \<and> fst (snd (span_enter (spine_write db_ok) name flds s)) = stack_top s"
  using event_spine.with_span_balanced [OF assms]
  by (simp add: span_enter_def Let_def)

lemma span_balanced_witness:
  "es_stack (snd (with_span (spine_write (\<lambda>_. True)) 5 ''review.fetch'' []
     (\<lambda>sp s. (Inl (LLMError ''x'') :: exc + unit, sp, s)) (new_spine None None None 7))) = []"
proof -
  let ?body = "\<lambda>sp s. (Inl (LLMError ''x'') :: exc + unit, sp :: span, s :: spine)"
  obtain r s' where w: "with_span (spine_write (\<lambda>_. True)) 5 ''review.fetch'' [] ?body
      (new_spine None None None 7) = (r, s')" by fastforce
  from span_balanced [of ?body, OF _ w] show ?thesis
    unfolding w by (simp add: new_spine_def)
qed

subsection \<open>Concurrent spans\<close>

text \<open>The stack is shared by the agents of a panel, so spans that overlap in time are recorded as
  nested: when a second agent opens its span before the first one has closed, its start row names the
  first agent's span as its parent instead of the panel's, and a model call of the first agent is then
  recorded under the second agent's span.\<close>

theorem concurrent_spans_misattributed:
  assumes "span_enter (spine_write (\<lambda>_. True)) ''agent.security'' f1 s = (a, pa, s1)"
    and "span_enter (spine_write (\<lambda>_. True)) ''agent.correctness'' f2 s1 = (b, pb, s2)"
  shows "pb = Some (sp_id a) \<and> pb \<noteq> Some (sp_id b) \<and>
    ev_span_id (last (es_rows (spine_llm_call (spine_write (\<lambda>_. True)) ''agent.security''
      (JStr ''security'') model pv i out c cost d attrs s2))) = Some (sp_id b)"
proof -
  from event_spine.span_enter_stack [OF assms(1)] event_spine.span_enter_stack [OF assms(2)]
  have st: "es_stack s1 = es_stack s @ [sp_id a]" "es_stack s2 = es_stack s1 @ [sp_id b]"
    "pb = stack_top s1" by simp_all
  moreover have "sp_id a \<noteq> sp_id b"
    using assms by (auto simp: span_enter_def Let_def new_span_def spine_write_def)
  ultimately show ?thesis
    by (simp add: stack_top_def spine_llm_call_def spine_write_def stamp_def)
qed

lemma concurrent_spans_misattributed_witness:
  "fst (snd (span_enter (spine_write (\<lambda>_. True)) ''agent.correctness'' []
     (snd (snd (span_enter (spine_write (\<lambda>_. True)) ''agent.security'' [] (new_spine None None None 7)))))) =
   Some 7"
proof -
  let ?e1 = "span_enter (spine_write (\<lambda>_. True)) ''agent.security'' [] (new_spine None None None 7)"
  obtain a pa s1 where 1: "?e1 = (a, pa, s1)" by (metis prod.collapse)
  obtain b pb s2 where 2: "span_enter (spine_write (\<lambda>_. True)) ''agent.correctness'' [] s1 = (b, pb, s2)"
    by (metis prod.collapse)
  have "sp_id a = 7" using 1 by (auto simp: span_enter_def Let_def new_span_def new_spine_def)
  with concurrent_spans_misattributed [OF 1 2] show ?thesis by (simp add: 1 2)
qed

end
