(* ===== verification/Llm.thy ===== *)
theory Llm
  imports Regex Circuit Budget Spine
begin

section \<open>Model calls\<close>

text \<open>
  \<^verbatim>\<open>llm/pricing.py\<close>, \<^verbatim>\<open>llm/provider.py\<close>, \<^verbatim>\<open>llm/anthropic_provider.py\<close>,
  \<^verbatim>\<open>llm/registry.py\<close> and \<^verbatim>\<open>llm/client.py\<close>: prices, the request and response types, what
  the Anthropic provider sends and how it reads the answer (the SDK's \<^verbatim>\<open>messages.create\<close> is an
  argument), versioned prompts, and \<open>call_llm\<close>, the one place every model call goes through: cost
  guard, circuit breaker, retries, charge and event row. The properties say how often the provider is
  called, what is charged and recorded on every path, and how far the cost of a call can exceed the
  estimate it was admitted with.
\<close>

subsection \<open>Prices\<close>

definition CACHE_READ_MULTIPLIER :: real where
  "CACHE_READ_MULTIPLIER = 10 / 100"

definition CACHE_WRITE_MULTIPLIER :: real where
  "CACHE_WRITE_MULTIPLIER = 125 / 100"

record model_spec =
  ms_input_per_mtok :: real
  ms_output_per_mtok :: real
  ms_context_window :: nat
  ms_thinking_style :: string
  ms_supports_effort :: bool
  ms_supports_prefill :: bool

definition mk_spec :: "real \<Rightarrow> real \<Rightarrow> nat \<Rightarrow> string \<Rightarrow> bool \<Rightarrow> model_spec" where
  "mk_spec i out w th ef =
     \<lparr>ms_input_per_mtok = i, ms_output_per_mtok = out, ms_context_window = w, ms_thinking_style = th,
      ms_supports_effort = ef, ms_supports_prefill = False\<rparr>"

definition MODELS :: "(string \<times> model_spec) list" where
  "MODELS =
     [(''claude-fable-5-1'', mk_spec 10 50 1000000 ''adaptive'' True),
      (''claude-fable-5'', mk_spec 10 50 1000000 ''adaptive'' True),
      (''claude-opus-5'', mk_spec 5 25 1000000 ''adaptive'' True),
      (''claude-opus-4-8'', mk_spec 5 25 1000000 ''adaptive'' True),
      (''claude-opus-4-7'', mk_spec 5 25 1000000 ''adaptive'' True),
      (''claude-opus-4-6'', mk_spec 5 25 1000000 ''adaptive'' True),
      (''claude-sonnet-5'', mk_spec 2 10 1000000 ''adaptive'' True),
      (''claude-sonnet-4-6'', mk_spec 3 15 1000000 ''adaptive'' True),
      (''claude-haiku-4-5'', mk_spec 1 5 200000 ''budget'' False)]"

definition FALLBACK_SPEC :: model_spec where
  "FALLBACK_SPEC = mk_spec 2 10 200000 ''adaptive'' True"

definition spec_for :: "string \<Rightarrow> model_spec" where
  "spec_for model = (case map_of MODELS model of None \<Rightarrow> FALLBACK_SPEC | Some s \<Rightarrow> s)"

definition estimate_cost :: "string \<Rightarrow> int \<Rightarrow> int \<Rightarrow> int \<Rightarrow> int \<Rightarrow> real" where
  "estimate_cost model inp out cached_read cache_write =
     (let s = spec_for model in
      (of_int inp * ms_input_per_mtok s + of_int out * ms_output_per_mtok s
       + of_int cached_read * ms_input_per_mtok s * CACHE_READ_MULTIPLIER
       + of_int cache_write * ms_input_per_mtok s * CACHE_WRITE_MULTIPLIER) / 1000000)"

subsection \<open>Requests and responses\<close>

record llm_request =
  rq_system :: string
  rq_user :: string
  rq_model :: string
  rq_max_tokens :: int
  rq_effort :: "string option"
  rq_thinking :: bool
  rq_json_schema :: "json option"
  rq_cache_system :: bool
  rq_timeout_s :: real
  rq_metadata :: "(string \<times> json) list"

record llm_response =
  rs_text :: string
  rs_model :: string
  rs_input_tokens :: int
  rs_output_tokens :: int
  rs_cached_read_tokens :: int
  rs_cache_write_tokens :: int
  rs_duration_ms :: int
  rs_stop_reason :: "string option"

definition cost_usd :: "llm_response \<Rightarrow> real" where
  "cost_usd r =
     estimate_cost (rs_model r) (rs_input_tokens r) (rs_output_tokens r) (rs_cached_read_tokens r)
       (rs_cache_write_tokens r)"

subsection \<open>The Anthropic provider\<close>

definition thinking_params :: "llm_request \<Rightarrow> (string \<times> json) list" where
  "thinking_params rq =
     (let style = ms_thinking_style (spec_for (rq_model rq)) in
      if \<not> rq_thinking rq then []
      else if style = ''adaptive'' then [(''thinking'', JObj [(''type'', JStr ''adaptive'')])]
      else if style = ''budget'' then
        [(''thinking'', JObj [(''type'', JStr ''enabled''),
            (''budget_tokens'', JInt (max 1024 (min 4096 (rq_max_tokens rq - 1024))))])]
      else [])"

definition output_config :: "llm_request \<Rightarrow> (string \<times> json) list" where
  "output_config rq =
     (case rq_effort rq of
        Some e \<Rightarrow> if e \<noteq> [] \<and> ms_supports_effort (spec_for (rq_model rq))
                  then [(''effort'', JStr e)] else []
      | None \<Rightarrow> []) @
     (case rq_json_schema rq of
        Some sch \<Rightarrow> if truthy sch
                    then [(''format'', JObj [(''type'', JStr ''json_schema''), (''schema'', sch)])] else []
      | None \<Rightarrow> [])"

definition anthropic_params :: "llm_request \<Rightarrow> (string \<times> json) list" where
  "anthropic_params rq =
     [(''model'', JStr (rq_model rq)), (''max_tokens'', JInt (rq_max_tokens rq)),
      (''system'', JList [JObj ([(''type'', JStr ''text''), (''text'', JStr (rq_system rq))] @
         (if rq_cache_system rq
          then [(''cache_control'', JObj [(''type'', JStr ''ephemeral'')])] else []))]),
      (''messages'', JList [JObj [(''role'', JStr ''user''), (''content'', JStr (rq_user rq))]])] @
     thinking_params rq @
     (if output_config rq \<noteq> [] then [(''output_config'', JObj (output_config rq))] else [])"

text \<open>What the SDK call gives: a message, one of its two error classes, or any other exception. Missing
  usage counters are 0.\<close>

record api_message =
  am_stop_reason :: "string option"
  am_refusal :: "string option \<times> string option"
  am_content :: "(string \<times> string) list"
  am_model :: string
  am_input_tokens :: int
  am_output_tokens :: int
  am_cache_read :: int
  am_cache_creation :: int

datatype api_result =
    ApiStatusError int string
  | ApiConnectionError string
  | ApiRaise exc
  | ApiMessage api_message

definition anthropic_complete ::
  "((string \<times> json) list \<Rightarrow> real \<Rightarrow> api_result) \<Rightarrow> int \<Rightarrow> llm_request \<Rightarrow> exc + llm_response" where
  "anthropic_complete create duration_ms rq =
     (case create (anthropic_params rq) (rq_timeout_s rq) of
        ApiStatusError st m \<Rightarrow> Inl (LLMError (''anthropic '' @ py_str_int st @ '': '' @ m))
      | ApiConnectionError m \<Rightarrow> Inl (LLMError (''anthropic connection error: '' @ m))
      | ApiRaise e \<Rightarrow> Inl e
      | ApiMessage m \<Rightarrow>
          (if am_stop_reason m = Some ''refusal''
           then Inl (LLMRefusal (fst (am_refusal m)) (snd (am_refusal m)))
           else Inr \<lparr>rs_text = concat (map snd (filter (\<lambda>b. fst b = ''text'') (am_content m))),
                     rs_model = (if am_model m \<noteq> [] then am_model m else rq_model rq),
                     rs_input_tokens = am_input_tokens m, rs_output_tokens = am_output_tokens m,
                     rs_cached_read_tokens = am_cache_read m,
                     rs_cache_write_tokens = am_cache_creation m, rs_duration_ms = duration_ms,
                     rs_stop_reason = am_stop_reason m\<rparr>))"

subsection \<open>Prompts\<close>

definition VERSION_RX :: rx where
  "VERSION_RX =
     rx_seq [Lit ''<!--'', rx_star is_space, Lit ''version:'', rx_star is_space,
             Grp ''1'' (rx_plus (\<lambda>c. \<not> is_space c \<and> c \<noteq> CHR 0x3E)), rx_star is_space, Lit ''-->'']"

text \<open>One prompt file (\<open>prompt_file\<close> gives the text of a file by its name, if it exists): its body and
  its version.\<close>

definition read_prompt :: "(string \<Rightarrow> string option) \<Rightarrow> string \<Rightarrow> exc + string \<times> string" where
  "read_prompt prompt_file name =
     (case prompt_file name of
        None \<Rightarrow> Inl (FileNotFoundError (''no prompt named '' @ name))
      | Some raw \<Rightarrow>
          Inr (py_strip (rx_delete VERSION_RX raw),
               case rx_search VERSION_RX raw of
                 None \<Rightarrow> ''0''
               | Some m \<Rightarrow> (case group_of ''1'' m of None \<Rightarrow> ''0'' | Some v \<Rightarrow> v)))"

definition load_prompt :: "(string \<Rightarrow> string option) \<Rightarrow> string \<Rightarrow> exc + string \<times> string" where
  "load_prompt prompt_file name =
     ebind (read_prompt prompt_file name) (\<lambda>(body, version).
       if startswith name ''_'' then Inr (body, version)
       else ebind (read_prompt prompt_file ''_base'') (\<lambda>(base_body, base_version).
         Inr (base_body @ NEWLINE @ NEWLINE @ ''---'' @ NEWLINE @ NEWLINE @ body,
              name @ ''@'' @ version @ ''+base@'' @ base_version)))"

definition bundle_version :: "(string \<Rightarrow> string) \<Rightarrow> (string \<times> string) list \<Rightarrow> string" where
  "bundle_version sha256_hex files =
     take 12 (sha256_hex (concat (map (\<lambda>f. fst f @ snd f) (sort_key fst files))))"

subsection \<open>The single door\<close>

text \<open>The state a call works on: the event spine, the cost guard (if any), the registry of breakers, and
  how often the provider was called and the clock read so far. The environment gives the sink of the
  spine, the clock, the jitter, and the provider with the result of its \<open>n\<close>-th call.\<close>

record llm_world =
  lw_spine :: spine
  lw_budget :: "budget_guard option"
  lw_breakers :: "string \<rightharpoonup> breaker"
  lw_calls :: nat
  lw_ticks :: nat

record llm_env =
  le_put :: "event \<Rightarrow> spine \<Rightarrow> spine"
  le_clock :: "nat \<Rightarrow> real"
  le_jitter :: "nat \<Rightarrow> real \<Rightarrow> real"
  le_provider_name :: string
  le_complete :: "nat \<Rightarrow> llm_request \<Rightarrow> exc + llm_response"

definition worst_case_cost :: "llm_request \<Rightarrow> real" where
  "worst_case_cost rq =
     estimate_cost (rq_model rq)
       (int (length (rq_system rq) div 4 + length (rq_user rq) div 4)) (rq_max_tokens rq) 0 0"

definition llm_policy :: retry_policy where
  "llm_policy =
     \<lparr>rp_attempts = 3, rp_base_delay = 1, rp_max_delay = 20, rp_retry_on = [LLMError_c],
      rp_give_up_on = [LLMRefusal_c]\<rparr>"

definition llm_once :: "llm_env \<Rightarrow> string \<Rightarrow> llm_request \<Rightarrow> (llm_world, llm_response) effect" where
  "llm_once env name rq w =
     (case get_breaker name 5 30 2 (lw_breakers w) of (cb, reg) \<Rightarrow>
      let t = lw_ticks w in
      case breaker_call (le_clock env t) (le_clock env (t + 1)) (le_clock env (t + 2))
             (\<lambda>n. (le_complete env n rq, n + 1)) (cb, lw_calls w) of
        (r, cb', n) \<Rightarrow> (r, w\<lparr>lw_breakers := reg(name \<mapsto> cb'), lw_calls := n, lw_ticks := t + 3\<rparr>))"

definition charge_world :: "real \<Rightarrow> llm_world \<Rightarrow> llm_world" where
  "charge_world usd w = w\<lparr>lw_budget := map_option (\<lambda>b. budget_charge b usd) (lw_budget w)\<rparr>"

definition opt_json :: "string option \<Rightarrow> json" where
  "opt_json s = (case s of None \<Rightarrow> JNull | Some x \<Rightarrow> JStr x)"

definition call_row ::
  "llm_env \<Rightarrow> string \<Rightarrow> string option \<Rightarrow> string \<Rightarrow> llm_response \<Rightarrow> spine \<Rightarrow> spine" where
  "call_row env call_name agent prompt_version r =
     spine_llm_call (le_put env) call_name (opt_json agent) (rs_model r) prompt_version
       (rs_input_tokens r) (rs_output_tokens r) (rs_cached_read_tokens r) (cost_usd r) (rs_duration_ms r)
       [(''stop_reason'', opt_json (rs_stop_reason r)), (''cache_write_tokens'', JInt (rs_cache_write_tokens r))]"

definition call_llm ::
  "settings \<Rightarrow> llm_env \<Rightarrow> llm_request \<Rightarrow> string option \<Rightarrow> string \<Rightarrow> string \<Rightarrow> (llm_world, llm_response) effect" where
  "call_llm s env rq agent prompt_version call_name w =
     (case (case lw_budget w of None \<Rightarrow> Inr () | Some b \<Rightarrow> budget_check s b (worst_case_cost rq)) of
        Inl e \<Rightarrow> (Inl e, w)
      | Inr _ \<Rightarrow>
          (let name = ''llm:'' @ le_provider_name env;
               w1 = w\<lparr>lw_breakers := snd (get_breaker name 5 30 2 (lw_breakers w))\<rparr>
           in case with_retry (le_jitter env) (\<lambda>_. None) llm_policy (llm_once env name rq) w1 of
                (Inl e, w2, slept) \<Rightarrow> (Inl e, w2)
              | (Inr r, w2, slept) \<Rightarrow>
                  (let w3 = charge_world (cost_usd r) w2
                   in (Inr r, w3\<lparr>lw_spine := call_row env call_name agent prompt_version r (lw_spine w3)\<rparr>))))"

subsection \<open>Prices are positive and costs are monotone\<close>

lemma spec_for_in: "spec_for model \<in> set (FALLBACK_SPEC # map snd MODELS)"
  by (cases "map_of MODELS model") (auto simp: spec_for_def dest!: map_of_SomeD intro: rev_image_eqI)

lemma spec_positive: "0 < ms_input_per_mtok (spec_for m) \<and> 0 < ms_output_per_mtok (spec_for m)"
proof -
  have "\<forall>s \<in> set (FALLBACK_SPEC # map snd MODELS). 0 < ms_input_per_mtok s \<and> 0 < ms_output_per_mtok s"
    by (simp add: MODELS_def FALLBACK_SPEC_def mk_spec_def)
  with spec_for_in show ?thesis by blast
qed

lemma estimate_cost_nonneg:
  "0 \<le> i \<Longrightarrow> 0 \<le> out \<Longrightarrow> 0 \<le> c \<Longrightarrow> 0 \<le> w \<Longrightarrow> 0 \<le> estimate_cost m i out c w"
  using spec_positive [of m]
  by (simp add: estimate_cost_def Let_def CACHE_READ_MULTIPLIER_def CACHE_WRITE_MULTIPLIER_def)

text \<open>How far a call can cost more than the estimate the budget admitted it with: if the answer comes
  from the model that was asked, with no more prompt tokens (fresh, cached or written to the cache) than
  the estimate assumes and no more output than allowed, it costs at most a quarter more.\<close>

theorem cost_within_quarter:
  assumes "rs_model r = rq_model rq"
    and "0 \<le> rs_input_tokens r" "0 \<le> rs_output_tokens r" "0 \<le> rs_cached_read_tokens r"
      "0 \<le> rs_cache_write_tokens r"
    and "rs_input_tokens r + rs_cached_read_tokens r + rs_cache_write_tokens r \<le>
      int (length (rq_system rq) div 4 + length (rq_user rq) div 4)"
    and "rs_output_tokens r \<le> rq_max_tokens rq"
  shows "cost_usd r \<le> 5 / 4 * worst_case_cost rq"
proof -
  define p q where "p = ms_input_per_mtok (spec_for (rq_model rq))"
    and "q = ms_output_per_mtok (spec_for (rq_model rq))"
  define n where "n = real (length (rq_system rq) div 4 + length (rq_user rq) div 4)"
  define i c w out mx where "i = real_of_int (rs_input_tokens r)" and "c = real_of_int (rs_cached_read_tokens r)"
    and "w = real_of_int (rs_cache_write_tokens r)" and "out = real_of_int (rs_output_tokens r)"
    and "mx = real_of_int (rq_max_tokens rq)"
  have pos: "0 < p" "0 < q" using spec_positive [of "rq_model rq"] by (simp_all add: p_def q_def)
  have tok: "0 \<le> i" "0 \<le> c" "0 \<le> w" "0 \<le> out" "i + c + w \<le> n" "out \<le> mx"
    using assms by (simp_all add: i_def c_def w_def out_def n_def mx_def)
  have "i + c / 10 + 5 / 4 * w \<le> 5 / 4 * n" using tok by linarith
  then have "p * (i + c / 10 + 5 / 4 * w) \<le> p * (5 / 4 * n)"
    using pos by (intro mult_left_mono) simp_all
  moreover have "q * out \<le> q * (5 / 4 * mx)" using pos tok by (intro mult_left_mono) simp_all
  ultimately have "p * (i + c / 10 + 5 / 4 * w) + q * out \<le> 5 / 4 * (p * n + q * mx)"
    by (simp add: algebra_simps)
  moreover have "cost_usd r = (p * (i + c / 10 + 5 / 4 * w) + q * out) / 1000000"
    by (simp add: cost_usd_def estimate_cost_def Let_def assms(1) CACHE_READ_MULTIPLIER_def
        CACHE_WRITE_MULTIPLIER_def p_def q_def i_def c_def w_def out_def algebra_simps)
  moreover have "worst_case_cost rq = (p * n + q * mx) / 1000000"
    by (simp add: worst_case_cost_def estimate_cost_def Let_def p_def q_def n_def mx_def algebra_simps)
  ultimately show ?thesis by (simp add: field_simps)
qed

definition sample_request :: llm_request where
  "sample_request =
     \<lparr>rq_system = replicate 4000 CHR ''s'', rq_user = ''diff'', rq_model = ''claude-opus-5'',
      rq_max_tokens = 100, rq_effort = Some ''high'', rq_thinking = True, rq_json_schema = None,
      rq_cache_system = True, rq_timeout_s = 180, rq_metadata = []\<rparr>"

definition sample_response :: llm_response where
  "sample_response =
     \<lparr>rs_text = ''{}'', rs_model = ''claude-opus-5'', rs_input_tokens = 1, rs_output_tokens = 100,
      rs_cached_read_tokens = 0, rs_cache_write_tokens = 1000, rs_duration_ms = 1,
      rs_stop_reason = Some ''end_turn''\<rparr>"

lemma sample_lengths: "length (rq_system sample_request) = 4000" "length (rq_user sample_request) = 4"
  by (simp_all add: sample_request_def)

lemma sample_costs:
  "cost_usd sample_response = 8755 / 1000000" "worst_case_cost sample_request = 7505 / 1000000"
  unfolding worst_case_cost_def sample_lengths
  by (simp_all add: cost_usd_def sample_response_def sample_request_def estimate_cost_def spec_for_def
      MODELS_def mk_spec_def CACHE_READ_MULTIPLIER_def CACHE_WRITE_MULTIPLIER_def)

lemma cost_within_quarter_witness:
  "cost_usd sample_response \<le> 5 / 4 * worst_case_cost sample_request"
  by (rule cost_within_quarter, unfold sample_lengths)
    (simp_all add: sample_response_def sample_request_def)

text \<open>The estimate is not the worst case: a request whose system prompt is written to the cache costs
  more than the amount the budget was checked with.\<close>

theorem worst_case_exceeded:
  "worst_case_cost sample_request < cost_usd sample_response \<and>
   rs_input_tokens sample_response + rs_cache_write_tokens sample_response \<le>
     int (length (rq_system sample_request) div 4 + length (rq_user sample_request) div 4) \<and>
   rs_output_tokens sample_response \<le> rq_max_tokens sample_request"
  unfolding sample_costs sample_lengths by (simp add: sample_response_def sample_request_def)

subsection \<open>What a model call does on every path\<close>

lemma llm_once_keeps:
  "lw_spine (snd (llm_once env name rq w)) = lw_spine w"
  "lw_budget (snd (llm_once env name rq w)) = lw_budget w"
  by (simp_all add: llm_once_def Let_def split: prod.splits)

lemma llm_once_calls:
  "lw_calls w \<le> lw_calls (snd (llm_once env name rq w)) \<and>
   lw_calls (snd (llm_once env name rq w)) \<le> lw_calls w + 1"
  by (auto simp: llm_once_def breaker_call_def Let_def split: prod.splits if_splits)

lemma llm_once_result:
  assumes "fst (llm_once env name rq w) = Inr r"
  shows "le_complete env (lw_calls w) rq = Inr r \<and> lw_calls (snd (llm_once env name rq w)) = lw_calls w + 1"
  using assms by (auto simp: llm_once_def breaker_call_def Let_def split: prod.splits if_splits)

lemma state_at_keeps:
  "lw_spine (state_at (llm_once env name rq) k w) = lw_spine w \<and>
   lw_budget (state_at (llm_once env name rq) k w) = lw_budget w \<and>
   lw_calls w \<le> lw_calls (state_at (llm_once env name rq) k w) \<and>
   lw_calls (state_at (llm_once env name rq) k w) \<le> lw_calls w + k"
proof (induction k arbitrary: w)
  case (Suc k)
  from Suc [of "snd (llm_once env name rq w)"] llm_once_keeps [of env name rq w]
    llm_once_calls [of w env name rq] show ?case by auto
qed simp

lemma state_at_Suc_snd: "state_at fn (Suc k) s = snd (fn (state_at fn k s))"
  by (induction k arbitrary: s) simp_all

text \<open>The retried call of the provider: how many calls it makes, and that only a result moves the spine
  or the guard.\<close>

lemma llm_retry:
  assumes "with_retry j ra llm_policy (llm_once env name rq) w = (r, w', slept)"
  shows "lw_spine w' = lw_spine w \<and> lw_budget w' = lw_budget w \<and> lw_calls w \<le> lw_calls w' \<and>
    lw_calls w' \<le> lw_calls w + 3 \<and>
    (\<forall>x. r = Inr x \<longrightarrow> (\<exists>n. lw_calls w \<le> n \<and> n < lw_calls w' \<and> le_complete env n rq = Inr x))"
proof -
  let ?fn = "llm_once env name rq"
  have three: "rp_attempts llm_policy = 3" by (simp add: llm_policy_def)
  have "(\<exists>k d. k < 3 \<and> with_retry j ra llm_policy ?fn w = (outcome_at ?fn k w, state_at ?fn (Suc k) w, d)) \<or>
      (\<exists>e d. with_retry j ra llm_policy ?fn w = (Inl (RetryExhausted 3 e), state_at ?fn 3 w, d))"
    using retry_cases [of llm_policy ?fn w j ra] three by fastforce
  then show ?thesis
  proof (elim disjE exE conjE)
    fix k d assume k: "k < 3" and eq: "with_retry j ra llm_policy ?fn w = (outcome_at ?fn k w, state_at ?fn (Suc k) w, d)"
    from eq assms have w': "w' = state_at ?fn (Suc k) w" and r: "r = fst (?fn (state_at ?fn k w))"
      by (simp_all add: outcome_at_def)
    have "\<exists>n. lw_calls w \<le> n \<and> n < lw_calls w' \<and> le_complete env n rq = Inr x" if "r = Inr x" for x
      using llm_once_result [of env name rq "state_at ?fn k w" x] state_at_keeps [of env name rq k w] that r
      unfolding w' state_at_Suc_snd by (intro exI [of _ "lw_calls (state_at ?fn k w)"]) simp
    with state_at_keeps [of env name rq "Suc k" w] k show ?thesis unfolding w' by auto
  next
    fix e d assume "with_retry j ra llm_policy ?fn w = (Inl (RetryExhausted 3 e), state_at ?fn 3 w, d)"
    with assms state_at_keeps [of env name rq 3 w] show ?thesis by auto
  qed
qed

lemma call_llm_charges:
  assumes "call_llm s env rq agent pv call_name w = (r, w')"
  shows "lw_calls w \<le> lw_calls w' \<and> lw_calls w' \<le> lw_calls w + 3 \<and>
    (\<forall>b e. lw_budget w = Some b \<and> budget_check s b (worst_case_cost rq) = Inl e \<longrightarrow> r = Inl e \<and> w' = w) \<and>
    (\<forall>x. r = Inr x \<longrightarrow>
       (\<exists>n. lw_calls w \<le> n \<and> n < lw_calls w' \<and> le_complete env n rq = Inr x) \<and>
       lw_budget w' = map_option (\<lambda>b. budget_charge b (cost_usd x)) (lw_budget w) \<and>
       lw_spine w' = call_row env call_name agent pv x (lw_spine w)) \<and>
    (\<forall>e. r = Inl e \<longrightarrow> lw_budget w' = lw_budget w \<and> lw_spine w' = lw_spine w)"
proof (cases "case lw_budget w of None \<Rightarrow> Inr () | Some b \<Rightarrow> budget_check s b (worst_case_cost rq)")
  case (Inl e)
  with assms show ?thesis by (auto simp: call_llm_def split: option.splits)
next
  case (Inr u)
  let ?name = "''llm:'' @ le_provider_name env"
  let ?w1 = "w\<lparr>lw_breakers := snd (get_breaker ?name 5 30 2 (lw_breakers w))\<rparr>"
  obtain q w2 slept where q: "with_retry (le_jitter env) (\<lambda>_. None) llm_policy (llm_once env ?name rq) ?w1 =
      (q, w2, slept)" by (metis prod.collapse)
  from llm_retry [OF q] have k: "lw_spine w2 = lw_spine w" "lw_budget w2 = lw_budget w"
    "lw_calls w \<le> lw_calls w2" "lw_calls w2 \<le> lw_calls w + 3"
    "\<forall>x. q = Inr x \<longrightarrow> (\<exists>n. lw_calls w \<le> n \<and> n < lw_calls w2 \<and> le_complete env n rq = Inr x)"
    by simp_all
  have refuse: "\<not> (lw_budget w = Some b \<and> budget_check s b (worst_case_cost rq) = Inl e)" for b e
    using Inr by auto
  show ?thesis
  proof (cases q)
    case (Inl e)
    with assms \<open>_ = Inr u\<close> q have "r = Inl e" "w' = w2"
      by (simp_all add: call_llm_def Let_def)
    with k refuse show ?thesis by auto
  next
    case (Inr x)
    with assms \<open>_ = Inr u\<close> q have "r = Inr x"
      "w' = (charge_world (cost_usd x) w2)\<lparr>lw_spine := call_row env call_name agent pv x (lw_spine w2)\<rparr>"
      by (auto simp: call_llm_def Let_def charge_world_def)
    with k refuse Inr show ?thesis by (auto simp: charge_world_def)
  qed
qed

text \<open>C15. Every model call through the single door, on every path. A call the budget refuses raises
  \<^verbatim>\<open>BudgetExceeded\<close>, never reaches the provider and changes nothing. Otherwise the provider is
  called at most three times; if the call returns, the answer is one the provider gave during this call,
  the guard is charged its cost exactly once and exactly one \<^verbatim>\<open>llm_call\<close> row is written; if it
  raises, nothing is charged and no row is written.\<close>

theorem call_llm_effects:
  assumes "call_llm s env rq agent pv call_name w = (r, w')"
  shows "lw_calls w \<le> lw_calls w' \<and> lw_calls w' \<le> lw_calls w + 3 \<and>
    (\<forall>b e. lw_budget w = Some b \<and> budget_check s b (worst_case_cost rq) = Inl e \<longrightarrow> r = Inl e \<and> w' = w) \<and>
    (\<forall>x. r = Inr x \<longrightarrow>
       (\<exists>n. lw_calls w \<le> n \<and> n < lw_calls w' \<and> le_complete env n rq = Inr x) \<and>
       lw_budget w' = map_option (\<lambda>b. budget_charge b (cost_usd x)) (lw_budget w) \<and>
       lw_spine w' = call_row env call_name agent pv x (lw_spine w)) \<and>
    (\<forall>e. r = Inl e \<longrightarrow> lw_budget w' = lw_budget w \<and> lw_spine w' = lw_spine w)"
  using assms by (rule call_llm_charges)

definition sample_env :: llm_env where
  "sample_env =
     \<lparr>le_put = null_write, le_clock = real, le_jitter = (\<lambda>k c. c), le_provider_name = ''echo'',
      le_complete = (\<lambda>n rq. Inr sample_response)\<rparr>"

definition sample_world :: llm_world where
  "sample_world =
     \<lparr>lw_spine = new_spine None None None 7, lw_budget = Some sample_guard, lw_breakers = Map.empty,
      lw_calls = 0, lw_ticks = 0\<rparr>"

lemma call_llm_effects_witness:
  "lw_calls (snd (call_llm default_settings sample_env sample_request None ''v'' ''c'' sample_world)) \<le> 3"
proof -
  obtain r w' where c: "call_llm default_settings sample_env sample_request None ''v'' ''c'' sample_world = (r, w')"
    by fastforce
  from call_llm_effects [OF c] show ?thesis unfolding c by (simp add: sample_world_def)
qed

text \<open>A refusal is raised at once, and an open breaker rejects the call before the provider is asked;
  neither is retried.\<close>

lemma refusal_not_retryable: "\<not> retryable llm_policy (LLMRefusal c x)"
  by (simp add: retryable_def llm_policy_def isinstance_any_def)

lemma circuit_open_not_retryable: "\<not> retryable llm_policy (CircuitOpen n d)"
  by (simp add: retryable_def llm_policy_def isinstance_any_def)

lemma llm_error_retryable: "retryable llm_policy (LLMError m)"
  by (simp add: retryable_def llm_policy_def isinstance_any_def)

text \<open>A refusal that the API reports with status 200 is raised, never read as an empty answer.\<close>

lemma anthropic_refusal:
  assumes "create (anthropic_params rq) (rq_timeout_s rq) = ApiMessage m" and "am_stop_reason m = Some ''refusal''"
  shows "\<exists>c x. anthropic_complete create ms rq = Inl (LLMRefusal c x)"
  using assms by (simp add: anthropic_complete_def)

end
