(* ===== verification/Context.thy ===== *)
theory Context
  imports Diff Spine
begin

section \<open>Context assembly\<close>

text \<open>
  \<^verbatim>\<open>retrieval/context.py\<close>: the packet an agent reads. Retrieval itself is outside: the stored
  index commit, the embedder, the hybrid search and the recorded conventions are fields of the
  environment, each returning a value or raising. What is modelled is everything built on them: the drift
  note, one query per changed file, deduplication of hits across files, the round-robin merge and the
  character budget of the rendered context.
\<close>

definition index_drift :: "string option \<Rightarrow> string \<Rightarrow> string option" where
  "index_drift indexed_sha base_sha =
     (if base_sha = [] then None
      else case indexed_sha of
        None \<Rightarrow> Some ''unindexed''
      | Some x \<Rightarrow> if x = [] then Some ''unindexed'' else if x \<noteq> base_sha then Some ''stale'' else None)"

definition index_drift_note :: "string option \<Rightarrow> string option \<Rightarrow> string \<Rightarrow> string option" where
  "index_drift_note kind indexed_sha base_sha =
     (if kind = Some ''unindexed'' then
        Some (''This repository has no semantic index. '' @
              ''Anything not in the diff is unknown; do not invent callers or conventions.'')
      else if kind = Some ''stale'' then
        Some (''The semantic index is commit '' @ take 12 (case indexed_sha of None \<Rightarrow> [] | Some x \<Rightarrow> x) @
              '', not this pull request'' @ CHR 0x27 # ''s base '' @ take 12 base_sha @ ''. '' @
              ''Retrieved code may be stale. A disagreement between it and the diff is unresolved.'')
      else None)"

record review_context =
  rc_pr :: pull_request
  rc_diff_text :: string
  rc_chunks :: "code_chunk list"
  rc_conventions :: "string list"
  rc_truncated :: bool
  rc_index_drift :: "string option"
  rc_indexed_sha :: "string option"

text \<open>The loop that fills the character budget stops at the first block that does not fit.\<close>

fun fill_blocks :: "nat \<Rightarrow> nat \<Rightarrow> string list \<Rightarrow> string list" where
  "fill_blocks max_chars used [] = []"
| "fill_blocks max_chars used (b # bs) =
     (if max_chars < used + length b then [] else b # fill_blocks max_chars (used + length b) bs)"

definition render_repository_context :: "nat \<Rightarrow> review_context \<Rightarrow> string" where
  "render_repository_context max_chars ctx =
     (let note = index_drift_note (rc_index_drift ctx) (rc_indexed_sha ctx) (pr_base_sha (rc_pr ctx));
          body = (if rc_chunks ctx = []
                  then ''(no repository context retrieved '' @ [CHR 0xE2, CHR 0x80, CHR 0x94] @
                       '' treat unseen code as unknown)''
                  else py_join (NEWLINE @ NEWLINE)
                         (fill_blocks max_chars 0 (map (chunk_render 2400) (rc_chunks ctx))))
      in case note of None \<Rightarrow> body | Some n \<Rightarrow> if n = [] then body else n @ NEWLINE @ NEWLINE @ body)"

definition render_conventions :: "review_context \<Rightarrow> string" where
  "render_conventions ctx =
     (if rc_conventions ctx = [] then ''(none recorded)''
      else py_join NEWLINE (map (\<lambda>c. ''- '' @ c) (rc_conventions ctx)))"

subsection \<open>Merging the hits of the files\<close>

definition chunk_key :: "code_chunk \<Rightarrow> string \<times> int" where
  "chunk_key c = (ck_file_path c, ck_start_line c)"

fun keep_unseen :: "(string \<times> int) list \<Rightarrow> code_chunk list \<Rightarrow> code_chunk list \<times> (string \<times> int) list" where
  "keep_unseen seen [] = ([], seen)"
| "keep_unseen seen (h # hs) =
     (if chunk_key h \<in> set seen then keep_unseen seen hs
      else (case keep_unseen (chunk_key h # seen) hs of (kept, seen') \<Rightarrow> (h # kept, seen')))"

definition hits_put ::
  "string \<Rightarrow> code_chunk list \<Rightarrow> (string \<times> code_chunk list) list \<Rightarrow> (string \<times> code_chunk list) list" where
  "hits_put k v d =
     (if k \<in> fst ` set d then map (\<lambda>(k', v'). if k' = k then (k', v) else (k', v')) d else d @ [(k, v)])"

definition rank_row :: "code_chunk list list \<Rightarrow> nat \<Rightarrow> code_chunk list" where
  "rank_row hss rank =
     sort_key (\<lambda>c. - ck_score c) (map (\<lambda>hits. hits ! rank) (filter (\<lambda>hits. rank < length hits) hss))"

definition interleave :: "code_chunk list list \<Rightarrow> code_chunk list" where
  "interleave hss = concat (map (rank_row hss) [0..<Max (insert 0 (length ` set hss))])"

subsection \<open>Building the context\<close>

record 'v retrieval_env =
  re_indexed_sha :: "exc + string option"
  re_embed :: "string list \<Rightarrow> exc + 'v list"
  re_search :: "string \<Rightarrow> 'v \<Rightarrow> string \<Rightarrow> nat \<Rightarrow> string list \<Rightarrow> exc + code_chunk list"
  re_conventions :: "exc + string list"
  re_embedder_name :: string
  re_elapsed_ms :: int

definition opt_string_json :: "string option \<Rightarrow> json" where
  "opt_string_json s = (case s of None \<Rightarrow> JNull | Some x \<Rightarrow> JStr x)"

definition note_index_drift ::
  "(event \<Rightarrow> spine \<Rightarrow> spine) \<Rightarrow> exc + string option \<Rightarrow> review_context \<Rightarrow> spine \<Rightarrow>
     (exc + review_context) \<times> spine" where
  "note_index_drift put stored ctx s =
     (case stored of
        Inl e \<Rightarrow>
          (if exc_isinstance e Exception_c
           then (Inr ctx, spine_error put ''retrieval.index_lookup_failed'' e [] s) else (Inl e, s))
      | Inr sha \<Rightarrow>
          (let kind = index_drift sha (pr_base_sha (rc_pr ctx));
               ctx' = ctx\<lparr>rc_indexed_sha := sha, rc_index_drift := kind\<rparr>
           in (Inr ctx',
               case kind of
                 None \<Rightarrow> s
               | Some k \<Rightarrow> spine_decision put ''retrieval.index_drift''
                   [(''drift'', JStr k), (''indexed_sha'', opt_string_json sha),
                    (''base_sha'', JStr (pr_base_sha (rc_pr ctx)))] s)))"

text \<open>The loop over the queried files: hits seen so far, the lists kept per file, and the spine.\<close>

fun search_loop ::
  "(event \<Rightarrow> spine \<Rightarrow> spine) \<Rightarrow> (string \<Rightarrow> 'v \<Rightarrow> string \<Rightarrow> nat \<Rightarrow> string list \<Rightarrow> exc + code_chunk list) \<Rightarrow> nat \<Rightarrow>
     string list \<Rightarrow> (diff_file \<times> 'v \<times> string) list \<Rightarrow> (string \<times> int) list \<Rightarrow>
     (string \<times> code_chunk list) list \<Rightarrow> spine \<Rightarrow> (exc + (string \<times> code_chunk list) list) \<times> spine" where
  "search_loop put search top_k exclude [] seen acc s = (Inr acc, s)"
| "search_loop put search top_k exclude ((f, v, terms) # rest) seen acc s =
     (case search (df_path f) v terms top_k exclude of
        Inl e \<Rightarrow>
          (if exc_isinstance e Exception_c
           then search_loop put search top_k exclude rest seen acc
                  (spine_error put ''retrieval.search_failed'' e [(''file'', JStr (df_path f))] s)
           else (Inl e, s))
      | Inr hits \<Rightarrow>
          (case keep_unseen seen hits of (kept, seen') \<Rightarrow>
             search_loop put search top_k exclude rest seen' (hits_put (df_path f) kept acc) s))"

definition source_files :: "pull_request \<Rightarrow> diff_file list" where
  "source_files pr = filter (\<lambda>f. \<not> df_binary f \<and> df_status f \<noteq> ''removed'') (pr_files pr)"

definition retrieve_chunks ::
  "settings \<Rightarrow> (event \<Rightarrow> spine \<Rightarrow> spine) \<Rightarrow> 'v retrieval_env \<Rightarrow> review_context \<Rightarrow> 'v list \<Rightarrow> spine \<Rightarrow>
     (exc + review_context) \<times> spine" where
  "retrieve_chunks st put env ctx vectors s =
     (let files = take 12 (source_files (rc_pr ctx)) in
      if length vectors \<noteq> length files then (Inl (ValueError ''zip() argument 2 is shorter''), s)
      else
        (case search_loop put (re_search env) (s_retrieval_top_k st) (map df_path (pr_files (rc_pr ctx)))
                (zip files (zip vectors (map (\<lambda>f. fts_query [f] 24) files))) [] [] s of
           (Inl e, s1) \<Rightarrow> (Inl e, s1)
         | (Inr per_file, s1) \<Rightarrow>
             (let ctx1 = ctx\<lparr>rc_chunks := take (s_retrieval_top_k st) (interleave (map snd per_file))\<rparr> in
              case re_conventions env of
                Inl e \<Rightarrow>
                  (if exc_isinstance e Exception_c
                   then (Inr ctx1, spine_error put ''retrieval.conventions_failed'' e [] s1)
                   else (Inl e, s1))
              | Inr cs \<Rightarrow> (Inr (ctx1\<lparr>rc_conventions := cs\<rparr>), s1))))"

definition retrieval_row ::
  "(event \<Rightarrow> spine \<Rightarrow> spine) \<Rightarrow> 'v retrieval_env \<Rightarrow> review_context \<Rightarrow> spine \<Rightarrow> spine" where
  "retrieval_row put env ctx =
     spine_retrieval put ''retrieval.hybrid'' (re_elapsed_ms env)
       [(''files_queried'', JInt (int (length (take 12 (source_files (rc_pr ctx)))))),
        (''chunks'', JInt (int (length (rc_chunks ctx)))),
        (''conventions'', JInt (int (length (rc_conventions ctx)))),
        (''embedder'', JStr (re_embedder_name env)), (''index_drift'', opt_string_json (rc_index_drift ctx)),
        (''indexed_sha'', opt_string_json (rc_indexed_sha ctx))]"

definition build_context ::
  "settings \<Rightarrow> (event \<Rightarrow> spine \<Rightarrow> spine) \<Rightarrow> 'v retrieval_env \<Rightarrow> pull_request \<Rightarrow> int option \<Rightarrow> spine \<Rightarrow>
     (exc + review_context) \<times> spine" where
  "build_context st put env pr repo_id s =
     (case render_for_prompt (pr_files pr) (s_max_diff_bytes st) of (diff_text, truncated) \<Rightarrow>
        let ctx = \<lparr>rc_pr = pr, rc_diff_text = diff_text, rc_chunks = [], rc_conventions = [],
                   rc_truncated = truncated, rc_index_drift = None, rc_indexed_sha = None\<rparr> in
        case repo_id of
          None \<Rightarrow> (Inr ctx, s)
        | Some _ \<Rightarrow>
            (case note_index_drift put (re_indexed_sha env) ctx s of
               (Inl e, s1) \<Rightarrow> (Inl e, s1)
             | (Inr ctx1, s1) \<Rightarrow>
                 (if source_files pr = [] then (Inr ctx1, s1)
                  else case re_embed env (map (\<lambda>f. diff_query_text [f] 1200) (take 12 (source_files pr))) of
                    Inl e \<Rightarrow>
                      (if exc_isinstance e Exception_c
                       then (Inr ctx1, spine_error put ''retrieval.embed_failed'' e [] s1)
                       else (Inl e, s1))
                  | Inr vectors \<Rightarrow>
                      (case retrieve_chunks st put env ctx1 vectors s1 of
                         (Inl e, s2) \<Rightarrow> (Inl e, s2)
                       | (Inr ctx2, s2) \<Rightarrow> (Inr ctx2, retrieval_row put env ctx2 s2)))))"

subsection \<open>The budget of the rendered context\<close>

lemma fill_blocks_prefix: "prefix (fill_blocks m u bs) bs"
  by (induction m u bs rule: fill_blocks.induct) auto

lemma fill_blocks_budget: "u \<le> m \<Longrightarrow> u + sum_list (map length (fill_blocks m u bs)) \<le> m"
  by (induction m u bs rule: fill_blocks.induct) auto

text \<open>The loop stops only where the next block would not fit.\<close>

lemma fill_blocks_maximal:
  assumes "fill_blocks m u bs \<noteq> bs"
  shows "\<exists>b rest. bs = fill_blocks m u bs @ b # rest \<and>
    m < u + sum_list (map length (fill_blocks m u bs)) + length b"
  using assms
proof (induction m u bs rule: fill_blocks.induct)
  case (2 m u b bs)
  show ?case
  proof (cases "m < u + length b")
    case False
    with 2 obtain c rest where "bs = fill_blocks m (u + length b) bs @ c # rest"
      "m < u + length b + sum_list (map length (fill_blocks m (u + length b) bs)) + length c"
      by auto
    with False show ?thesis by (intro exI [of _ c] exI [of _ rest]) simp
  qed simp
qed simp

subsection \<open>The merge\<close>

lemma keep_unseen_keys:
  assumes "keep_unseen seen hs = (kept, seen')"
  shows "distinct (map chunk_key kept) \<and> set (map chunk_key kept) \<inter> set seen = {} \<and>
    set seen' = set seen \<union> set (map chunk_key kept) \<and> set kept \<subseteq> set hs \<and>
    set seen' = set seen \<union> chunk_key ` set hs"
  using assms
proof (induction seen hs arbitrary: kept seen' rule: keep_unseen.induct)
  case (2 seen h hs)
  show ?case
  proof (cases "chunk_key h \<in> set seen")
    case True
    with "2.prems" have "keep_unseen seen hs = (kept, seen')" by simp
    from "2.IH"(1) [OF True this] True show ?thesis by (simp add: insert_absorb) blast
  next
    case False
    with "2.prems" obtain k where k: "keep_unseen (chunk_key h # seen) hs = (k, seen')" "kept = h # k"
      by (auto split: prod.splits)
    from "2.IH"(2) [OF False k(1)] False k(2) show ?thesis by auto
  qed
qed simp

lemma mset_rank_row:
  "mset (rank_row hss r) = image_mset (\<lambda>hits. hits ! r) (filter_mset (\<lambda>hits. r < length hits) (mset hss))"
  by (simp add: rank_row_def mset_map mset_filter)

lemma rank_row_Cons:
  "mset (rank_row (l # ls) r) = (if r < length l then {#l ! r#} else {#}) + mset (rank_row ls r)"
  by (simp add: mset_rank_row)

lemma mset_concat_map: "mset (concat (map f xs)) = sum_list (map (\<lambda>x. mset (f x)) xs)"
  by (induction xs) simp_all

lemma sum_list_nth_mset: "length l \<le> n \<Longrightarrow>
  sum_list (map (\<lambda>r. if r < length l then {#l ! r#} else {#}) [0..<n]) = mset l"
proof (induction n arbitrary: l)
  case (Suc n)
  show ?case
  proof (cases "length l \<le> n")
    case True
    with Suc show ?thesis by simp
  next
    case False
    with Suc.prems have len: "length l = Suc n" by simp
    then obtain xs x where l: "l = xs @ [x]" by (metis length_Suc_conv_rev)
    with len have n: "length xs = n" by simp
    have "map (\<lambda>r. if r < length l then {#l ! r#} else {#}) [0..<n] =
        map (\<lambda>r. if r < length xs then {#xs ! r#} else {#}) [0..<n]"
      using n l by (simp add: nth_append)
    then have "sum_list (map (\<lambda>r. if r < length l then {#l ! r#} else {#}) [0..<n]) = mset xs"
      using Suc.IH [of xs] n by (simp only:)
    moreover have "mset l = mset xs + {#l ! n#}" "n < length l" using n l by (simp_all add: nth_append)
    ultimately show ?thesis by simp
  qed
qed simp

lemma mset_interleave_upto:
  "\<forall>l \<in> set hss. length l \<le> n \<Longrightarrow>
     mset (concat (map (rank_row hss) [0..<n])) = mset (concat hss)"
proof (induction hss)
  case Nil
  then show ?case by (simp add: rank_row_def mset_concat_map)
next
  case (Cons l ls)
  have "mset (concat (map (rank_row (l # ls)) [0..<n])) =
      sum_list (map (\<lambda>r. (if r < length l then {#l ! r#} else {#}) + mset (rank_row ls r)) [0..<n])"
    by (simp add: mset_concat_map rank_row_Cons)
  also have "\<dots> = mset l + mset (concat (map (rank_row ls) [0..<n]))"
    using sum_list_nth_mset [of l n] Cons.prems by (simp add: sum_list_addf mset_concat_map)
  finally show ?case using Cons by simp
qed

text \<open>The round robin loses nothing and repeats nothing.\<close>

lemma mset_interleave: "mset (interleave hss) = mset (concat hss)"
  unfolding interleave_def by (rule mset_interleave_upto) simp

text \<open>What the loop over the files maintains: one list per path, no chunk twice over all lists, every
  chunk remembered as seen and returned by some search.\<close>

definition hits_inv ::
  "(code_chunk \<Rightarrow> bool) \<Rightarrow> (string \<times> int) list \<Rightarrow> (string \<times> code_chunk list) list \<Rightarrow> bool" where
  "hits_inv P seen acc \<longleftrightarrow>
     distinct (map fst acc) \<and> distinct (map chunk_key (concat (map snd acc))) \<and>
     chunk_key ` set (concat (map snd acc)) \<subseteq> set seen \<and> (\<forall>c \<in> set (concat (map snd acc)). P c)"

lemma hits_put_cases:
  assumes "distinct (map fst acc)"
  obtains "hits_put k v acc = acc @ [(k, v)]" "k \<notin> fst ` set acc"
  | xs v' ys where "acc = xs @ (k, v') # ys" "hits_put k v acc = xs @ (k, v) # ys"
proof (cases "k \<in> fst ` set acc")
  case True
  then obtain xs v' ys where a: "acc = xs @ (k, v') # ys" by (metis (no_types, lifting) imageE prod.collapse split_list)
  with assms have "k \<notin> fst ` set xs" "k \<notin> fst ` set ys" by (auto simp: image_iff)
  then have "map (\<lambda>(k', v'). if k' = k then (k', v) else (k', v')) xs = xs"
    "map (\<lambda>(k', v'). if k' = k then (k', v) else (k', v')) ys = ys"
    by (auto intro!: map_idI simp: image_iff)
  with a True have "hits_put k v acc = xs @ (k, v) # ys" by (simp add: hits_put_def)
  with a that(2) show thesis by blast
next
  case False
  then show thesis by (intro that(1)) (simp_all add: hits_put_def)
qed

lemma hits_invI:
  assumes "distinct (map fst acc)" and "concat (map snd acc) = as @ v @ bs"
    and "distinct (map chunk_key (as @ bs))" "chunk_key ` set (as @ bs) \<subseteq> S" "\<forall>c \<in> set (as @ bs). P c"
    and "distinct (map chunk_key v)" "chunk_key ` set v \<inter> S = {}" "\<forall>c \<in> set v. P c"
    and "set seen' = S \<union> chunk_key ` set v"
  shows "hits_inv P seen' acc"
proof -
  have "chunk_key ` set as \<inter> chunk_key ` set v = {}" "chunk_key ` set v \<inter> chunk_key ` set bs = {}"
    using assms(4,7) by auto
  then have "distinct (map chunk_key (as @ v @ bs))"
    using assms(3,6) by simp blast
  moreover have "chunk_key ` set (as @ v @ bs) \<subseteq> set seen'"
    using assms(4,9) by (simp add: image_Un) blast
  moreover have "\<forall>c \<in> set (as @ v @ bs). P c" using assms(5,8) by auto
  ultimately show ?thesis using assms(1) unfolding hits_inv_def assms(2) by blast
qed

lemma hits_put_inv:
  assumes inv: "hits_inv P seen acc" and v: "distinct (map chunk_key v)"
    "chunk_key ` set v \<inter> set seen = {}" "\<forall>c \<in> set v. P c"
    and seen': "set seen' = set seen \<union> chunk_key ` set v"
  shows "hits_inv P seen' (hits_put k v acc)"
proof -
  have d: "distinct (map fst acc)" using inv by (simp add: hits_inv_def)
  show ?thesis
    using d
  proof (cases rule: hits_put_cases [of acc k v])
    case 1
    show ?thesis
      unfolding 1 by (rule hits_invI [of _ "concat (map snd acc)" v "[]" "set seen"])
        (use inv v seen' 1 in \<open>simp_all add: hits_inv_def\<close>)
  next
    case (2 xs v' ys)
    show ?thesis
      unfolding 2(2)
    proof (rule hits_invI [of _ "concat (map snd xs)" v "concat (map snd ys)" "set seen"])
      show "distinct (map chunk_key (concat (map snd xs) @ concat (map snd ys)))"
        using inv unfolding hits_inv_def 2(1) by (simp add: Int_Un_distrib)
      show "chunk_key ` set (concat (map snd xs) @ concat (map snd ys)) \<subseteq> set seen"
        using inv unfolding hits_inv_def 2(1) by (simp add: image_Un)
      show "\<forall>c \<in> set (concat (map snd xs) @ concat (map snd ys)). P c"
        using inv unfolding hits_inv_def 2(1) by (simp add: ball_Un)
    qed (use v seen' d 2(1) in simp_all)
  qed
qed

lemma search_loop_inv:
  assumes "search_loop put search k ex qs seen acc s = (Inr acc', s')"
    and "hits_inv P seen acc" and "\<And>p v t hits c. search p v t k ex = Inr hits \<Longrightarrow> c \<in> set hits \<Longrightarrow> P c"
  shows "\<exists>seen'. hits_inv P seen' acc'"
  using assms(1,2)
proof (induction qs arbitrary: seen acc s)
  case (Cons q qs)
  obtain f v t where q: "q = (f, v, t)" by (cases q)
  show ?case
  proof (cases "search (df_path f) v t k ex")
    case (Inl e)
    with Cons q show ?thesis by (auto split: if_splits)
  next
    case (Inr hits)
    obtain kept seen' where ks: "keep_unseen seen hits = (kept, seen')" by fastforce
    from keep_unseen_keys [OF ks] Cons.prems(2) assms(3) [OF Inr]
    have "hits_inv P seen' (hits_put (df_path f) kept acc)"
      by (intro hits_put_inv [of P seen]) auto
    with Cons q Inr ks show ?thesis by auto
  qed
qed auto

lemma note_index_drift_keeps:
  "note_index_drift put stored ctx s = (Inr ctx', s') \<Longrightarrow>
     rc_chunks ctx' = rc_chunks ctx \<and> rc_pr ctx' = rc_pr ctx"
  by (auto simp: note_index_drift_def Let_def split: sum.splits if_splits)

lemma retrieve_chunks_sound:
  assumes "retrieve_chunks st put env ctx vectors s = (Inr ctx', s')"
  shows "\<exists>per_file seen. rc_chunks ctx' = take (s_retrieval_top_k st) (interleave (map snd per_file)) \<and>
    hits_inv (\<lambda>c. \<exists>p v t hits. re_search env p v t (s_retrieval_top_k st)
      (map df_path (pr_files (rc_pr ctx))) = Inr hits \<and> c \<in> set hits) seen per_file"
    (is "\<exists>per_file seen. ?take per_file \<and> hits_inv ?P seen per_file")
proof -
  from assms obtain qs per_file s1 where
    loop: "search_loop put (re_search env) (s_retrieval_top_k st) (map df_path (pr_files (rc_pr ctx))) qs [] [] s =
      (Inr per_file, s1)" and "?take per_file"
    by (auto simp: retrieve_chunks_def Let_def split: prod.splits sum.splits if_splits)
  moreover have "\<exists>seen. hits_inv ?P seen per_file"
    by (rule search_loop_inv [OF loop]) (simp add: hits_inv_def, blast)
  ultimately show ?thesis by blast
qed

lemma build_context_sound:
  assumes "build_context st put env pr repo_id s = (Inr ctx, s')"
  shows "rc_chunks ctx = [] \<or>
    (\<exists>per_file seen. rc_chunks ctx = take (s_retrieval_top_k st) (interleave (map snd per_file)) \<and>
      hits_inv (\<lambda>c. \<exists>p v t hits. re_search env p v t (s_retrieval_top_k st)
        (map df_path (pr_files pr)) = Inr hits \<and> c \<in> set hits) seen per_file)"
  using assms unfolding build_context_def Let_def
  by (auto split: prod.splits option.splits sum.splits if_splits
      dest!: note_index_drift_keeps retrieve_chunks_sound)

lemma hits_inv_take:
  assumes "hits_inv P seen per_file"
  shows "distinct (map chunk_key (take k (interleave (map snd per_file)))) \<and>
    (\<forall>c \<in> set (take k (interleave (map snd per_file))). P c)"
proof -
  let ?m = "interleave (map snd per_file)"
  have "mset ?m = mset (concat (map snd per_file))" by (rule mset_interleave)
  then have "mset (map chunk_key ?m) = mset (map chunk_key (concat (map snd per_file)))"
    and set: "set ?m = set (concat (map snd per_file))"
    by (simp add: mset_map, metis set_mset_mset)
  then have "distinct (map chunk_key ?m)"
    using assms mset_eq_imp_distinct_iff unfolding hits_inv_def by blast
  then have "distinct (map chunk_key (take k ?m))" by (simp add: take_map [symmetric])
  moreover have "\<forall>c \<in> set (take k ?m). P c"
    using assms set in_set_takeD [of _ k ?m] unfolding hits_inv_def by blast
  ultimately show ?thesis by blast
qed

text \<open>What stands before the retrieved code: the note on the drift of the index, if there is one.\<close>

definition context_heading :: "review_context \<Rightarrow> string" where
  "context_heading ctx =
     (case index_drift_note (rc_index_drift ctx) (rc_indexed_sha ctx) (pr_base_sha (rc_pr ctx)) of
        None \<Rightarrow> [] | Some n \<Rightarrow> if n = [] then [] else n @ NEWLINE @ NEWLINE)"

lemma join_length: "length (py_join sep xs) = sum_list (map length xs) + length sep * (length xs - 1)"
proof (induction xs)
  case (Cons x xs)
  then show ?case by (cases xs) simp_all
qed simp

lemma render_shows_budget:
  assumes "rc_chunks ctx \<noteq> []"
  shows "\<exists>shown rest. map (chunk_render 2400) (rc_chunks ctx) = shown @ rest \<and>
    render_repository_context m ctx = context_heading ctx @ py_join (NEWLINE @ NEWLINE) shown \<and>
    sum_list (map length shown) \<le> m \<and>
    (rest \<noteq> [] \<longrightarrow> m < sum_list (map length shown) + length (hd rest))"
proof -
  let ?blocks = "map (chunk_render 2400) (rc_chunks ctx)"
  let ?shown = "fill_blocks m 0 ?blocks"
  have "render_repository_context m ctx = context_heading ctx @ py_join (NEWLINE @ NEWLINE) ?shown"
    using assms by (simp add: render_repository_context_def context_heading_def Let_def split: option.split)
  moreover have "\<exists>rest. ?blocks = ?shown @ rest \<and> (rest \<noteq> [] \<longrightarrow> m < sum_list (map length ?shown) + length (hd rest))"
    using fill_blocks_maximal [of m 0 ?blocks] by (cases "?shown = ?blocks") auto
  ultimately show ?thesis using fill_blocks_budget [of 0 m ?blocks] by auto
qed

text \<open>C33. The retrieved context never exceeds the configured number of chunks, never shows the same
  location of the repository twice, and shows only chunks that a search returned. Rendered with a budget of
  \<open>m\<close> characters it is the note on the index, if any, and an initial segment of the blocks of its chunks,
  joined by empty lines: the blocks together are no longer than the budget, and the segment ends only where
  the next block would not fit. The note and the two characters between blocks are not counted, so the text
  can be longer than \<open>m\<close>, by no more than these.\<close>

theorem build_context_chunks:
  assumes "build_context st put env pr repo_id s = (Inr ctx, s')"
  shows "length (rc_chunks ctx) \<le> s_retrieval_top_k st \<and> distinct (map chunk_key (rc_chunks ctx)) \<and>
    (\<forall>c \<in> set (rc_chunks ctx). \<exists>p v t hits.
       re_search env p v t (s_retrieval_top_k st) (map df_path (pr_files pr)) = Inr hits \<and> c \<in> set hits) \<and>
    (rc_chunks ctx \<noteq> [] \<longrightarrow>
      (\<exists>shown rest. map (chunk_render 2400) (rc_chunks ctx) = shown @ rest \<and>
         render_repository_context m ctx = context_heading ctx @ py_join (NEWLINE @ NEWLINE) shown \<and>
         sum_list (map length shown) \<le> m \<and>
         (rest \<noteq> [] \<longrightarrow> m < sum_list (map length shown) + length (hd rest)) \<and>
         length (render_repository_context m ctx) \<le> length (context_heading ctx) + m + 2 * (s_retrieval_top_k st - 1)))"
proof -
  have chunks: "length (rc_chunks ctx) \<le> s_retrieval_top_k st \<and> distinct (map chunk_key (rc_chunks ctx)) \<and>
    (\<forall>c \<in> set (rc_chunks ctx). \<exists>p v t hits.
       re_search env p v t (s_retrieval_top_k st) (map df_path (pr_files pr)) = Inr hits \<and> c \<in> set hits)"
    using build_context_sound [OF assms] hits_inv_take by fastforce
  moreover have "\<exists>shown rest. map (chunk_render 2400) (rc_chunks ctx) = shown @ rest \<and>
      render_repository_context m ctx = context_heading ctx @ py_join (NEWLINE @ NEWLINE) shown \<and>
      sum_list (map length shown) \<le> m \<and>
      (rest \<noteq> [] \<longrightarrow> m < sum_list (map length shown) + length (hd rest)) \<and>
      length (render_repository_context m ctx) \<le> length (context_heading ctx) + m + 2 * (s_retrieval_top_k st - 1)"
    if "rc_chunks ctx \<noteq> []"
  proof -
    from render_shows_budget [OF that, of m] obtain shown rest where
      r: "map (chunk_render 2400) (rc_chunks ctx) = shown @ rest"
      "render_repository_context m ctx = context_heading ctx @ py_join (NEWLINE @ NEWLINE) shown"
      "sum_list (map length shown) \<le> m" "rest \<noteq> [] \<longrightarrow> m < sum_list (map length shown) + length (hd rest)"
      by blast
    from arg_cong [OF r(1), of length] chunks have "length shown \<le> s_retrieval_top_k st" by simp
    then have "2 * (length shown - 1) \<le> 2 * (s_retrieval_top_k st - 1)" by simp
    with r(3) have "length (context_heading ctx @ py_join (NEWLINE @ NEWLINE) shown) \<le>
        length (context_heading ctx) + m + 2 * (s_retrieval_top_k st - 1)"
      by (simp add: join_length NEWLINE_def)
    with r show ?thesis by metis
  qed
  ultimately show ?thesis by blast
qed

definition sample_chunk :: code_chunk where
  "sample_chunk =
     \<lparr>ck_file_path = ''lib.py'', ck_start_line = 1, ck_end_line = 9, ck_content = ''def g(): pass'',
      ck_symbol = None, ck_language = None, ck_score = 1\<rparr>"

definition sample_retrieval :: "unit retrieval_env" where
  "sample_retrieval =
     \<lparr>re_indexed_sha = Inr (Some ''b''), re_embed = (\<lambda>qs. Inr (map (\<lambda>_. ()) qs)),
      re_search = (\<lambda>p v t k ex. Inr [sample_chunk, sample_chunk]), re_conventions = Inr [],
      re_embedder_name = ''hash'', re_elapsed_ms = 1\<rparr>"

definition sample_build :: "(exc + review_context) \<times> spine" where
  "sample_build =
     build_context default_settings null_write sample_retrieval sample_pr (Some 1) (new_spine None None None 7)"

lemma sample_build_value: "\<exists>ctx s'. sample_build = (Inr ctx, s') \<and> rc_chunks ctx = [sample_chunk]"
proof -
  obtain f where f: "source_files sample_pr = [f]"
    by (simp add: source_files_def sample_pr_def)
  have "interleave [[sample_chunk]] = [sample_chunk]"
    by (simp add: interleave_def rank_row_def)
  then show ?thesis
    unfolding sample_build_def build_context_def Let_def
    by (simp add: note_index_drift_def Let_def retrieve_chunks_def f sample_retrieval_def hits_put_def
        default_settings_def split: prod.split option.split)
qed

lemma build_context_chunks_witness:
  "\<exists>ctx s'. sample_build = (Inr ctx, s') \<and> distinct (map chunk_key (rc_chunks ctx)) \<and>
     length (rc_chunks ctx) = 1"
proof -
  obtain ctx s' where b: "sample_build = (Inr ctx, s')" "length (rc_chunks ctx) = 1"
    using sample_build_value by auto
  from build_context_chunks [OF b(1) [unfolded sample_build_def]] b show ?thesis by blast
qed

end
