(* ===== verification/Agents.thy ===== *)
theory Agents
  imports Grounding Llm Context Aggregator
begin

section \<open>The specialists\<close>

text \<open>
  \<^verbatim>\<open>agents/schema.py\<close>, \<^verbatim>\<open>agents/specialists.py\<close> and the rest of \<^verbatim>\<open>agents/base.py\<close>:
  the JSON schema an answer is constrained to, the four specialists with their framing, the user
  message, and \<open>agent_run\<close>, which opens a span, makes the model call under a time limit, turns every
  failure into a verdict and grounds the answer. \<open>cutoff\<close> is the effect of the time limit: \<^const>\<open>None\<close>
  when the call finished in time, or the state in which it was cancelled.
\<close>

subsection \<open>The schema\<close>

definition json_type :: "string \<Rightarrow> json" where
  "json_type t = JObj [(''type'', JStr t)]"

definition described :: "string \<Rightarrow> string \<Rightarrow> json" where
  "described t d = JObj [(''type'', JStr t), (''description'', JStr d)]"

definition strings :: "string list \<Rightarrow> json" where
  "strings xs = JList (map JStr xs)"

definition object_schema :: "(string \<times> json) list \<Rightarrow> string list \<Rightarrow> json" where
  "object_schema props required =
     JObj [(''type'', JStr ''object''), (''properties'', JObj props), (''required'', strings required),
           (''additionalProperties'', JBool False)]"

definition EVIDENCE_SCHEMA :: json where
  "EVIDENCE_SCHEMA =
     object_schema
       [(''kind'', JObj [(''type'', JStr ''string''), (''enum'', strings [''diff'', ''chunk'', ''convention''])]),
        (''file_path'', json_type ''string''), (''line_start'', json_type ''integer''),
        (''line_end'', json_type ''integer''), (''excerpt'', json_type ''string'')]
       [''kind'', ''file_path'', ''line_start'', ''line_end'', ''excerpt'']"

definition FINDING_SCHEMA :: json where
  "FINDING_SCHEMA =
     object_schema
       [(''file_path'', described ''string'' ''Path exactly as it appears in the diff.''),
        (''line_start'', described ''integer'' ''New-file line number from the @@ header.''),
        (''line_end'', json_type ''integer''),
        (''category'', JObj [(''type'', JStr ''string''), (''enum'', strings (map category_str ALL_CATEGORIES))]),
        (''severity'', JObj [(''type'', JStr ''string''),
           (''enum'', strings (map severity_str [CRITICAL, MAJOR, MINOR, INFO]))]),
        (''confidence'', described ''number'' ''Between 0.0 and 1.0. See the confidence calibration guidance.''),
        (''title'', described ''string'' ''One line, under 80 characters.''),
        (''body'', described ''string'' ''What is wrong and what to do about it.''),
        (''rationale'', described ''string'' ''The specific observation that makes the claim true.''),
        (''evidence'', JObj [(''type'', JStr ''array''), (''items'', EVIDENCE_SCHEMA)])]
       [''file_path'', ''line_start'', ''line_end'', ''category'', ''severity'', ''confidence'', ''title'',
        ''body'', ''rationale'', ''evidence'']"

definition AGENT_OUTPUT_SCHEMA :: json where
  "AGENT_OUTPUT_SCHEMA =
     object_schema
       [(''summary'', described ''string'' ''One or two sentences. Empty findings is fine.''),
        (''findings'', JObj [(''type'', JStr ''array''), (''items'', FINDING_SCHEMA)])]
       [''summary'', ''findings'']"

subsection \<open>The four agents\<close>

record specialist =
  ag_agent :: agent_type
  ag_prompt_name :: string
  ag_effort :: "string option"
  ag_thinking :: bool

fun build_agent :: "agent_type \<Rightarrow> specialist" where
  "build_agent SECURITY =
     \<lparr>ag_agent = SECURITY, ag_prompt_name = ''security'', ag_effort = Some ''high'', ag_thinking = True\<rparr>"
| "build_agent CORRECTNESS =
     \<lparr>ag_agent = CORRECTNESS, ag_prompt_name = ''correctness'', ag_effort = Some ''high'', ag_thinking = True\<rparr>"
| "build_agent TESTS =
     \<lparr>ag_agent = TESTS, ag_prompt_name = ''tests'', ag_effort = Some ''medium'', ag_thinking = True\<rparr>"
| "build_agent DOCS =
     \<lparr>ag_agent = DOCS, ag_prompt_name = ''docs'', ag_effort = None, ag_thinking = False\<rparr>"

primrec focus :: "agent_type \<Rightarrow> review_context \<Rightarrow> string" where
  "focus SECURITY ctx =
     ''Trace attacker-controlled data from where it enters to where it is used. '' @
     ''Name the entry point and the sink. If you cannot see the entry point in '' @
     ''this diff or in the retrieved context, say so in the rationale and lower '' @
     ''your confidence rather than assuming the worst case.''"
| "focus CORRECTNESS ctx =
     (let paths = py_join '', '' (map df_path (take 8 (pr_files (rc_pr ctx)))) in
      ''Changed files: '' @ (if paths = [] then ''(none)'' else paths) @ ''. '' @
      ''Prioritise contract breakage '' @ EM_DASH @ '' a changed signature, return shape or default '' @
      ''that an existing caller still assumes. The retrieved context is where those '' @
      ''callers are; check it before and after you form an opinion.'')"
| "focus TESTS ctx =
     (let test_files = map df_path (filter (\<lambda>f. py_contains ''test'' (py_lower (df_path f)))
                         (pr_files (rc_pr ctx)));
          note = (if test_files \<noteq> []
                  then ''Tests changed in this PR: '' @ py_join '', '' (take 6 test_files) @ ''.''
                  else ''No test file appears in this diff.'')
      in note @ '' For each behaviour change, state what would still pass if the change '' @
         ''were wrong. Judge against the coverage the surrounding code actually has, not '' @
         ''against an ideal.'')"
| "focus DOCS ctx =
     ''Start with documentation this diff has made wrong '' @ EM_DASH @ '' that outranks anything '' @
     ''missing. Be the quietest agent on the panel: if nothing is now untrue, no '' @
     ''public contract is undocumented, and no name contradicts what its code '' @
     ''does, return zero findings.''"

definition FENCE :: string where
  "FENCE = ''```''"

definition user_message :: "settings \<Rightarrow> agent_type \<Rightarrow> review_context \<Rightarrow> string" where
  "user_message s agent ctx =
     (let pr = rc_pr ctx in
      ''# Pull request'' @ NEWLINE @
      pr_repo_full_name pr @ ''#'' @ py_str_int (pr_number pr) @ '' '' @ EM_DASH @ '' '' @ pr_title pr @ NEWLINE @
      ''Author: '' @ (if pr_author pr = [] then ''unknown'' else pr_author pr) @ '' '' @ MIDDLE_DOT @ '' '' @
      py_str_nat (length (pr_files pr)) @ '' file(s) '' @ MIDDLE_DOT @ '' '' @
      py_str_int (total_changes pr) @ '' changed line(s)'' @ NEWLINE @ NEWLINE @
      take 1500 (if pr_body pr = [] then ''(no description)'' else pr_body pr) @ NEWLINE @ NEWLINE @
      ''# Team conventions'' @ NEWLINE @ render_conventions ctx @ NEWLINE @ NEWLINE @
      ''# Repository context (retrieved, not part of this change)'' @ NEWLINE @
      render_repository_context (s_retrieval_context_chars s) ctx @ NEWLINE @ NEWLINE @
      ''# The diff under review'' @ NEWLINE @
      ''Line numbers in the left gutter are new-file line numbers. Cite those.'' @ NEWLINE @
      (if rc_truncated ctx then ''**This diff was truncated; unseen files exist.**'' else []) @
      NEWLINE @ NEWLINE @
      FENCE @ ''diff'' @ NEWLINE @ rc_diff_text ctx @ NEWLINE @ FENCE @ NEWLINE @ NEWLINE @
      ''# Your focus'' @ NEWLINE @ focus agent ctx @ NEWLINE)"

subsection \<open>Running an agent\<close>

definition failed_verdict ::
  "agent_type \<Rightarrow> verdict_status \<Rightarrow> string \<Rightarrow> string \<Rightarrow> exc \<Rightarrow> int \<Rightarrow> agent_verdict" where
  "failed_verdict agent status model prompt_version e ms =
     (default_verdict agent)\<lparr>v_status := status, v_model := model, v_prompt_version := prompt_version,
       v_error := Some (exc_text e), v_duration_ms := ms\<rparr>"

text \<open>A span around work on the whole state of a model call.\<close>

definition llm_span ::
  "(event \<Rightarrow> spine \<Rightarrow> spine) \<Rightarrow> int \<Rightarrow> string \<Rightarrow> (string \<times> json) list \<Rightarrow>
     (span \<Rightarrow> llm_world \<Rightarrow> (exc + 'a) \<times> span \<times> llm_world) \<Rightarrow> llm_world \<Rightarrow> (exc + 'a) \<times> llm_world" where
  "llm_span put ms name flds body w =
     (case span_enter put name flds (lw_spine w) of (sp, parent, s1) \<Rightarrow>
      case body sp (w\<lparr>lw_spine := s1\<rparr>) of (r, sp', w2) \<Rightarrow>
        (r, w2\<lparr>lw_spine := span_exit put ms parent
              (case r of Inl e \<Rightarrow> span_failed e sp' | Inr _ \<Rightarrow> sp') (lw_spine w2)\<rparr>))"

record agent_env =
  ae_llm :: llm_env
  ae_prompt_file :: "string \<Rightarrow> string option"
  ae_loads :: "string \<Rightarrow> json option"
  ae_repr :: "json \<Rightarrow> string"
  ae_int_field :: "json \<Rightarrow> int option option"
  ae_order :: "int set \<Rightarrow> int list"
  ae_first_id :: uuid
  ae_ms :: int

definition agent_request :: "settings \<Rightarrow> specialist \<Rightarrow> string \<Rightarrow> string \<Rightarrow> review_context \<Rightarrow> llm_request" where
  "agent_request s ag sys model ctx =
     \<lparr>rq_system = sys, rq_user = user_message s (ag_agent ag) ctx, rq_model = model,
      rq_max_tokens = s_max_output_tokens s, rq_effort = ag_effort ag, rq_thinking = ag_thinking ag,
      rq_json_schema = Some AGENT_OUTPUT_SCHEMA, rq_cache_system = True, rq_timeout_s = s_llm_timeout_s s,
      rq_metadata = [(''agent'', JStr (agent_str (ag_agent ag)))]\<rparr>"

text \<open>\<^verbatim>\<open>asyncio.wait_for\<close> around the call.\<close>

definition timed_call ::
  "llm_world option \<Rightarrow> (llm_world, llm_response) effect \<Rightarrow> (llm_world, llm_response) effect" where
  "timed_call cutoff call w = (case cutoff of Some w' \<Rightarrow> (Inl PyTimeoutError, w') | None \<Rightarrow> call w)"

text \<open>The handlers of \<^verbatim>\<open>run\<close>, in their order: what is noted on the span, whether an error row is
  written, and the status of the verdict. Other exceptions than \<^verbatim>\<open>Exception\<close>s are raised.\<close>

definition handle_failure ::
  "agent_env \<Rightarrow> agent_type \<Rightarrow> string \<Rightarrow> string \<Rightarrow> exc \<Rightarrow> span \<Rightarrow> llm_world \<Rightarrow>
     (exc + agent_verdict) \<times> span \<times> llm_world" where
  "handle_failure env agent model pv e sp w =
     (if exc_isinstance e BudgetExceeded_c then
        (Inr (failed_verdict agent BUDGET_DENIED model pv e (ae_ms env)),
         span_set [(''status'', JStr ''error''), (''reason'', JStr ''budget'')] sp, w)
      else if exc_isinstance e TimeoutError_c then
        (Inr (failed_verdict agent TIMEOUT model pv e (ae_ms env)),
         span_set [(''status'', JStr ''error''), (''reason'', JStr ''timeout'')] sp, w)
      else if exc_isinstance e LLMRefusal_c then
        (Inr (failed_verdict agent FAILED model pv e (ae_ms env)),
         span_set [(''status'', JStr ''error''), (''reason'', JStr ''refusal''),
                   (''category'', case e of LLMRefusal c _ \<Rightarrow> opt_json c | _ \<Rightarrow> JNull)] sp, w)
      else if exc_isinstance e Exception_c then
        (Inr (failed_verdict agent FAILED model pv e (ae_ms env)),
         span_set [(''status'', JStr ''error''), (''reason'', JStr (type_name e))] sp,
         w\<lparr>lw_spine := spine_error (le_put (ae_llm env)) (''agent.'' @ agent_str agent @ ''.failed'') e []
             (lw_spine w)\<rparr>)
      else (Inl e, sp, w))"

definition ok_verdict :: "agent_type \<Rightarrow> string \<Rightarrow> llm_response \<Rightarrow> parsed \<Rightarrow> int \<Rightarrow> agent_verdict" where
  "ok_verdict agent pv r p ms =
     \<lparr>v_agent = agent, v_status = OK, v_findings = p_findings p, v_summary = p_summary p,
      v_model = rs_model r, v_prompt_version = pv, v_input_tokens = rs_input_tokens r,
      v_output_tokens = rs_output_tokens r, v_cached_tokens = rs_cached_read_tokens r,
      v_cost_usd = cost_usd r, v_duration_ms = ms, v_error = None\<rparr>"

definition agent_body ::
  "settings \<Rightarrow> agent_env \<Rightarrow> llm_world option \<Rightarrow> agent_type \<Rightarrow> review_context \<Rightarrow> string \<Rightarrow> string \<Rightarrow> string \<Rightarrow>
     span \<Rightarrow> llm_world \<Rightarrow> (exc + agent_verdict) \<times> span \<times> llm_world" where
  "agent_body s env cutoff agent ctx model sys pv sp w =
     (case timed_call cutoff (call_llm s (ae_llm env) (agent_request s (build_agent agent) sys model ctx)
              (Some (agent_str agent)) pv (''agent.'' @ agent_str agent)) w of
        (Inl e, w') \<Rightarrow> handle_failure env agent model pv e sp w'
      | (Inr r, w') \<Rightarrow>
          (case parse_answer (ae_loads env) (ae_repr env) (ae_int_field env) (ae_order env) agent
                  (rc_pr ctx) (ae_first_id env) (rs_text r) of
             Inl e \<Rightarrow> (Inl e, sp, w')
           | Inr p \<Rightarrow>
               (Inr (ok_verdict agent pv r p (ae_ms env)),
                span_set [(''input_tokens'', JInt (rs_input_tokens r)),
                          (''output_tokens'', JInt (rs_output_tokens r)),
                          (''cached_tokens'', JInt (rs_cached_read_tokens r)),
                          (''cost_usd'', JFloat (Fin (cost_usd r))),
                          (''findings'', JInt (int (length (p_findings p)))),
                          (''dropped_ungrounded'', JInt (int (p_dropped p))),
                          (''snapped_lines'', JInt (int (p_snapped p)))] sp, w')))"

definition agent_run ::
  "settings \<Rightarrow> agent_env \<Rightarrow> llm_world option \<Rightarrow> agent_type \<Rightarrow> review_context \<Rightarrow> (llm_world, agent_verdict) effect" where
  "agent_run s env cutoff agent ctx w =
     (let model = model_for s (agent_str agent) in
      case load_prompt (ae_prompt_file env) (ag_prompt_name (build_agent agent)) of
        Inl e \<Rightarrow> (Inl e, w)
      | Inr (sys, pv) \<Rightarrow>
          llm_span (le_put (ae_llm env)) (ae_ms env) (''agent.'' @ agent_str agent)
            [(''agent'', JStr (agent_str agent)), (''model'', JStr model), (''prompt_version'', JStr pv)]
            (agent_body s env cutoff agent ctx model sys pv) w)"

subsection \<open>What a verdict means\<close>

lemma build_agent_agent [simp]: "ag_agent (build_agent a) = a"
  by (cases a) simp_all

lemma llm_span_result:
  "fst (llm_span put ms name flds body w) =
     fst (body (fst (span_enter put name flds (lw_spine w)))
       (w\<lparr>lw_spine := snd (snd (span_enter put name flds (lw_spine w)))\<rparr>))"
  by (simp add: llm_span_def split: prod.splits)

lemma handle_failure_verdict:
  assumes "fst (handle_failure env agent model pv e sp w) = Inr v"
  shows "v_agent v = agent \<and> v_status v \<noteq> OK \<and> v_findings v = [] \<and> v_cost_usd v = 0 \<and>
    v_error v = Some (exc_text e)"
  using assms by (auto simp: handle_failure_def failed_verdict_def default_verdict_def split: if_splits)

lemma handle_failure_total:
  "exc_isinstance e Exception_c \<Longrightarrow> \<exists>v. fst (handle_failure env agent model pv e sp w) = Inr v"
  by (auto simp: handle_failure_def)

text \<open>C13. The verdict of an agent is its own and means what it says: an OK verdict carries only grounded
  findings of the pull request under review, and every other verdict carries no finding, no cost and the
  error that ended the run; so a failed agent can never be mistaken for one that found nothing.\<close>

theorem agent_run_verdict:
  assumes "fst (agent_run s env cutoff agent ctx w) = Inr v" and "\<And>A. finite A \<Longrightarrow> set (ae_order env A) = A"
  shows "v_agent v = agent \<and>
    (v_ok v \<longrightarrow> v_error v = None \<and> (\<forall>f \<in> set (v_findings v). grounded agent (rc_pr ctx) f)) \<and>
    (\<not> v_ok v \<longrightarrow> v_findings v = [] \<and> v_cost_usd v = 0 \<and> v_error v \<noteq> None)"
proof -
  from assms(1) obtain model sys pv sp w1 where
    b: "fst (agent_body s env cutoff agent ctx model sys pv sp w1) = Inr v"
    by (auto simp: agent_run_def Let_def llm_span_result split: sum.splits prod.splits)
  obtain q w2 where q: "timed_call cutoff (call_llm s (ae_llm env)
      (agent_request s (build_agent agent) sys model ctx) (Some (agent_str agent)) pv
      (''agent.'' @ agent_str agent)) w1 = (q, w2)" by fastforce
  show ?thesis
  proof (cases q)
    case (Inl e)
    with b q have "fst (handle_failure env agent model pv e sp w2) = Inr v" by (simp add: agent_body_def)
    from handle_failure_verdict [OF this] show ?thesis by (simp add: v_ok_def)
  next
    case (Inr r)
    with b q obtain p where p: "parse_answer (ae_loads env) (ae_repr env) (ae_int_field env) (ae_order env)
        agent (rc_pr ctx) (ae_first_id env) (rs_text r) = Inr p" "v = ok_verdict agent pv r p (ae_ms env)"
      by (auto simp: agent_body_def split: sum.splits)
    have "\<forall>f \<in> set (p_findings p). grounded agent (rc_pr ctx) f"
      using answer_grounded [OF p(1) assms(2)] by blast
    with p(2) show ?thesis by (simp add: ok_verdict_def v_ok_def)
  qed
qed

definition sample_agent_env :: agent_env where
  "sample_agent_env =
     \<lparr>ae_llm = sample_env, ae_prompt_file = (\<lambda>_. Some ''review''), ae_loads = (\<lambda>_. Some sample_answer),
      ae_repr = (\<lambda>_. []), ae_int_field = (\<lambda>_. Some None), ae_order = sorted_list_of_set,
      ae_first_id = 1, ae_ms = 5\<rparr>"

definition sample_context :: review_context where
  "sample_context =
     \<lparr>rc_pr = sample_pr, rc_diff_text = [], rc_chunks = [], rc_conventions = [], rc_truncated = False,
      rc_index_drift = None, rc_indexed_sha = None\<rparr>"

text \<open>The agent whose call is cut off by the time limit gives a verdict, and it is not OK.\<close>

lemma agent_run_verdict_witness:
  "\<exists>v. fst (agent_run default_settings sample_agent_env (Some sample_world) DOCS sample_context sample_world) = Inr v \<and>
     v_agent v = DOCS \<and> v_status v = TIMEOUT \<and> v_findings v = []"
proof -
  let ?r = "agent_run default_settings sample_agent_env (Some sample_world) DOCS sample_context sample_world"
  obtain b where b: "load_prompt (ae_prompt_file sample_agent_env) (ag_prompt_name (build_agent DOCS)) = Inr b"
    by (simp add: load_prompt_def read_prompt_def sample_agent_env_def split: option.split)
  then obtain v where v: "fst ?r = Inr v" "v_status v = TIMEOUT"
    by (cases b) (simp add: agent_run_def Let_def llm_span_result agent_body_def timed_call_def
        handle_failure_def failed_verdict_def)
  have "set (ae_order sample_agent_env A) = A" if "finite A" for A
    using that by (simp add: sample_agent_env_def)
  from agent_run_verdict [OF v(1) this] v show ?thesis by (simp add: v_ok_def)
qed

end
