(* ===== verification/Engines.thy ===== *)
theory Engines
  imports Agents
begin

section \<open>The orchestration engines\<close>

text \<open>
  \<^verbatim>\<open>orchestration/engine.py\<close> and its three implementations. How the agents of a panel interleave
  is outside the sources: \<open>gather\<close> is \<^verbatim>\<open>asyncio.gather(..., return_exceptions=True)\<close> on the
  agents' runs, \<open>ainvoke\<close> the compiled LangGraph graph. What the program adds is modelled: the span
  around the panel, the verdict made of a crash, and the completion of missing verdicts. The promise of
  the interface, one verdict per agent, is the locale \<open>panel_collector\<close>, interpreted for both
  engines that work.
\<close>

datatype engine = LocalEngine | LangGraphEngine | TemporalEngine

definition get_engine :: "bool \<Rightarrow> bool \<Rightarrow> string option \<Rightarrow> exc + engine" where
  "get_engine langgraph_installed temporal_installed preferred =
     (if preferred = Some ''local'' then Inr LocalEngine
      else if preferred = Some ''temporal'' then
        (if temporal_installed then Inr TemporalEngine
         else Inl (ImportError ''temporalio is not installed. Install with: pip install temporalio''))
      else if langgraph_installed then Inr LangGraphEngine else Inr LocalEngine)"

definition crash_verdict :: "agent_type \<Rightarrow> exc \<Rightarrow> agent_verdict" where
  "crash_verdict a e = (default_verdict a)\<lparr>v_status := FAILED, v_error := Some (exc_text e)\<rparr>"

definition panel_fields :: "string \<Rightarrow> agent_type list \<Rightarrow> (string \<times> json) list" where
  "panel_fields name agents = [(''engine'', JStr name), (''agents'', strings (map agent_str agents))]"

subsection \<open>Plain asyncio\<close>

definition local_collect :: "(exc + agent_verdict) list \<Rightarrow> agent_type list \<Rightarrow> agent_verdict list" where
  "local_collect results agents =
     map (\<lambda>(a, r). case r of Inl e \<Rightarrow> crash_verdict a e | Inr v \<Rightarrow> v) (zip agents results)"

definition local_run_panel ::
  "(event \<Rightarrow> spine \<Rightarrow> spine) \<Rightarrow> int \<Rightarrow>
     (agent_type list \<Rightarrow> llm_world \<Rightarrow> (exc + agent_verdict) list \<times> llm_world) \<Rightarrow> agent_type list \<Rightarrow>
     (llm_world, agent_verdict list) effect" where
  "local_run_panel put ms gather agents w =
     (case llm_span put ms ''panel.fan_out'' (panel_fields ''local'' agents)
             (\<lambda>sp w1. case gather agents w1 of (rs, w2) \<Rightarrow> (Inr rs, sp, w2)) w of
        (Inl e, w') \<Rightarrow> (Inl e, w')
      | (Inr results, w') \<Rightarrow>
          (if length results \<noteq> length agents then (Inl (ValueError ''zip() argument 2 is shorter''), w')
           else (Inr (local_collect results agents), w')))"

subsection \<open>LangGraph\<close>

text \<open>The node: an agent's run with its exceptions turned into a verdict.\<close>

definition specialist_node ::
  "(agent_type \<Rightarrow> (llm_world, agent_verdict) effect) \<Rightarrow> agent_type \<Rightarrow> (llm_world, agent_verdict) effect" where
  "specialist_node run a w =
     (case run a w of
        (Inr v, w') \<Rightarrow> (Inr v, w')
      | (Inl e, w') \<Rightarrow>
          (if exc_isinstance e Exception_c then (Inr (crash_verdict a e), w') else (Inl e, w')))"

definition missing_verdict :: "agent_type \<Rightarrow> agent_verdict" where
  "missing_verdict a =
     (default_verdict a)\<lparr>v_status := FAILED, v_error := Some ''no verdict returned''\<rparr>"

definition langgraph_collect :: "agent_verdict list \<Rightarrow> agent_type list \<Rightarrow> agent_verdict list" where
  "langgraph_collect verdicts agents =
     verdicts @ map missing_verdict (filter (\<lambda>a. a \<notin> v_agent ` set verdicts) agents)"

definition langgraph_run_panel ::
  "(event \<Rightarrow> spine \<Rightarrow> spine) \<Rightarrow> int \<Rightarrow>
     ((agent_type \<Rightarrow> (llm_world, agent_verdict) effect) \<Rightarrow> agent_type list \<Rightarrow>
        (llm_world, agent_verdict list) effect) \<Rightarrow>
     (agent_type \<Rightarrow> (llm_world, agent_verdict) effect) \<Rightarrow> agent_type list \<Rightarrow>
     (llm_world, agent_verdict list) effect" where
  "langgraph_run_panel put ms ainvoke run agents w =
     (case llm_span put ms ''panel.fan_out'' (panel_fields ''langgraph'' agents)
             (\<lambda>sp w1. case ainvoke (specialist_node run) agents w1 of (r, w2) \<Rightarrow> (r, sp, w2)) w of
        (Inl e, w') \<Rightarrow> (Inl e, w')
      | (Inr verdicts, w') \<Rightarrow> (Inr (langgraph_collect verdicts agents), w'))"

subsection \<open>Temporal\<close>

text \<open>\<^verbatim>\<open>run_panel\<close> imports a module that the package does not have, so it raises before anything runs;
  \<open>temporal_collect\<close> is what follows the import.\<close>

definition temporal_run_panel :: "agent_type list \<Rightarrow> (llm_world, agent_verdict list) effect" where
  "temporal_run_panel agents w = (Inl (ImportError ''pr_sentinel.agents.runner''), w)"

definition temporal_collect :: "(exc + agent_verdict) list \<Rightarrow> agent_type list \<Rightarrow> agent_verdict list" where
  "temporal_collect results agents =
     map (\<lambda>(a, r). case r of
            Inl e \<Rightarrow> (default_verdict a)\<lparr>v_findings := [], v_error := Some (exc_str e), v_cost_usd := 0,
                       v_duration_ms := 0\<rparr>
          | Inr v \<Rightarrow> v) (zip agents results)"

subsection \<open>One verdict per agent\<close>

text \<open>\<open>collect\<close> makes the verdicts of a panel from what the fan-out returned, when \<open>valid\<close> says
  that the fan-out kept its own contract.\<close>

locale panel_collector =
  fixes collect :: "'r \<Rightarrow> agent_type list \<Rightarrow> agent_verdict list"
    and valid :: "'r \<Rightarrow> agent_type list \<Rightarrow> bool"
  assumes one_verdict_each:
    "valid r agents \<Longrightarrow> distinct agents \<Longrightarrow> mset (map v_agent (collect r agents)) = mset agents"
begin

lemma panel_agents:
  assumes "valid r agents" "distinct agents"
  shows "v_agent ` set (collect r agents) = set agents" "length (collect r agents) = length agents"
    "distinct (map v_agent (collect r agents))"
proof -
  note m = one_verdict_each [OF assms]
  from m show "v_agent ` set (collect r agents) = set agents"
    by (metis set_map set_mset_mset)
  from m show "length (collect r agents) = length agents"
    by (metis length_map size_mset)
  from m show "distinct (map v_agent (collect r agents))"
    using assms(2) mset_eq_imp_distinct_iff by blast
qed

text \<open>With every verdict OK, every agent of the panel has reported.\<close>

lemma all_ok_complete:
  assumes "valid r agents" "distinct agents" "\<forall>v \<in> set (collect r agents). v_ok v" "a \<in> set agents"
  shows "\<exists>v \<in> set (collect r agents). v_agent v = a \<and> v_ok v"
  using panel_agents(1) [OF assms(1,2)] assms(3,4) by (metis imageE)

end

definition local_valid :: "(exc + agent_verdict) list \<Rightarrow> agent_type list \<Rightarrow> bool" where
  "local_valid results agents \<longleftrightarrow>
     length results = length agents \<and>
     (\<forall>(a, r) \<in> set (zip agents results). \<forall>v. r = Inr v \<longrightarrow> v_agent v = a)"

definition langgraph_valid :: "agent_verdict list \<Rightarrow> agent_type list \<Rightarrow> bool" where
  "langgraph_valid verdicts agents \<longleftrightarrow>
     distinct (map v_agent verdicts) \<and> v_agent ` set verdicts \<subseteq> set agents"

lemma crash_verdict_simps [simp]:
  "v_agent (crash_verdict a e) = a" "v_status (crash_verdict a e) = FAILED"
  "v_findings (crash_verdict a e) = []" "v_agent (missing_verdict a) = a"
  "v_status (missing_verdict a) = FAILED" "v_findings (missing_verdict a) = []"
  by (simp_all add: crash_verdict_def missing_verdict_def default_verdict_def)

lemma local_collect_agents: "local_valid results agents \<Longrightarrow> map v_agent (local_collect results agents) = agents"
proof -
  assume valid: "local_valid results agents"
  have "map v_agent (local_collect results agents) = map fst (zip agents results)"
    unfolding local_collect_def map_map
  proof (rule map_cong [OF refl])
    fix p assume "p \<in> set (zip agents results)"
    with valid show "(v_agent \<circ> (\<lambda>(a, r). case r of Inl e \<Rightarrow> crash_verdict a e | Inr v \<Rightarrow> v)) p = fst p"
      unfolding local_valid_def by (auto split: sum.splits)
  qed
  with valid show ?thesis by (simp add: local_valid_def)
qed

interpretation local_panel: panel_collector local_collect local_valid
  by unfold_locales (simp add: local_collect_agents)

interpretation langgraph_panel: panel_collector langgraph_collect langgraph_valid
proof
  fix verdicts agents
  assume valid: "langgraph_valid verdicts agents" and d: "distinct agents"
  let ?m = "map v_agent (langgraph_collect verdicts agents)"
  have m: "?m = map v_agent verdicts @ filter (\<lambda>a. a \<notin> v_agent ` set verdicts) agents"
    by (simp add: langgraph_collect_def comp_def)
  have "distinct ?m" using valid d unfolding m langgraph_valid_def by auto
  moreover have "set ?m = set agents" using valid unfolding m langgraph_valid_def by auto
  ultimately show "mset ?m = mset agents" using d set_eq_iff_mset_eq_distinct by blast
qed

subsection \<open>The panel as a whole\<close>

text \<open>What is asked of the two libraries, however they interleave the agents: \<open>gather\<close> returns for every
  coroutine, in the order given, what it returned or raised (\<^verbatim>\<open>return_exceptions=True\<close>), and the values
  that \<open>ainvoke\<close> reduces into its list are those of node runs, at most one for each item sent.\<close>

definition gathers ::
  "(agent_type list \<Rightarrow> llm_world \<Rightarrow> (exc + agent_verdict) list \<times> llm_world) \<Rightarrow>
     (agent_type \<Rightarrow> (llm_world, agent_verdict) effect) \<Rightarrow> bool" where
  "gathers gather run \<longleftrightarrow>
     (\<forall>agents w. list_all2 (\<lambda>a r. \<exists>w1 w2. run a w1 = (r, w2)) agents (fst (gather agents w)))"

definition fans_out ::
  "((agent_type \<Rightarrow> (llm_world, agent_verdict) effect) \<Rightarrow> agent_type list \<Rightarrow> (llm_world, agent_verdict list) effect) \<Rightarrow>
     bool" where
  "fans_out ainvoke \<longleftrightarrow>
     (\<forall>node agents w vs w'. ainvoke node agents w = (Inr vs, w') \<longrightarrow>
        (\<exists>started. mset started \<subseteq># mset agents \<and> list_all2 (\<lambda>a v. \<exists>w1 w2. node a w1 = (Inr v, w2)) started vs))"

text \<open>A verdict reports for an agent when it is what a run of the agent returned, or when a run crashed and
  it is a failed verdict with the agent's name, the crash as its error, no finding and no cost.\<close>

definition reports_for :: "(agent_type \<Rightarrow> (llm_world, agent_verdict) effect) \<Rightarrow> agent_type \<Rightarrow> agent_verdict \<Rightarrow> bool" where
  "reports_for run a v \<longleftrightarrow>
     v_agent v = a \<and>
     ((\<exists>w1 w2. run a w1 = (Inr v, w2)) \<or>
      (\<exists>e w1 w2. run a w1 = (Inl e, w2) \<and> v_status v = FAILED \<and> v_findings v = [] \<and> v_cost_usd v = 0 \<and>
         v_error v = Some (exc_text e)))"

lemma crash_reports: "run a w1 = (Inl e, w2) \<Longrightarrow> reports_for run a (crash_verdict a e)"
  unfolding reports_for_def
  by (intro conjI disjI2 exI [of _ e] exI [of _ w1] exI [of _ w2])
    (simp_all add: crash_verdict_def default_verdict_def)

lemma specialist_node_reports:
  assumes "\<And>a w v w'. run a w = (Inr v, w') \<Longrightarrow> v_agent v = a"
    and "specialist_node run a w1 = (Inr v, w2)"
  shows "reports_for run a v"
proof -
  obtain r w' where r: "run a w1 = (r, w')" by fastforce
  show ?thesis
  proof (cases r)
    case (Inl e)
    with r assms(2) have "v = crash_verdict a e" by (simp add: specialist_node_def split: if_splits)
    with r Inl show ?thesis by (simp add: crash_reports)
  next
    case (Inr u)
    with r assms(2) have "run a w1 = (Inr v, w2)" by (simp add: specialist_node_def)
    with assms(1) show ?thesis unfolding reports_for_def by blast
  qed
qed

lemma local_collect_reports:
  assumes "\<And>a w v w'. run a w = (Inr v, w') \<Longrightarrow> v_agent v = a"
    and "list_all2 (\<lambda>a r. \<exists>w1 w2. run a w1 = (r, w2)) agents results"
  shows "list_all2 (reports_for run) agents (local_collect results agents)"
  using assms(2)
proof (induction rule: list_all2_induct)
  case (Cons a as r rs)
  then obtain w1 w2 where step: "run a w1 = (r, w2)" by blast
  have "reports_for run a (case r of Inl e \<Rightarrow> crash_verdict a e | Inr v \<Rightarrow> v)"
  proof (cases r)
    case (Inl e)
    with step show ?thesis by (simp add: crash_reports)
  next
    case (Inr v)
    with step assms(1) show ?thesis unfolding reports_for_def by auto
  qed
  with Cons.IH show ?case by (simp add: local_collect_def)
qed (simp add: local_collect_def)

lemma llm_span_Inr:
  "llm_span put ms name flds body w = (Inr x, w') \<Longrightarrow> \<exists>sp w1 sp' w2. body sp w1 = (Inr x, sp', w2)"
  by (auto simp: llm_span_def split: prod.splits)

lemma list_all2_agents: "list_all2 (\<lambda>a v. v_agent v = a) started vs \<Longrightarrow> map v_agent vs = started"
  by (induction rule: list_all2_induct) simp_all

lemma distinct_submset:
  assumes "mset xs \<subseteq># mset ys" and "distinct ys"
  shows "distinct xs"
proof -
  obtain zs where "mset ys = mset (xs @ zs)"
    using assms(1) by (metis ex_mset mset_append mset_subset_eq_exists_conv)
  with assms(2) have "distinct (xs @ zs)" using mset_eq_imp_distinct_iff by blast
  then show ?thesis by simp
qed

text \<open>C14. The contract of the orchestration seam, for both engines: if the runs of the agents carry their
  own names, the plain engine always returns, and its verdicts are those of the agents asked, in their
  order; and when the graph returns, its engine gives exactly one verdict for every agent asked. Every one
  of them is what a run of that agent returned or, when the run crashed, a failed verdict that carries the
  crash and no finding - in the graph also when no answer came back at all.\<close>

theorem panel_one_verdict_each:
  assumes "distinct agents"
    and names: "\<And>a w v w'. run a w = (Inr v, w') \<Longrightarrow> v_agent v = a"
    and "gathers gather run" and "fans_out ainvoke"
  shows "(\<exists>vs w'. local_run_panel put ms gather agents w = (Inr vs, w') \<and> list_all2 (reports_for run) agents vs) \<and>
    (\<forall>vs w'. langgraph_run_panel put ms ainvoke run agents w = (Inr vs, w') \<longrightarrow>
      mset (map v_agent vs) = mset agents \<and>
      (\<forall>v \<in> set vs. reports_for run (v_agent v) v \<or>
         v_status v = FAILED \<and> v_findings v = [] \<and> v_error v = Some ''no verdict returned''))"
proof (intro conjI allI impI)
  let ?body = "\<lambda>sp w1. case gather agents w1 of (rs, w2) \<Rightarrow> (Inr rs, sp, w2)"
  obtain r w' where r: "llm_span put ms ''panel.fan_out'' (panel_fields ''local'' agents) ?body w = (r, w')" by fastforce
  then have "\<exists>results. r = Inr results" by (auto simp: llm_span_def split: prod.splits)
  with r obtain results where
    span: "llm_span put ms ''panel.fan_out'' (panel_fields ''local'' agents) ?body w = (Inr results, w')" by blast
  from llm_span_Inr [OF span] obtain w1 where "results = fst (gather agents w1)"
    by (auto simp: case_prod_beta)
  with assms(3) have each: "list_all2 (\<lambda>a r. \<exists>w1 w2. run a w1 = (r, w2)) agents results"
    by (simp add: gathers_def)
  from list_all2_lengthD [OF this] local_collect_reports [OF names each] span
  show "\<exists>vs w'. local_run_panel put ms gather agents w = (Inr vs, w') \<and> list_all2 (reports_for run) agents vs"
    by (simp add: local_run_panel_def)
next
  fix vs w'
  assume "langgraph_run_panel put ms ainvoke run agents w = (Inr vs, w')"
  then obtain verdicts w2 w3 where vs: "vs = langgraph_collect verdicts agents"
    and inv: "ainvoke (specialist_node run) agents w2 = (Inr verdicts, w3)"
    by (auto simp: langgraph_run_panel_def split: prod.splits sum.splits dest!: llm_span_Inr)
  from assms(4) inv obtain started where started: "mset started \<subseteq># mset agents"
    "list_all2 (\<lambda>a v. \<exists>w1 w2. specialist_node run a w1 = (Inr v, w2)) started verdicts"
    unfolding fans_out_def by blast
  have reported: "list_all2 (reports_for run) started verdicts"
    by (rule list_all2_mono [OF started(2)]) (elim exE, rule specialist_node_reports, rule names)
  then have "map v_agent verdicts = started"
    by (intro list_all2_agents) (auto simp: reports_for_def elim: list_all2_mono)
  moreover have "distinct started"
    using distinct_submset [OF started(1) assms(1)] .
  ultimately have "langgraph_valid verdicts agents"
    using set_mset_mono [OF started(1)] by (auto simp: langgraph_valid_def)
  from langgraph_panel.one_verdict_each [OF this assms(1)]
  show "mset (map v_agent vs) = mset agents" by (simp add: vs)
  have "\<forall>v \<in> set verdicts. reports_for run (v_agent v) v"
    using reported by (fastforce simp: list_all2_conv_all_nth in_set_conv_nth reports_for_def)
  then show "\<forall>v \<in> set vs. reports_for run (v_agent v) v \<or>
      v_status v = FAILED \<and> v_findings v = [] \<and> v_error v = Some ''no verdict returned''"
    by (auto simp: vs langgraph_collect_def missing_verdict_def default_verdict_def)
qed

text \<open>A panel of two in which the second agent crashes, under both engines.\<close>

definition one_crashes :: "agent_type \<Rightarrow> (llm_world, agent_verdict) effect" where
  "one_crashes a w = (if a = SECURITY then (Inr sample_verdict, w) else (Inl PyTimeoutError, w))"

definition plain_gather ::
  "(agent_type \<Rightarrow> (llm_world, agent_verdict) effect) \<Rightarrow> agent_type list \<Rightarrow> llm_world \<Rightarrow>
     (exc + agent_verdict) list \<times> llm_world" where
  "plain_gather run agents w = (map (\<lambda>a. fst (run a w)) agents, w)"

definition plain_invoke ::
  "(agent_type \<Rightarrow> (llm_world, agent_verdict) effect) \<Rightarrow> agent_type list \<Rightarrow> (llm_world, agent_verdict list) effect" where
  "plain_invoke node agents w = (e_traverse (\<lambda>a. fst (node a w)) agents, w)"

lemma plain_gathers: "gathers (plain_gather run) run"
  by (auto simp: gathers_def plain_gather_def list_all2_conv_all_nth) (metis prod.collapse)

lemma plain_fans_out: "fans_out plain_invoke"
  unfolding fans_out_def plain_invoke_def
proof (intro allI impI)
  fix node :: "agent_type \<Rightarrow> (llm_world, agent_verdict) effect" and agents w vs w'
  assume "(e_traverse (\<lambda>a. fst (node a w)) agents, w) = (Inr vs, w')"
  then have all: "e_traverse (\<lambda>a. fst (node a w)) agents = Inr vs" by blast
  have "list_all2 (\<lambda>a v. \<exists>w1 w2. node a w1 = (Inr v, w2)) agents vs"
    using traverse_members [OF all] by (rule list_all2_mono) (metis prod.collapse)
  then show "\<exists>started. mset started \<subseteq># mset agents \<and> list_all2 (\<lambda>a v. \<exists>w1 w2. node a w1 = (Inr v, w2)) started vs" by blast
qed

lemma panel_one_verdict_each_witness:
  "\<exists>vs w'. local_run_panel null_write 0 (plain_gather one_crashes) [SECURITY, DOCS] sample_world = (Inr vs, w') \<and>
     list_all2 (reports_for one_crashes) [SECURITY, DOCS] vs \<and> v_status (vs ! 1) = FAILED"
proof -
  have names: "v_agent v = a" if "one_crashes a w = (Inr v, w')" for a w v w'
    using that by (auto simp: one_crashes_def split: if_splits)
  have "distinct [SECURITY, DOCS]" by simp
  note panel = panel_one_verdict_each [OF this, of one_crashes "plain_gather one_crashes" plain_invoke,
      OF _ plain_gathers plain_fans_out]
  obtain vs w' where vs: "local_run_panel null_write 0 (plain_gather one_crashes) [SECURITY, DOCS] sample_world = (Inr vs, w')"
    "list_all2 (reports_for one_crashes) [SECURITY, DOCS] vs"
    using panel [of null_write 0 sample_world] names by blast
  then have "v_status (vs ! 1) = FAILED"
    by (auto simp: list_all2_Cons1 reports_for_def one_crashes_def)
  with vs show ?thesis by blast
qed

text \<open>The Temporal engine never reviews anything: it raises before any agent runs; and the collection
  step it would reach turns a crashed agent into an OK verdict with no findings, which the gate cannot
  tell from a clean report.\<close>

theorem temporal_engine_broken:
  "fst (temporal_run_panel agents w) = Inl (ImportError ''pr_sentinel.agents.runner'') \<and>
   (\<forall>a e. list_all (\<lambda>v. v_ok v \<and> v_findings v = []) (temporal_collect [Inl e] [a]))"
  by (simp add: temporal_run_panel_def temporal_collect_def v_ok_def default_verdict_def)

end
