(* ===== verification/Store.thy ===== *)
theory Store
  imports Domain Exceptions
begin

section \<open>The relational store\<close>

text \<open>
  \<^verbatim>\<open>db/repositories/reviews.py\<close> over the tables of \<^verbatim>\<open>migrations/001_core.sql\<close>. A table with a
  unique key is a map from that key to its row, the others are lists of rows; a statement is a function on
  the store, so \<^verbatim>\<open>ON CONFLICT\<close> is an update or the identity at the key. Identifiers come from counters.
  \<open>num\<close> is the rounding of a \<^verbatim>\<open>NUMERIC\<close> column. The promise of the delivery ledger, that a key is
  claimed once, is the locale \<open>claim_ledger\<close>.
\<close>

record delivery_row =
  dl_event :: string
  dl_action :: string
  dl_repo_full_name :: string
  dl_pr_number :: int
  dl_status :: string

record repo_row =
  rr_id :: int
  rr_full_name :: string
  rr_default_branch :: string

record pr_row =
  pw_id :: int
  pw_base_sha :: string
  pw_title :: string
  pw_author :: string
  pw_is_private :: bool

record review_row =
  rv_id :: uuid
  rv_status :: review_status
  rv_decision :: "decision option"
  rv_reason :: "escalation_reason option"
  rv_confidence :: "real option"
  rv_cost_usd :: real
  rv_github_review_id :: "int option"
  rv_error :: "string option"
  rv_prompt_bundle :: string

record finding_row =
  fr_review_id :: uuid
  fr_finding :: finding
  fr_merged_into :: "uuid option"
  fr_posted :: bool

record hitl_row =
  hi_id :: uuid
  hi_review_id :: uuid
  hi_reason :: escalation_reason
  hi_summary :: string
  hi_priority :: int

record feedback_row =
  fb_review_id :: "uuid option"
  fb_finding_id :: "uuid option"
  fb_source :: string
  fb_verdict :: string
  fb_actor :: "string option"
  fb_note :: "string option"

record store =
  st_deliveries :: "string \<rightharpoonup> delivery_row"
  st_repos :: "int \<rightharpoonup> repo_row"
  st_prs :: "int \<times> int \<times> string \<rightharpoonup> pr_row"
  st_reviews :: "int \<times> string \<rightharpoonup> review_row"
  st_verdicts :: "uuid \<times> agent_type \<rightharpoonup> agent_verdict"
  st_findings :: "finding_row list"
  st_hitl :: "hitl_row list"
  st_feedback :: "feedback_row list"
  st_next_serial :: int
  st_next_uuid :: uuid

definition empty_store :: store where
  "empty_store =
     \<lparr>st_deliveries = Map.empty, st_repos = Map.empty, st_prs = Map.empty, st_reviews = Map.empty,
      st_verdicts = Map.empty, st_findings = [], st_hitl = [], st_feedback = [], st_next_serial = 1,
      st_next_uuid = 1\<rparr>"

subsection \<open>Deliveries, repositories, pull requests, reviews\<close>

definition record_delivery :: "webhook_job \<Rightarrow> string \<Rightarrow> store \<Rightarrow> bool \<times> store" where
  "record_delivery job status st =
     (case st_deliveries st (j_delivery_id job) of
        Some _ \<Rightarrow> (False, st)
      | None \<Rightarrow>
          (True, st\<lparr>st_deliveries := (st_deliveries st)(j_delivery_id job \<mapsto>
             \<lparr>dl_event = j_event job, dl_action = j_action job, dl_repo_full_name = j_repo_full_name job,
              dl_pr_number = j_pr_number job, dl_status = status\<rparr>)\<rparr>))"

definition upsert_repository :: "string \<Rightarrow> int \<Rightarrow> string \<Rightarrow> store \<Rightarrow> int \<times> store" where
  "upsert_repository full_name github_id default_branch st =
     (case st_repos st github_id of
        Some r \<Rightarrow> (rr_id r, st\<lparr>st_repos := (st_repos st)(github_id \<mapsto> r\<lparr>rr_full_name := full_name\<rparr>)\<rparr>)
      | None \<Rightarrow>
          (st_next_serial st,
           st\<lparr>st_repos := (st_repos st)(github_id \<mapsto>
                \<lparr>rr_id = st_next_serial st, rr_full_name = full_name, rr_default_branch = default_branch\<rparr>),
              st_next_serial := st_next_serial st + 1\<rparr>))"

definition upsert_pull_request :: "int \<Rightarrow> pull_request \<Rightarrow> store \<Rightarrow> int \<times> store" where
  "upsert_pull_request repo_id pr st =
     (let key = (repo_id, pr_number pr, pr_head_sha pr) in
      case st_prs st key of
        Some r \<Rightarrow> (pw_id r, st\<lparr>st_prs := (st_prs st)(key \<mapsto> r\<lparr>pw_title := pr_title pr\<rparr>)\<rparr>)
      | None \<Rightarrow>
          (st_next_serial st,
           st\<lparr>st_prs := (st_prs st)(key \<mapsto>
                \<lparr>pw_id = st_next_serial st, pw_base_sha = pr_base_sha pr, pw_title = pr_title pr,
                 pw_author = pr_author pr, pw_is_private = pr_is_private pr\<rparr>),
              st_next_serial := st_next_serial st + 1\<rparr>))"

definition open_review :: "int \<Rightarrow> string \<Rightarrow> string \<Rightarrow> store \<Rightarrow> (uuid \<times> bool) \<times> store" where
  "open_review pr_id delivery_id prompt_bundle st =
     (case st_reviews st (pr_id, delivery_id) of
        Some r \<Rightarrow> ((rv_id r, False), st)
      | None \<Rightarrow>
          ((st_next_uuid st, True),
           st\<lparr>st_reviews := (st_reviews st)((pr_id, delivery_id) \<mapsto>
                \<lparr>rv_id = st_next_uuid st, rv_status = RUNNING, rv_decision = None, rv_reason = None,
                 rv_confidence = None, rv_cost_usd = 0, rv_github_review_id = None, rv_error = None,
                 rv_prompt_bundle = prompt_bundle\<rparr>),
              st_next_uuid := st_next_uuid st + 1\<rparr>))"

subsection \<open>Verdicts and findings\<close>

definition completed_agents :: "uuid \<Rightarrow> store \<Rightarrow> agent_type set" where
  "completed_agents review_id st =
     {a. case st_verdicts st (review_id, a) of None \<Rightarrow> False | Some v \<Rightarrow> v_status v = OK}"

text \<open>A stored verdict is read back through the validators of \<^verbatim>\<open>Finding\<close>.\<close>

definition revalidate :: "agent_verdict \<Rightarrow> exc + agent_verdict" where
  "revalidate v =
     ebind (e_traverse (\<lambda>f. case validate_finding f of
                              None \<Rightarrow> Inl (ValueError ''validation error for Finding'') | Some g \<Rightarrow> Inr g)
              (v_findings v))
       (\<lambda>fs. Inr (v\<lparr>v_findings := fs\<rparr>))"

definition load_verdicts :: "uuid \<Rightarrow> store \<Rightarrow> exc + agent_verdict list" where
  "load_verdicts review_id st =
     e_traverse revalidate
       (List.map_filter (\<lambda>a. st_verdicts st (review_id, a)) (sort_key agent_str ALL_AGENTS))"

definition save_verdict :: "(real \<Rightarrow> real) \<Rightarrow> uuid \<Rightarrow> agent_verdict \<Rightarrow> store \<Rightarrow> store" where
  "save_verdict num review_id v st =
     st\<lparr>st_verdicts := (st_verdicts st)((review_id, v_agent v) \<mapsto> v\<lparr>v_cost_usd := num (v_cost_usd v)\<rparr>)\<rparr>"

definition new_finding_row :: "(real \<Rightarrow> real) \<Rightarrow> uuid \<Rightarrow> finding \<Rightarrow> finding_row" where
  "new_finding_row num review_id f =
     \<lparr>fr_review_id = review_id, fr_finding = f\<lparr>f_confidence := num (f_confidence f)\<rparr>, fr_merged_into = None,
      fr_posted = False\<rparr>"

definition save_findings :: "(real \<Rightarrow> real) \<Rightarrow> uuid \<Rightarrow> finding list \<Rightarrow> store \<Rightarrow> store" where
  "save_findings num review_id fs st =
     (if fs = [] then st
      else
        (let kept = filter (\<lambda>r. fr_review_id r \<noteq> review_id) (st_findings st);
             rows = kept @ map (new_finding_row num review_id) fs;
             merged = filter (\<lambda>f. f_merged_into f \<noteq> None) fs
         in st\<lparr>st_findings :=
              map (\<lambda>r. case List.find (\<lambda>f. f_id f = f_id (fr_finding r)) (rev merged) of
                         None \<Rightarrow> r | Some f \<Rightarrow> r\<lparr>fr_merged_into := f_merged_into f\<rparr>) rows\<rparr>))"

definition mark_posted :: "uuid list \<Rightarrow> store \<Rightarrow> store" where
  "mark_posted ids st =
     st\<lparr>st_findings := map (\<lambda>r. if f_id (fr_finding r) \<in> set ids then r\<lparr>fr_posted := True\<rparr> else r)
          (st_findings st)\<rparr>"

subsection \<open>Ending a review\<close>

definition finish_review ::
  "uuid \<Rightarrow> review_status \<Rightarrow> decision option \<Rightarrow> escalation_reason option \<Rightarrow> real \<Rightarrow> real \<Rightarrow> int option \<Rightarrow>
     string option \<Rightarrow> store \<Rightarrow> store" where
  "finish_review review_id status dec reason confidence cost github_id err st =
     st\<lparr>st_reviews := (\<lambda>k. map_option (\<lambda>r.
          if rv_id r = review_id
          then r\<lparr>rv_status := status, rv_decision := dec, rv_reason := reason,
                 rv_confidence := Some (py_round 3 confidence), rv_cost_usd := py_round 6 cost,
                 rv_github_review_id := github_id, rv_error := err\<rparr>
          else r) (st_reviews st k))\<rparr>"

definition enqueue_hitl :: "uuid \<Rightarrow> escalation_reason \<Rightarrow> string \<Rightarrow> int \<Rightarrow> store \<Rightarrow> uuid \<times> store" where
  "enqueue_hitl review_id reason summary priority st =
     (st_next_uuid st,
      st\<lparr>st_hitl := st_hitl st @ [\<lparr>hi_id = st_next_uuid st, hi_review_id = review_id, hi_reason = reason,
           hi_summary = summary, hi_priority = priority\<rparr>],
         st_next_uuid := st_next_uuid st + 1\<rparr>)"

definition record_feedback ::
  "uuid option \<Rightarrow> uuid option \<Rightarrow> string \<Rightarrow> string \<Rightarrow> string option \<Rightarrow> string option \<Rightarrow> store \<Rightarrow> store" where
  "record_feedback review_id finding_id source verdict actor note st =
     st\<lparr>st_feedback := st_feedback st @ [\<lparr>fb_review_id = review_id, fb_finding_id = finding_id,
          fb_source = source, fb_verdict = verdict, fb_actor = actor, fb_note = note\<rparr>]\<rparr>"

subsection \<open>Claiming a key once\<close>

text \<open>A ledger in which requests claim keys: a claim succeeds exactly when the key of the request was
  free, and then only that key has changed.\<close>

fun claim_all :: "('k \<Rightarrow> 's \<Rightarrow> bool \<times> 's) \<Rightarrow> 'k list \<Rightarrow> 's \<Rightarrow> bool list \<times> 's" where
  "claim_all claim [] s = ([], s)"
| "claim_all claim (k # ks) s =
     (case claim k s of (b, s') \<Rightarrow> case claim_all claim ks s' of (bs, s'') \<Rightarrow> (b # bs, s''))"

locale claim_ledger =
  fixes claim :: "'k \<Rightarrow> 's \<Rightarrow> bool \<times> 's" and key :: "'k \<Rightarrow> 'i" and claimed :: "'s \<Rightarrow> 'i \<Rightarrow> bool"
  assumes claim_free: "fst (claim k s) \<longleftrightarrow> \<not> claimed s (key k)"
    and claim_after: "claimed (snd (claim k s)) i \<longleftrightarrow> i = key k \<or> claimed s i"
begin

lemma claim_all_once:
  assumes "claim_all claim ks s = (bs, s')"
  shows "length (filter (\<lambda>(k, b). key k = i \<and> b) (zip ks bs)) =
      (if i \<in> key ` set ks \<and> \<not> claimed s i then 1 else 0) \<and>
    (claimed s' i \<longleftrightarrow> i \<in> key ` set ks \<or> claimed s i)"
  using assms
proof (induction ks arbitrary: s bs s')
  case (Cons x ks)
  obtain b s1 where c: "claim x s = (b, s1)" by fastforce
  obtain bs' s2 where r: "claim_all claim ks s1 = (bs', s2)" by fastforce
  from Cons.prems c r have eq: "bs = b # bs'" "s' = s2" by simp_all
  have b: "b \<longleftrightarrow> \<not> claimed s (key x)" and after: "claimed s1 i \<longleftrightarrow> i = key x \<or> claimed s i"
    using claim_free [of x s] claim_after [of x s i] by (simp_all add: c)
  note IH = Cons.IH [OF r]
  show ?case
  proof (cases "key x = i")
    case True
    with IH eq b after show ?thesis by (cases "claimed s i") simp_all
  next
    case False
    with IH eq b after show ?thesis by (cases "claimed s i") simp_all
  qed
qed simp

lemma claim_twice: "claim k s = (b, s') \<Longrightarrow> key k' = key k \<Longrightarrow> \<not> fst (claim k' s')"
  using claim_free [of k' s'] claim_after [of k s "key k"] by simp

end

interpretation postgres_ledger: claim_ledger
  "\<lambda>job st. record_delivery job status st" j_delivery_id "\<lambda>st i. st_deliveries st i \<noteq> None"
  by unfold_locales (auto simp: record_delivery_def split: option.splits)

text \<open>Redis: \<^verbatim>\<open>SET key 1 NX EX ttl\<close> at time \<open>now\<close>; a key that has expired is free again. The
  ledger is the map from keys to expiry times.\<close>

definition DEDUPE_TTL_SECONDS :: real where
  "DEDUPE_TTL_SECONDS = 7 * 24 * 3600"

definition redis_claim :: "real \<Rightarrow> string \<Rightarrow> (string \<rightharpoonup> real) \<Rightarrow> bool \<times> (string \<rightharpoonup> real)" where
  "redis_claim now k r =
     (case r k of
        Some expiry \<Rightarrow> if now < expiry then (False, r) else (True, r(k \<mapsto> now + DEDUPE_TTL_SECONDS))
      | None \<Rightarrow> (True, r(k \<mapsto> now + DEDUPE_TTL_SECONDS)))"

definition redis_key :: "string \<Rightarrow> string" where
  "redis_key delivery_id = ''sentinel:delivery:'' @ delivery_id"

definition seen_delivery :: "real \<Rightarrow> string \<Rightarrow> (string \<rightharpoonup> real) \<Rightarrow> bool \<times> (string \<rightharpoonup> real)" where
  "seen_delivery now delivery_id r =
     (case redis_claim now (redis_key delivery_id) r of (claimed, r') \<Rightarrow> (\<not> claimed, r'))"

definition redis_live :: "real \<Rightarrow> (string \<rightharpoonup> real) \<Rightarrow> string \<Rightarrow> bool" where
  "redis_live now r k \<longleftrightarrow> (\<exists>expiry. r k = Some expiry \<and> now < expiry)"

interpretation redis_ledger: claim_ledger "redis_claim now" "\<lambda>k. k" "redis_live now"
  by unfold_locales
    (auto simp: redis_claim_def redis_live_def DEDUPE_TTL_SECONDS_def split: option.splits)

text \<open>The durable half of idempotency: of any sequence of attempts to record deliveries, exactly one
  succeeds for every delivery that was not recorded before, and none for one that was.\<close>

theorem delivery_recorded_once:
  assumes "claim_all (\<lambda>job st. record_delivery job status st) jobs st = (bs, st')"
  shows "length (filter (\<lambda>(job, b). j_delivery_id job = i \<and> b) (zip jobs bs)) =
    (if i \<in> j_delivery_id ` set jobs \<and> st_deliveries st i = None then 1 else 0)"
  using postgres_ledger.claim_all_once [OF assms, of i] by simp

definition sample_job :: webhook_job where
  "sample_job =
     \<lparr>j_delivery_id = ''d1'', j_event = ''pull_request'', j_action = ''opened'', j_repo_full_name = ''o/r'',
      j_repo_github_id = 7, j_is_private = True, j_pr_number = 4, j_head_sha = ''h'', j_base_sha = ''b'',
      j_title = ''t'', j_author = ''a''\<rparr>"

lemma delivery_recorded_once_witness:
  "fst (claim_all (\<lambda>job st. record_delivery job ''accepted'' st) [sample_job, sample_job] empty_store) = [True, False] \<and>
   length (filter (\<lambda>(job, b). j_delivery_id job = ''d1'' \<and> b) (zip [sample_job, sample_job] [True, False])) = 1"
proof -
  have v: "claim_all (\<lambda>job st. record_delivery job ''accepted'' st) [sample_job, sample_job] empty_store =
      ([True, False], snd (record_delivery sample_job ''accepted'' empty_store))"
    by (simp add: record_delivery_def empty_store_def)
  from delivery_recorded_once [OF v, of "''d1''"] v show ?thesis
    by (simp add: sample_job_def empty_store_def)
qed

subsection \<open>Idempotent upserts\<close>

lemma open_review_again:
  assumes "open_review pr_id delivery bundle st = ((i, new), st')"
  shows "open_review pr_id delivery bundle' st' = ((i, False), st')"
  using assms by (auto simp: open_review_def split: option.splits)

lemma upsert_repository_again:
  "upsert_repository name gid br st = (i, st') \<Longrightarrow> upsert_repository name gid br' st' = (i, st')"
  by (auto simp: upsert_repository_def split: option.splits)

lemma upsert_pull_request_again:
  "upsert_pull_request repo pr st = (i, st') \<Longrightarrow> upsert_pull_request repo pr st' = (i, st')"
  by (auto simp: upsert_pull_request_def Let_def split: option.splits)

subsection \<open>Verdicts survive the round trip\<close>

text \<open>A finding as the validators leave it.\<close>

definition stored_form :: "finding \<Rightarrow> bool" where
  "stored_form f \<longleftrightarrow> wf_finding f \<and> py_strip (f_title f) = f_title f \<and> py_strip (f_rationale f) = f_rationale f"

lemma validate_finding_stored: "validate_finding f = Some g \<Longrightarrow> stored_form g"
  unfolding stored_form_def
  by (auto simp: validate_finding_def wf_finding_def split: if_splits)

lemma validate_finding_id: "stored_form f \<Longrightarrow> validate_finding f = Some f"
  by (cases f) (auto simp: validate_finding_def stored_form_def wf_finding_def max_absorb1)

lemma revalidate_id: "\<forall>f \<in> set (v_findings v). stored_form f \<Longrightarrow> revalidate v = Inr v"
proof -
  assume "\<forall>f \<in> set (v_findings v). stored_form f"
  then have "e_traverse (\<lambda>f. case validate_finding f of
      None \<Rightarrow> Inl (ValueError ''validation error for Finding'') | Some g \<Rightarrow> Inr g) (v_findings v) =
      Inr (v_findings v)"
    by (intro e_traverse_id) (simp add: validate_finding_id)
  then show ?thesis by (simp add: revalidate_def)
qed

definition store_wf :: "store \<Rightarrow> bool" where
  "store_wf st \<longleftrightarrow>
     (\<forall>k v. st_verdicts st k = Some v \<longrightarrow> v_agent v = snd k \<and> (\<forall>f \<in> set (v_findings v). stored_form f))"

lemma save_verdict_wf:
  "store_wf st \<Longrightarrow> \<forall>f \<in> set (v_findings v). stored_form f \<Longrightarrow> store_wf (save_verdict num rid v st)"
  by (auto simp: store_wf_def save_verdict_def)

lemma load_verdicts_wf:
  assumes "store_wf st"
  shows "load_verdicts rid st =
    Inr (List.map_filter (\<lambda>a. st_verdicts st (rid, a)) (sort_key agent_str ALL_AGENTS))"
  unfolding load_verdicts_def
proof (rule e_traverse_id)
  show "\<forall>v \<in> set (List.map_filter (\<lambda>a. st_verdicts st (rid, a)) (sort_key agent_str ALL_AGENTS)). revalidate v = Inr v"
    using assms revalidate_id by (auto simp: List.map_filter_def store_wf_def)
qed

lemma set_map_filter: "set (List.map_filter f xs) = {y. \<exists>x \<in> set xs. f x = Some y}"
  by (auto simp: List.map_filter_def image_iff) force

text \<open>C32. Resume works on what was saved: after the verdict of an agent is saved, the verdicts loaded for
  the review are that verdict (with its cost as the column stores it) and the earlier verdicts of the
  other agents, and the agent counts as completed exactly if the verdict is OK.\<close>

theorem save_load_verdicts:
  assumes "store_wf st" and "\<forall>f \<in> set (v_findings v). stored_form f"
  shows "\<exists>vs. load_verdicts rid (save_verdict num rid v st) = Inr vs \<and>
    set vs = insert (v\<lparr>v_cost_usd := num (v_cost_usd v)\<rparr>)
      {u. \<exists>a. a \<noteq> v_agent v \<and> st_verdicts st (rid, a) = Some u} \<and>
    completed_agents rid (save_verdict num rid v st) =
      (if v_ok v then insert (v_agent v) (completed_agents rid st)
       else completed_agents rid st - {v_agent v})"
proof -
  have "load_verdicts rid (save_verdict num rid v st) =
      Inr (List.map_filter (\<lambda>a. st_verdicts (save_verdict num rid v st) (rid, a)) (sort_key agent_str ALL_AGENTS))"
    by (rule load_verdicts_wf [OF save_verdict_wf [OF assms]])
  moreover have "set (List.map_filter (\<lambda>a. st_verdicts (save_verdict num rid v st) (rid, a))
      (sort_key agent_str ALL_AGENTS)) = insert (v\<lparr>v_cost_usd := num (v_cost_usd v)\<rparr>)
      {u. \<exists>a. a \<noteq> v_agent v \<and> st_verdicts st (rid, a) = Some u}"
    unfolding set_map_filter by (auto simp: save_verdict_def)
  moreover have "completed_agents rid (save_verdict num rid v st) =
      (if v_ok v then insert (v_agent v) (completed_agents rid st)
       else completed_agents rid st - {v_agent v})"
    by (auto simp: completed_agents_def save_verdict_def v_ok_def split: option.splits if_splits)
  ultimately show ?thesis by blast
qed

lemma sample_stored: "stored_form sample_injection"
  using sample_injection_wf
  by (simp add: stored_form_def) (simp add: sample_injection_def py_strip_def py_lstrip_def py_rstrip_def is_space_def code_def)

lemma save_load_verdicts_witness:
  "\<exists>vs. load_verdicts 5 (save_verdict (\<lambda>x. x) 5 sample_verdict empty_store) = Inr vs \<and> set vs = {sample_verdict}"
proof -
  have "store_wf empty_store" "\<And>k. st_verdicts empty_store k = None"
    by (simp_all add: store_wf_def empty_store_def)
  with save_load_verdicts [of empty_store sample_verdict 5 "\<lambda>x. x"] show ?thesis
    by (auto simp: sample_stored)
qed

subsection \<open>Findings\<close>

text \<open>Saving the findings of a review replaces its rows, unless there are none to save: then the rows of
  an earlier attempt stay.\<close>

lemma save_findings_replaces:
  assumes "fs \<noteq> []"
  shows "map (\<lambda>r. f_id (fr_finding r)) (filter (\<lambda>r. fr_review_id r = rid) (st_findings (save_findings num rid fs st))) =
    map f_id fs"
proof -
  have rid: "fr_review_id (case x of None \<Rightarrow> r | Some f \<Rightarrow> r\<lparr>fr_merged_into := g f\<rparr>) = fr_review_id r"
    "f_id (fr_finding (case x of None \<Rightarrow> r | Some f \<Rightarrow> r\<lparr>fr_merged_into := g f\<rparr>)) = f_id (fr_finding r)" for x r g
    by (simp_all split: option.split)
  show ?thesis
    using assms by (simp add: save_findings_def Let_def filter_map comp_def rid new_finding_row_def)
qed

lemma save_findings_empty: "save_findings num rid [] st = st"
  by (simp add: save_findings_def)

end
