(* ===== verification/Ingress.thy ===== *)
theory Ingress
  imports Store Json Transition
begin

section \<open>The webhook endpoint\<close>

text \<open>
  \<^verbatim>\<open>ingress/security.py\<close>, \<^verbatim>\<open>ingress/routes.py\<close> and the enqueue of
  \<^verbatim>\<open>queue/dispatch.py\<close>. The HMAC, the JSON reader, the queue's \<^verbatim>\<open>enqueue_job\<close>, the clock and
  whether the database answers are fields of the environment; the state is the Redis keys, the store and
  the queue. The handler is given branch by branch: nothing happens before the signature is verified, and
  over any sequence of requests a delivery is enqueued at most once.
\<close>

subsection \<open>Signatures\<close>

definition compute_signature :: "(string \<Rightarrow> string \<Rightarrow> string) \<Rightarrow> string \<Rightarrow> string \<Rightarrow> string" where
  "compute_signature hmac_hex secret body = ''sha256='' @ hmac_hex secret body"

text \<open>\<^verbatim>\<open>hmac.compare_digest\<close> compares two ASCII strings and raises \<^verbatim>\<open>TypeError\<close> on other text.\<close>

definition compare_digest :: "string \<Rightarrow> string \<Rightarrow> exc + bool" where
  "compare_digest a b =
     (if is_ascii a \<and> is_ascii b then Inr (a = b)
      else Inl (TypeError ''comparing strings with non-ASCII characters is not supported''))"

definition verify_signature ::
  "(string \<Rightarrow> string \<Rightarrow> string) \<Rightarrow> string \<Rightarrow> string \<Rightarrow> string option \<Rightarrow> exc + bool" where
  "verify_signature hmac_hex secret body header_value =
     (case header_value of
        None \<Rightarrow> Inr False
      | Some h \<Rightarrow>
          (if h = [] \<or> secret = [] then Inr False
           else if \<not> startswith h ''sha256='' then Inr False
           else compare_digest (compute_signature hmac_hex secret body) h))"

subsection \<open>Reading the payload\<close>

definition REVIEWABLE_ACTIONS :: "string list" where
  "REVIEWABLE_ACTIONS = [''opened'', ''synchronize'', ''reopened'', ''ready_for_review'']"

definition build_job :: "string \<Rightarrow> string \<Rightarrow> json \<Rightarrow> json \<Rightarrow> exc + webhook_job" where
  "build_job delivery event action payload =
     ebind (json_index ''pull_request'' payload) (\<lambda>pr.
     ebind (json_index ''repository'' payload) (\<lambda>repo.
     ebind (json_index ''full_name'' repo) (\<lambda>full_name_v.
     ebind (ebind (json_index ''id'' repo) py_int) (\<lambda>repo_id.
     ebind (json_get ''private'' (JBool True) repo) (\<lambda>private_v.
     ebind (ebind (json_index ''number'' pr) py_int) (\<lambda>number.
     ebind (ebind (json_index ''head'' pr) (json_index ''sha'')) (\<lambda>head_v.
     ebind (ebind (json_index ''base'' pr) (json_index ''sha'')) (\<lambda>base_v.
     ebind (json_get ''title'' JNull pr) (\<lambda>title_v.
     ebind (json_get ''user'' JNull pr) (\<lambda>user_v.
     ebind (json_get ''login'' JNull (json_or user_v (JObj []))) (\<lambda>login_v.
     ebind (str_field action) (\<lambda>action_s.
     ebind (str_field full_name_v) (\<lambda>full_name.
     ebind (str_field head_v) (\<lambda>head_sha.
     ebind (str_field base_v) (\<lambda>base_sha.
     ebind (str_field (json_or title_v (JStr []))) (\<lambda>title.
     ebind (str_field (json_or login_v (JStr []))) (\<lambda>author.
       Inr \<lparr>j_delivery_id = delivery, j_event = (if event = [] then ''pull_request'' else event),
            j_action = action_s, j_repo_full_name = full_name, j_repo_github_id = repo_id,
            j_is_private = truthy private_v, j_pr_number = number, j_head_sha = head_sha,
            j_base_sha = base_sha, j_title = title, j_author = author\<rparr>)))))))))))))))))"

subsection \<open>The handler\<close>

record request =
  q_event :: "string option"
  q_delivery :: "string option"
  q_signature :: "string option"
  q_body :: string

record http_response =
  hr_status :: int
  hr_body :: "(string \<times> json) list"

record 'q ingress_world =
  iw_redis :: "string \<rightharpoonup> real"
  iw_store :: store
  iw_queue :: 'q

record 'q ingress_env =
  ie_secret :: string
  ie_hmac :: "string \<Rightarrow> string \<Rightarrow> string"
  ie_loads :: "string \<Rightarrow> json option"
  ie_now :: real
  ie_redis_up :: bool
  ie_db_up :: bool
  ie_enqueue :: "string \<Rightarrow> webhook_job \<Rightarrow> 'q \<Rightarrow> 'q"
  ie_queue_up :: bool

definition reply :: "int \<Rightarrow> (string \<times> json) list \<Rightarrow> http_response" where
  "reply status body = \<lparr>hr_status = status, hr_body = body\<rparr>"

definition detail :: "int \<Rightarrow> string \<Rightarrow> http_response" where
  "detail status d = reply status [(''detail'', JStr d)]"

definition opt_header :: "string option \<Rightarrow> json" where
  "opt_header h = (case h of None \<Rightarrow> JNull | Some x \<Rightarrow> JStr x)"

definition duplicate_reply :: "webhook_job \<Rightarrow> http_response" where
  "duplicate_reply job = reply 200 [(''detail'', JStr ''duplicate''), (''delivery'', JStr (j_delivery_id job))]"

definition accepted_reply :: "webhook_job \<Rightarrow> http_response" where
  "accepted_reply job =
     reply 202 [(''detail'', JStr ''accepted''), (''delivery'', JStr (j_delivery_id job)),
                (''pr'', JInt (j_pr_number job))]"

text \<open>Claim the delivery in Redis, then in Postgres, then enqueue.\<close>

definition enqueue_review :: "'q ingress_env \<Rightarrow> webhook_job \<Rightarrow> 'q \<Rightarrow> 'q" where
  "enqueue_review env job q = ie_enqueue env (''review:'' @ j_delivery_id job) job q"

definition accept_job ::
  "'q ingress_env \<Rightarrow> webhook_job \<Rightarrow> 'q ingress_world \<Rightarrow> (exc + http_response) \<times> 'q ingress_world" where
  "accept_job env job w =
     (if \<not> ie_redis_up env then (Inl (OtherError ''ConnectionError'' ''redis''), w)
      else case seen_delivery (ie_now env) (j_delivery_id job) (iw_redis w) of (seen, r) \<Rightarrow>
        let w1 = w\<lparr>iw_redis := r\<rparr> in
        if seen then (Inr (duplicate_reply job), w1)
        else if \<not> ie_db_up env then (Inl (OtherError ''ConnectionError'' ''postgres''), w1)
        else case record_delivery job ''accepted'' (iw_store w1) of (new, st) \<Rightarrow>
          let w2 = w1\<lparr>iw_store := st\<rparr> in
          if \<not> new then (Inr (duplicate_reply job), w2)
          else if \<not> ie_queue_up env then (Inl (OtherError ''ConnectionError'' ''queue''), w2)
          else (Inr (accepted_reply job), w2\<lparr>iw_queue := enqueue_review env job (iw_queue w2)\<rparr>))"

definition handle_pull_request ::
  "'q ingress_env \<Rightarrow> string \<Rightarrow> string \<Rightarrow> string \<Rightarrow> 'q ingress_world \<Rightarrow> (exc + http_response) \<times> 'q ingress_world" where
  "handle_pull_request env delivery event body w =
     (case ie_loads env body of
        Some (JObj payload) \<Rightarrow>
          (let action = jget_or ''action'' (JStr []) payload in
           case action of
             JList _ \<Rightarrow> (Inl (TypeError ''unhashable type''), w)
           | JObj _ \<Rightarrow> (Inl (TypeError ''unhashable type''), w)
           | _ \<Rightarrow>
             (if action \<notin> JStr ` set REVIEWABLE_ACTIONS
              then (Inr (reply 202 [(''detail'', JStr ''ignored''), (''action'', action)]), w)
              else case build_job delivery event action (JObj payload) of
                Inl e \<Rightarrow>
                  (case e of
                     KeyError _ \<Rightarrow> (Inr (detail 400 ''malformed pull_request payload''), w)
                   | TypeError _ \<Rightarrow> (Inr (detail 400 ''malformed pull_request payload''), w)
                   | ValueError _ \<Rightarrow> (Inr (detail 400 ''malformed pull_request payload''), w)
                   | JSONDecodeError _ \<Rightarrow> (Inr (detail 400 ''malformed pull_request payload''), w)
                   | _ \<Rightarrow> (Inl e, w))
              | Inr job \<Rightarrow>
                  (case ebind (json_get ''pull_request'' (JObj []) (JObj payload)) (json_get ''draft'' JNull) of
                     Inl e \<Rightarrow> (Inl e, w)
                   | Inr draft \<Rightarrow>
                       (if truthy draft \<and> action \<noteq> JStr ''ready_for_review''
                        then (Inr (reply 202 [(''detail'', JStr ''ignored''), (''reason'', JStr ''draft'')]), w)
                        else accept_job env job w))))
      | _ \<Rightarrow> (Inr (detail 400 ''malformed json body''), w))"

definition github_webhook ::
  "'q ingress_env \<Rightarrow> request \<Rightarrow> 'q ingress_world \<Rightarrow> (exc + http_response) \<times> 'q ingress_world" where
  "github_webhook env rq w =
     (case verify_signature (ie_hmac env) (ie_secret env) (q_body rq) (q_signature rq) of
        Inl e \<Rightarrow> (Inl e, w)
      | Inr False \<Rightarrow> (Inr (detail 401 ''invalid signature''), w)
      | Inr True \<Rightarrow>
          (case q_delivery rq of
             None \<Rightarrow> (Inr (detail 400 ''missing delivery id''), w)
           | Some delivery \<Rightarrow>
               (if delivery = [] then (Inr (detail 400 ''missing delivery id''), w)
                else if q_event rq = Some ''ping'' then (Inr (detail 200 ''pong''), w)
                else if q_event rq \<noteq> Some ''pull_request''
                then (Inr (reply 202 [(''detail'', JStr ''ignored''), (''event'', opt_header (q_event rq))]), w)
                else handle_pull_request env delivery ''pull_request'' (q_body rq) w)))"

subsection \<open>Nothing before the signature\<close>

lemma verify_signature_True:
  "verify_signature hmac secret body h = Inr True \<longleftrightarrow>
     h = Some (compute_signature hmac secret body) \<and> secret \<noteq> [] \<and>
     is_ascii (compute_signature hmac secret body)"
  by (auto simp: verify_signature_def compare_digest_def compute_signature_def split: option.splits)

lemma verify_signature_Inl: "verify_signature hmac secret body h = Inl e \<Longrightarrow> \<exists>m. e = TypeError m"
  by (auto simp: verify_signature_def compare_digest_def split: option.splits if_splits)

text \<open>C9. A request whose signature header is not the HMAC of its body under the configured secret (or
  any request, if no secret is set) has no effect at all: no key is claimed, nothing is recorded and
  nothing is enqueued, and the answer does not depend on the body; it is 401, or an exception when the
  header holds characters that cannot be compared.\<close>

theorem unauthenticated_request_inert:
  assumes "q_signature rq \<noteq> Some (compute_signature (ie_hmac env) (ie_secret env) (q_body rq)) \<or> ie_secret env = []"
  shows "snd (github_webhook env rq w) = w \<and>
    (fst (github_webhook env rq w) = Inr (detail 401 ''invalid signature'') \<or>
     (\<exists>m. fst (github_webhook env rq w) = Inl (TypeError m)))"
proof -
  have "verify_signature (ie_hmac env) (ie_secret env) (q_body rq) (q_signature rq) \<noteq> Inr True"
    using assms verify_signature_True by metis
  then consider e where "verify_signature (ie_hmac env) (ie_secret env) (q_body rq) (q_signature rq) = Inl e"
    | "verify_signature (ie_hmac env) (ie_secret env) (q_body rq) (q_signature rq) = Inr False"
    by (cases "verify_signature (ie_hmac env) (ie_secret env) (q_body rq) (q_signature rq)") auto
  then show ?thesis
    by cases (auto simp: github_webhook_def dest: verify_signature_Inl)
qed

definition log_env :: "(string \<times> webhook_job) list ingress_env" where
  "log_env =
     \<lparr>ie_secret = ''s3cret'', ie_hmac = (\<lambda>k b. ''00''), ie_loads = (\<lambda>_. None), ie_now = 0, ie_redis_up = True,
      ie_db_up = True, ie_enqueue = (\<lambda>i job q. q @ [(i, job)]), ie_queue_up = True\<rparr>"

definition empty_world :: "(string \<times> webhook_job) list ingress_world" where
  "empty_world = \<lparr>iw_redis = Map.empty, iw_store = empty_store, iw_queue = []\<rparr>"

lemma unauthenticated_request_inert_witness:
  "snd (github_webhook log_env \<lparr>q_event = Some ''pull_request'', q_delivery = Some ''d1'',
     q_signature = Some ''sha256=ff'', q_body = []\<rparr> empty_world) = empty_world"
  by (rule unauthenticated_request_inert [THEN conjunct1]) (simp add: compute_signature_def log_env_def)

subsection \<open>A delivery is enqueued at most once\<close>

text \<open>What one request can do to the store and the queue.\<close>

lemma accept_job_effect:
  "(iw_store (snd (accept_job env job w)) = iw_store w \<and> iw_queue (snd (accept_job env job w)) = iw_queue w) \<or>
   (\<exists>row. st_deliveries (iw_store w) (j_delivery_id job) = None \<and>
      st_deliveries (iw_store (snd (accept_job env job w))) = (st_deliveries (iw_store w))(j_delivery_id job \<mapsto> row) \<and>
      (iw_queue (snd (accept_job env job w)) = iw_queue w \<or>
       iw_queue (snd (accept_job env job w)) = enqueue_review env job (iw_queue w)))"
proof -
  obtain seen r where s: "seen_delivery (ie_now env) (j_delivery_id job) (iw_redis w) = (seen, r)"
    by fastforce
  show ?thesis
  proof (cases "st_deliveries (iw_store w) (j_delivery_id job)")
    case None
    then show ?thesis by (auto simp: accept_job_def Let_def s record_delivery_def)
  next
    case (Some row)
    then show ?thesis by (simp add: accept_job_def Let_def s record_delivery_def)
  qed
qed

text \<open>The answer to an exception raised while the job is built; the state is as before.\<close>

lemma unusable_payload_inert:
  "snd (case e of
      KeyError _ \<Rightarrow> (Inr (detail 400 m), w) | TypeError _ \<Rightarrow> (Inr (detail 400 m), w)
    | ValueError _ \<Rightarrow> (Inr (detail 400 m), w) | JSONDecodeError _ \<Rightarrow> (Inr (detail 400 m), w)
    | _ \<Rightarrow> (Inl e, w)) = w"
  by (cases e) simp_all

lemma handle_pull_request_accepts:
  "snd (handle_pull_request env delivery event body w) = w \<or>
   (\<exists>job. snd (handle_pull_request env delivery event body w) = snd (accept_job env job w))"
proof (cases "\<exists>payload. ie_loads env body = Some (JObj payload)")
  case True
  then obtain payload where p: "ie_loads env body = Some (JObj payload)" by blast
  let ?action = "jget_or ''action'' (JStr []) payload"
  show ?thesis
  proof (cases "(\<exists>xs. ?action = JList xs) \<or> (\<exists>xs. ?action = JObj xs) \<or> ?action \<notin> JStr ` set REVIEWABLE_ACTIONS")
    case True
    with p show ?thesis by (auto simp: handle_pull_request_def Let_def split: json.split)
  next
    case False
    then obtain x where x: "?action = JStr x" "?action \<in> JStr ` set REVIEWABLE_ACTIONS" by blast
    show ?thesis
    proof (cases "build_job delivery event ?action (JObj payload)")
      case (Inl e)
      with p x show ?thesis by (simp add: handle_pull_request_def Let_def unusable_payload_inert)
    next
      case (Inr job)
      with p x show ?thesis
        by (cases "ebind (json_get ''pull_request'' (JObj []) (JObj payload)) (json_get ''draft'' JNull)")
          (auto simp: handle_pull_request_def Let_def)
    qed
  qed
next
  case False
  then show ?thesis by (auto simp: handle_pull_request_def split: option.split json.split)
qed

lemma github_webhook_accepts:
  "snd (github_webhook env rq w) = w \<or> (\<exists>job. snd (github_webhook env rq w) = snd (accept_job env job w))"
proof (cases "verify_signature (ie_hmac env) (ie_secret env) (q_body rq) (q_signature rq) = Inr True")
  case True
  note v = this
  show ?thesis
  proof (cases "\<exists>d. q_delivery rq = Some d \<and> d \<noteq> [] \<and> q_event rq = Some ''pull_request''")
    case True
    then obtain d where "q_delivery rq = Some d" "d \<noteq> []" "q_event rq = Some ''pull_request''" by blast
    with v have "github_webhook env rq w = handle_pull_request env d ''pull_request'' (q_body rq) w"
      by (simp add: github_webhook_def)
    then show ?thesis
      using handle_pull_request_accepts [of env d "''pull_request''" "q_body rq" w] by simp
  next
    case False
    with v have "snd (github_webhook env rq w) = w"
      by (auto simp: github_webhook_def split: option.split)
    then show ?thesis ..
  qed
next
  case False
  then show ?thesis
    by (cases "verify_signature (ie_hmac env) (ie_secret env) (q_body rq) (q_signature rq)")
      (auto simp: github_webhook_def)
qed

text \<open>The system: any request, in any environment whose queue keeps every job it is given.\<close>

definition ingress_step ::
  "(string \<times> webhook_job) list ingress_world \<Rightarrow> (string \<times> webhook_job) list ingress_world \<Rightarrow> bool" where
  "ingress_step w w' \<longleftrightarrow>
     (\<exists>env rq. ie_enqueue env = (\<lambda>i job q. q @ [(i, job)]) \<and> w' = snd (github_webhook env rq w))"

definition queued :: "string \<Rightarrow> (string \<times> webhook_job) list \<Rightarrow> nat" where
  "queued i q = length (filter (\<lambda>e. j_delivery_id (snd e) = i) q)"

definition ingress_init :: "(string \<times> webhook_job) list ingress_world \<Rightarrow> bool" where
  "ingress_init w \<longleftrightarrow> iw_queue w = []"

definition ingress_inv :: "(string \<times> webhook_job) list ingress_world \<Rightarrow> bool" where
  "ingress_inv w \<longleftrightarrow>
     (\<forall>i. queued i (iw_queue w) \<le> 1 \<and>
        (queued i (iw_queue w) = 1 \<longrightarrow> st_deliveries (iw_store w) i \<noteq> None))"

lemma accept_job_inv:
  assumes "ingress_inv w" and "ie_enqueue env = (\<lambda>i job q. q @ [(i, job)])"
  shows "ingress_inv (snd (accept_job env job w))"
  using accept_job_effect [of env job w]
proof (elim disjE exE conjE)
  assume "iw_store (snd (accept_job env job w)) = iw_store w" "iw_queue (snd (accept_job env job w)) = iw_queue w"
  with assms(1) show ?thesis by (simp add: ingress_inv_def)
next
  fix row
  assume 2: "st_deliveries (iw_store w) (j_delivery_id job) = None"
    "st_deliveries (iw_store (snd (accept_job env job w))) = (st_deliveries (iw_store w))(j_delivery_id job \<mapsto> row)"
  assume "iw_queue (snd (accept_job env job w)) = iw_queue w"
  with assms(1) 2 show ?thesis by (simp add: ingress_inv_def)
next
  fix row
  assume 2: "st_deliveries (iw_store w) (j_delivery_id job) = None"
    "st_deliveries (iw_store (snd (accept_job env job w))) = (st_deliveries (iw_store w))(j_delivery_id job \<mapsto> row)"
    "iw_queue (snd (accept_job env job w)) = enqueue_review env job (iw_queue w)"
  have "queued (j_delivery_id job) (iw_queue w) = 0"
    using assms(1) 2(1) unfolding ingress_inv_def by (metis le_neq_implies_less less_one)
  moreover have "queued i (enqueue_review env job (iw_queue w)) =
      queued i (iw_queue w) + (if i = j_delivery_id job then 1 else 0)" for i
    by (simp add: enqueue_review_def assms(2) queued_def)
  ultimately show ?thesis
    using assms(1) 2 by (simp add: ingress_inv_def)
qed

interpretation ingress: invariant_system ingress_init ingress_step ingress_inv
proof
  show "ingress_inv w" if "ingress_init w" for w
    using that by (simp add: ingress_init_def ingress_inv_def queued_def)
  show "ingress_inv w'" if inv: "ingress_inv w" and step: "ingress_step w w'" for w w'
  proof -
    from step obtain env rq where e: "ie_enqueue env = (\<lambda>i job q. q @ [(i, job)])"
      "w' = snd (github_webhook env rq w)" unfolding ingress_step_def by blast
    from github_webhook_accepts [of env rq w] show ?thesis
      using inv accept_job_inv [OF inv e(1)] unfolding e(2) by metis
  qed
qed

text \<open>C10. Exactly-once intake: whatever requests arrive, in whatever order, with Redis keys expiring and
  services failing in between, a delivery is enqueued at most once, and only after it has been recorded in
  the durable ledger, even if the queue itself did not drop duplicates.\<close>

theorem delivery_enqueued_once:
  assumes "reachable ingress_init ingress_step w"
  shows "queued i (iw_queue w) \<le> 1 \<and>
    (queued i (iw_queue w) = 1 \<longrightarrow> st_deliveries (iw_store w) i \<noteq> None)"
  using ingress.reachable_inv [OF assms] by (simp add: ingress_inv_def)

definition opened_payload :: json where
  "opened_payload =
     JObj [(''action'', JStr ''opened''),
           (''pull_request'', JObj [(''number'', JInt 4), (''head'', JObj [(''sha'', JStr ''h'')]),
              (''base'', JObj [(''sha'', JStr ''b'')]), (''title'', JStr ''t''), (''user'', JObj [(''login'', JStr ''a'')])]),
           (''repository'', JObj [(''full_name'', JStr ''o/r''), (''id'', JInt 7), (''private'', JBool True)])]"

definition intake_env :: "real \<Rightarrow> (string \<times> webhook_job) list ingress_env" where
  "intake_env now = log_env\<lparr>ie_loads := (\<lambda>_. Some opened_payload), ie_now := now\<rparr>"

definition opened_request :: request where
  "opened_request =
     \<lparr>q_event = Some ''pull_request'', q_delivery = Some ''d1'', q_signature = Some ''sha256=00'', q_body = []\<rparr>"

lemma intake_job:
  "github_webhook (intake_env now) opened_request w = accept_job (intake_env now) sample_job w"
proof -
  have job: "build_job ''d1'' ''pull_request'' (JStr ''opened'') opened_payload = Inr sample_job"
    by (simp add: opened_payload_def build_job_def json_index_def json_get_def jget_or_def jget_def json_or_def
        str_field_def sample_job_def)
  have signed: "verify_signature (\<lambda>k b. ''00'') ''s3cret'' [] (Some ''sha256=00'') = Inr True"
    by (simp add: verify_signature_True compute_signature_def is_ascii_def code_def)
  show ?thesis
    using job
    by (simp add: github_webhook_def opened_request_def intake_env_def log_env_def signed handle_pull_request_def
        opened_payload_def jget_or_def jget_def REVIEWABLE_ACTIONS_def json_get_def)
qed

text \<open>The same delivery twice, the second time after its key in Redis has expired.\<close>

definition delivered_twice :: "(string \<times> webhook_job) list ingress_world" where
  "delivered_twice =
     snd (github_webhook (intake_env (DEDUPE_TTL_SECONDS + 1)) opened_request
       (snd (github_webhook (intake_env 0) opened_request empty_world)))"

lemma delivery_enqueued_once_witness:
  "queued ''d1'' (iw_queue delivered_twice) = 1 \<and> st_deliveries (iw_store delivered_twice) ''d1'' \<noteq> None"
proof -
  have appends: "ie_enqueue (intake_env now) = (\<lambda>i job q. q @ [(i, job)])" for now
    by (simp add: intake_env_def log_env_def)
  have "reachable ingress_init ingress_step empty_world"
    by (rule reach_init) (simp add: ingress_init_def empty_world_def)
  then have "reachable ingress_init ingress_step (snd (github_webhook (intake_env 0) opened_request empty_world))"
    by (rule reach_step) (use appends in \<open>auto simp: ingress_step_def\<close>)
  then have "reachable ingress_init ingress_step delivered_twice"
    unfolding delivered_twice_def by (rule reach_step) (use appends in \<open>auto simp: ingress_step_def\<close>)
  moreover have "queued ''d1'' (iw_queue delivered_twice) \<ge> 1"
    unfolding delivered_twice_def intake_job
    by (simp add: accept_job_def seen_delivery_def redis_claim_def empty_world_def Let_def
        record_delivery_def empty_store_def enqueue_review_def queued_def sample_job_def intake_env_def log_env_def)
  ultimately show ?thesis using delivery_enqueued_once [of delivered_twice "''d1''"] by simp
qed

subsection \<open>A delivery can be lost\<close>

text \<open>C11. A delivery that is claimed in Redis and then cannot be recorded, because the database is down at
  that moment, is lost: the sender is told to retry by the error, but every retry within the lifetime of
  the Redis key is answered as a duplicate and never enqueued.\<close>

theorem claimed_then_failed_is_lost:
  assumes "ie_redis_up env" "\<not> ie_db_up env" "\<not> redis_live (ie_now env) (iw_redis w) (redis_key (j_delivery_id job))"
    and "ie_redis_up env2" "ie_now env \<le> ie_now env2" "ie_now env2 < ie_now env + DEDUPE_TTL_SECONDS"
    and "accept_job env job w = (r, w1)"
  shows "(\<exists>e. r = Inl e) \<and> accept_job env2 job w1 = (Inr (duplicate_reply job), w1) \<and>
    iw_queue w1 = iw_queue w \<and> iw_store w1 = iw_store w"
proof -
  let ?k = "redis_key (j_delivery_id job)"
  have c: "redis_claim (ie_now env) ?k (iw_redis w) =
      (True, (iw_redis w)(?k \<mapsto> ie_now env + DEDUPE_TTL_SECONDS))"
    using assms(3) by (auto simp: redis_claim_def redis_live_def split: option.splits)
  with assms(1,2,7) have w1: "w1 = w\<lparr>iw_redis := (iw_redis w)(?k \<mapsto> ie_now env + DEDUPE_TTL_SECONDS)\<rparr>"
    "\<exists>e. r = Inl e"
    by (auto simp: accept_job_def seen_delivery_def Let_def)
  have "redis_claim (ie_now env2) ?k (iw_redis w1) = (False, iw_redis w1)"
    using assms(6) by (simp add: w1(1) redis_claim_def)
  with assms(4) w1 show ?thesis
    by (simp add: accept_job_def seen_delivery_def Let_def)
qed

lemma claimed_then_failed_is_lost_witness:
  "accept_job log_env sample_job (snd (accept_job (log_env\<lparr>ie_db_up := False\<rparr>) sample_job empty_world)) =
     (Inr (duplicate_reply sample_job), snd (accept_job (log_env\<lparr>ie_db_up := False\<rparr>) sample_job empty_world))"
proof -
  obtain r w1 where a: "accept_job (log_env\<lparr>ie_db_up := False\<rparr>) sample_job empty_world = (r, w1)"
    by fastforce
  from claimed_then_failed_is_lost [OF _ _ _ _ _ _ a, of log_env] show ?thesis
    unfolding a by (simp add: log_env_def empty_world_def redis_live_def DEDUPE_TTL_SECONDS_def)
qed

end
