(* ===== verification/GitHub.thy ===== *)
theory GitHub
  imports Aggregator Diff Circuit
begin

section \<open>The GitHub client\<close>

text \<open>
  \<^verbatim>\<open>forge/github.py\<close>. The HTTP exchange, the JSON reader, the clock and the jitter are fields of the
  environment; \<open>ge_send env n c\<close> is what the \<open>n\<close>-th exchange of the client gives for the call
  \<open>c\<close>. The state is the client's breaker, the calls sent so far and the number of clock readings.
  The theorems: the retry policy never retries, listing the files of a pull request reads the pages the
  server has up to the limit, and a posted review is advisory and falls back once at most.
\<close>

subsection \<open>One request\<close>

record gh_call =
  gc_method :: string
  gc_path :: string
  gc_params :: "(string \<times> int) list"
  gc_json :: "(string \<times> json) list"

datatype http_outcome =
    HttpError string
  | HttpRaise exc
  | HttpReply int "(string \<times> string) list" string

record gh_env =
  ge_send :: "nat \<Rightarrow> gh_call \<Rightarrow> http_outcome"
  ge_loads :: "string \<Rightarrow> json option"
  ge_clock :: "nat \<Rightarrow> real"
  ge_jitter :: "nat \<Rightarrow> real \<Rightarrow> real"

record gh_world =
  gw_breaker :: breaker
  gw_sent :: "gh_call list"
  gw_ticks :: nat

definition RETRYABLE_STATUS :: "int list" where
  "RETRYABLE_STATUS = [429, 500, 502, 503, 504]"

definition gh_once :: "gh_env \<Rightarrow> gh_call \<Rightarrow> (gh_call list, json) effect" where
  "gh_once env c sent =
     ((case ge_send env (length sent) c of
         HttpError m \<Rightarrow> Inl (RetryableGitHubError 0 m None)
       | HttpRaise e \<Rightarrow> Inl e
       | HttpReply status headers text \<Rightarrow>
           (if status \<in> set RETRYABLE_STATUS
            then Inl (RetryableGitHubError status (take 300 text) (Some headers))
            else if 400 \<le> status then Inl (GitHubError status (take 300 text))
            else if text = [] then Inr JNull
            else (case ge_loads env text of
                    None \<Rightarrow> Inl (JSONDecodeError ''Expecting value'')
                  | Some v \<Rightarrow> Inr v))),
      sent @ [c])"

text \<open>\<^verbatim>\<open>_retry_after\<close>: the wait the response asks for. Header names are in lower case. A sleep of a
  negative time returns at once; a header that reads as not-a-number is no hint.\<close>

definition sleep_time :: "pyfloat \<Rightarrow> real option" where
  "sleep_time x = (case x of Fin r \<Rightarrow> Some (min r 60) | PInf \<Rightarrow> Some 60 | NInf \<Rightarrow> Some 0 | NaN \<Rightarrow> None)"

definition retry_after_hint :: "(string \<times> string) list option \<Rightarrow> real option" where
  "retry_after_hint response =
     (case response of
        None \<Rightarrow> None
      | Some headers \<Rightarrow>
          (case map_of headers ''retry-after'' of
             Some (c # h) \<Rightarrow> (case float_of_str (c # h) of None \<Rightarrow> None | Some x \<Rightarrow> sleep_time x)
           | _ \<Rightarrow> if map_of headers ''x-ratelimit-remaining'' = Some ''0'' then Some 60 else None))"

definition retry_after :: "exc \<Rightarrow> real option" where
  "retry_after e = (case e of RetryableGitHubError _ _ response \<Rightarrow> retry_after_hint response | _ \<Rightarrow> None)"

definition github_policy :: retry_policy where
  "github_policy =
     \<lparr>rp_attempts = 4, rp_base_delay = 1, rp_max_delay = 30, rp_retry_on = [RetryableGitHubError_c],
      rp_give_up_on = [GitHubError_c]\<rparr>"

definition gh_attempt :: "gh_env \<Rightarrow> gh_call \<Rightarrow> (gh_world, json) effect" where
  "gh_attempt env c w =
     (let t = gw_ticks w in
      case breaker_call (ge_clock env t) (ge_clock env (t + 1)) (ge_clock env (t + 2)) (gh_once env c)
             (gw_breaker w, gw_sent w) of
        (r, cb, sent) \<Rightarrow> (r, \<lparr>gw_breaker = cb, gw_sent = sent, gw_ticks = t + 3\<rparr>))"

definition gh_request :: "gh_env \<Rightarrow> gh_call \<Rightarrow> (gh_world, json) effect" where
  "gh_request env c w =
     (case with_retry (ge_jitter env) retry_after github_policy (gh_attempt env c) w of
        (r, w', slept) \<Rightarrow> (r, w'))"

definition github_breaker :: breaker where
  "github_breaker = new_breaker ''github'' 5 30 2"

definition new_client :: gh_world where
  "new_client = \<lparr>gw_breaker = github_breaker, gw_sent = [], gw_ticks = 0\<rparr>"

subsection \<open>Reading a pull request\<close>

definition pull_path :: "string \<Rightarrow> int \<Rightarrow> string" where
  "pull_path repo number = ''/repos/'' @ repo @ ''/pulls/'' @ py_str_int number"

definition get_pull_request :: "gh_env \<Rightarrow> string \<Rightarrow> int \<Rightarrow> (gh_world, json) effect" where
  "get_pull_request env repo number =
     gh_request env \<lparr>gc_method = ''GET'', gc_path = pull_path repo number, gc_params = [], gc_json = []\<rparr>"

definition files_call :: "string \<Rightarrow> int \<Rightarrow> int \<Rightarrow> gh_call" where
  "files_call repo number page =
     \<lparr>gc_method = ''GET'', gc_path = pull_path repo number @ ''/files'',
      gc_params = [(''per_page'', 100), (''page'', page)], gc_json = []\<rparr>"

text \<open>Iterating over a page: the items of a list; the keys of an object and the characters of a string are
  no dictionaries.\<close>

definition page_item :: "json \<Rightarrow> exc + diff_file" where
  "page_item v = (case v of JObj kvs \<Rightarrow> build_diff_file kvs | _ \<Rightarrow> Inl (AttributeError ''get''))"

definition page_files :: "json \<Rightarrow> exc + diff_file list" where
  "page_files batch =
     (case batch of
        JList xs \<Rightarrow> e_traverse page_item xs
      | JObj _ \<Rightarrow> Inl (AttributeError ''get'')
      | JStr _ \<Rightarrow> Inl (AttributeError ''get'')
      | _ \<Rightarrow> Inl (TypeError ''object is not iterable''))"

function list_files_loop ::
  "gh_env \<Rightarrow> string \<Rightarrow> int \<Rightarrow> nat \<Rightarrow> diff_file list \<Rightarrow> int \<Rightarrow> (gh_world, diff_file list) effect" where
  "list_files_loop env repo number max_files files page w =
     (if length files < max_files then
        (case gh_request env (files_call repo number page) w of
           (Inl e, w') \<Rightarrow> (Inl e, w')
         | (Inr batch, w') \<Rightarrow>
             (if \<not> truthy batch then (Inr files, w')
              else (case page_files batch of
                      Inl e \<Rightarrow> (Inl e, w')
                    | Inr new \<Rightarrow>
                        (if length new < 100 then (Inr (files @ new), w')
                         else list_files_loop env repo number max_files (files @ new) (page + 1) w'))))
      else (Inr files, w))"
  by pat_completeness auto
termination
  by (relation "measure (\<lambda>(env, repo, number, max_files, files, page, w). max_files - length files)") auto

declare list_files_loop.simps [simp del]

definition list_files :: "gh_env \<Rightarrow> string \<Rightarrow> int \<Rightarrow> nat \<Rightarrow> (gh_world, diff_file list) effect" where
  "list_files env repo number max_files w =
     (case list_files_loop env repo number max_files [] 1 w of
        (Inl e, w') \<Rightarrow> (Inl e, w')
      | (Inr files, w') \<Rightarrow> (Inr (take max_files files), w'))"

text \<open>\<^verbatim>\<open>(v or "")[:4000]\<close> followed by the string check of the model.\<close>

definition body_field :: "json \<Rightarrow> exc + string" where
  "body_field v =
     (case json_or v (JStr []) of
        JStr s \<Rightarrow> Inr (take 4000 s)
      | JList _ \<Rightarrow> Inl (ValueError ''Input should be a valid string'')
      | _ \<Rightarrow> Inl (TypeError ''object is not subscriptable''))"

definition context_of :: "string \<Rightarrow> int \<Rightarrow> int \<Rightarrow> json \<Rightarrow> diff_file list \<Rightarrow> exc + pull_request" where
  "context_of repo number repo_github_id pr files =
     ebind (json_get ''base'' (JObj []) pr) (\<lambda>base.
     ebind (json_get ''repo'' JNull base) (\<lambda>base_repo.
     ebind (json_get ''private'' (JBool True) (json_or base_repo (JObj []))) (\<lambda>private_v.
     ebind (json_get ''title'' JNull pr) (\<lambda>title_v.
     ebind (json_get ''body'' JNull pr) (\<lambda>body_v.
     ebind (body_field body_v) (\<lambda>body.
     ebind (json_get ''user'' JNull pr) (\<lambda>user_v.
     ebind (json_get ''login'' JNull (json_or user_v (JObj []))) (\<lambda>login_v.
     ebind (ebind (json_index ''head'' pr) (json_index ''sha'')) (\<lambda>head_v.
     ebind (ebind (json_index ''base'' pr) (json_index ''sha'')) (\<lambda>base_v.
     ebind (ebind (json_index ''base'' pr) (json_get ''ref'' (JStr ''main''))) (\<lambda>ref_v.
     ebind (str_field (json_or title_v (JStr []))) (\<lambda>title.
     ebind (str_field (json_or login_v (JStr []))) (\<lambda>author.
     ebind (str_field head_v) (\<lambda>head_sha.
     ebind (str_field base_v) (\<lambda>base_sha.
     ebind (str_field ref_v) (\<lambda>base_ref.
       Inr \<lparr>pr_repo_full_name = repo, pr_repo_github_id = repo_github_id, pr_is_private = truthy private_v,
            pr_number = number, pr_title = title, pr_body = body, pr_author = author,
            pr_head_sha = head_sha, pr_base_sha = base_sha, pr_base_ref = base_ref, pr_files = files,
            pr_truncated = False\<rparr>))))))))))))))))"

definition gh_build_context :: "gh_env \<Rightarrow> string \<Rightarrow> int \<Rightarrow> int \<Rightarrow> (gh_world, pull_request) effect" where
  "gh_build_context env repo number repo_github_id w =
     (case get_pull_request env repo number w of
        (Inl e, w1) \<Rightarrow> (Inl e, w1)
      | (Inr pr, w1) \<Rightarrow>
          (case list_files env repo number 300 w1 of
             (Inl e, w2) \<Rightarrow> (Inl e, w2)
           | (Inr files, w2) \<Rightarrow> (context_of repo number repo_github_id pr files, w2)))"

subsection \<open>Posting a review\<close>

definition RED_CIRCLE :: string where "RED_CIRCLE = [CHR 0xF0, CHR 0x9F, CHR 0x94, CHR 0xB4]"

definition ORANGE_CIRCLE :: string where "ORANGE_CIRCLE = [CHR 0xF0, CHR 0x9F, CHR 0x9F, CHR 0xA0]"

definition YELLOW_CIRCLE :: string where "YELLOW_CIRCLE = [CHR 0xF0, CHR 0x9F, CHR 0x9F, CHR 0xA1]"

definition BLUE_CIRCLE :: string where "BLUE_CIRCLE = [CHR 0xF0, CHR 0x9F, CHR 0x94, CHR 0xB5]"

fun severity_badge :: "severity \<Rightarrow> string" where
  "severity_badge CRITICAL = RED_CIRCLE @ '' **critical**''"
| "severity_badge MAJOR = ORANGE_CIRCLE @ '' **major**''"
| "severity_badge MINOR = YELLOW_CIRCLE @ '' minor''"
| "severity_badge INFO = BLUE_CIRCLE @ '' info''"

definition render_comment :: "finding \<Rightarrow> string" where
  "render_comment f =
     severity_badge (f_severity f) @ '' '' @ MIDDLE_DOT @ '' `'' @ category_str (f_category f) @ ''` '' @
     MIDDLE_DOT @ '' '' @ agent_str (f_agent f) @ '' agent '' @ MIDDLE_DOT @ '' confidence '' @
     py_fixed 2 (f_confidence f) @ NEWLINE @ NEWLINE @
     ''**'' @ f_title f @ ''**'' @ NEWLINE @ NEWLINE @ f_body f @ NEWLINE @ NEWLINE @
     ''<details><summary>Why this was raised</summary>'' @ NEWLINE @ NEWLINE @ f_rationale f @
     NEWLINE @ NEWLINE @ ''</details>''"

definition appendix_line :: "finding \<Rightarrow> string" where
  "appendix_line f =
     ''- `'' @ f_file_path f @ '':'' @ py_str_int (f_line_start f) @ ''` '' @ EM_DASH @ '' **'' @
     f_title f @ ''** ('' @ severity_str (f_severity f) @ '', '' @ py_fixed 2 (f_confidence f) @ '')''"

definition fallback_appendix :: "finding list \<Rightarrow> string" where
  "fallback_appendix fs =
     py_join NEWLINE
       ((NEWLINE @ NEWLINE @ ''---'' @ NEWLINE @ NEWLINE @
         ''_Inline comments were rejected; findings listed here instead._'' @ NEWLINE) # map appendix_line fs)"

definition inline_comment :: "finding \<Rightarrow> json" where
  "inline_comment f =
     JObj [(''path'', JStr (f_file_path f)), (''line'', JInt (f_line_end f)), (''side'', JStr ''RIGHT''),
           (''body'', JStr (render_comment f))]"

definition review_call :: "string \<Rightarrow> int \<Rightarrow> (string \<times> json) list \<Rightarrow> gh_call" where
  "review_call repo number payload =
     \<lparr>gc_method = ''POST'', gc_path = pull_path repo number @ ''/reviews'', gc_params = [],
      gc_json = payload\<rparr>"

definition summary_payload :: "string \<Rightarrow> string \<Rightarrow> (string \<times> json) list" where
  "summary_payload sha body =
     [(''commit_id'', JStr sha), (''body'', JStr body), (''event'', JStr ''COMMENT'')]"

definition review_payload :: "string \<Rightarrow> string \<Rightarrow> finding list \<Rightarrow> (string \<times> json) list" where
  "review_payload sha body fs =
     summary_payload sha body @ (if fs = [] then [] else [(''comments'', JList (map inline_comment fs))])"

text \<open>\<^verbatim>\<open>int(result["id"]) if result and "id" in result else None\<close>.\<close>

definition review_id_of :: "json \<Rightarrow> exc + int option" where
  "review_id_of result =
     (if \<not> truthy result then Inr None
      else case result of
        JObj kvs \<Rightarrow>
          (case jget ''id'' kvs of
             None \<Rightarrow> Inr None
           | Some v \<Rightarrow> ebind (py_int v) (\<lambda>i. Inr (Some i)))
      | JList xs \<Rightarrow> if JStr ''id'' \<in> set xs then Inl (TypeError ''list indices must be integers'') else Inr None
      | JStr s \<Rightarrow> if py_contains ''id'' s then Inl (TypeError ''string indices must be integers'') else Inr None
      | _ \<Rightarrow> Inl (TypeError ''argument is not iterable''))"

definition is_status :: "int \<Rightarrow> exc \<Rightarrow> bool" where
  "is_status n e \<longleftrightarrow>
     (case e of GitHubError st _ \<Rightarrow> st = n | RetryableGitHubError st _ _ \<Rightarrow> st = n | _ \<Rightarrow> False)"

definition post_review ::
  "gh_env \<Rightarrow> string \<Rightarrow> int \<Rightarrow> string \<Rightarrow> string \<Rightarrow> finding list \<Rightarrow> (gh_world, int option) effect" where
  "post_review env repo number sha body fs w =
     (case gh_request env (review_call repo number (review_payload sha body fs)) w of
        (Inr result, w1) \<Rightarrow> (review_id_of result, w1)
      | (Inl e, w1) \<Rightarrow>
          (if exc_isinstance e GitHubError_c \<and> is_status 422 e \<and> fs \<noteq> [] then
             (case gh_request env
                     (review_call repo number (summary_payload sha (body @ fallback_appendix fs))) w1 of
                (Inl e2, w2) \<Rightarrow> (Inl e2, w2)
              | (Inr result, w2) \<Rightarrow> (review_id_of result, w2))
           else (Inl e, w1)))"

subsection \<open>No request is retried\<close>

lemma github_never_retryable: "\<not> retryable github_policy e"
  using isinstance_subclasses(2) [of e] by (auto simp: retryable_def github_policy_def isinstance_any_def)

lemma gh_request_attempt: "gh_request env c w = gh_attempt env c w"
proof (cases "gh_attempt env c w")
  case (Pair r w')
  have "0 < rp_attempts github_policy" by (simp add: github_policy_def)
  with Pair show ?thesis
    by (cases r)
      (simp_all add: gh_request_def with_retry_def retry_loop.simps [of _ _ _ _ 0] github_never_retryable)
qed

text \<open>What one attempt does: the breaker rejects it and nothing is sent, or exactly one call is sent.\<close>

lemma gh_request_cases:
  "(\<exists>d. fst (gh_request env c w) = Inl (CircuitOpen (cb_name (gw_breaker w)) d)) \<and>
     gw_sent (snd (gh_request env c w)) = gw_sent w \<or>
   fst (gh_request env c w) = fst (gh_once env c (gw_sent w)) \<and>
     gw_sent (snd (gh_request env c w)) = gw_sent w @ [c]"
  by (auto simp: gh_request_attempt gh_attempt_def breaker_call_def gh_once_def read_state_def Let_def
      split: prod.splits if_splits)

text \<open>C36. Requests to GitHub are never retried. The policy allows four attempts on \<^verbatim>\<open>RetryableGitHubError\<close>
  but also gives up on its superclass \<^verbatim>\<open>GitHubError\<close>, which is tested first: whatever the server
  answers, a request is one attempt through the breaker, the call is sent at most once, and the
  \<^verbatim>\<open>Retry-After\<close> header is never used.\<close>

theorem github_request_single_attempt:
  "gh_request env c w = gh_attempt env c w \<and>
   gw_sent (snd (gh_request env c w)) \<in> {gw_sent w, gw_sent w @ [c]} \<and>
   (\<forall>e. \<not> retryable github_policy e) \<and> rp_attempts github_policy = 4"
proof -
  have "rp_attempts github_policy = 4" by (simp add: github_policy_def)
  with gh_request_cases [of env c w] show ?thesis
    by (auto simp: gh_request_attempt github_never_retryable)
qed

subsection \<open>A review is advisory\<close>

lemma post_review_cases:
  obtains "gw_sent (snd (post_review env repo number sha body fs w)) = gw_sent w"
  | "gw_sent (snd (post_review env repo number sha body fs w)) =
       gw_sent w @ [review_call repo number (review_payload sha body fs)]"
  | e where "gw_sent (snd (post_review env repo number sha body fs w)) =
       gw_sent w @ [review_call repo number (review_payload sha body fs),
                    review_call repo number (summary_payload sha (body @ fallback_appendix fs))]"
      "fst (gh_once env (review_call repo number (review_payload sha body fs)) (gw_sent w)) = Inl e"
      "is_status 422 e" "fs \<noteq> []"
proof -
  let ?c = "review_call repo number (review_payload sha body fs)"
  let ?c2 = "review_call repo number (summary_payload sha (body @ fallback_appendix fs))"
  obtain r w1 where r: "gh_request env ?c w = (r, w1)" by fastforce
  obtain r2 w2 where r2: "gh_request env ?c2 w1 = (r2, w2)" by fastforce
  note one = gh_request_cases [of env ?c w, unfolded r]
  note two = gh_request_cases [of env ?c2 w1, unfolded r2]
  show thesis
  proof (cases "\<exists>e. r = Inl e \<and> exc_isinstance e GitHubError_c \<and> is_status 422 e \<and> fs \<noteq> []")
    case True
    then obtain e where e: "r = Inl e" "exc_isinstance e GitHubError_c" "is_status 422 e" "fs \<noteq> []" by blast
    then have "snd (post_review env repo number sha body fs w) = w2"
      using r r2 by (cases r2) (simp_all add: post_review_def)
    moreover from one e have "gw_sent w1 = gw_sent w @ [?c]" "fst (gh_once env ?c (gw_sent w)) = Inl e"
      by (auto simp: is_status_def)
    ultimately show thesis using two e that(2,3) by auto
  next
    case False
    then have "snd (post_review env repo number sha body fs w) = w1"
      using r by (cases r) (auto simp: post_review_def)
    with one show thesis using that(1,2) by auto
  qed
qed

text \<open>C35. What posting a review can send: at most two calls, each a \<^verbatim>\<open>COMMENT\<close> review of the pull
  request at the given commit, so that it never approves nor blocks; the first carries one inline comment
  for every finding, and only if the server rejects it with 422 a second one is sent that has no inline
  comments and lists the findings at the end of its body.\<close>

theorem post_review_advisory:
  "\<exists>extra. gw_sent (snd (post_review env repo number sha body fs w)) = gw_sent w @ extra \<and>
     prefix extra [review_call repo number (review_payload sha body fs),
                   review_call repo number (summary_payload sha (body @ fallback_appendix fs))] \<and>
     list_all (\<lambda>c. gc_method c = ''POST'' \<and> jget ''event'' (gc_json c) = Some (JStr ''COMMENT'') \<and>
                   jget ''commit_id'' (gc_json c) = Some (JStr sha)) extra \<and>
     (length extra = 2 \<longrightarrow>
        (\<exists>e. fst (gh_once env (hd extra) (gw_sent w)) = Inl e \<and> is_status 422 e) \<and> fs \<noteq> [])"
  by (cases rule: post_review_cases [of env repo number sha body fs w])
    (auto simp: review_call_def review_payload_def summary_payload_def jget_def)

definition rejecting_env :: gh_env where
  "rejecting_env =
     \<lparr>ge_send = (\<lambda>n c. HttpReply 422 [] ''line must be part of the diff''), ge_loads = (\<lambda>_. None),
      ge_clock = (\<lambda>n. 0), ge_jitter = (\<lambda>n c. c)\<rparr>"

lemma rejecting_request:
  assumes "cb_state_field (gw_breaker w) = CLOSED" "cb_failures (gw_breaker w) < 3"
    "cb_failure_threshold (gw_breaker w) = 5"
  shows "fst (gh_request rejecting_env c w) = Inl (GitHubError 422 ''line must be part of the diff'') \<and>
    gw_sent (snd (gh_request rejecting_env c w)) = gw_sent w @ [c] \<and>
    cb_state_field (gw_breaker (snd (gh_request rejecting_env c w))) = CLOSED"
  using assms
  by (simp add: gh_request_attempt gh_attempt_def breaker_call_def gh_once_def rejecting_env_def
      RETRYABLE_STATUS_def read_state_def record_result_def on_failure_def Let_def)

lemma post_review_advisory_witness:
  "\<exists>c1 c2. gw_sent (snd (post_review rejecting_env ''o/r'' 4 ''h'' ''b'' [sample_injection] new_client)) = [c1, c2] \<and>
     jget ''event'' (gc_json c1) = Some (JStr ''COMMENT'') \<and> jget ''event'' (gc_json c2) = Some (JStr ''COMMENT'')"
proof -
  let ?p = "post_review rejecting_env ''o/r'' 4 ''h'' ''b'' [sample_injection] new_client"
  let ?c = "review_call ''o/r'' 4 (review_payload ''h'' ''b'' [sample_injection])"
  obtain r w1 where r: "gh_request rejecting_env ?c new_client = (r, w1)" by fastforce
  obtain r2 w2 where r2: "gh_request rejecting_env (review_call ''o/r'' 4
      (summary_payload ''h'' (''b'' @ fallback_appendix [sample_injection]))) w1 = (r2, w2)" by fastforce
  from rejecting_request [of new_client ?c] r have w1: "r = Inl (GitHubError 422 ''line must be part of the diff'')"
    "length (gw_sent w1) = 1" "cb_state_field (gw_breaker w1) = CLOSED"
    by (simp_all add: new_client_def github_breaker_def new_breaker_def)
  have "gw_sent w2 = gw_sent w1 @ [review_call ''o/r'' 4
      (summary_payload ''h'' (''b'' @ fallback_appendix [sample_injection]))]"
    using r2 w1(3) gh_request_cases [of rejecting_env "review_call ''o/r'' 4
      (summary_payload ''h'' (''b'' @ fallback_appendix [sample_injection]))" w1]
    by (auto simp: gh_request_attempt gh_attempt_def breaker_call_def read_state_def gh_once_def Let_def)
  with r r2 w1 have "length (gw_sent (snd ?p)) = 2"
    by (cases r2) (simp_all add: post_review_def is_status_def)
  with post_review_advisory [of rejecting_env "''o/r''" 4 "''h''" "''b''" "[sample_injection]" new_client]
  show ?thesis
    by (fastforce simp: new_client_def numeral_2_eq_2 length_Suc_conv)
qed

subsection \<open>Listing the files\<close>

text \<open>A server that answers every page of the file list of one pull request.\<close>

definition serves_files :: "gh_env \<Rightarrow> string \<Rightarrow> int \<Rightarrow> json list \<Rightarrow> bool" where
  "serves_files env repo number items \<longleftrightarrow>
     (\<forall>n k. \<exists>headers reply. reply \<noteq> [] \<and>
        ge_send env n (files_call repo number (int k + 1)) = HttpReply 200 headers reply \<and>
        ge_loads env reply = Some (JList (take 100 (drop (100 * k) items))))"

lemma gh_request_served:
  assumes "serves_files env repo number items" and "cb_state_field (gw_breaker w) = CLOSED"
  obtains w' where
    "gh_request env (files_call repo number (int k + 1)) w = (Inr (JList (take 100 (drop (100 * k) items))), w')"
    "cb_state_field (gw_breaker w') = CLOSED"
    "gw_sent w' = gw_sent w @ [files_call repo number (int k + 1)]"
proof -
  let ?c = "files_call repo number (int k + 1)"
  from assms(1) obtain headers reply where "reply \<noteq> []"
    "ge_send env (length (gw_sent w)) ?c = HttpReply 200 headers reply"
    "ge_loads env reply = Some (JList (take 100 (drop (100 * k) items)))"
    unfolding serves_files_def by meson
  then have once: "gh_once env ?c (gw_sent w) = (Inr (JList (take 100 (drop (100 * k) items))), gw_sent w @ [?c])"
    by (simp add: gh_once_def RETRYABLE_STATUS_def)
  with assms(2) show thesis
    by (intro that [of "snd (gh_attempt env ?c w)"])
      (simp_all add: gh_request_attempt gh_attempt_def breaker_call_def read_state_def Let_def
        record_result_def on_success_def)
qed

lemma take_page: "take (100 * k) xs @ take 100 (drop (100 * k) xs) = take (100 * Suc k) xs"
proof -
  have "100 * Suc k = 100 * k + 100" by simp
  then show ?thesis by (simp only: take_add)
qed

lemma list_files_loop_served:
  assumes "serves_files env repo number items" and "e_traverse page_item items = Inr fs"
    and "cb_state_field (gw_breaker w) = CLOSED" and "100 * k \<le> length fs"
  shows "\<exists>k' w'. list_files_loop env repo number max_files (take (100 * k) fs) (int k + 1) w =
      (Inr (take (100 * k') fs), w') \<and> k \<le> k' \<and> (max_files \<le> 100 * k' \<or> length fs < 100 * k') \<and>
      gw_sent w' = gw_sent w @ map (\<lambda>i. files_call repo number (int i + 1)) [k..<k'] \<and>
      (k' = k \<or> 100 * k' < max_files + 100)"
  using assms(3,4)
proof (induction "length fs - 100 * k" arbitrary: k w rule: less_induct)
  case less
  have len: "length items = length fs" using e_traverse_length [OF assms(2)] by simp
  have files: "length (take (100 * k) fs) = 100 * k" using less.prems by simp
  show ?case
  proof (cases "100 * k < max_files")
    case False
    then show ?thesis using less.prems
      by (intro exI [of _ k] exI [of _ w]) (simp add: list_files_loop.simps files)
  next
    case True
    note more = True
    obtain w1 where w1: "gh_request env (files_call repo number (int k + 1)) w =
        (Inr (JList (take 100 (drop (100 * k) items))), w1)" "cb_state_field (gw_breaker w1) = CLOSED"
      "gw_sent w1 = gw_sent w @ [files_call repo number (int k + 1)]"
      using gh_request_served [OF assms(1) less.prems(1)] by metis
    have new: "page_files (JList (take 100 (drop (100 * k) items))) = Inr (take 100 (drop (100 * k) fs))"
      using e_traverse_take_drop(1) [OF e_traverse_take_drop(2) [OF assms(2)]] by (simp add: page_files_def)
    show ?thesis
    proof (cases "length fs < 100 * Suc k")
      case True
      have all: "take (100 * Suc k) fs = fs" using True by simp
      have last: "list_files_loop env repo number max_files (take (100 * k) fs) (int k + 1) w = (Inr fs, w1)"
      proof (cases "length fs = 100 * k")
        case True
        with more w1(1) len show ?thesis by (subst list_files_loop.simps) simp
      next
        case False
        with True less.prems(2) len have "drop (100 * k) items \<noteq> []" "length (take 100 (drop (100 * k) fs)) < 100"
          by auto
        with more w1(1) new take_page [of k fs] all show ?thesis
          by (subst list_files_loop.simps) (simp add: files)
      qed
      show ?thesis
        using last w1(3) more True all by (intro exI [of _ "Suc k"] exI [of _ w1]) simp
    next
      case False
      have full: "length (take 100 (drop (100 * k) fs)) = 100" "drop (100 * k) items \<noteq> []"
        using False len by auto
      have step: "list_files_loop env repo number max_files (take (100 * k) fs) (int k + 1) w =
          list_files_loop env repo number max_files (take (100 * Suc k) fs) (int (Suc k) + 1) w1"
        using more w1(1) new full
        by (subst list_files_loop.simps) (simp add: files take_page add.commute del: mult_Suc_right)
      have "length fs - 100 * Suc k < length fs - 100 * k" "100 * Suc k \<le> length fs"
        using False less.prems(2) by simp_all
      from less.hyps [OF this(1) w1(2) this(2)] obtain k' w' where IH:
        "list_files_loop env repo number max_files (take (100 * Suc k) fs) (int (Suc k) + 1) w1 =
          (Inr (take (100 * k') fs), w')" "Suc k \<le> k'" "max_files \<le> 100 * k' \<or> length fs < 100 * k'"
        "gw_sent w' = gw_sent w1 @ map (\<lambda>i. files_call repo number (int i + 1)) [Suc k..<k']"
        "k' = Suc k \<or> 100 * k' < max_files + 100"
        by blast
      have "[k..<k'] = k # [Suc k..<k']" using IH(2) by (simp add: upt_conv_Cons)
      with IH more w1(3) show ?thesis unfolding step by (intro exI [of _ k'] exI [of _ w']) auto
    qed
  qed
qed

text \<open>C34. Against a server that answers its pages, listing the files of a pull request returns the files of
  the pull request in order, cut at the limit and nowhere else, with one request per page and no page
  requested beyond the limit; so a pull request within the limit is reviewed in full, and a larger one is
  cut silently.\<close>

theorem list_files_complete:
  assumes "serves_files env repo number items" and "e_traverse page_item items = Inr fs"
    and "cb_state_field (gw_breaker w) = CLOSED"
  shows "\<exists>w' pages. list_files env repo number max_files w = (Inr (take max_files fs), w') \<and>
    gw_sent w' = gw_sent w @ map (\<lambda>i. files_call repo number (int i + 1)) [0..<pages] \<and>
    100 * pages < max_files + 100"
proof -
  from list_files_loop_served [OF assms, of 0 max_files] obtain k w' where
    loop: "list_files_loop env repo number max_files [] 1 w = (Inr (take (100 * k) fs), w')"
    and k: "max_files \<le> 100 * k \<or> length fs < 100 * k" "k = 0 \<or> 100 * k < max_files + 100"
    and sent: "gw_sent w' = gw_sent w @ map (\<lambda>i. files_call repo number (int i + 1)) [0..<k]"
    by auto
  from k(1) have "take max_files (take (100 * k) fs) = take max_files fs" by (auto simp: min_def)
  with loop sent k(2) show ?thesis by (auto simp: list_files_def)
qed

definition paging_env :: "json list \<Rightarrow> gh_env" where
  "paging_env items =
     \<lparr>ge_send = (\<lambda>n c. HttpReply 200 [] (replicate (nat (snd (gc_params c ! 1))) CHR ''p'')),
      ge_loads = (\<lambda>s. Some (JList (take 100 (drop (100 * (length s - 1)) items)))),
      ge_clock = (\<lambda>n. 0), ge_jitter = (\<lambda>n c. c)\<rparr>"

lemma paging_env_serves: "serves_files (paging_env items) repo number items"
  by (auto simp: serves_files_def paging_env_def files_call_def nat_add_distrib)

definition sample_item :: json where
  "sample_item = JObj [(''filename'', JStr ''a.py''), (''additions'', JInt 1)]"

lemma list_files_complete_witness:
  "\<exists>f w'. list_files (paging_env (replicate 350 sample_item)) ''o/r'' 4 300 new_client =
     (Inr (replicate 300 f), w') \<and> page_item sample_item = Inr f \<and> length (gw_sent w') < 4"
proof -
  obtain f where f: "page_item sample_item = Inr f"
    by (simp add: page_item_def sample_item_def build_diff_file_def jget_def jget_or_def str_field_def)
  have "e_traverse page_item (replicate n sample_item) = Inr (replicate n f)" for n
    by (induction n) (simp_all add: f)
  from list_files_complete [OF paging_env_serves this [of 350], of new_client "''o/r''" 4 300] f
  show ?thesis by (auto simp: new_client_def github_breaker_def new_breaker_def)
qed

subsection \<open>Listing always ends\<close>

lemma pages_left:
  assumes "k \<le> (m - (l + n) + 99) div 100" and "100 \<le> n" and "l < (m::nat)"
  shows "Suc k \<le> (m - l + 99) div 100"
proof -
  have "k * 100 \<le> m - (l + n) + 99" using assms(1) by (simp add: less_eq_div_iff_mult_less_eq)
  then have "Suc k * 100 \<le> m - l + 99" using assms(2,3) by (cases k) auto
  then show ?thesis by (simp add: less_eq_div_iff_mult_less_eq del: mult_Suc)
qed

lemma list_files_loop_requests:
  "\<exists>k. k \<le> (max_files - length files + 99) div 100 \<and>
     gw_sent (snd (list_files_loop env repo number max_files files page w)) =
       gw_sent w @ map (\<lambda>i. files_call repo number (page + int i)) [0..<k]"
proof (induction env repo number max_files files page w rule: list_files_loop.induct)
  case (1 env repo number max_files files page w)
  let ?c = "files_call repo number page"
  let ?run = "list_files_loop env repo number max_files files page w"
  show ?case
  proof (cases "length files < max_files")
    case False
    then show ?thesis by (auto simp: list_files_loop.simps [of env] intro!: exI [of _ 0])
  next
    case more: True
    obtain r w1 where rq: "gh_request env ?c w = (r, w1)" by fastforce
    have sent1: "gw_sent w1 = gw_sent w \<or> gw_sent w1 = gw_sent w @ [?c]" and
      ok: "\<And>v. r = Inr v \<Longrightarrow> gw_sent w1 = gw_sent w @ [?c]"
      using gh_request_cases [of env ?c w] by (auto simp: rq)
    have one: "1 \<le> (max_files - length files + 99) div 100" using more by (simp add: Suc_leI div_greater_zero_iff)
    have ended: ?thesis if "gw_sent (snd ?run) = gw_sent w1"
      using sent1 that one by (auto intro: exI [of _ 0] exI [of _ "Suc 0"])
    show ?thesis
    proof (cases r)
      case (Inl e)
      with more rq show ?thesis by (intro ended) (simp add: list_files_loop.simps [of env])
    next
      case (Inr batch)
      show ?thesis
      proof (cases "truthy batch \<and> (\<exists>new. page_files batch = Inr new \<and> 100 \<le> length new)")
        case False
        with more rq Inr show ?thesis
          by (intro ended) (auto simp: list_files_loop.simps [of env] split: sum.splits)
      next
        case True
        then obtain new where new: "truthy batch" "page_files batch = Inr new" "100 \<le> length new" by blast
        then have run: "?run = list_files_loop env repo number max_files (files @ new) (page + 1) w1"
          by (subst list_files_loop.simps) (simp add: more rq Inr)
        have cond: "\<not> \<not> truthy batch" "\<not> length new < 100" using new by simp_all
        obtain k where k: "k \<le> (max_files - length (files @ new) + 99) div 100"
          "gw_sent (snd ?run) = gw_sent w1 @ map (\<lambda>i. files_call repo number (page + 1 + int i)) [0..<k]"
          using "1" [OF more rq [symmetric] Inr cond(1) new(2) cond(2)] unfolding run by blast
        have "Suc k \<le> (max_files - length files + 99) div 100"
          using pages_left [OF _ new(3) more] k(1) by simp
        moreover have "[0..<Suc k] = 0 # map Suc [0..<k]" by (simp add: map_Suc_upt upt_conv_Cons)
        ultimately show ?thesis
          using k(2) ok [OF Inr] by (intro exI [of _ "Suc k"]) (simp add: comp_def add.assoc)
      qed
    qed
  qed
qed

text \<open>C21. Whatever the server answers, even pages that never end, listing the files asks for its pages one after
  the other and stops: at most one request for every hundred files of the limit, so reading a pull request
  takes at most four requests. A list that is returned respects the limit.\<close>

theorem list_files_terminates:
  "(\<exists>k. k \<le> (max_files + 99) div 100 \<and>
      gw_sent (snd (list_files env repo number max_files w)) =
        gw_sent w @ map (\<lambda>i. files_call repo number (1 + int i)) [0..<k]) \<and>
   (case fst (list_files env repo number max_files w) of Inl _ \<Rightarrow> True | Inr fs \<Rightarrow> length fs \<le> max_files) \<and>
   length (gw_sent (snd (gh_build_context env repo number gid w))) \<le> length (gw_sent w) + 4"
proof -
  have listed: "\<exists>k. k \<le> (m + 99) div 100 \<and>
      gw_sent (snd (list_files env repo number m v)) =
        gw_sent v @ map (\<lambda>i. files_call repo number (1 + int i)) [0..<k]" for m v
    using list_files_loop_requests [of m "[]" env repo number 1 v]
    by (auto simp: list_files_def split: prod.splits sum.splits)
  have "case fst (list_files env repo number max_files w) of Inl _ \<Rightarrow> True | Inr fs \<Rightarrow> length fs \<le> max_files"
    by (auto simp: list_files_def split: prod.splits sum.splits)
  moreover have "length (gw_sent (snd (gh_build_context env repo number gid w))) \<le> length (gw_sent w) + 4"
  proof -
    obtain r w1 where pull: "get_pull_request env repo number w = (r, w1)" by fastforce
    have "length (gw_sent w1) \<le> length (gw_sent w) + 1"
      using gh_request_cases [of env _ w] pull unfolding get_pull_request_def
      by (metis le_add1 length_append_singleton Suc_eq_plus1 order_refl snd_conv)
    moreover have "length (gw_sent (snd (list_files env repo number 300 w1))) \<le> length (gw_sent w1) + 3"
      using listed [of 300 w1] by auto
    ultimately show ?thesis
      by (auto simp: gh_build_context_def pull split: sum.splits prod.splits)
  qed
  ultimately show ?thesis using listed by blast
qed

end
