(* ===== verification/Effects.thy ===== *)
theory Effects
  imports Retry
begin

section \<open>Sequencing effects\<close>

text \<open>
  A statement of the program that works on a state and may raise is an effect
  \<open>'s \<Rightarrow> (exc + 'a) \<times> 's\<close>. \<open>eff_bind\<close> runs one after another and stops at the first
  exception. \<open>keeps R m\<close> says that whatever happens the states before and after \<open>m\<close> are related
  by \<open>R\<close>; the locale \<open>frame\<close> gives the rules for a reflexive and transitive \<open>R\<close>, so that what
  a long handler leaves alone is proved statement by statement.
\<close>

definition eff_return :: "'a \<Rightarrow> ('s, 'a) effect" where
  "eff_return x s = (Inr x, s)"

definition eff_raise :: "exc \<Rightarrow> ('s, 'a) effect" where
  "eff_raise e s = (Inl e, s)"

definition eff_lift :: "exc + 'a \<Rightarrow> ('s, 'a) effect" where
  "eff_lift r s = (r, s)"

definition eff_bind :: "('s, 'a) effect \<Rightarrow> ('a \<Rightarrow> ('s, 'b) effect) \<Rightarrow> ('s, 'b) effect" where
  "eff_bind m k s = (case m s of (Inl e, s') \<Rightarrow> (Inl e, s') | (Inr x, s') \<Rightarrow> k x s')"

fun eff_all :: "('a \<Rightarrow> ('s, unit) effect) \<Rightarrow> 'a list \<Rightarrow> ('s, unit) effect" where
  "eff_all f [] = eff_return ()"
| "eff_all f (x # xs) = eff_bind (f x) (\<lambda>_. eff_all f xs)"

lemma eff_return_simp [simp]: "eff_return x s = (Inr x, s)"
  by (simp add: eff_return_def)

lemma eff_raise_simp [simp]: "eff_raise e s = (Inl e, s)"
  by (simp add: eff_raise_def)

lemma eff_lift_simp [simp]: "eff_lift r s = (r, s)"
  by (simp add: eff_lift_def)

lemma eff_bind_Inr:
  "eff_bind m k s = (Inr y, s'') \<longleftrightarrow> (\<exists>x s'. m s = (Inr x, s') \<and> k x s' = (Inr y, s''))"
  by (auto simp: eff_bind_def split: prod.splits sum.splits)

lemma eff_bind_Inl:
  "eff_bind m k s = (Inl e, s'') \<longleftrightarrow>
     m s = (Inl e, s'') \<or> (\<exists>x s'. m s = (Inr x, s') \<and> k x s' = (Inl e, s''))"
  by (auto simp: eff_bind_def split: prod.splits sum.splits)

lemma eff_bind_assoc: "eff_bind (eff_bind m f) g = eff_bind m (\<lambda>x. eff_bind (f x) g)"
  by (auto simp: eff_bind_def split: prod.split sum.split)

lemma eff_bindE:
  assumes "eff_bind m k s = (r, s'')"
  obtains (raised) e where "m s = (Inl e, s'')" "r = Inl e"
  | (went_on) x s' where "m s = (Inr x, s')" "k x s' = (r, s'')"
  using assms by (auto simp: eff_bind_def split: prod.splits sum.splits)

definition keeps :: "('s \<Rightarrow> 's \<Rightarrow> bool) \<Rightarrow> ('s, 'a) effect \<Rightarrow> bool" where
  "keeps R m \<longleftrightarrow> (\<forall>s. R s (snd (m s)))"

lemma keepsI: "(\<And>s. R s (snd (m s))) \<Longrightarrow> keeps R m"
  by (simp add: keeps_def)

lemma keepsD: "keeps R m \<Longrightarrow> m s = (r, s') \<Longrightarrow> R s s'"
  unfolding keeps_def by (metis snd_conv)

locale frame =
  fixes R :: "'s \<Rightarrow> 's \<Rightarrow> bool"
  assumes refl: "R s s"
    and trans: "R s t \<Longrightarrow> R t u \<Longrightarrow> R s u"
begin

lemma keeps_return: "keeps R (eff_return x)" "keeps R (eff_raise e)" "keeps R (eff_lift r)"
  by (simp_all add: keeps_def refl)

lemma keeps_bind: "keeps R m \<Longrightarrow> (\<And>x. keeps R (k x)) \<Longrightarrow> keeps R (eff_bind m k)"
  unfolding keeps_def eff_bind_def by (auto split: prod.splits sum.splits) (metis snd_conv trans)+

lemma keeps_all: "(\<And>x. keeps R (f x)) \<Longrightarrow> keeps R (eff_all f xs)"
  by (induction xs) (simp_all add: keeps_return keeps_bind)

lemma keeps_if: "keeps R m \<Longrightarrow> keeps R n \<Longrightarrow> keeps R (if b then m else n)"
  by simp

lemma keeps_sum:
  "(\<And>e. keeps R (f e)) \<Longrightarrow> (\<And>x. keeps R (g x)) \<Longrightarrow> keeps R (case r of Inl e \<Rightarrow> f e | Inr x \<Rightarrow> g x)"
  by (cases r) simp_all

lemmas keeps_rules = keeps_return keeps_bind keeps_all keeps_if keeps_sum

end

end
