(* ===== verification/Pipeline.thy ===== *)
theory Pipeline
  imports Gate Engines Store GitHub Effects
begin

section \<open>The review pipeline\<close>

text \<open>
  \<^verbatim>\<open>orchestration/pipeline.py\<close>: fetch, persist, retrieve, panel, aggregate, gate, act. The state
  \<open>pipe_world\<close> holds the tables, the state of the model calls with the spine and the cost guard, the
  GitHub client and the number of database statements issued; \<open>pe_db env n\<close> is the exception the
  \<open>n\<close>-th statement raises, if any, so that every \<^verbatim>\<open>await\<close> of the repository can fail. The panel
  of the chosen engine, the searches and the GitHub server are fields of the environment.
\<close>

record pipe_world =
  wo_store :: store
  wo_llm :: llm_world
  wo_gh :: gh_world
  wo_ops :: nat

record 'v pipe_env =
  pe_settings :: settings
  pe_github :: gh_env
  pe_put :: "event \<Rightarrow> spine \<Rightarrow> spine"
  pe_retrieval :: "int \<Rightarrow> 'v retrieval_env"
  pe_langgraph :: bool
  pe_temporal :: bool
  pe_run_panel :: "engine \<Rightarrow> review_context \<Rightarrow> agent_type list \<Rightarrow> (llm_world, agent_verdict list) effect"
  pe_spend_today :: "exc + real"
  pe_bundle :: string
  pe_num :: "real \<Rightarrow> real"
  pe_ms :: int
  pe_db :: "nat \<Rightarrow> exc option"
  pe_first_span :: uuid

subsection \<open>Statements on the parts of the state\<close>

definition db_op :: "'v pipe_env \<Rightarrow> (store \<Rightarrow> 'a \<times> store) \<Rightarrow> (pipe_world, 'a) effect" where
  "db_op env f w =
     (case pe_db env (wo_ops w) of
        Some e \<Rightarrow> (Inl e, w\<lparr>wo_ops := wo_ops w + 1\<rparr>)
      | None \<Rightarrow> (case f (wo_store w) of (x, st) \<Rightarrow> (Inr x, w\<lparr>wo_store := st, wo_ops := wo_ops w + 1\<rparr>)))"

definition db_do :: "'v pipe_env \<Rightarrow> (store \<Rightarrow> store) \<Rightarrow> (pipe_world, unit) effect" where
  "db_do env f = db_op env (\<lambda>st. ((), f st))"

definition on_spine :: "(spine \<Rightarrow> spine) \<Rightarrow> (pipe_world, unit) effect" where
  "on_spine f w = (Inr (), w\<lparr>wo_llm := (wo_llm w)\<lparr>lw_spine := f (lw_spine (wo_llm w))\<rparr>\<rparr>)"

definition on_llm :: "(llm_world, 'a) effect \<Rightarrow> (pipe_world, 'a) effect" where
  "on_llm m w = (case m (wo_llm w) of (r, l) \<Rightarrow> (r, w\<lparr>wo_llm := l\<rparr>))"

definition on_gh :: "(gh_world, 'a) effect \<Rightarrow> (pipe_world, 'a) effect" where
  "on_gh m w = (case m (wo_gh w) of (r, g) \<Rightarrow> (r, w\<lparr>wo_gh := g\<rparr>))"

definition pipe_span ::
  "'v pipe_env \<Rightarrow> string \<Rightarrow> (string \<times> json) list \<Rightarrow> (pipe_world, 'a) effect \<Rightarrow> (pipe_world, 'a) effect" where
  "pipe_span env name flds body w =
     (case span_enter (pe_put env) name flds (lw_spine (wo_llm w)) of (sp, parent, s1) \<Rightarrow>
      case body (w\<lparr>wo_llm := (wo_llm w)\<lparr>lw_spine := s1\<rparr>\<rparr>) of (r, w2) \<Rightarrow>
        (r, w2\<lparr>wo_llm := (wo_llm w2)\<lparr>lw_spine := span_exit (pe_put env) (pe_ms env) parent
               (case r of Inl e \<Rightarrow> span_failed e sp | Inr _ \<Rightarrow> sp) (lw_spine (wo_llm w2))\<rparr>\<rparr>))"

subsection \<open>Running the panel and the gate\<close>

definition retrieve_step ::
  "'v pipe_env \<Rightarrow> pull_request \<Rightarrow> int \<Rightarrow> (pipe_world, review_context) effect" where
  "retrieve_step env pr repo_id =
     pipe_span env ''review.retrieve'' []
       (on_llm (\<lambda>l. case build_context (pe_settings env) (pe_put env) (pe_retrieval env repo_id) pr
                        (Some repo_id) (lw_spine l) of
                      (r, s) \<Rightarrow> (r, l\<lparr>lw_spine := s\<rparr>)))"

definition agent_names :: "agent_type set \<Rightarrow> json" where
  "agent_names A = strings (map agent_str (sort_key agent_str (filter (\<lambda>a. a \<in> A) ALL_AGENTS)))"

text \<open>The panel for the agents that have no OK verdict yet; a budget that is exhausted while it runs leaves
  no verdicts and a flag.\<close>

definition panel_step ::
  "'v pipe_env \<Rightarrow> string option \<Rightarrow> uuid \<Rightarrow> review_context \<Rightarrow> agent_type list \<Rightarrow>
     (pipe_world, agent_verdict list \<times> bool) effect" where
  "panel_step env engine_name review_id ctx todo =
     (if todo = [] then eff_return ([], False)
      else
        eff_bind (eff_lift (get_engine (pe_langgraph env) (pe_temporal env) engine_name)) (\<lambda>eng.
        eff_bind (\<lambda>w. case on_llm (pe_run_panel env eng ctx todo) w of
                         (Inr vs, w1) \<Rightarrow> (Inr (vs, False), w1)
                       | (Inl e, w1) \<Rightarrow>
                           (if exc_isinstance e BudgetExceeded_c
                            then (Inr ([], True),
                                  snd (on_spine (spine_error (pe_put env) ''review.budget_exhausted'' e []) w1))
                            else (Inl e, w1))) (\<lambda>(vs, exhausted).
        eff_bind (eff_all (\<lambda>v. db_do env (save_verdict (pe_num env) review_id v)) vs) (\<lambda>_.
          eff_return (vs, exhausted)))))"

definition gate_attributes :: "gate_result \<Rightarrow> finding list \<Rightarrow> real \<Rightarrow> (string \<times> json) list" where
  "gate_attributes g fs confidence =
     [(''decision'', JStr (decision_str (g_decision g))),
      (''reason'', case g_reason g of None \<Rightarrow> JNull | Some r \<Rightarrow> JStr (reason_str r)),
      (''confidence'', JFloat (Fin confidence)), (''findings'', JInt (int (length fs))),
      (''postable'', JInt (int (length (g_postable g)))), (''explanation'', JStr (g_explanation g))]"

definition make_outcome ::
  "uuid \<Rightarrow> gate_result \<Rightarrow> finding list \<Rightarrow> real \<Rightarrow> agent_verdict list \<Rightarrow> review_outcome" where
  "make_outcome review_id g fs confidence vs =
     \<lparr>o_review_id = review_id, o_decision = g_decision g, o_reason = g_reason g,
      o_overall_confidence = confidence, o_findings = fs, o_postable = g_postable g, o_verdicts = vs,
      o_summary = summarise fs vs, o_total_cost_usd = sum_list (map v_cost_usd vs)\<rparr>"

definition gate_step ::
  "'v pipe_env \<Rightarrow> pull_request \<Rightarrow> uuid \<Rightarrow> agent_verdict list \<Rightarrow> bool \<Rightarrow> (pipe_world, review_outcome) effect" where
  "gate_step env pr review_id vs exhausted =
     (case aggregate (pe_settings env) vs of (fs, confidence) \<Rightarrow>
        eff_bind (pipe_span env ''review.aggregate'' [] (db_do env (save_findings (pe_num env) review_id fs))) (\<lambda>_.
          let g = evaluate (pe_settings env) fs vs confidence
                    (exhausted \<or> list_ex (\<lambda>v. v_status v = BUDGET_DENIED) vs) (\<not> pr_is_private pr)
          in eff_bind (on_spine (spine_decision (pe_put env) ''gate.decided'' (gate_attributes g fs confidence)))
               (\<lambda>_. eff_return (make_outcome review_id g fs confidence vs))))"

definition pipeline_run ::
  "'v pipe_env \<Rightarrow> pull_request \<Rightarrow> int \<Rightarrow> uuid \<Rightarrow> string option \<Rightarrow> (pipe_world, review_outcome) effect" where
  "pipeline_run env pr repo_id review_id engine_name =
     eff_bind (retrieve_step env pr repo_id) (\<lambda>ctx.
     eff_bind (db_op env (\<lambda>st. (completed_agents review_id st, st))) (\<lambda>finished.
     let todo = filter (\<lambda>a. a \<notin> finished) ALL_AGENTS in
     eff_bind (if finished = {} then eff_return ()
               else on_spine (spine_decision (pe_put env) ''review.resumed''
                      [(''completed'', agent_names finished), (''remaining'', strings (map agent_str todo))])) (\<lambda>_.
     eff_bind (panel_step env engine_name review_id ctx todo) (\<lambda>(verdicts, exhausted).
     eff_bind (db_op env (\<lambda>st. (load_verdicts review_id st, st))) (\<lambda>loaded.
     eff_bind (eff_lift loaded) (\<lambda>stored.
       gate_step env pr review_id (if stored = [] then verdicts else stored) exhausted))))))"

subsection \<open>Acting on the decision\<close>

fun escalation_priority :: "escalation_reason \<Rightarrow> int" where
  "escalation_priority CRITICAL_SECURITY = 1"
| "escalation_priority BUDGET_EXCEEDED = 10"
| "escalation_priority AGENT_FAILURE = 20"
| "escalation_priority LOW_CONFIDENCE = 50"
| "escalation_priority POLICY = 30"

definition end_review ::
  "'v pipe_env \<Rightarrow> review_outcome \<Rightarrow> uuid \<Rightarrow> review_status \<Rightarrow> decision \<Rightarrow> escalation_reason option \<Rightarrow> int option \<Rightarrow>
     (pipe_world, unit) effect" where
  "end_review env out review_id status dec reason github_id =
     db_do env (finish_review review_id status (Some dec) reason (o_overall_confidence out)
       (o_total_cost_usd out) github_id None)"

definition escalate_step ::
  "'v pipe_env \<Rightarrow> pull_request \<Rightarrow> uuid \<Rightarrow> review_outcome \<Rightarrow> escalation_reason option \<Rightarrow>
     (pipe_world, review_outcome) effect" where
  "escalate_step env pr review_id out result_reason =
     (let reason = (case result_reason of None \<Rightarrow> LOW_CONFIDENCE | Some r \<Rightarrow> r) in
      eff_bind (db_op env (enqueue_hitl review_id reason
        (pr_repo_full_name pr @ ''#'' @ py_str_int (pr_number pr) @ '' '' @ EM_DASH @ '' '' @ o_summary out)
        (escalation_priority reason))) (\<lambda>_.
      eff_bind (end_review env out review_id AWAITING_HUMAN ESCALATE (Some reason) None) (\<lambda>_.
        eff_return out)))"

definition post_step ::
  "'v pipe_env \<Rightarrow> pull_request \<Rightarrow> uuid \<Rightarrow> review_outcome \<Rightarrow> (pipe_world, unit) effect" where
  "post_step env pr review_id out =
     (let body = render_review_body (o_postable out) (o_summary out)
                   (int (length (o_findings out)) - int (length (o_postable out))) (pe_bundle env)
      in eff_bind (pipe_span env ''review.post'' [(''comments'', JInt (int (length (o_postable out))))]
           (on_gh (post_review (pe_github env) (pr_repo_full_name pr) (pr_number pr) (pr_head_sha pr) body
              (o_postable out)))) (\<lambda>github_id.
         eff_bind (db_do env (mark_posted (map f_id (o_postable out)))) (\<lambda>_.
           end_review env out review_id POSTED AUTO_POST None github_id)))"

definition pipeline_act ::
  "'v pipe_env \<Rightarrow> pull_request \<Rightarrow> uuid \<Rightarrow> review_outcome \<Rightarrow> bool \<Rightarrow> (pipe_world, review_outcome) effect" where
  "pipeline_act env pr review_id out post =
     (if o_decision out = AUTO_POST \<and> \<not> post then
        eff_bind (on_spine (spine_decision (pe_put env) ''review.not_posted''
          [(''reason'', JStr ''dry_run''), (''would_post'', JInt (int (length (o_postable out))))])) (\<lambda>_.
        eff_bind (end_review env out review_id SUPPRESSED AUTO_POST None None) (\<lambda>_. eff_return out))
      else if o_decision out = AUTO_POST then
        (\<lambda>w. case post_step env pr review_id out w of
           (Inr _, w1) \<Rightarrow> (Inr out, w1)
         | (Inl e, w1) \<Rightarrow>
             (if exc_isinstance e Exception_c then
                eff_bind (on_spine (spine_error (pe_put env) ''review.post_failed'' e [])) (\<lambda>_.
                  escalate_step env pr review_id (out\<lparr>o_decision := ESCALATE\<rparr>) (Some POLICY)) w1
              else (Inl e, w1)))
      else if o_decision out = ESCALATE then escalate_step env pr review_id out (o_reason out)
      else eff_bind (end_review env out review_id SUPPRESSED SUPPRESS None None) (\<lambda>_. eff_return out))"

subsection \<open>The review, end to end\<close>

definition start_spine :: "'v pipe_env \<Rightarrow> webhook_job \<Rightarrow> (pipe_world, unit) effect" where
  "start_spine env job w =
     (Inr (), w\<lparr>wo_llm := (wo_llm w)
        \<lparr>lw_spine := new_spine None (Some (j_delivery_id job)) (Some (j_repo_full_name job)) (pe_first_span env),
         lw_budget := None\<rparr>\<rparr>)"

definition set_review :: "uuid \<Rightarrow> (pipe_world, unit) effect" where
  "set_review review_id = on_spine (\<lambda>s. s\<lparr>es_review_id := Some review_id\<rparr>)"

definition set_budget :: "budget_guard \<Rightarrow> (pipe_world, unit) effect" where
  "set_budget b w = (Inr (), w\<lparr>wo_llm := (wo_llm w)\<lparr>lw_budget := Some b\<rparr>\<rparr>)"

definition open_step ::
  "'v pipe_env \<Rightarrow> webhook_job \<Rightarrow> (pipe_world, pull_request \<times> int \<times> uuid) effect" where
  "open_step env job =
     eff_bind (start_spine env job) (\<lambda>_.
     eff_bind (db_op env (record_delivery job ''accepted'')) (\<lambda>_.
     eff_bind (db_op env (upsert_repository (j_repo_full_name job) (j_repo_github_id job) ''main'')) (\<lambda>repo_id.
     eff_bind (pipe_span env ''review.fetch''
         [(''repo'', JStr (j_repo_full_name job)), (''pr'', JInt (j_pr_number job))]
         (on_gh (gh_build_context (pe_github env) (j_repo_full_name job) (j_pr_number job)
            (j_repo_github_id job)))) (\<lambda>pr.
     eff_bind (db_op env (upsert_pull_request repo_id pr)) (\<lambda>pr_id.
     eff_bind (db_op env (open_review pr_id (j_delivery_id job) (pe_bundle env))) (\<lambda>(review_id, is_new).
     eff_bind (set_review review_id) (\<lambda>_.
     eff_bind (eff_lift (budget_load (pe_spend_today env) review_id)) (\<lambda>b.
     eff_bind (set_budget b) (\<lambda>_.
       eff_return (pr, repo_id, review_id))))))))))"

definition review_pull_request ::
  "'v pipe_env \<Rightarrow> webhook_job \<Rightarrow> string option \<Rightarrow> bool \<Rightarrow> (pipe_world, review_outcome) effect" where
  "review_pull_request env job engine_name post =
     eff_bind (open_step env job) (\<lambda>(pr, repo_id, review_id).
     eff_bind (pipeline_run env pr repo_id review_id engine_name) (\<lambda>out.
       pipeline_act env pr review_id out post))"

subsection \<open>What the statements leave alone\<close>

definition same_tables :: "pipe_world \<Rightarrow> pipe_world \<Rightarrow> bool" where
  "same_tables w w' \<longleftrightarrow>
     st_hitl (wo_store w') = st_hitl (wo_store w) \<and> st_reviews (wo_store w') = st_reviews (wo_store w)"

definition same_github :: "pipe_world \<Rightarrow> pipe_world \<Rightarrow> bool" where
  "same_github w w' \<longleftrightarrow> wo_gh w' = wo_gh w"

definition gh_posts :: "pipe_world \<Rightarrow> gh_call list" where
  "gh_posts w = filter (\<lambda>c. gc_method c = ''POST'') (gw_sent (wo_gh w))"

definition same_posts :: "pipe_world \<Rightarrow> pipe_world \<Rightarrow> bool" where
  "same_posts w w' \<longleftrightarrow> gh_posts w' = gh_posts w"

interpretation tables: frame same_tables
  by unfold_locales (simp_all add: same_tables_def)

interpretation github: frame same_github
  by unfold_locales (simp_all add: same_github_def)

interpretation posts: frame same_posts
  by unfold_locales (simp_all add: same_posts_def)

lemma same_github_posts: "same_github w w' \<Longrightarrow> same_posts w w'"
  by (simp add: same_github_def same_posts_def gh_posts_def)

lemma db_op_github: "keeps same_github (db_op env f)"
  by (rule keepsI) (simp add: db_op_def same_github_def split: option.split prod.split)

lemma db_op_tables:
  assumes "\<And>st. st_hitl (snd (f st)) = st_hitl st \<and> st_reviews (snd (f st)) = st_reviews st"
  shows "keeps same_tables (db_op env f)"
proof (rule keepsI)
  fix w
  show "same_tables w (snd (db_op env f w))"
    using assms [of "wo_store w"] by (auto simp: db_op_def same_tables_def split: option.split prod.split)
qed

lemma local_steps_keep:
  "keeps same_github (on_spine f)" "keeps same_tables (on_spine f)"
  "keeps same_github (on_llm m)" "keeps same_tables (on_llm m)" "keeps same_tables (on_gh g)"
  by (simp_all add: keeps_def on_spine_def on_llm_def on_gh_def same_github_def same_tables_def split: prod.split)

text \<open>A span only adds rows to the spine around its body.\<close>

definition with_spine :: "spine \<Rightarrow> pipe_world \<Rightarrow> pipe_world" where
  "with_spine s w = w\<lparr>wo_llm := (wo_llm w)\<lparr>lw_spine := s\<rparr>\<rparr>"

lemma with_spine_keeps:
  "same_github w (with_spine s w)" "same_tables w (with_spine s w)" "same_posts w (with_spine s w)"
  by (simp_all add: with_spine_def same_github_def same_tables_def same_posts_def gh_posts_def)

lemma pipe_spanE:
  assumes "pipe_span env name flds body w = (r, w')"
  obtains s1 w2 s2 where "body (with_spine s1 w) = (r, w2)" "w' = with_spine s2 w2"
proof -
  obtain sp parent s1 where e: "span_enter (pe_put env) name flds (lw_spine (wo_llm w)) = (sp, parent, s1)"
    by (metis prod.collapse)
  obtain r2 w2 where b: "body (with_spine s1 w) = (r2, w2)" by (metis prod.collapse)
  let ?s2 = "span_exit (pe_put env) (pe_ms env) parent (case r2 of Inl e \<Rightarrow> span_failed e sp | Inr _ \<Rightarrow> sp)
      (lw_spine (wo_llm w2))"
  have "pipe_span env name flds body w = (r2, with_spine ?s2 w2)"
    using b by (simp add: pipe_span_def e with_spine_def)
  with assms have "r2 = r" "w' = with_spine ?s2 w2" by auto
  with b that show thesis by blast
qed

lemma pipe_span_keeps:
  assumes "keeps R body" and "frame R" and "\<And>w s. R w (with_spine s w)"
  shows "keeps R (pipe_span env name flds body)"
proof (rule keepsI)
  fix w
  obtain r w' where p: "pipe_span env name flds body w = (r, w')" by fastforce
  then obtain s1 w2 s2 where "body (with_spine s1 w) = (r, w2)" "w' = with_spine s2 w2" by (rule pipe_spanE)
  note step = this
  have "R (with_spine s1 w) w2" by (rule keepsD [OF assms(1) step(1)])
  with assms(3) [of w s1] have "R w w2" by (rule frame.trans [OF assms(2)])
  moreover have "R w2 w'" unfolding step(2) by (rule assms(3))
  ultimately have "R w w'" by (rule frame.trans [OF assms(2)])
  with p show "R w (snd (pipe_span env name flds body w))" by simp
qed

lemmas span_keeps =
  pipe_span_keeps [OF _ github.frame_axioms with_spine_keeps(1)]
  pipe_span_keeps [OF _ tables.frame_axioms with_spine_keeps(2)]
  pipe_span_keeps [OF _ posts.frame_axioms with_spine_keeps(3)]

lemma save_keeps_tables:
  "keeps same_tables (db_do env (save_verdict num rid v))"
  "keeps same_tables (db_do env (save_findings num rid fs))"
  "keeps same_tables (db_do env (mark_posted ids))"
  unfolding db_do_def
  by (rule db_op_tables; simp add: save_verdict_def save_findings_def mark_posted_def Let_def)+

lemma db_do_github: "keeps same_github (db_do env f)"
  unfolding db_do_def by (rule db_op_github)

lemma panel_attempt_keeps:
  "keeps same_github (\<lambda>w. case on_llm m w of (Inr vs, w1) \<Rightarrow> (Inr (vs, False), w1)
     | (Inl e, w1) \<Rightarrow> if exc_isinstance e BudgetExceeded_c
         then (Inr ([], True), snd (on_spine (g e) w1)) else (Inl e, w1))"
  "keeps same_tables (\<lambda>w. case on_llm m w of (Inr vs, w1) \<Rightarrow> (Inr (vs, False), w1)
     | (Inl e, w1) \<Rightarrow> if exc_isinstance e BudgetExceeded_c
         then (Inr ([], True), snd (on_spine (g e) w1)) else (Inl e, w1))"
  by (auto simp: keeps_def on_llm_def on_spine_def same_github_def same_tables_def split: prod.split sum.split)

lemma panel_step_keeps:
  "keeps same_github (panel_step env engine_name rid ctx todo)"
  "keeps same_tables (panel_step env engine_name rid ctx todo)"
  unfolding panel_step_def
  by (auto intro!: github.keeps_rules tables.keeps_rules panel_attempt_keeps db_do_github save_keeps_tables
      split: prod.split)

lemma gate_step_keeps:
  "keeps same_github (gate_step env pr rid vs exhausted)"
  "keeps same_tables (gate_step env pr rid vs exhausted)"
  unfolding gate_step_def Let_def
  by (auto intro!: github.keeps_rules tables.keeps_rules span_keeps db_do_github save_keeps_tables local_steps_keep
      split: prod.split)

lemma pipeline_run_keeps:
  "keeps same_github (pipeline_run env pr repo_id rid engine_name)"
  "keeps same_tables (pipeline_run env pr repo_id rid engine_name)"
  unfolding pipeline_run_def retrieve_step_def Let_def
  by (auto intro!: github.keeps_rules tables.keeps_rules span_keeps db_op_github db_op_tables local_steps_keep
      panel_step_keeps gate_step_keeps split: prod.split)

lemma db_op_Inr: "db_op env f w = (Inr x, w') \<Longrightarrow> f (wo_store w) = (x, wo_store w')"
  by (auto simp: db_op_def split: option.splits prod.splits)

lemma db_op_store: "db_op env f w = (Inr x, w') \<Longrightarrow> wo_store w' = snd (f (wo_store w)) \<and> x = fst (f (wo_store w))"
  using db_op_Inr by fastforce

text \<open>A run is its panel, then what was stored for the review, then the gate. The panel part ends with the
  verdicts of the panel and the flag that says that the budget ran out.\<close>

definition panel_phase ::
  "'v pipe_env \<Rightarrow> pull_request \<Rightarrow> int \<Rightarrow> uuid \<Rightarrow> string option \<Rightarrow> (pipe_world, agent_verdict list \<times> bool) effect" where
  "panel_phase env pr repo_id review_id engine_name =
     eff_bind (retrieve_step env pr repo_id) (\<lambda>ctx.
     eff_bind (db_op env (\<lambda>st. (completed_agents review_id st, st))) (\<lambda>finished.
     let todo = filter (\<lambda>a. a \<notin> finished) ALL_AGENTS in
     eff_bind (if finished = {} then eff_return ()
               else on_spine (spine_decision (pe_put env) ''review.resumed''
                      [(''completed'', agent_names finished), (''remaining'', strings (map agent_str todo))])) (\<lambda>_.
       panel_step env engine_name review_id ctx todo)))"

lemma pipeline_run_phases:
  "pipeline_run env pr repo_id rid engine_name =
     eff_bind (panel_phase env pr repo_id rid engine_name) (\<lambda>(verdicts, exhausted).
     eff_bind (db_op env (\<lambda>st. (load_verdicts rid st, st))) (\<lambda>loaded.
     eff_bind (eff_lift loaded) (\<lambda>stored.
       gate_step env pr rid (if stored = [] then verdicts else stored) exhausted)))"
  by (simp add: pipeline_run_def panel_phase_def eff_bind_assoc Let_def cong: if_cong)

definition same_verdicts :: "pipe_world \<Rightarrow> pipe_world \<Rightarrow> bool" where
  "same_verdicts w w' \<longleftrightarrow> st_verdicts (wo_store w') = st_verdicts (wo_store w)"

interpretation verdicts: frame same_verdicts
  by unfold_locales (simp_all add: same_verdicts_def)

lemma same_verdicts_load: "same_verdicts w w' \<Longrightarrow> load_verdicts rid (wo_store w') = load_verdicts rid (wo_store w)"
  by (simp add: same_verdicts_def load_verdicts_def)

lemma db_op_verdicts: "(\<And>st. st_verdicts (snd (f st)) = st_verdicts st) \<Longrightarrow> keeps same_verdicts (db_op env f)"
  by (rule keepsI) (auto simp: db_op_def same_verdicts_def case_prod_beta split: option.split)

lemma quiet_steps_verdicts:
  "keeps same_verdicts (on_spine f)" "keeps same_verdicts (on_gh g)"
  "keeps same_verdicts (db_do env (save_findings num rid fs))"
  "keeps same_verdicts (db_do env (mark_posted ids))"
  "keeps same_verdicts (end_review env out rid status dec reason gid)"
  unfolding db_do_def end_review_def
  by (auto intro!: db_op_verdicts
      simp: save_findings_def mark_posted_def finish_review_def Let_def)
    (simp_all add: keeps_def on_spine_def on_gh_def same_verdicts_def split: prod.split)

lemma with_spine_verdicts: "same_verdicts w (with_spine s w)"
  by (simp add: with_spine_def same_verdicts_def)

lemmas span_keeps_verdicts = pipe_span_keeps [OF _ verdicts.frame_axioms with_spine_verdicts]

lemma gate_step_verdicts: "keeps same_verdicts (gate_step env pr rid vs exhausted)"
  unfolding gate_step_def Let_def
  by (auto intro!: verdicts.keeps_rules span_keeps_verdicts quiet_steps_verdicts split: prod.split)

text \<open>What the panel returned is stored, so the verdicts that are loaded afterwards are never fewer.\<close>

lemma saved_verdicts:
  assumes "eff_all (\<lambda>v. db_do env (save_verdict (pe_num env) rid v)) vs w = (Inr u, w')"
  shows "v \<in> set vs \<Longrightarrow> st_verdicts (wo_store w') (rid, v_agent v) \<noteq> None"
    and "st_verdicts (wo_store w) k \<noteq> None \<Longrightarrow> st_verdicts (wo_store w') k \<noteq> None"
proof -
  have "(\<forall>v \<in> set vs. st_verdicts (wo_store w') (rid, v_agent v) \<noteq> None) \<and>
    (\<forall>k. st_verdicts (wo_store w) k \<noteq> None \<longrightarrow> st_verdicts (wo_store w') k \<noteq> None)"
    using assms
  proof (induction vs arbitrary: w)
    case (Cons x vs)
    then obtain w1 where first: "db_do env (save_verdict (pe_num env) rid x) w = (Inr (), w1)"
      and rest: "eff_all (\<lambda>v. db_do env (save_verdict (pe_num env) rid v)) vs w1 = (Inr u, w')"
      by (auto simp: eff_bind_Inr)
    from first have "wo_store w1 = save_verdict (pe_num env) rid x (wo_store w)"
      using db_op_store unfolding db_do_def by fastforce
    then have "st_verdicts (wo_store w1) (rid, v_agent x) \<noteq> None"
      "\<forall>k. st_verdicts (wo_store w) k \<noteq> None \<longrightarrow> st_verdicts (wo_store w1) k \<noteq> None"
      by (simp_all add: save_verdict_def)
    with Cons.IH [OF rest] show ?case by simp
  qed simp
  then show "v \<in> set vs \<Longrightarrow> st_verdicts (wo_store w') (rid, v_agent v) \<noteq> None"
    and "st_verdicts (wo_store w) k \<noteq> None \<Longrightarrow> st_verdicts (wo_store w') k \<noteq> None" by blast+
qed

lemma panel_step_saves:
  assumes "panel_step env engine_name rid ctx todo w = (Inr (vs, exhausted), w')" and "v \<in> set vs"
  shows "st_verdicts (wo_store w') (rid, v_agent v) \<noteq> None"
proof (cases "todo = []")
  case True
  with assms show ?thesis by (simp add: panel_step_def)
next
  case False
  with assms(1) obtain u w1 where "eff_all (\<lambda>v. db_do env (save_verdict (pe_num env) rid v)) vs w1 = (Inr u, w')"
    by (auto simp: panel_step_def eff_bind_Inr)
  from saved_verdicts(1) [OF this assms(2)] show ?thesis .
qed

lemma panel_phase_saves:
  assumes "panel_phase env pr repo_id rid engine_name w = (Inr (vs, exhausted), w')" and "v \<in> set vs"
  shows "st_verdicts (wo_store w') (rid, v_agent v) \<noteq> None"
  using assms panel_step_saves by (fastforce simp: panel_phase_def eff_bind_Inr Let_def)

lemma load_verdicts_nonempty:
  assumes "load_verdicts rid st = Inr vs" and "st_verdicts st (rid, a) \<noteq> None"
  shows "vs \<noteq> []"
proof -
  have "a \<in> set ALL_AGENTS" by (cases a) (simp_all add: ALL_AGENTS_def)
  with assms(2) have "List.map_filter (\<lambda>a. st_verdicts st (rid, a)) (sort_key agent_str ALL_AGENTS) \<noteq> []"
    by (auto simp: List.map_filter_def filter_empty_conv)
  with assms(1) show ?thesis unfolding load_verdicts_def using e_traverse_length by fastforce
qed

text \<open>The outcome of a run is what the gate makes of the verdicts stored for the review when its panel
  had ended, aggregated.\<close>

lemma pipeline_run_outcome:
  assumes "pipeline_run env pr repo_id rid engine_name w = (Inr out, w')"
  obtains verdicts exhausted w1 vs fs confidence where
    "panel_phase env pr repo_id rid engine_name w = (Inr (verdicts, exhausted), w1)"
    "load_verdicts rid (wo_store w1) = Inr vs" "same_verdicts w1 w'"
    "aggregate (pe_settings env) vs = (fs, confidence)"
    "out = make_outcome rid (evaluate (pe_settings env) fs vs confidence
       (exhausted \<or> list_ex (\<lambda>v. v_status v = BUDGET_DENIED) vs) (\<not> pr_is_private pr)) fs confidence vs"
proof -
  from assms obtain verdicts exhausted w1 w2 vs where
    panel: "panel_phase env pr repo_id rid engine_name w = (Inr (verdicts, exhausted), w1)"
    and loaded: "db_op env (\<lambda>st. (load_verdicts rid st, st)) w1 = (Inr (Inr vs), w2)"
    and g: "gate_step env pr rid (if vs = [] then verdicts else vs) exhausted w2 = (Inr out, w')"
    by (auto simp: pipeline_run_phases eff_bind_Inr)
  from db_op_store [OF loaded] have vs: "load_verdicts rid (wo_store w1) = Inr vs" and same: "same_verdicts w1 w2"
    by (simp_all add: same_verdicts_def)
  have "verdicts = []" if "vs = []"
    using panel_phase_saves [OF panel] load_verdicts_nonempty [OF vs] that
    by (cases verdicts) auto
  with g have g: "gate_step env pr rid vs exhausted w2 = (Inr out, w')" by (simp split: if_splits)
  obtain fs confidence where a: "aggregate (pe_settings env) vs = (fs, confidence)" by fastforce
  with g have "out = make_outcome rid (evaluate (pe_settings env) fs vs confidence
       (exhausted \<or> list_ex (\<lambda>v. v_status v = BUDGET_DENIED) vs) (\<not> pr_is_private pr)) fs confidence vs"
    by (auto simp: gate_step_def eff_bind_Inr Let_def)
  with panel vs a verdicts.trans [OF same keepsD [OF gate_step_verdicts g]] that show thesis by blast
qed

subsection \<open>Reading sends no review\<close>

lemma gh_request_posts:
  "gc_method c \<noteq> ''POST'' \<Longrightarrow>
     filter (\<lambda>c. gc_method c = ''POST'') (gw_sent (snd (gh_request env c g))) =
     filter (\<lambda>c. gc_method c = ''POST'') (gw_sent g)"
  using gh_request_cases [of env c g] by auto

lemma list_files_loop_posts:
  "filter (\<lambda>c. gc_method c = ''POST'') (gw_sent (snd (list_files_loop env repo number m files page g))) =
     filter (\<lambda>c. gc_method c = ''POST'') (gw_sent g)"
proof (induction env repo number m files page g rule: list_files_loop.induct)
  case (1 env repo number m files page g)
  obtain r g' where r: "gh_request env (files_call repo number page) g = (r, g')" by fastforce
  have "filter (\<lambda>c. gc_method c = ''POST'') (gw_sent g') = filter (\<lambda>c. gc_method c = ''POST'') (gw_sent g)"
    using gh_request_posts [of "files_call repo number page" env g] r by (simp add: files_call_def)
  with r 1 show ?case
    by (subst list_files_loop.simps) (simp split: sum.split)
qed

lemma gh_build_context_posts:
  "keeps same_posts (on_gh (gh_build_context env repo number gid))"
proof (rule keepsI)
  fix w :: pipe_world
  let ?pull = "\<lparr>gc_method = ''GET'', gc_path = pull_path repo number, gc_params = [], gc_json = []\<rparr>"
  obtain r g1 where r: "get_pull_request env repo number (wo_gh w) = (r, g1)" by fastforce
  obtain r2 g2 where r2: "list_files_loop env repo number 300 [] 1 g1 = (r2, g2)" by fastforce
  have "filter (\<lambda>c. gc_method c = ''POST'') (gw_sent g1) = filter (\<lambda>c. gc_method c = ''POST'') (gw_sent (wo_gh w))"
    using r gh_request_posts [of ?pull env "wo_gh w"] by (simp add: get_pull_request_def)
  moreover have "filter (\<lambda>c. gc_method c = ''POST'') (gw_sent g2) = filter (\<lambda>c. gc_method c = ''POST'') (gw_sent g1)"
    using r2 list_files_loop_posts [of env repo number 300 "[]" 1 g1] by simp
  ultimately show "same_posts w (snd (on_gh (gh_build_context env repo number gid) w))"
    using r r2 by (auto simp: same_posts_def gh_posts_def on_gh_def gh_build_context_def list_files_def
        split: sum.split prod.split)
qed

lemma keeps_mono: "keeps R m \<Longrightarrow> (\<And>w w'. R w w' \<Longrightarrow> S w w') \<Longrightarrow> keeps S m"
  unfolding keeps_def by blast

lemmas db_op_posts = keeps_mono [OF db_op_github same_github_posts]

lemma set_steps_keep:
  "keeps same_github (start_spine env job)" "keeps same_github (set_review rid)" "keeps same_github (set_budget b)"
  by (simp_all add: keeps_def start_spine_def set_review_def set_budget_def on_spine_def same_github_def)

lemma open_step_posts: "keeps same_posts (open_step env job)"
  unfolding open_step_def
  by (auto intro!: posts.keeps_rules span_keeps db_op_posts gh_build_context_posts
      keeps_mono [OF set_steps_keep(1) same_github_posts] keeps_mono [OF set_steps_keep(2) same_github_posts]
      keeps_mono [OF set_steps_keep(3) same_github_posts] split: prod.split)

subsection \<open>Nothing is posted that the gate has not decided to post\<close>

lemma escalate_step_github: "keeps same_github (escalate_step env pr rid out reason)"
  unfolding escalate_step_def Let_def end_review_def
  by (intro github.keeps_rules db_op_github db_do_github)

definition posted_body :: "'v pipe_env \<Rightarrow> review_outcome \<Rightarrow> string" where
  "posted_body env out =
     render_review_body (o_postable out) (o_summary out)
       (int (length (o_findings out)) - int (length (o_postable out))) (pe_bundle env)"

lemma post_step_posts:
  assumes "post_step env pr rid out w = (r, w')"
  obtains new where "gh_posts w' = gh_posts w @ new"
    "prefix new [review_call (pr_repo_full_name pr) (pr_number pr) (review_payload (pr_head_sha pr) (posted_body env out) (o_postable out)),
       review_call (pr_repo_full_name pr) (pr_number pr)
         (summary_payload (pr_head_sha pr) (posted_body env out @ fallback_appendix (o_postable out)))]"
proof -
  let ?body = "posted_body env out"
  let ?post = "post_review (pe_github env) (pr_repo_full_name pr) (pr_number pr) (pr_head_sha pr) ?body (o_postable out)"
  let ?span = "pipe_span env ''review.post'' [(''comments'', JInt (int (length (o_postable out))))] (on_gh ?post)"
  obtain q w1 where q: "?span w = (q, w1)" by fastforce
  from q obtain s1 w2 s2 where s: "on_gh ?post (with_spine s1 w) = (q, w2)" "w1 = with_spine s2 w2"
    by (rule pipe_spanE)
  from s have "wo_gh w1 = snd (?post (wo_gh w))"
    by (auto simp: on_gh_def with_spine_def split: prod.splits)
  then obtain new where new: "gh_posts w1 = gh_posts w @ new"
    "prefix new [review_call (pr_repo_full_name pr) (pr_number pr) (review_payload (pr_head_sha pr) ?body (o_postable out)),
       review_call (pr_repo_full_name pr) (pr_number pr)
         (summary_payload (pr_head_sha pr) (?body @ fallback_appendix (o_postable out)))]"
    by (cases rule: post_review_cases [of "pe_github env" "pr_repo_full_name pr" "pr_number pr" "pr_head_sha pr"
          ?body "o_postable out" "wo_gh w"])
      (auto simp: gh_posts_def review_call_def)
  have rest: "keeps same_github (\<lambda>w. eff_bind (db_do env (mark_posted ids)) (\<lambda>_. end_review env out rid POSTED AUTO_POST None g) w)"
    for ids g
    unfolding end_review_def by (intro github.keeps_bind db_do_github)
  have "same_github w1 w'"
    using assms [unfolded post_step_def Let_def, folded posted_body_def]
  proof (cases rule: eff_bindE)
    case (raised e)
    with q show ?thesis by (simp add: github.refl)
  next
    case (went_on x s')
    with q keepsD [OF rest went_on(2)] show ?thesis by simp
  qed
  then have "gh_posts w' = gh_posts w1" by (simp add: same_github_def gh_posts_def)
  with new that show thesis by simp
qed

lemma escalate_step_verdicts: "keeps same_verdicts (escalate_step env pr rid out reason)"
  unfolding escalate_step_def Let_def
  by (auto intro!: verdicts.keeps_rules quiet_steps_verdicts db_op_verdicts simp: enqueue_hitl_def Let_def)

lemma post_step_verdicts: "keeps same_verdicts (post_step env pr rid out)"
  unfolding post_step_def Let_def
  by (intro verdicts.keeps_rules span_keeps_verdicts quiet_steps_verdicts)

lemma pipeline_act_verdicts: "keeps same_verdicts (pipeline_act env pr rid out post)"
proof (rule keepsI)
  fix w
  show "same_verdicts w (snd (pipeline_act env pr rid out post w))"
  proof (cases "o_decision out = AUTO_POST \<and> post")
    case True
    obtain q w1 where q: "post_step env pr rid out w = (q, w1)" by fastforce
    note first = keepsD [OF post_step_verdicts q]
    have rest: "keeps same_verdicts (eff_bind (on_spine (spine_error (pe_put env) ''review.post_failed'' e [])) (\<lambda>_.
        escalate_step env pr rid (out\<lparr>o_decision := ESCALATE\<rparr>) (Some POLICY)))" for e
      by (intro verdicts.keeps_rules quiet_steps_verdicts escalate_step_verdicts)
    show ?thesis
    proof (cases q)
      case (Inl e)
      from verdicts.trans [OF first] rest [of e] have "same_verdicts w (snd (eff_bind
          (on_spine (spine_error (pe_put env) ''review.post_failed'' e [])) (\<lambda>_.
          escalate_step env pr rid (out\<lparr>o_decision := ESCALATE\<rparr>) (Some POLICY)) w1))"
        by (simp add: keeps_def)
      with Inl True q first show ?thesis by (simp add: pipeline_act_def)
    next
      case (Inr u)
      with True q first show ?thesis by (simp add: pipeline_act_def)
    qed
  next
    case False
    then have "keeps same_verdicts (pipeline_act env pr rid out post)"
      unfolding pipeline_act_def
      by (auto intro!: verdicts.keeps_rules quiet_steps_verdicts escalate_step_verdicts)
    then show ?thesis by (simp add: keeps_def)
  qed
qed

lemma pipeline_act_posts:
  assumes "pipeline_act env pr rid out post w = (r, w')"
  obtains new where "gh_posts w' = gh_posts w @ new"
    "prefix new [review_call (pr_repo_full_name pr) (pr_number pr) (review_payload (pr_head_sha pr) (posted_body env out) (o_postable out)),
       review_call (pr_repo_full_name pr) (pr_number pr)
         (summary_payload (pr_head_sha pr) (posted_body env out @ fallback_appendix (o_postable out)))]"
    "new \<noteq> [] \<longrightarrow> post \<and> o_decision out = AUTO_POST"
proof (cases "o_decision out = AUTO_POST \<and> post")
  case True
  obtain q w1 where q: "post_step env pr rid out w = (q, w1)" by fastforce
  have "same_github w1 w'"
  proof (cases q)
    case (Inr u)
    with True q assms show ?thesis by (simp add: pipeline_act_def github.refl)
  next
    case (Inl e)
    have "keeps same_github (eff_bind (on_spine (spine_error (pe_put env) ''review.post_failed'' e [])) (\<lambda>_.
        escalate_step env pr rid (out\<lparr>o_decision := ESCALATE\<rparr>) (Some POLICY)))"
      by (intro github.keeps_bind local_steps_keep escalate_step_github)
    from keepsD [OF this] Inl True q assms show ?thesis
      by (auto simp: pipeline_act_def github.refl split: if_splits)
  qed
  then have "gh_posts w' = gh_posts w1" by (simp add: same_github_def gh_posts_def)
  with post_step_posts [OF q] True that show thesis by metis
next
  case False
  then have "keeps same_github (pipeline_act env pr rid out post)"
    unfolding pipeline_act_def end_review_def
    by (auto intro!: github.keeps_rules local_steps_keep escalate_step_github db_do_github)
  from keepsD [OF this assms] have "gh_posts w' = gh_posts w" by (simp add: same_github_def gh_posts_def)
  then show thesis by (intro that [of "[]"]) simp_all
qed

text \<open>What opening a review establishes: the pull request is the one the job names, and the review has a row.\<close>

lemma context_of_ids:
  "context_of repo number gid v files = Inr pr \<Longrightarrow> pr_repo_full_name pr = repo \<and> pr_number pr = number \<and> pr_files pr = files"
  by (auto simp: context_of_def ebind_Inr)

lemma gh_build_context_ids:
  assumes "gh_build_context env repo number gid g = (Inr pr, g')"
  shows "pr_repo_full_name pr = repo \<and> pr_number pr = number"
  using assms context_of_ids by (fastforce simp: gh_build_context_def split: prod.splits sum.splits)

lemma open_review_row:
  "open_review pr_id delivery bundle st = ((rid, new), st') \<Longrightarrow>
     (\<exists>row. st_reviews st' (pr_id, delivery) = Some row \<and> rv_id row = rid) \<and> st_hitl st' = st_hitl st"
  by (auto simp: open_review_def split: option.splits)

lemma open_step_opens:
  assumes "open_step env job w = (Inr (pr, repo_id, rid), w')"
  shows "pr_repo_full_name pr = j_repo_full_name job \<and> pr_number pr = j_pr_number job \<and>
    (\<exists>k row. st_reviews (wo_store w') k = Some row \<and> rv_id row = rid \<and> snd k = j_delivery_id job)"
proof -
  from assms obtain w1 w2 w3 w4 pr_id new where
    fetch: "pipe_span env ''review.fetch''
         [(''repo'', JStr (j_repo_full_name job)), (''pr'', JInt (j_pr_number job))]
         (on_gh (gh_build_context (pe_github env) (j_repo_full_name job) (j_pr_number job)
            (j_repo_github_id job))) w1 = (Inr pr, w2)"
    and opened: "db_op env (open_review pr_id (j_delivery_id job) (pe_bundle env)) w3 = (Inr (rid, new), w4)"
    and store: "wo_store w' = wo_store w4"
    by (auto simp: open_step_def eff_bind_Inr set_review_def set_budget_def on_spine_def split: prod.splits)
  from fetch obtain s1 w2' where "on_gh (gh_build_context (pe_github env) (j_repo_full_name job) (j_pr_number job)
            (j_repo_github_id job)) (with_spine s1 w1) = (Inr pr, w2')"
    by (rule pipe_spanE)
  then obtain g g' where "gh_build_context (pe_github env) (j_repo_full_name job) (j_pr_number job)
            (j_repo_github_id job) g = (Inr pr, g')"
    by (auto simp: on_gh_def split: prod.splits)
  from gh_build_context_ids [OF this] open_review_row [OF db_op_Inr [OF opened]] store show ?thesis
    by fastforce
qed

text \<open>The calls a run may send for the findings \<open>fs\<close> of the verdicts \<open>vs\<close>: the review with the findings that
  clear both bars as comments, and after it the one that carries the same findings in its body.\<close>

definition gated_posts ::
  "'v pipe_env \<Rightarrow> pull_request \<Rightarrow> bool \<Rightarrow> agent_verdict list \<Rightarrow> gh_call list \<Rightarrow> bool" where
  "gated_posts env pr post vs new \<longleftrightarrow>
     (let s = pe_settings env; fs = fst (aggregate s vs); postable = filter (clears_bars s) fs;
          body = render_review_body postable (summarise fs vs) (int (length fs) - int (length postable)) (pe_bundle env)
      in prefix new
           [review_call (pr_repo_full_name pr) (pr_number pr) (review_payload (pr_head_sha pr) body postable),
            review_call (pr_repo_full_name pr) (pr_number pr)
              (summary_payload (pr_head_sha pr) (body @ fallback_appendix postable))] \<and>
         post \<and> postable \<noteq> [] \<and> list_all v_ok vs \<and> s_auto_post_confidence s \<le> snd (aggregate s vs) \<and>
         (s_escalate_critical_security s \<longrightarrow> critical_security fs = []))"

lemma run_then_act_posts:
  assumes run: "pipeline_run env pr repo_id rid engine_name w = (Inr out, w1)"
    and act: "pipeline_act env pr rid out post w1 = (r, w')"
  shows "\<exists>new. gh_posts w' = gh_posts w @ new \<and> (new \<noteq> [] \<longrightarrow>
    (\<exists>verdicts w2 vs. panel_phase env pr repo_id rid engine_name w = (Inr (verdicts, False), w2) \<and>
       load_verdicts rid (wo_store w2) = Inr vs \<and> load_verdicts rid (wo_store w') = Inr vs \<and>
       gated_posts env pr post vs new))"
proof -
  let ?s = "pe_settings env"
  from run obtain verdicts exhausted w2 vs fs confidence where
    panel: "panel_phase env pr repo_id rid engine_name w = (Inr (verdicts, exhausted), w2)"
    and vs: "load_verdicts rid (wo_store w2) = Inr vs" and same: "same_verdicts w2 w1"
    and a: "aggregate ?s vs = (fs, confidence)"
    and out: "out = make_outcome rid (evaluate ?s fs vs confidence
        (exhausted \<or> list_ex (\<lambda>v. v_status v = BUDGET_DENIED) vs) (\<not> pr_is_private pr)) fs confidence vs"
    by (rule pipeline_run_outcome)
  have w1: "gh_posts w1 = gh_posts w"
    using keepsD [OF pipeline_run_keeps(1) run] by (simp add: same_github_def gh_posts_def)
  have "same_verdicts w2 w'" by (rule verdicts.trans [OF same keepsD [OF pipeline_act_verdicts act]])
  then have loaded: "load_verdicts rid (wo_store w') = Inr vs" using vs by (simp add: same_verdicts_load)
  from act obtain new where new: "gh_posts w' = gh_posts w1 @ new"
    "prefix new [review_call (pr_repo_full_name pr) (pr_number pr) (review_payload (pr_head_sha pr) (posted_body env out) (o_postable out)),
       review_call (pr_repo_full_name pr) (pr_number pr)
         (summary_payload (pr_head_sha pr) (posted_body env out @ fallback_appendix (o_postable out)))]"
    "new \<noteq> [] \<longrightarrow> post \<and> o_decision out = AUTO_POST"
    by (rule pipeline_act_posts)
  have "\<not> exhausted \<and> gated_posts env pr post vs new" if "new \<noteq> []"
  proof -
    from that new(3) have "post" and g: "g_decision (evaluate ?s fs vs confidence
        (exhausted \<or> list_ex (\<lambda>v. v_status v = BUDGET_DENIED) vs) (\<not> pr_is_private pr)) = AUTO_POST"
      by (simp_all add: out make_outcome_def)
    have postable: "o_postable out = filter (clears_bars ?s) fs" "filter (clears_bars ?s) fs \<noteq> []"
      using evaluate_auto_post(5,6) [OF g] by (simp_all add: out make_outcome_def)
    have body: "posted_body env out = render_review_body (filter (clears_bars ?s) fs) (summarise fs vs)
        (int (length fs) - int (length (filter (clears_bars ?s) fs))) (pe_bundle env)"
      unfolding posted_body_def postable(1) by (simp add: out make_outcome_def)
    show ?thesis
      using new(2) [unfolded body postable(1)] \<open>post\<close> postable(2) evaluate_auto_post(1-4) [OF g]
      by (simp add: gated_posts_def a Let_def)
  qed
  with panel vs loaded new(1) w1 show ?thesis by (intro exI [of _ new]) auto
qed

text \<open>C7. The pipeline posts nothing on its own judgement. Whatever fails on the way, if a run of a job sends
  anything to GitHub, then it opened a review for the pull request of the job, its panel ended without
  exhausting the budget, and with the verdicts that are stored for that review, every one of them of an
  agent that returned, the aggregated confidence reaches the threshold and no critical security finding is
  to be escalated; it is not a dry run; and what is sent is the inline review, and possibly after it the
  fallback with the same findings in its body, for exactly the findings of those verdicts that clear both
  bars, and nothing else.\<close>

theorem posts_only_gated:
  assumes "review_pull_request env job engine_name post w = (r, w')"
  shows "\<exists>new. gh_posts w' = gh_posts w @ new \<and> (new \<noteq> [] \<longrightarrow>
    (\<exists>pr repo_id rid w1 verdicts w2 vs.
       open_step env job w = (Inr (pr, repo_id, rid), w1) \<and>
       pr_repo_full_name pr = j_repo_full_name job \<and> pr_number pr = j_pr_number job \<and>
       panel_phase env pr repo_id rid engine_name w1 = (Inr (verdicts, False), w2) \<and>
       load_verdicts rid (wo_store w2) = Inr vs \<and> load_verdicts rid (wo_store w') = Inr vs \<and>
       gated_posts env pr post vs new))"
  using assms [unfolded review_pull_request_def]
proof (cases rule: eff_bindE)
  case (raised e)
  from keepsD [OF open_step_posts raised(1)] show ?thesis
    by (intro exI [of _ "[]"]) (simp add: same_posts_def)
next
  case (went_on x w1)
  obtain pr repo_id rid where x: "x = (pr, repo_id, rid)" by (metis prod.collapse)
  have w1: "gh_posts w1 = gh_posts w"
    using keepsD [OF open_step_posts went_on(1)] by (simp add: same_posts_def)
  have opened: "open_step env job w = (Inr (pr, repo_id, rid), w1)" using went_on(1) by (simp add: x)
  from went_on(2) have "eff_bind (pipeline_run env pr repo_id rid engine_name)
      (\<lambda>out. pipeline_act env pr rid out post) w1 = (r, w')"
    by (simp add: x)
  then show ?thesis
  proof (cases rule: eff_bindE)
    case (raised e)
    from keepsD [OF pipeline_run_keeps(1) raised(1)] w1 show ?thesis
      by (intro exI [of _ "[]"]) (simp add: same_github_def gh_posts_def)
  next
    case (went_on out w2)
    from run_then_act_posts [OF this] opened open_step_opens [OF opened] w1 show ?thesis by metis
  qed
qed

subsection \<open>How a review ends\<close>

definition final_status :: "bool \<Rightarrow> decision \<Rightarrow> review_status" where
  "final_status post dec =
     (case dec of AUTO_POST \<Rightarrow> if post then POSTED else SUPPRESSED | ESCALATE \<Rightarrow> AWAITING_HUMAN | SUPPRESS \<Rightarrow> SUPPRESSED)"

text \<open>The rows of the review carry the decision, and an escalation, and only it, has one new item in the
  queue of the humans, with the priority of its reason.\<close>

definition ended :: "uuid \<Rightarrow> bool \<Rightarrow> decision \<Rightarrow> store \<Rightarrow> store \<Rightarrow> bool" where
  "ended rid post dec st st' \<longleftrightarrow>
     (\<forall>k r. st_reviews st k = Some r \<and> rv_id r = rid \<longrightarrow>
        (\<exists>r'. st_reviews st' k = Some r' \<and> rv_id r' = rid \<and> rv_status r' = final_status post dec \<and>
              rv_decision r' = Some dec)) \<and>
     (\<exists>items. st_hitl st' = st_hitl st @ items \<and> length items = (if dec = ESCALATE then 1 else 0) \<and>
        list_all (\<lambda>i. hi_review_id i = rid \<and> hi_priority i = escalation_priority (hi_reason i)) items)"

lemma finish_review_rows:
  assumes "st_reviews st k = Some r" "rv_id r = rid"
  shows "\<exists>r'. st_reviews (finish_review rid status (Some dec) reason c cost g e st) k = Some r' \<and>
    rv_id r' = rid \<and> rv_status r' = status \<and> rv_decision r' = Some dec"
  using assms by (simp add: finish_review_def)

lemma finish_review_hitl [simp]: "st_hitl (finish_review rid status dec reason c cost g e st) = st_hitl st"
  by (simp add: finish_review_def)

lemma end_review_Inr:
  assumes "end_review env out rid status dec reason g w = (Inr u, w')"
  shows "st_hitl (wo_store w') = st_hitl (wo_store w) \<and>
    (\<forall>k r. st_reviews (wo_store w) k = Some r \<and> rv_id r = rid \<longrightarrow>
       (\<exists>r'. st_reviews (wo_store w') k = Some r' \<and> rv_id r' = rid \<and> rv_status r' = status \<and> rv_decision r' = Some dec))"
  using db_op_store [OF assms [unfolded end_review_def db_do_def]] finish_review_rows by simp

lemma end_review_Inl: "end_review env out rid status dec reason g w = (Inl e, w') \<Longrightarrow> same_tables w w'"
  by (auto simp: end_review_def db_do_def db_op_def same_tables_def split: option.splits)

lemma escalate_step_ends:
  assumes "escalate_step env pr rid out reason w = (Inr out', w')"
  shows "out' = out \<and> ended rid post ESCALATE (wo_store w) (wo_store w')"
proof -
  from assms obtain why text' i w1 u where
    q: "db_op env (enqueue_hitl rid why text' (escalation_priority why)) w = (Inr i, w1)"
    and e: "end_review env out rid AWAITING_HUMAN ESCALATE (Some why) None w1 = (Inr u, w')"
    and out: "out' = out"
    by (auto simp: escalate_step_def eff_bind_Inr Let_def)
  from db_op_store [OF q] have h: "st_hitl (wo_store w1) = st_hitl (wo_store w) @ [\<lparr>hi_id = i, hi_review_id = rid,
      hi_reason = why, hi_summary = text', hi_priority = escalation_priority why\<rparr>]"
    "st_reviews (wo_store w1) = st_reviews (wo_store w)"
    by (simp_all add: enqueue_hitl_def)
  from end_review_Inr [OF e] h out show ?thesis by (simp add: ended_def final_status_def)
qed

lemma post_step_Inl_tables:
  assumes "post_step env pr rid out w = (Inl e, w')"
  shows "same_tables w w'"
proof -
  have first: "keeps same_tables (pipe_span env name flds (on_gh g))" for name flds and g :: "(gh_world, 'b) effect"
    by (intro span_keeps local_steps_keep)
  from assms show ?thesis
    unfolding post_step_def Let_def
    by (auto elim!: eff_bindE dest!: end_review_Inl keepsD [OF first] keepsD [OF save_keeps_tables(3)]
        intro: tables.trans)
qed

lemma post_step_ends:
  assumes "post_step env pr rid out w = (Inr u, w')"
  shows "ended rid True AUTO_POST (wo_store w) (wo_store w')"
proof -
  from assms obtain g w1 w2 u1 u2 flds body where
    s: "pipe_span env ''review.post'' flds (on_gh body) w = (Inr g, w1)"
    and m: "db_do env (mark_posted (map f_id (o_postable out))) w1 = (Inr u1, w2)"
    and e: "end_review env out rid POSTED AUTO_POST None g w2 = (Inr u2, w')"
    unfolding post_step_def Let_def eff_bind_Inr by blast
  have "same_tables w w1"
    using s by (rule keepsD [rotated]) (intro span_keeps local_steps_keep)
  moreover have "same_tables w1 w2" by (rule keepsD [OF save_keeps_tables(3) m])
  ultimately have "same_tables w w2" by (rule tables.trans)
  with end_review_Inr [OF e] show ?thesis by (simp add: ended_def final_status_def same_tables_def)
qed

lemma ended_same_tables:
  "same_tables w w1 \<Longrightarrow> ended rid post dec (wo_store w1) st \<Longrightarrow> ended rid post dec (wo_store w) st"
  by (simp add: ended_def same_tables_def)

lemma pipeline_act_ends:
  assumes "pipeline_act env pr rid out post w = (Inr out', w')"
  shows "ended rid post (o_decision out') (wo_store w) (wo_store w') \<and>
    o_review_id out' = o_review_id out"
proof (cases "o_decision out")
  case AUTO_POST
  show ?thesis
  proof (cases post)
    case True
    obtain q w1 where q: "post_step env pr rid out w = (q, w1)" by fastforce
    show ?thesis
    proof (cases q)
      case (Inr u)
      with q True AUTO_POST assms post_step_ends [of env pr rid out w u w1] show ?thesis
        by (simp add: pipeline_act_def)
    next
      case (Inl e)
      let ?w2 = "with_spine (spine_error (pe_put env) ''review.post_failed'' e [] (lw_spine (wo_llm w1))) w1"
      have same: "same_tables w1 ?w2" by (rule with_spine_keeps)
      from q True AUTO_POST assms Inl
      have esc: "escalate_step env pr rid (out\<lparr>o_decision := ESCALATE\<rparr>) (Some POLICY) ?w2 = (Inr out', w')"
        by (auto simp: pipeline_act_def eff_bind_Inr on_spine_def with_spine_def split: if_splits)
      from post_step_Inl_tables [of env pr rid out w e w1] q Inl have "same_tables w w1" by simp
      from tables.trans [OF this same] escalate_step_ends [OF esc] show ?thesis
        using ended_same_tables by fastforce
    qed
  next
    case False
    with AUTO_POST assms show ?thesis
      by (auto simp: pipeline_act_def eff_bind_Inr on_spine_def ended_def final_status_def dest!: end_review_Inr)
  qed
next
  case ESCALATE
  with assms escalate_step_ends show ?thesis by (fastforce simp: pipeline_act_def)
next
  case SUPPRESS
  with assms show ?thesis
    by (auto simp: pipeline_act_def eff_bind_Inr ended_def final_status_def dest!: end_review_Inr)
qed

definition same_hitl :: "pipe_world \<Rightarrow> pipe_world \<Rightarrow> bool" where
  "same_hitl w w' \<longleftrightarrow> st_hitl (wo_store w') = st_hitl (wo_store w)"

interpretation hitl: frame same_hitl
  by unfold_locales (simp_all add: same_hitl_def)

lemma db_op_hitl: "(\<And>st. st_hitl (snd (f st)) = st_hitl st) \<Longrightarrow> keeps same_hitl (db_op env f)"
  by (rule keepsI) (auto simp: db_op_def same_hitl_def case_prod_beta split: option.split)

lemma opening_keeps_hitl:
  "st_hitl (snd (record_delivery job status st)) = st_hitl st"
  "st_hitl (snd (upsert_repository name gid branch st)) = st_hitl st"
  "st_hitl (snd (upsert_pull_request repo_id pr st)) = st_hitl st"
  "st_hitl (snd (open_review pr_id delivery bundle st)) = st_hitl st"
  by (simp_all add: record_delivery_def upsert_repository_def upsert_pull_request_def open_review_def Let_def
      split: option.split)

lemma quiet_steps_hitl:
  "keeps same_hitl (start_spine env job)" "keeps same_hitl (set_review rid)" "keeps same_hitl (set_budget b)"
  "keeps same_hitl (on_gh g)"
  by (simp_all add: keeps_def start_spine_def set_review_def set_budget_def on_spine_def on_gh_def same_hitl_def
      split: prod.split)

lemma with_spine_hitl: "same_hitl w (with_spine s w)"
  by (simp add: with_spine_def same_hitl_def)

lemma open_step_hitl: "keeps same_hitl (open_step env job)"
  unfolding open_step_def
  by (auto intro!: hitl.keeps_rules db_op_hitl quiet_steps_hitl
      pipe_span_keeps [OF _ hitl.frame_axioms with_spine_hitl] simp: opening_keeps_hitl split: prod.split)

text \<open>C8. A review that returns has ended: the row of its delivery carries the decision and the status that
  belongs to it, and exactly if the decision is to escalate (by the gate, or because posting failed) one
  item of this review has been added to the queue of the humans, with the priority of its reason; no other
  item is added.\<close>

theorem review_reaches_decision:
  assumes "review_pull_request env job engine_name post w = (Inr out, w')"
  shows "(\<exists>k row. st_reviews (wo_store w') k = Some row \<and> snd k = j_delivery_id job \<and>
      rv_id row = o_review_id out \<and> rv_status row = final_status post (o_decision out) \<and>
      rv_decision row = Some (o_decision out)) \<and>
    (\<exists>items. st_hitl (wo_store w') = st_hitl (wo_store w) @ items \<and>
      length items = (if o_decision out = ESCALATE then 1 else 0) \<and>
      list_all (\<lambda>i. hi_review_id i = o_review_id out \<and> hi_priority i = escalation_priority (hi_reason i)) items)"
proof -
  from assms obtain pr repo_id rid w1 out0 w2 where
    op: "open_step env job w = (Inr (pr, repo_id, rid), w1)"
    and run: "pipeline_run env pr repo_id rid engine_name w1 = (Inr out0, w2)"
    and act: "pipeline_act env pr rid out0 post w2 = (Inr out, w')"
    by (auto simp: review_pull_request_def eff_bind_Inr split: prod.splits)
  have tab: "same_tables w1 w2" by (rule keepsD [OF pipeline_run_keeps(2) run])
  have h: "same_hitl w w1" by (rule keepsD [OF open_step_hitl op])
  from run have "o_review_id out0 = rid" by (rule pipeline_run_outcome) (simp add: make_outcome_def)
  with pipeline_act_ends [OF act] have out: "o_review_id out = rid"
    and e: "ended rid post (o_decision out) (wo_store w2) (wo_store w')" by simp_all
  from open_step_opens [OF op] obtain k row where
    "st_reviews (wo_store w1) k = Some row" "rv_id row = rid" "snd k = j_delivery_id job" by blast
  with e tab have "\<exists>row'. st_reviews (wo_store w') k = Some row' \<and> rv_id row' = rid \<and>
      rv_status row' = final_status post (o_decision out) \<and> rv_decision row' = Some (o_decision out)"
    unfolding ended_def same_tables_def by (metis (no_types))
  moreover have "\<exists>items. st_hitl (wo_store w') = st_hitl (wo_store w) @ items \<and>
      length items = (if o_decision out = ESCALATE then 1 else 0) \<and>
      list_all (\<lambda>i. hi_review_id i = rid \<and> hi_priority i = escalation_priority (hi_reason i)) items"
    using e h tab by (simp add: ended_def same_tables_def same_hitl_def)
  ultimately show ?thesis
    unfolding out using \<open>snd k = j_delivery_id job\<close> by blast
qed

text \<open>A run of a job whose pull request changes no file, with a panel in which the security agent failed.\<close>

definition sample_pull :: json where
  "sample_pull =
     JObj [(''base'', JObj [(''sha'', JStr ''b'')]), (''head'', JObj [(''sha'', JStr ''h'')])]"

definition sample_pipe_env :: "unit pipe_env" where
  "sample_pipe_env =
     \<lparr>pe_settings = default_settings,
      pe_github =
        \<lparr>ge_send = (\<lambda>n c. HttpReply 200 [] (if gc_params c = [] then ''p'' else ''f'')),
         ge_loads = (\<lambda>s. Some (if s = ''p'' then sample_pull else JList [])),
         ge_clock = (\<lambda>n. 0), ge_jitter = (\<lambda>n c. c)\<rparr>,
      pe_put = null_write,
      pe_retrieval = (\<lambda>i. \<lparr>re_indexed_sha = Inr (Some ''b''), re_embed = (\<lambda>qs. Inr []),
         re_search = (\<lambda>p v t n ps. Inr []), re_conventions = Inr [], re_embedder_name = ''hashing'',
         re_elapsed_ms = 0\<rparr>),
      pe_langgraph = False, pe_temporal = False,
      pe_run_panel = (\<lambda>eng ctx agents w. (Inr [crash_verdict SECURITY PyTimeoutError], w)),
      pe_spend_today = Inr 0, pe_bundle = ''bundle'', pe_num = (\<lambda>x. x), pe_ms = 0, pe_db = (\<lambda>n. None),
      pe_first_span = 1\<rparr>"

definition sample_pipe_world :: pipe_world where
  "sample_pipe_world =
     \<lparr>wo_store = empty_store, wo_llm = sample_world, wo_gh = new_client, wo_ops = 0\<rparr>"

text \<open>The definitions a concrete run unfolds.\<close>

lemmas pipeline_defs =
  open_step_def eff_bind_def sample_pipe_world_def start_spine_def db_op_def record_delivery_def
  sample_job_def empty_store_def upsert_repository_def pipe_span_def span_enter_def Let_def null_write_def
  span_exit_def on_gh_def gh_build_context_def get_pull_request_def gh_request_attempt gh_attempt_def
  breaker_call_def new_client_def github_breaker_def new_breaker_def read_state_def gh_once_def
  RETRYABLE_STATUS_def record_result_def on_success_def list_files_def list_files_loop.simps files_call_def
  context_of_def json_get_def sample_pull_def jget_or_def jget_def json_or_def json_index_def body_field_def
  str_field_def upsert_pull_request_def open_review_def set_review_def on_spine_def set_budget_def
  budget_load_def pipeline_run_def retrieve_step_def on_llm_def build_context_def render_for_prompt_def
  note_index_drift_def index_drift_def source_files_def completed_agents_def panel_step_def get_engine_def
  db_do_def save_verdict_def ALL_AGENTS_def load_verdicts_def List.map_filter_def sort_key_def gate_step_def
  save_findings_def make_outcome_def pipeline_act_def escalate_step_def end_review_def enqueue_hitl_def
  sample_pipe_env_def

lemmas sample_run_defs = pipeline_defs
  crash_verdict_def default_verdict_def revalidate_def aggregate_def ok_findings_def merge_findings_def
  clusters_def collapse_repeated_def repeat_groups_def groups_keyed_def group_values_def v_ok_def
  evaluate_def

definition opened_pr :: pull_request where
  "opened_pr =
     \<lparr>pr_repo_full_name = ''o/r'', pr_repo_github_id = 7, pr_is_private = True, pr_number = 4, pr_title = [], pr_body = [],
      pr_author = [], pr_head_sha = ''h'', pr_base_sha = ''b'', pr_base_ref = ''main'', pr_files = [], pr_truncated = False\<rparr>"

lemma sample_opens:
  "\<exists>s l g. open_step sample_pipe_env sample_job sample_pipe_world =
     (Inr (opened_pr, 1, 1), \<lparr>wo_store = s, wo_llm = l, wo_gh = g, wo_ops = 4\<rparr>) \<and> st_verdicts s = Map.empty"
  by (simp add: pipeline_defs opened_pr_def fun_eq_iff)

lemma crash_simps:
  "v_agent (crash_verdict a e) = a" "v_ok (crash_verdict a e) = False" "v_findings (crash_verdict a e) = []"
  "revalidate (crash_verdict a e) = Inr (crash_verdict a e)"
  "(crash_verdict a e)\<lparr>v_cost_usd := v_cost_usd (crash_verdict a e)\<rparr> = crash_verdict a e"
  by (simp_all add: crash_verdict_def default_verdict_def v_ok_def revalidate_def)

lemma crash_aggregate: "\<exists>c. aggregate s [crash_verdict a e] = ([], c)"
  by (simp add: aggregate_def ok_findings_def crash_simps merge_findings_def clusters_def collapse_repeated_def repeat_groups_def
      groups_keyed_def group_values_def Let_def)

lemma crash_gate: "g_decision (evaluate s [] [crash_verdict a e] c False pub) = ESCALATE"
  by (simp add: evaluate_def crash_simps Let_def critical_security_def)

lemma sample_runs:
  assumes "st_verdicts s = Map.empty"
  shows "\<exists>out w'. pipeline_run sample_pipe_env opened_pr 1 1 (Some ''local'') \<lparr>wo_store = s, wo_llm = l, wo_gh = g, wo_ops = 4\<rparr> =
     (Inr out, w') \<and> o_decision out = ESCALATE"
proof -
  obtain c where c: "aggregate default_settings [crash_verdict SECURITY PyTimeoutError] = ([], c)" using crash_aggregate by blast
  show ?thesis
    using assms by (simp add: pipeline_defs crash_simps c crash_gate opened_pr_def)
qed

lemma sample_acts:
  assumes "o_decision out = ESCALATE"
  shows "\<exists>w'. pipeline_act sample_pipe_env opened_pr 1 out True w = (Inr out, w')"
  using assms by (simp add: pipeline_defs)

lemma sample_run:
  "\<exists>out w'. review_pull_request sample_pipe_env sample_job (Some ''local'') True sample_pipe_world = (Inr out, w') \<and>
     o_decision out = ESCALATE"
proof -
  obtain s l g where opened: "open_step sample_pipe_env sample_job sample_pipe_world =
      (Inr (opened_pr, 1, 1), \<lparr>wo_store = s, wo_llm = l, wo_gh = g, wo_ops = 4\<rparr>)" "st_verdicts s = Map.empty"
    using sample_opens by blast
  from sample_runs [OF this(2)] obtain out w where run: "pipeline_run sample_pipe_env opened_pr 1 1 (Some ''local'')
      \<lparr>wo_store = s, wo_llm = l, wo_gh = g, wo_ops = 4\<rparr> = (Inr out, w)" "o_decision out = ESCALATE" by blast
  from sample_acts [OF this(2), of w] opened run show ?thesis
    by (auto simp: review_pull_request_def eff_bind_def)
qed

lemma review_reaches_decision_witness:
  "\<exists>out w' item. review_pull_request sample_pipe_env sample_job (Some ''local'') True sample_pipe_world = (Inr out, w') \<and>
     st_hitl (wo_store w') = [item] \<and> hi_review_id item = o_review_id out \<and>
     hi_priority item = escalation_priority (hi_reason item)"
proof -
  obtain out w' where run:
    "review_pull_request sample_pipe_env sample_job (Some ''local'') True sample_pipe_world = (Inr out, w')"
    "o_decision out = ESCALATE"
    using sample_run by blast
  from review_reaches_decision [OF run(1)] run(2) obtain items where
    "st_hitl (wo_store w') = st_hitl (wo_store sample_pipe_world) @ items" "length items = 1"
    "list_all (\<lambda>i. hi_review_id i = o_review_id out \<and> hi_priority i = escalation_priority (hi_reason i)) items"
    by auto
  moreover have "st_hitl (wo_store sample_pipe_world) = []"
    by (simp add: sample_pipe_world_def empty_store_def)
  ultimately show ?thesis using run(1) by (auto simp: length_Suc_conv)
qed

text \<open>The priorities of the queue are those of the gate.\<close>

lemma escalation_priority_gate:
  "g_reason (evaluate s fs vs overall exhausted pub) = Some r \<Longrightarrow>
     escalation_priority r = g_priority (evaluate s fs vs overall exhausted pub)"
  by (auto simp: evaluate_def Let_def split: if_splits)

text \<open>A review whose delivery fails is not lost: if GitHub refuses the review the gate decided to post,
  and the database works, the run still returns, escalates for the policy reason, and the review waits
  for a human with its findings unposted.\<close>

theorem post_failure_escalates:
  assumes "o_decision out = AUTO_POST" and "post_step env pr rid out w = (Inl e, w1)" "exc_isinstance e Exception_c"
    and "\<And>n. pe_db env n = None"
  shows "\<exists>w'. pipeline_act env pr rid out True w = (Inr (out\<lparr>o_decision := ESCALATE\<rparr>), w') \<and>
    ended rid True ESCALATE (wo_store w) (wo_store w') \<and>
    hi_reason (last (st_hitl (wo_store w'))) = POLICY \<and> hi_priority (last (st_hitl (wo_store w'))) = 30"
proof -
  obtain r w' where act: "pipeline_act env pr rid out True w = (r, w')" by fastforce
  from act assms have "r = Inr (out\<lparr>o_decision := ESCALATE\<rparr>) \<and>
      hi_reason (last (st_hitl (wo_store w'))) = POLICY \<and> hi_priority (last (st_hitl (wo_store w'))) = 30"
    by (auto simp: pipeline_act_def eff_bind_def on_spine_def escalate_step_def end_review_def db_do_def db_op_def
        enqueue_hitl_def Let_def)
  with act pipeline_act_ends [of env pr rid out True w "out\<lparr>o_decision := ESCALATE\<rparr>" w'] show ?thesis by auto
qed

definition offline_env :: "unit pipe_env" where
  "offline_env =
     sample_pipe_env\<lparr>pe_github := (pe_github sample_pipe_env)\<lparr>ge_send := (\<lambda>n c. HttpError ''down'')\<rparr>\<rparr>"

definition sample_outcome :: review_outcome where
  "sample_outcome =
     \<lparr>o_review_id = 1, o_decision = AUTO_POST, o_reason = None, o_overall_confidence = 9 / 10,
      o_findings = [sample_injection], o_postable = [sample_injection], o_verdicts = [sample_verdict],
      o_summary = ''1 critical'', o_total_cost_usd = 0\<rparr>"

lemma post_failure_escalates_witness:
  "\<exists>w'. pipeline_act offline_env sample_pr 1 sample_outcome True sample_pipe_world =
     (Inr (sample_outcome\<lparr>o_decision := ESCALATE\<rparr>), w') \<and>
     hi_reason (last (st_hitl (wo_store w'))) = POLICY"
proof -
  have "\<exists>w1. post_step offline_env sample_pr 1 sample_outcome sample_pipe_world =
      (Inl (RetryableGitHubError 0 ''down'' None), w1)"
    by (simp add: post_step_def offline_env_def sample_run_defs post_review_def is_status_def on_failure_def)
  then obtain w1 where "post_step offline_env sample_pr 1 sample_outcome sample_pipe_world =
      (Inl (RetryableGitHubError 0 ''down'' None), w1)" by blast
  from post_failure_escalates [OF _ this] show ?thesis
    by (auto simp: sample_outcome_def offline_env_def sample_pipe_env_def)
qed

subsection \<open>Running a finished review again\<close>

text \<open>A panel whose one finding is posted, and the tables as such a run leaves them.\<close>

definition logic_verdict :: agent_verdict where
  "logic_verdict = (default_verdict CORRECTNESS)\<lparr>v_findings := [sample_logic]\<rparr>"

definition posting_env :: "unit pipe_env" where
  "posting_env = sample_pipe_env\<lparr>pe_run_panel := (\<lambda>eng ctx agents w. (Inr [logic_verdict], w))\<rparr>"

lemma logic_stored: "validate_finding sample_logic = Some sample_logic"
  by (intro validate_finding_id)
    (simp add: stored_form_def wf_finding_def sample_defs py_strip_def py_lstrip_def py_rstrip_def is_space_def code_def)

lemma logic_loaded: "revalidate logic_verdict = Inr logic_verdict"
  by (simp add: revalidate_def logic_verdict_def logic_stored)

lemma logic_verdict_simps:
  "v_agent logic_verdict = CORRECTNESS" "v_ok logic_verdict" "v_status logic_verdict = OK"
  "v_findings logic_verdict = [sample_logic]" "logic_verdict\<lparr>v_cost_usd := v_cost_usd logic_verdict\<rparr> = logic_verdict"
  by (simp_all add: logic_verdict_def default_verdict_def v_ok_def)

lemma logic_aggregate: "aggregate default_settings [logic_verdict] = ([sample_logic], 19 / 20)"
proof -
  have ok: "ok_findings [logic_verdict] = [sample_logic]" "panel_health [logic_verdict] = 1"
    by (simp_all add: ok_findings_def logic_verdict_simps panel_health_def)
  have cat: "f_category sample_logic = LOGIC" "f_severity sample_logic = CRITICAL" "f_confidence sample_logic = 95 / 100"
    by (simp_all add: sample_defs)
  have m: "merge_findings [sample_logic] = [sample_logic]"
    by (simp add: merge_findings_def clusters_def collapse_def)
  show ?thesis
    by (simp add: aggregate_def ok m collapse_repeated_def repeat_groups_def COLLAPSIBLE_CATEGORIES_def
       cat overall_confidence_def py_round_def round_half_even_def)
qed

lemma logic_gate:
  "g_decision (evaluate default_settings [sample_logic] [logic_verdict] (19 / 20) False pub) = AUTO_POST"
  "g_postable (evaluate default_settings [sample_logic] [logic_verdict] (19 / 20) False pub) = [sample_logic]"
  by (simp_all add: evaluate_def logic_verdict_simps critical_security_def clears_bars_def is_security_def
      SECURITY_CATEGORIES_def sample_defs Let_def)

lemmas posting_defs =
  pipeline_defs post_step_def logic_loaded logic_verdict_simps logic_aggregate logic_gate posting_env_def
  post_review_def mark_posted_def review_id_of_def review_call_def

definition finished_store :: store where
  "finished_store = empty_store
     \<lparr>st_deliveries := [''d1'' \<mapsto> \<lparr>dl_event = ''pull_request'', dl_action = ''opened'', dl_repo_full_name = ''o/r'',
          dl_pr_number = 4, dl_status = ''accepted''\<rparr>],
      st_repos := [7 \<mapsto> \<lparr>rr_id = 1, rr_full_name = ''o/r'', rr_default_branch = ''main''\<rparr>],
      st_prs := [(1, 4, ''h'') \<mapsto> \<lparr>pw_id = 2, pw_base_sha = ''b'', pw_title = [], pw_author = [],
          pw_is_private = True\<rparr>],
      st_reviews := [(2, ''d1'') \<mapsto> \<lparr>rv_id = 1, rv_status = POSTED, rv_decision = Some AUTO_POST, rv_reason = None,
          rv_confidence = Some (95 / 100), rv_cost_usd = 0, rv_github_review_id = Some 9, rv_error = None,
          rv_prompt_bundle = ''bundle''\<rparr>],
      st_verdicts := [(1, CORRECTNESS) \<mapsto> logic_verdict], st_next_serial := 3, st_next_uuid := 2\<rparr>"

text \<open>The run in three pieces: it opens the review, decides to post, and posts.\<close>

lemma posting_opens:
  "\<exists>l g. open_step posting_env sample_job (sample_pipe_world\<lparr>wo_store := finished_store\<rparr>) =
     (Inr (opened_pr, 1, 1), \<lparr>wo_store = finished_store, wo_llm = l, wo_gh = g, wo_ops = 4\<rparr>) \<and>
     gw_breaker g = github_breaker \<and> gh_posts \<lparr>wo_store = finished_store, wo_llm = l, wo_gh = g, wo_ops = 4\<rparr> = []"
  by (simp add: posting_defs finished_store_def opened_pr_def gh_posts_def)

lemma posting_runs:
  "\<exists>out w'. pipeline_run posting_env opened_pr 1 1 (Some ''local'') \<lparr>wo_store = finished_store, wo_llm = l, wo_gh = g, wo_ops = 4\<rparr> =
     (Inr out, w') \<and> o_decision out = AUTO_POST \<and> o_postable out = [sample_logic] \<and> wo_gh w' = g"
  by (simp add: posting_defs finished_store_def opened_pr_def)

lemma posting_posts:
  assumes "o_decision out = AUTO_POST" "o_postable out = [sample_logic]" "gw_breaker (wo_gh w) = github_breaker" "gh_posts w = []"
  shows "length (gh_posts (snd (pipeline_act posting_env opened_pr 1 out True w))) = 1"
  using assms by (simp add: posting_defs finished_store_def opened_pr_def gh_posts_def finish_review_def)

lemma posting_run:
  "length (gh_posts (snd (review_pull_request posting_env sample_job (Some ''local'') True
     (sample_pipe_world\<lparr>wo_store := finished_store\<rparr>)))) = 1"
proof -
  obtain l g where opened: "open_step posting_env sample_job (sample_pipe_world\<lparr>wo_store := finished_store\<rparr>) =
      (Inr (opened_pr, 1, 1), \<lparr>wo_store = finished_store, wo_llm = l, wo_gh = g, wo_ops = 4\<rparr>)"
      "gw_breaker g = github_breaker" "gh_posts \<lparr>wo_store = finished_store, wo_llm = l, wo_gh = g, wo_ops = 4\<rparr> = []"
    using posting_opens by blast
  obtain out w where run: "pipeline_run posting_env opened_pr 1 1 (Some ''local'')
      \<lparr>wo_store = finished_store, wo_llm = l, wo_gh = g, wo_ops = 4\<rparr> = (Inr out, w)"
      "o_decision out = AUTO_POST" "o_postable out = [sample_logic]" "wo_gh w = g"
    using posting_runs by blast
  have "length (gh_posts (snd (pipeline_act posting_env opened_pr 1 out True w))) = 1"
    by (rule posting_posts) (use opened run in \<open>simp_all add: gh_posts_def\<close>)
  with opened run show ?thesis by (simp add: review_pull_request_def eff_bind_def)
qed

lemma posts_only_gated_witness:
  "\<exists>new pr repo_id rid w1 vs.
     gh_posts (snd (review_pull_request posting_env sample_job (Some ''local'') True
       (sample_pipe_world\<lparr>wo_store := finished_store\<rparr>))) = new \<and> length new = 1 \<and>
     open_step posting_env sample_job (sample_pipe_world\<lparr>wo_store := finished_store\<rparr>) = (Inr (pr, repo_id, rid), w1) \<and>
     load_verdicts rid (wo_store (snd (review_pull_request posting_env sample_job (Some ''local'') True
       (sample_pipe_world\<lparr>wo_store := finished_store\<rparr>)))) = Inr vs \<and>
     gated_posts posting_env pr True vs new"
proof -
  let ?w = "sample_pipe_world\<lparr>wo_store := finished_store\<rparr>"
  obtain r w' where run: "review_pull_request posting_env sample_job (Some ''local'') True ?w = (r, w')" by fastforce
  have "gh_posts ?w = []"
    by (simp add: gh_posts_def sample_pipe_world_def new_client_def)
  with posts_only_gated [OF run] posting_run show ?thesis by (fastforce simp: run)
qed

text \<open>A review that is already posted is posted again when its job runs again (a replay, or a second
  attempt of the queue after the worker died): the run opens the finished review, does not look at its
  status, and sends another review for the same pull request.\<close>

theorem finished_review_posts_again:
  "map_option rv_status (st_reviews finished_store (2, j_delivery_id sample_job)) = Some POSTED \<and>
   length (gh_posts (snd (review_pull_request posting_env sample_job (Some ''local'') True
     (sample_pipe_world\<lparr>wo_store := finished_store\<rparr>)))) =
     length (gh_posts sample_pipe_world) + 1"
proof -
  have "map_option rv_status (st_reviews finished_store (2, j_delivery_id sample_job)) = Some POSTED"
    by (simp add: finished_store_def sample_job_def)
  moreover note posting_run
  moreover have "gh_posts sample_pipe_world = []"
    by (simp add: gh_posts_def sample_pipe_world_def new_client_def)
  ultimately show ?thesis by simp
qed

end
