(* ===== verification/Fixtures.thy ===== *)
theory Fixtures
  imports Diff
begin

section \<open>The golden set\<close>

text \<open>
  \<^verbatim>\<open>evaluation/fixtures.py\<close>. A label is a dataclass instance; what the scoring compares with
  \<^verbatim>\<open>id(label)\<close> is the field \<open>lb_id\<close>, handed out in the order the labels are built. The fixture
  files are written by \<^verbatim>\<open>scripts/build_eval_fixtures.py\<close>; a value of another JSON type than it writes
  is answered by a \<^verbatim>\<open>TypeError\<close> here, where Python would carry it on unchecked. The directory and the
  JSON reader are arguments.
\<close>

record label =
  lb_id :: nat
  lb_file_path :: string
  lb_line :: int
  lb_note :: string
  lb_agent :: "string option"
  lb_category :: "string option"
  lb_min_severity :: string

definition SEVERITY_NAMES :: "string list" where
  "SEVERITY_NAMES = [''info'', ''minor'', ''major'', ''critical'']"

text \<open>\<^verbatim>\<open>SEVERITY_ORDER.index(s)\<close>.\<close>

fun list_index :: "'a \<Rightarrow> 'a list \<Rightarrow> nat option" where
  "list_index x [] = None"
| "list_index x (y # ys) = (if x = y then Some 0 else map_option Suc (list_index x ys))"

definition min_severity_rank :: "label \<Rightarrow> exc + nat" where
  "min_severity_rank l =
     (case list_index (lb_min_severity l) SEVERITY_NAMES of
        None \<Rightarrow> Inl (ValueError (lb_min_severity l @ '' is not in list'')) | Some n \<Rightarrow> Inr n)"

record eval_case =
  ec_id :: string
  ec_title :: string
  ec_summary :: string
  ec_expected_decision :: "string option"
  ec_files :: "diff_file list"
  ec_context_chunks :: "code_chunk list"
  ec_expected :: "label list"
  ec_body :: string
  ec_provenance :: "string option"
  ec_must_not_find :: "label list"
  ec_may_find :: "label list"
  ec_permitted_concerns :: "(string \<times> string) list"

definition case_pull_request :: "eval_case \<Rightarrow> pull_request" where
  "case_pull_request c =
     \<lparr>pr_repo_full_name = ''eval/'' @ ec_id c, pr_repo_github_id = 0, pr_is_private = True, pr_number = 1,
      pr_title = ec_title c, pr_body = ec_body c, pr_author = ''eval'', pr_head_sha = replicate 40 CHR ''e'',
      pr_base_sha = replicate 40 CHR ''b'', pr_base_ref = ''main'', pr_files = ec_files c,
      pr_truncated = False\<rparr>"

subsection \<open>Loading\<close>

definition typed_str :: "json \<Rightarrow> exc + string" where
  "typed_str v = (case v of JStr s \<Rightarrow> Inr s | _ \<Rightarrow> Inl (TypeError ''str''))"

definition typed_opt_str :: "json \<Rightarrow> exc + string option" where
  "typed_opt_str v = (case v of JNull \<Rightarrow> Inr None | JStr s \<Rightarrow> Inr (Some s) | _ \<Rightarrow> Inl (TypeError ''str''))"

definition typed_int :: "json \<Rightarrow> exc + int" where
  "typed_int v = (case v of JInt i \<Rightarrow> Inr i | _ \<Rightarrow> Inl (TypeError ''int''))"

definition typed_list :: "json \<Rightarrow> exc + json list" where
  "typed_list v = (case v of JList xs \<Rightarrow> Inr xs | _ \<Rightarrow> Inl (TypeError ''list''))"

definition typed_obj :: "json \<Rightarrow> exc + (string \<times> json) list" where
  "typed_obj v = (case v of JObj kvs \<Rightarrow> Inr kvs | _ \<Rightarrow> Inl (TypeError ''dict''))"

definition fixture_label :: "nat \<Rightarrow> json \<Rightarrow> exc + label" where
  "fixture_label i raw =
     ebind (ebind (json_index ''file_path'' raw) typed_str) (\<lambda>path.
     ebind (ebind (json_index ''line'' raw) typed_int) (\<lambda>line.
     ebind (ebind (json_get ''note'' (JStr []) raw) typed_str) (\<lambda>note'.
     ebind (ebind (json_get ''agent'' JNull raw) typed_opt_str) (\<lambda>agent.
     ebind (ebind (json_get ''category'' JNull raw) typed_opt_str) (\<lambda>category.
     ebind (ebind (json_get ''min_severity'' (JStr ''info'') raw) typed_str) (\<lambda>sev.
       Inr \<lparr>lb_id = i, lb_file_path = path, lb_line = line, lb_note = note', lb_agent = agent,
            lb_category = category, lb_min_severity = sev\<rparr>))))))"

definition fixture_chunk :: "json \<Rightarrow> exc + code_chunk" where
  "fixture_chunk raw =
     ebind (ebind (json_index ''content'' raw) typed_str) (\<lambda>content.
     ebind (ebind (json_index ''path'' raw) typed_str) (\<lambda>path.
       Inr \<lparr>ck_file_path = path, ck_start_line = 1, ck_end_line = int (length (py_splitlines content)),
            ck_content = content, ck_symbol = None, ck_language = None, ck_score = 1\<rparr>))"

definition fixture_concern :: "json \<Rightarrow> exc + string \<times> string" where
  "fixture_concern x =
     ebind (ebind (json_index ''agent'' x) typed_str) (\<lambda>a.
     ebind (ebind (json_index ''category'' x) typed_str) (\<lambda>c. Inr (a, c)))"

text \<open>The labels of one key of a fixture, numbered from \<open>n\<close>.\<close>

definition fixture_labels :: "nat \<Rightarrow> json list \<Rightarrow> exc + label list" where
  "fixture_labels n xs = e_traverse (\<lambda>(i, x). fixture_label i x) (enumerate n xs)"

definition load_case :: "nat \<Rightarrow> json \<Rightarrow> exc + eval_case" where
  "load_case n raw =
     ebind (ebind (json_index ''id'' raw) typed_str) (\<lambda>i.
     ebind (ebind (json_index ''title'' raw) typed_str) (\<lambda>title.
     ebind (ebind (json_get ''summary'' (JStr []) raw) typed_str) (\<lambda>summary.
     ebind (ebind (json_get ''body'' (JStr []) raw) typed_str) (\<lambda>body.
     ebind (ebind (json_get ''provenance'' JNull raw) typed_opt_str) (\<lambda>provenance.
     ebind (ebind (json_get ''expected_decision'' JNull raw) typed_opt_str) (\<lambda>dec.
     ebind (ebind (json_index ''files'' raw) typed_list) (\<lambda>files_v.
     ebind (e_traverse (\<lambda>f. ebind (typed_obj f) build_diff_file) files_v) (\<lambda>files.
     ebind (ebind (json_get ''context_files'' (JList []) raw) typed_list) (\<lambda>chunks_v.
     ebind (e_traverse fixture_chunk chunks_v) (\<lambda>chunks.
     ebind (ebind (json_index ''expected'' raw) typed_list) (\<lambda>expected_v.
     ebind (fixture_labels n expected_v) (\<lambda>expected.
     ebind (ebind (json_get ''must_not_find'' (JList []) raw) typed_list) (\<lambda>forbidden_v.
     ebind (fixture_labels (n + length expected_v) forbidden_v) (\<lambda>forbidden.
     ebind (ebind (json_get ''may_find'' (JList []) raw) typed_list) (\<lambda>allowed_v.
     ebind (fixture_labels (n + length expected_v + length forbidden_v) allowed_v) (\<lambda>allowed.
     ebind (ebind (json_get ''permitted_concerns'' (JList []) raw) typed_list) (\<lambda>concerns_v.
     ebind (e_traverse fixture_concern concerns_v) (\<lambda>concerns.
       Inr \<lparr>ec_id = i, ec_title = title, ec_summary = summary, ec_expected_decision = dec, ec_files = files,
            ec_context_chunks = chunks, ec_expected = expected, ec_body = body, ec_provenance = provenance,
            ec_must_not_find = forbidden, ec_may_find = allowed,
            ec_permitted_concerns = concerns\<rparr>))))))))))))))))))"

definition case_label_count :: "eval_case \<Rightarrow> nat" where
  "case_label_count c = length (ec_expected c) + length (ec_must_not_find c) + length (ec_may_find c)"

text \<open>The files of the directory in the order of their names; \<^verbatim>\<open>only\<close> restricts the cases by id.\<close>

fun load_files ::
  "(string \<Rightarrow> json option) \<Rightarrow> string list \<Rightarrow> nat \<Rightarrow> string list \<Rightarrow> exc + eval_case list" where
  "load_files loads only n [] = Inr []"
| "load_files loads only n (text # rest) =
     (case loads text of
        None \<Rightarrow> Inl (JSONDecodeError ''Expecting value'')
      | Some raw \<Rightarrow>
          ebind (if only = [] then Inr False
                 else ebind (json_index ''id'' raw) (\<lambda>i. Inr (i \<notin> JStr ` set only))) (\<lambda>skip.
          if skip then load_files loads only n rest
          else ebind (load_case n raw) (\<lambda>c.
               ebind (load_files loads only (n + case_label_count c) rest) (\<lambda>cs. Inr (c # cs)))))"

definition load_cases ::
  "(string \<Rightarrow> json option) \<Rightarrow> (string \<times> string) list \<Rightarrow> string list \<Rightarrow> exc + eval_case list" where
  "load_cases loads directory only =
     ebind (load_files loads only 0 (map snd (sort_key fst directory))) (\<lambda>cases'.
       if cases' = [] then Inl (FileNotFoundError ''no fixtures. Run: python scripts/build_eval_fixtures.py'')
       else Inr cases')"

subsection \<open>Labels keep their identity\<close>

definition case_labels :: "eval_case \<Rightarrow> label list" where
  "case_labels c = ec_expected c @ ec_must_not_find c @ ec_may_find c"

lemma fixture_label_id: "fixture_label i raw = Inr l \<Longrightarrow> lb_id l = i"
  by (auto simp: fixture_label_def ebind_Inr)

lemma fixture_labels_ids:
  assumes "fixture_labels n xs = Inr ls"
  shows "map lb_id ls = [n..<n + length xs]"
proof -
  have "e_traverse (\<lambda>(i, x). fixture_label i x) ps = Inr ls \<Longrightarrow> map lb_id ls = map fst ps" for ps ls
    by (induction ps arbitrary: ls) (auto simp: ebind_Inr fixture_label_id)
  from this [OF assms [unfolded fixture_labels_def]] show ?thesis by simp
qed

text \<open>The labels of a case are numbered consecutively.\<close>

lemma load_case_ids:
  assumes "load_case n raw = Inr c"
  shows "map lb_id (case_labels c) = [n..<n + case_label_count c]"
proof -
  from assms obtain xs ys zs where
    e: "fixture_labels n xs = Inr (ec_expected c)"
      "fixture_labels (n + length xs) ys = Inr (ec_must_not_find c)"
      "fixture_labels (n + length xs + length ys) zs = Inr (ec_may_find c)"
    by (auto simp: load_case_def ebind_Inr)
  note ids = e [THEN fixture_labels_ids]
  from ids have len: "length (ec_expected c) = length xs" "length (ec_must_not_find c) = length ys"
    "length (ec_may_find c) = length zs"
    by (metis length_map length_upt add_diff_cancel_left')+
  have split: "[n..<n + (a + b + d)] = [n..<n + a] @ [n + a..<n + a + b] @ [n + a + b..<n + a + b + d]" for a b d
    by (metis add.assoc upt_add_eq_append le_add1)
  show ?thesis
    using ids by (simp add: case_labels_def case_label_count_def len split)
qed

end
