(* ===== verification/Matching.thy ===== *)
theory Matching
  imports Fixtures
begin

section \<open>Matching findings against labels\<close>

text \<open>
  \<^verbatim>\<open>evaluation/matching.py\<close>: whether a finding locates a label, covers it strictly, traps, and is about
  the same concern, and the classification of every finding of a review as hit, false positive, allowed
  or unlabelled. A category name that is no category raises \<^verbatim>\<open>ValueError\<close> where the code does not catch
  it. The properties: the classification is total and exclusive, and what is missed is exactly what no hit
  covers.
\<close>

definition LINE_TOLERANCE :: int where
  "LINE_TOLERANCE = 3"

record label_match =
  lm_finding :: finding
  lm_label :: "label option"
  lm_kind :: string
  lm_labels :: "label list"
  lm_agent_correct :: bool
  lm_category_correct :: bool
  lm_severity_sufficient :: bool

definition plain_match :: "finding \<Rightarrow> label option \<Rightarrow> string \<Rightarrow> label list \<Rightarrow> label_match" where
  "plain_match f l kind ls =
     \<lparr>lm_finding = f, lm_label = l, lm_kind = kind, lm_labels = ls, lm_agent_correct = False,
      lm_category_correct = False, lm_severity_sufficient = False\<rparr>"

subsection \<open>Location\<close>

definition near :: "string \<Rightarrow> int \<Rightarrow> int \<Rightarrow> label \<Rightarrow> bool" where
  "near path lo hi l \<longleftrightarrow>
     path = lb_file_path l \<and>
     (lo \<le> lb_line l \<and> lb_line l \<le> hi \<or> min \<bar>lo - lb_line l\<bar> \<bar>hi - lb_line l\<bar> \<le> LINE_TOLERANCE)"

text \<open>\<^verbatim>\<open>e.line_end or e.line_start\<close>.\<close>

definition evidence_end :: "int \<Rightarrow> evidence \<Rightarrow> int" where
  "evidence_end start e = (case e_line_end e of None \<Rightarrow> start | Some n \<Rightarrow> if n = 0 then start else n)"

definition locates :: "finding \<Rightarrow> label \<Rightarrow> bool" where
  "locates f l \<longleftrightarrow>
     near (f_file_path f) (f_line_start f) (f_line_end f) l \<or>
     list_ex (\<lambda>e. case e_line_start e of
                    None \<Rightarrow> False | Some s \<Rightarrow> near (e_file_path e) s (evidence_end s e) l) (f_evidence f)"

definition covers :: "finding \<Rightarrow> label \<Rightarrow> bool" where
  "covers f l \<longleftrightarrow>
     f_file_path f = lb_file_path l \<and> f_line_start f \<le> lb_line l \<and> lb_line l \<le> f_line_end f \<or>
     list_ex (\<lambda>e. e_file_path e = lb_file_path l \<and>
                    (case e_line_start e of
                       None \<Rightarrow> False | Some s \<Rightarrow> s \<le> lb_line l \<and> lb_line l \<le> evidence_end s e)) (f_evidence f)"

definition traps :: "finding \<Rightarrow> label \<Rightarrow> bool" where
  "traps f trap \<longleftrightarrow>
     covers f trap \<and>
     \<not> (case lb_agent trap of None \<Rightarrow> False | Some a \<Rightarrow> agent_str (f_agent f) \<noteq> a) \<and>
     \<not> (case lb_category trap of None \<Rightarrow> False | Some c \<Rightarrow> category_str (f_category f) \<noteq> c)"

subsection \<open>Concern\<close>

definition category_value :: "string \<Rightarrow> exc + category" where
  "category_value name =
     (case category_of_str name of None \<Rightarrow> Inl (ValueError (name @ '' is not a valid Category'')) | Some c \<Rightarrow> Inr c)"

definition found_categories :: "finding \<Rightarrow> string list" where
  "found_categories f = (if f_categories f = [] then [category_str (f_category f)] else f_categories f)"

text \<open>The families of the names \<^verbatim>\<open>a|b\<close> of a label; \<^const>\<open>None\<close> if one is no category.\<close>

fun label_families :: "string list \<Rightarrow> string list option" where
  "label_families [] = Some []"
| "label_families (n # ns) =
     (case category_of_str n of
        None \<Rightarrow> None | Some c \<Rightarrow> map_option ((#) (family_of c)) (label_families ns))"

text \<open>\<^verbatim>\<open>any(family_of(Category(c)) in families for c in found)\<close>.\<close>

fun any_family :: "string list \<Rightarrow> string list \<Rightarrow> exc + bool" where
  "any_family fams [] = Inr False"
| "any_family fams (c # cs) =
     ebind (category_value c) (\<lambda>k. if family_of k \<in> set fams then Inr True else any_family fams cs)"

definition same_concern :: "finding \<Rightarrow> label \<Rightarrow> exc + bool" where
  "same_concern f l =
     (case lb_category l of
        None \<Rightarrow> Inr True
      | Some cat \<Rightarrow>
          (case label_families (py_split CHR ''|'' cat) of
             None \<Rightarrow> Inr True
           | Some fams \<Rightarrow>
               ebind (any_family fams (found_categories f)) (\<lambda>hit.
                 if hit then Inr True
                 else if set fams = {''docs''} \<and> ''api_contract'' \<in> set (found_categories f)
                 then Inr (''docs'' \<in> set (f_agreeing f) \<union> {agent_str (f_agent f)})
                 else Inr False)))"

subsection \<open>Classification\<close>

text \<open>List comprehensions and \<^verbatim>\<open>next(..., None)\<close> over a test that may raise.\<close>

fun e_filter :: "('a \<Rightarrow> exc + bool) \<Rightarrow> 'a list \<Rightarrow> exc + 'a list" where
  "e_filter p [] = Inr []"
| "e_filter p (x # xs) =
     ebind (p x) (\<lambda>b. ebind (e_filter p xs) (\<lambda>ys. Inr (if b then x # ys else ys)))"

fun e_find :: "('a \<Rightarrow> exc + bool) \<Rightarrow> 'a list \<Rightarrow> exc + 'a option" where
  "e_find p [] = Inr None"
| "e_find p (x # xs) = ebind (p x) (\<lambda>b. if b then Inr (Some x) else e_find p xs)"

definition satisfies :: "finding \<Rightarrow> label \<Rightarrow> exc + bool" where
  "satisfies f l = (if locates f l then same_concern f l else Inr False)"

definition agent_matches :: "finding \<Rightarrow> label \<Rightarrow> bool" where
  "agent_matches f l =
     (case lb_agent l of
        None \<Rightarrow> True
      | Some a \<Rightarrow> a \<in> set (if f_agreeing f = [] then [agent_str (f_agent f)] else f_agreeing f))"

definition category_matches :: "finding \<Rightarrow> label \<Rightarrow> bool" where
  "category_matches f l =
     (case lb_category l of
        None \<Rightarrow> True
      | Some cat \<Rightarrow> set (found_categories f) \<inter> set (py_split CHR ''|'' cat) \<noteq> {})"

definition hit_match :: "finding \<Rightarrow> label \<Rightarrow> label list \<Rightarrow> exc + label_match" where
  "hit_match f primary covered =
     ebind (min_severity_rank primary) (\<lambda>rank.
       Inr \<lparr>lm_finding = f, lm_label = Some primary, lm_kind = ''hit'', lm_labels = covered,
            lm_agent_correct = agent_matches f primary, lm_category_correct = category_matches f primary,
            lm_severity_sufficient = rank \<le> severity_index (f_severity f)\<rparr>)"

definition classify_one ::
  "label list \<Rightarrow> label list \<Rightarrow> label list \<Rightarrow> (string \<times> string) list \<Rightarrow> finding \<Rightarrow> exc + label_match" where
  "classify_one expected forbidden allowed concerns f =
     ebind (e_filter (satisfies f) expected) (\<lambda>covered.
       case covered of
         primary # _ \<Rightarrow> hit_match f primary covered
       | [] \<Rightarrow>
           (case (if list_ex (locates f) expected then None else List.find (traps f) forbidden) of
              Some trap \<Rightarrow> Inr (plain_match f (Some trap) ''false_positive'' [trap])
            | None \<Rightarrow>
                ebind (e_find (satisfies f) allowed) (\<lambda>permitted.
                  case permitted of
                    Some l \<Rightarrow> Inr (plain_match f (Some l) ''allowed'' [l])
                  | None \<Rightarrow>
                      Inr (plain_match f None
                        (if (agent_str (f_agent f), category_str (f_category f)) \<in> set concerns
                         then ''allowed'' else ''unlabelled'') []))))"

definition classify ::
  "finding list \<Rightarrow> label list \<Rightarrow> label list \<Rightarrow> label list \<Rightarrow> (string \<times> string) list \<Rightarrow> exc + label_match list" where
  "classify fs expected forbidden allowed concerns =
     e_traverse (classify_one expected forbidden allowed concerns) fs"

definition missed :: "label list \<Rightarrow> label_match list \<Rightarrow> label list" where
  "missed expected ms =
     filter (\<lambda>l. lb_id l \<notin>
        set (map lb_id (concat (map lm_labels (filter (\<lambda>m. lm_kind m = ''hit'') ms))))) expected"

subsection \<open>What the classification says\<close>

lemma e_filter_set:
  "e_filter p xs = Inr ys \<Longrightarrow> (\<forall>x \<in> set xs. \<exists>b. p x = Inr b) \<and> ys = filter (\<lambda>x. p x = Inr True) xs"
  by (induction xs arbitrary: ys) (auto simp: ebind_Inr split: if_splits)

lemma e_find_set:
  "e_find p xs = Inr r \<Longrightarrow>
     (case r of None \<Rightarrow> \<forall>x \<in> set xs. p x = Inr False | Some x \<Rightarrow> x \<in> set xs \<and> p x = Inr True)"
  by (induction xs) (auto simp: ebind_Inr split: if_splits option.splits)

text \<open>What a classified finding is, case by case.\<close>

definition judged ::
  "label list \<Rightarrow> label list \<Rightarrow> label list \<Rightarrow> (string \<times> string) list \<Rightarrow> finding \<Rightarrow> label_match \<Rightarrow> bool" where
  "judged expected forbidden allowed concerns f m \<longleftrightarrow>
     lm_finding m = f \<and>
     (if \<exists>l \<in> set expected. satisfies f l = Inr True
      then lm_kind m = ''hit'' \<and> lm_labels m = filter (\<lambda>l. satisfies f l = Inr True) expected \<and>
           lm_label m = Some (hd (lm_labels m))
      else if (\<forall>l \<in> set expected. \<not> locates f l) \<and> (\<exists>t \<in> set forbidden. traps f t)
      then lm_kind m = ''false_positive''
      else if (\<exists>l \<in> set allowed. satisfies f l = Inr True) \<or>
              (agent_str (f_agent f), category_str (f_category f)) \<in> set concerns
      then lm_kind m = ''allowed''
      else lm_kind m = ''unlabelled'')"

lemma classify_one_judged:
  assumes "classify_one expected forbidden allowed concerns f = Inr m"
  shows "judged expected forbidden allowed concerns f m"
proof -
  from assms obtain covered where c: "e_filter (satisfies f) expected = Inr covered"
    by (auto simp: classify_one_def ebind_Inr)
  have cov: "covered = filter (\<lambda>l. satisfies f l = Inr True) expected" using e_filter_set [OF c] by blast
  show ?thesis
  proof (cases covered)
    case (Cons p ps)
    have "p \<in> set covered" by (simp add: Cons)
    with cov have "\<exists>l \<in> set expected. satisfies f l = Inr True" by auto
    moreover from assms c Cons have "hit_match f p covered = Inr m" by (simp add: classify_one_def)
    then have "lm_finding m = f" "lm_kind m = ''hit''" "lm_labels m = covered" "lm_label m = Some p"
      by (auto simp: hit_match_def ebind_Inr)
    moreover have "p = hd (lm_labels m)" using calculation Cons by simp
    ultimately show ?thesis using cov by (simp add: judged_def)
  next
    case Nil
    with cov have "filter (\<lambda>l. satisfies f l = Inr True) expected = []" by simp
    then have none: "\<not> (\<exists>l \<in> set expected. satisfies f l = Inr True)" by (simp add: filter_empty_conv)
    have aim: "list_ex (locates f) expected \<longleftrightarrow> \<not> (\<forall>l \<in> set expected. \<not> locates f l)"
      by (simp add: list_ex_iff)
    show ?thesis
    proof (cases "if list_ex (locates f) expected then None else List.find (traps f) forbidden")
      case (Some t)
      then have "(\<forall>l \<in> set expected. \<not> locates f l) \<and> (\<exists>t \<in> set forbidden. traps f t)"
        using aim by (auto simp: find_Some_iff split: if_splits)
      with assms c Nil Some none show ?thesis by (auto simp: judged_def classify_one_def plain_match_def)
    next
      case None
      then have "\<not> ((\<forall>l \<in> set expected. \<not> locates f l) \<and> (\<exists>t \<in> set forbidden. traps f t))"
        using aim by (auto simp: find_None_iff split: if_splits)
      with assms c Nil None none show ?thesis
        by (auto simp: judged_def classify_one_def plain_match_def ebind_Inr dest!: e_find_set split: option.splits)
    qed
  qed
qed

lemma classify_judged:
  "classify fs expected forbidden allowed concerns = Inr ms \<Longrightarrow>
     list_all2 (judged expected forbidden allowed concerns) fs ms"
  unfolding classify_def
  by (induction fs arbitrary: ms) (auto simp: ebind_Inr classify_one_judged)

text \<open>Every finding of a review is judged exactly once and by one rule: it is a hit on precisely the
  expected labels it satisfies, if there are any; otherwise a false positive exactly if it locates no
  expected label and falls into a trap; otherwise allowed exactly if it satisfies an allowed label or
  raises a permitted concern; and otherwise unlabelled.\<close>

theorem classify_exhaustive:
  assumes "classify fs expected forbidden allowed concerns = Inr ms"
  shows "map lm_finding ms = fs \<and>
    list_all2 (judged expected forbidden allowed concerns) fs ms"
proof -
  note j = classify_judged [OF assms]
  then have "map lm_finding ms = fs"
    by (induction rule: list_all2_induct) (simp_all add: judged_def)
  with j show ?thesis by simp
qed

definition sample_label :: "nat \<Rightarrow> string \<Rightarrow> int \<Rightarrow> label" where
  "sample_label i cat line =
     \<lparr>lb_id = i, lb_file_path = ''app/db.py'', lb_line = line, lb_note = [], lb_agent = Some ''security'',
      lb_category = Some cat, lb_min_severity = ''major''\<rparr>"

lemma sample_classify:
  "classify [sample_injection] [sample_label 0 ''authz'' 14, sample_label 2 ''docs'' 90] [] [] [] =
     Inr [\<lparr>lm_finding = sample_injection, lm_label = Some (sample_label 0 ''authz'' 14), lm_kind = ''hit'',
           lm_labels = [sample_label 0 ''authz'' 14], lm_agent_correct = True, lm_category_correct = False,
           lm_severity_sufficient = True\<rparr>]"
  by (simp add: classify_def classify_one_def satisfies_def locates_def near_def LINE_TOLERANCE_def
      same_concern_def found_categories_def category_value_def category_of_str_def ALL_CATEGORIES_def
      hit_match_def min_severity_rank_def SEVERITY_NAMES_def agent_matches_def category_matches_def
      sample_label_def sample_injection_def)

lemma classify_exhaustive_witness:
  "judged [sample_label 0 ''authz'' 14, sample_label 2 ''docs'' 90] [] [] [] sample_injection
     (hd (projr (classify [sample_injection] [sample_label 0 ''authz'' 14, sample_label 2 ''docs'' 90] [] [] [])))"
  using classify_exhaustive [OF sample_classify] unfolding sample_classify by simp

lemma hit_labels:
  assumes "classify fs expected forbidden allowed concerns = Inr ms"
  shows "set (concat (map lm_labels (filter (\<lambda>m. lm_kind m = ''hit'') ms))) =
    {l \<in> set expected. \<exists>f \<in> set fs. satisfies f l = Inr True}"
  using classify_judged [OF assms]
  by (induction rule: list_all2_induct) (auto simp: judged_def split: if_splits)

text \<open>Recall is about labels: if no two expected labels are the same object, the missed labels of a case
  are exactly the expected labels that no finding of the review satisfies, so a label is missed or covered
  and never both.\<close>

theorem missed_uncovered:
  assumes "classify fs expected forbidden allowed concerns = Inr ms" and "distinct (map lb_id expected)"
  shows "missed expected ms = filter (\<lambda>l. \<forall>f \<in> set fs. satisfies f l \<noteq> Inr True) expected"
proof -
  have inj: "l = l'" if "l \<in> set expected" "l' \<in> set expected" "lb_id l = lb_id l'" for l l'
    using assms(2) that by (simp add: distinct_map inj_on_def)
  have "lb_id l \<in> set (map lb_id (concat (map lm_labels (filter (\<lambda>m. lm_kind m = ''hit'') ms)))) \<longleftrightarrow>
      (\<exists>f \<in> set fs. satisfies f l = Inr True)" if "l \<in> set expected" for l
    unfolding set_map hit_labels [OF assms(1)] using that inj by blast
  then show ?thesis
    unfolding missed_def by (intro filter_cong) auto
qed

lemma missed_uncovered_witness:
  "missed [sample_label 0 ''authz'' 14, sample_label 2 ''docs'' 90]
     (projr (classify [sample_injection] [sample_label 0 ''authz'' 14, sample_label 2 ''docs'' 90] [] [] [])) =
   filter (\<lambda>l. list_all (\<lambda>f. satisfies f l \<noteq> Inr True) [sample_injection])
     [sample_label 0 ''authz'' 14, sample_label 2 ''docs'' 90]"
  using missed_uncovered [OF sample_classify] unfolding sample_classify by (simp add: sample_label_def)

end
