(* ===== verification/Metrics.thy ===== *)
theory Metrics
  imports Matching Gate
begin

section \<open>Scoring\<close>

text \<open>
  \<^verbatim>\<open>evaluation/metrics.py\<close>: the counters of a bucket and its ratios, the scoring of a run over its
  cases, calibration and the report as a dictionary. The properties: the counters account for every
  finding and every label, the ratios are ordered and lie in the unit interval, and the calibration bins
  divide the judged findings and bound the calibration error.
\<close>

definition CONFIDENCE_BINS :: "(real \<times> real) list" where
  "CONFIDENCE_BINS =
     [(0, 5 / 10), (5 / 10, 6 / 10), (6 / 10, 7 / 10), (7 / 10, 8 / 10), (8 / 10, 9 / 10), (9 / 10, 101 / 100)]"

record case_result =
  cr_case_id :: string
  cr_matches :: "label_match list"
  cr_missed :: "label list"
  cr_decision :: string
  cr_expected_decision :: "string option"
  cr_confidence :: real
  cr_cost_usd :: real
  cr_duration_ms :: int
  cr_failed_agents :: "string list"
  cr_error :: "string option"

definition of_kind :: "string \<Rightarrow> label_match list \<Rightarrow> label_match list" where
  "of_kind k ms = filter (\<lambda>m. lm_kind m = k) ms"

definition cr_hits :: "case_result \<Rightarrow> label_match list" where
  "cr_hits r = of_kind ''hit'' (cr_matches r)"

definition cr_false_positives :: "case_result \<Rightarrow> label_match list" where
  "cr_false_positives r = of_kind ''false_positive'' (cr_matches r)"

definition cr_unlabelled :: "case_result \<Rightarrow> label_match list" where
  "cr_unlabelled r = of_kind ''unlabelled'' (cr_matches r)"

definition cr_allowed :: "case_result \<Rightarrow> label_match list" where
  "cr_allowed r = of_kind ''allowed'' (cr_matches r)"

definition decision_correct :: "case_result \<Rightarrow> bool option" where
  "decision_correct r = map_option (\<lambda>d. cr_decision r = d) (cr_expected_decision r)"

subsection \<open>Buckets\<close>

record bucket =
  bk_hits :: nat
  bk_allowed :: nat
  bk_labels_found :: nat
  bk_concerns :: nat
  bk_false_positives :: nat
  bk_unlabelled :: nat
  bk_misses :: nat

definition empty_bucket :: bucket where
  "empty_bucket =
     \<lparr>bk_hits = 0, bk_allowed = 0, bk_labels_found = 0, bk_concerns = 0, bk_false_positives = 0,
      bk_unlabelled = 0, bk_misses = 0\<rparr>"

text \<open>\<^verbatim>\<open>a / b if b else 0.0\<close>.\<close>

definition ratio :: "real \<Rightarrow> real \<Rightarrow> real" where
  "ratio a b = (if b \<noteq> 0 then a / b else 0)"

definition precision_strict :: "bucket \<Rightarrow> real" where
  "precision_strict b = ratio (real (bk_hits b)) (real (bk_hits b + bk_false_positives b + bk_unlabelled b))"

definition precision_lenient :: "bucket \<Rightarrow> real" where
  "precision_lenient b = ratio (real (bk_hits b)) (real (bk_hits b + bk_false_positives b))"

definition recall :: "bucket \<Rightarrow> real" where
  "recall b = ratio (real (bk_labels_found b)) (real (bk_labels_found b + bk_misses b))"

definition f1 :: "bucket \<Rightarrow> real" where
  "f1 b = ratio (2 * precision_strict b * recall b) (precision_strict b + recall b)"

definition duplicate_rate :: "bucket \<Rightarrow> real" where
  "duplicate_rate b = ratio (real (bk_hits b)) (real (bk_concerns b))"

definition rounded :: "nat \<Rightarrow> real \<Rightarrow> json" where
  "rounded k x = JFloat (Fin (py_round k x))"

definition count_json :: "nat \<Rightarrow> json" where
  "count_json n = JInt (int n)"

definition bucket_dict :: "bucket \<Rightarrow> json" where
  "bucket_dict b = JObj
     [(''hits'', count_json (bk_hits b)), (''allowed'', count_json (bk_allowed b)),
      (''labels_found'', count_json (bk_labels_found b)), (''concerns'', count_json (bk_concerns b)),
      (''duplicate_rate'', rounded 2 (duplicate_rate b)),
      (''false_positives'', count_json (bk_false_positives b)),
      (''unlabelled'', count_json (bk_unlabelled b)), (''misses'', count_json (bk_misses b)),
      (''precision_strict'', rounded 3 (precision_strict b)),
      (''precision_lenient'', rounded 3 (precision_lenient b)), (''recall'', rounded 3 (recall b)),
      (''f1'', rounded 3 (f1 b))]"

subsection \<open>Calibration\<close>

record calibration_bin =
  cb_low :: real
  cb_high :: real
  cb_count :: nat
  cb_mean_confidence :: real
  cb_hit_rate :: real

definition bin_dict :: "calibration_bin \<Rightarrow> json" where
  "bin_dict b = JObj
     [(''range'', JStr (py_fixed 2 (cb_low b) @ ''-'' @ py_fixed 2 (cb_high b))), (''n'', count_json (cb_count b)),
      (''mean_confidence'', rounded 3 (cb_mean_confidence b)),
      (''observed_hit_rate'', rounded 3 (cb_hit_rate b)),
      (''gap'', rounded 3 (cb_hit_rate b - cb_mean_confidence b))]"

definition scoreable :: "label_match list \<Rightarrow> label_match list" where
  "scoreable ms = filter (\<lambda>m. lm_kind m \<in> {''hit'', ''false_positive''}) ms"

definition lm_confidence :: "label_match \<Rightarrow> real" where
  "lm_confidence m = f_confidence (lm_finding m)"

definition bin_members :: "label_match list \<Rightarrow> real \<times> real \<Rightarrow> label_match list" where
  "bin_members ms b = filter (\<lambda>m. fst b \<le> lm_confidence m \<and> lm_confidence m < snd b) ms"

definition make_bin :: "label_match list \<Rightarrow> real \<times> real \<Rightarrow> calibration_bin" where
  "make_bin ms b =
     (let members = bin_members ms b; n = length members in
      if members = []
      then \<lparr>cb_low = fst b, cb_high = snd b, cb_count = 0, cb_mean_confidence = 0, cb_hit_rate = 0\<rparr>
      else \<lparr>cb_low = fst b, cb_high = snd b, cb_count = n,
            cb_mean_confidence = sum_list (map lm_confidence members) / real n,
            cb_hit_rate = real (length (of_kind ''hit'' members)) / real n\<rparr>)"

definition calibration :: "label_match list \<Rightarrow> calibration_bin list" where
  "calibration ms = map (make_bin (scoreable ms)) CONFIDENCE_BINS"

text \<open>\<^verbatim>\<open>_ece\<close>: the sum runs over the bins that are not empty.\<close>

definition ece :: "label_match list \<Rightarrow> real" where
  "ece ms =
     (if scoreable ms = [] then 0
      else foldl (\<lambda>err b. if cb_count b \<noteq> 0
                            then err + real (cb_count b) / real (length (scoreable ms)) *
                                       \<bar>cb_hit_rate b - cb_mean_confidence b\<bar>
                            else err) 0 (calibration ms))"

subsection \<open>The score of a run\<close>

record tally =
  tl_overall :: bucket
  tl_by_agent :: "(string \<times> bucket) list"

record seen =
  sn_labels :: "nat set"
  sn_concerns :: "(nat \<times> string) set"
  sn_agent :: "string \<Rightarrow> nat set"

definition nothing_seen :: seen where
  "nothing_seen = \<lparr>sn_labels = {}, sn_concerns = {}, sn_agent = (\<lambda>_. {})\<rparr>"

text \<open>\<^verbatim>\<open>by_agent.setdefault(agent, Bucket())\<close> followed by an update of the bucket.\<close>

fun bucket_upd :: "string \<Rightarrow> (bucket \<Rightarrow> bucket) \<Rightarrow> (string \<times> bucket) list \<Rightarrow> (string \<times> bucket) list" where
  "bucket_upd k f [] = [(k, f empty_bucket)]"
| "bucket_upd k f ((k', b) # rest) = (if k = k' then (k', f b) # rest else (k', b) # bucket_upd k f rest)"

definition on_overall :: "(bucket \<Rightarrow> bucket) \<Rightarrow> tally \<Rightarrow> tally" where
  "on_overall f t = t\<lparr>tl_overall := f (tl_overall t)\<rparr>"

definition on_agent :: "string \<Rightarrow> (bucket \<Rightarrow> bucket) \<Rightarrow> tally \<Rightarrow> tally" where
  "on_agent a f t = t\<lparr>tl_by_agent := bucket_upd a f (tl_by_agent t)\<rparr>"

definition on_both :: "string \<Rightarrow> (bucket \<Rightarrow> bucket) \<Rightarrow> tally \<Rightarrow> tally" where
  "on_both a f t = on_agent a f (on_overall f t)"

definition add_found :: "bucket \<Rightarrow> bucket" where
  "add_found b = b\<lparr>bk_labels_found := bk_labels_found b + 1\<rparr>"

definition add_concern :: "bucket \<Rightarrow> bucket" where
  "add_concern b = b\<lparr>bk_concerns := bk_concerns b + 1\<rparr>"

definition add_miss :: "bucket \<Rightarrow> bucket" where
  "add_miss b = b\<lparr>bk_misses := bk_misses b + 1\<rparr>"

definition score_label :: "finding \<Rightarrow> tally \<times> seen \<Rightarrow> label \<Rightarrow> tally \<times> seen" where
  "score_label f ts l =
     (case ts of (t, sn) \<Rightarrow>
        let i = lb_id l; a = agent_str (f_agent f); concern = (i, family_of (f_category f));
            t1 = (if i \<in> sn_labels sn then t else on_overall add_found t);
            t2 = (if concern \<in> sn_concerns sn then t1 else on_overall add_concern t1);
            t3 = (if i \<in> sn_agent sn a then t2 else on_agent a add_found t2)
        in (t3, \<lparr>sn_labels = insert i (sn_labels sn), sn_concerns = insert concern (sn_concerns sn),
                 sn_agent = (sn_agent sn)(a := insert i (sn_agent sn a))\<rparr>))"

definition score_match :: "tally \<times> seen \<Rightarrow> label_match \<Rightarrow> tally \<times> seen" where
  "score_match ts m =
     (case ts of (t, sn) \<Rightarrow>
        let a = agent_str (f_agent (lm_finding m)) in
        if lm_kind m = ''hit''
        then foldl (score_label (lm_finding m)) (on_both a (\<lambda>b. b\<lparr>bk_hits := bk_hits b + 1\<rparr>) t, sn) (lm_labels m)
        else if lm_kind m = ''false_positive''
        then (on_both a (\<lambda>b. b\<lparr>bk_false_positives := bk_false_positives b + 1\<rparr>) t, sn)
        else if lm_kind m = ''allowed'' then (on_both a (\<lambda>b. b\<lparr>bk_allowed := bk_allowed b + 1\<rparr>) t, sn)
        else (on_both a (\<lambda>b. b\<lparr>bk_unlabelled := bk_unlabelled b + 1\<rparr>) t, sn))"

definition score_missed :: "tally \<Rightarrow> label \<Rightarrow> tally" where
  "score_missed t l =
     (case lb_agent l of
        Some a \<Rightarrow> if a = [] then on_overall add_miss t else on_agent a add_miss (on_overall add_miss t)
      | None \<Rightarrow> on_overall add_miss t)"

definition score_result :: "tally \<Rightarrow> case_result \<Rightarrow> tally" where
  "score_result t r =
     foldl score_missed (fst (foldl score_match (t, nothing_seen) (cr_matches r))) (cr_missed r)"

definition empty_tally :: tally where
  "empty_tally = \<lparr>tl_overall = empty_bucket, tl_by_agent = []\<rparr>"

record eval_report =
  er_overall :: bucket
  er_by_agent :: "(string \<times> bucket) list"
  er_calibration :: "calibration_bin list"
  er_ece :: real
  er_category_agreement :: real
  er_agent_attribution :: real
  er_decision_accuracy :: "real option"
  er_total_cost_usd :: real
  er_cost_per_case_usd :: real
  er_cases :: "case_result list"
  er_provider :: string
  er_models :: "(string \<times> string) list"

definition share :: "('a \<Rightarrow> bool) \<Rightarrow> 'a list \<Rightarrow> real" where
  "share p xs = ratio (real (length (filter p xs))) (real (length xs))"

definition score :: "case_result list \<Rightarrow> string \<Rightarrow> (string \<times> string) list \<Rightarrow> eval_report" where
  "score results provider models =
     (let t = foldl score_result empty_tally results;
          all_matches = concat (map cr_matches results);
          hits = of_kind ''hit'' all_matches;
          decided = filter (\<lambda>r. decision_correct r \<noteq> None) results;
          total_cost = sum_list (map cr_cost_usd results)
      in \<lparr>er_overall = tl_overall t, er_by_agent = sort_key fst (tl_by_agent t),
          er_calibration = calibration all_matches, er_ece = ece all_matches,
          er_category_agreement = share lm_category_correct hits,
          er_agent_attribution = share lm_agent_correct hits,
          er_decision_accuracy =
            (if decided = [] then None else Some (share (\<lambda>r. decision_correct r = Some True) decided)),
          er_total_cost_usd = total_cost, er_cost_per_case_usd = ratio total_cost (real (length results)),
          er_cases = results, er_provider = provider, er_models = models\<rparr>)"

definition score_case ::
  "eval_case \<Rightarrow> finding list \<Rightarrow> string \<Rightarrow> real \<Rightarrow> real \<Rightarrow> int \<Rightarrow> string list \<Rightarrow> string option \<Rightarrow> exc + case_result" where
  "score_case c fs dec confidence cost duration failed err =
     ebind (classify fs (ec_expected c) (ec_must_not_find c) (ec_may_find c) (ec_permitted_concerns c)) (\<lambda>ms.
       Inr \<lparr>cr_case_id = ec_id c, cr_matches = ms, cr_missed = missed (ec_expected c) ms, cr_decision = dec,
            cr_expected_decision = ec_expected_decision c, cr_confidence = confidence, cr_cost_usd = cost,
            cr_duration_ms = duration, cr_failed_agents = failed, cr_error = err\<rparr>)"

subsection \<open>The report as a dictionary\<close>

definition label_ref :: "label \<Rightarrow> string" where
  "label_ref l = lb_file_path l @ '':'' @ py_str_int (lb_line l)"

definition finding_ref :: "finding \<Rightarrow> string" where
  "finding_ref f =
     f_file_path f @ '':'' @ py_str_int (f_line_start f) @
     (if f_line_end f \<noteq> f_line_start f then ''-'' @ py_str_int (f_line_end f) else [])"

definition cited :: "evidence list \<Rightarrow> string list" where
  "cited es = List.map_filter (\<lambda>e. map_option (\<lambda>s. e_file_path e @ '':'' @ py_str_int s) (e_line_start e)) es"

definition str_list :: "string list \<Rightarrow> json" where
  "str_list xs = JList (map JStr xs)"

definition opt_str_json :: "string option \<Rightarrow> json" where
  "opt_str_json s = (case s of None \<Rightarrow> JNull | Some x \<Rightarrow> JStr x)"

definition match_dict :: "label_match \<Rightarrow> json" where
  "match_dict m =
     (let f = lm_finding m in JObj
        [(''match'', JStr (lm_kind m)), (''agent'', JStr (agent_str (f_agent f))),
         (''category'', JStr (category_str (f_category f))), (''severity'', JStr (severity_str (f_severity f))),
         (''confidence'', rounded 3 (f_confidence f)), (''where'', JStr (finding_ref f)),
         (''title'', JStr (f_title f)), (''body'', JStr (f_body f)), (''agreeing'', str_list (f_agreeing f)),
         (''categories'', str_list (f_categories f)),
         (''matched_label'', opt_str_json (map_option label_ref (lm_label m))),
         (''matched_labels'', str_list (map label_ref (lm_labels m))),
         (''cites'', str_list (cited (f_evidence f)))])"

definition case_dict :: "case_result \<Rightarrow> json" where
  "case_dict c = JObj
     [(''id'', JStr (cr_case_id c)), (''hits'', count_json (length (cr_hits c))),
      (''missed'', count_json (length (cr_missed c))),
      (''false_positives'', count_json (length (cr_false_positives c))),
      (''unlabelled'', count_json (length (cr_unlabelled c))), (''decision'', JStr (cr_decision c)),
      (''expected_decision'', opt_str_json (cr_expected_decision c)),
      (''confidence'', rounded 3 (cr_confidence c)), (''cost_usd'', rounded 4 (cr_cost_usd c)),
      (''failed_agents'', str_list (cr_failed_agents c)), (''error'', opt_str_json (cr_error c)),
      (''findings'', JList (map match_dict (cr_matches c)))]"

definition report_dict :: "eval_report \<Rightarrow> (string \<times> json) list" where
  "report_dict r =
     [(''provider'', JStr (er_provider r)), (''models'', JObj (map (\<lambda>(k, v). (k, JStr v)) (er_models r))),
      (''cases'', count_json (length (er_cases r))), (''overall'', bucket_dict (er_overall r)),
      (''by_agent'', JObj (map (\<lambda>(k, b). (k, bucket_dict b)) (er_by_agent r))),
      (''calibration'', JObj
         [(''bins'', JList (map bin_dict (filter (\<lambda>b. cb_count b \<noteq> 0) (er_calibration r)))),
          (''expected_calibration_error'', rounded 3 (er_ece r))]),
      (''category_agreement'', rounded 3 (er_category_agreement r)),
      (''agent_attribution'', rounded 3 (er_agent_attribution r)),
      (''decision_accuracy'', case er_decision_accuracy r of None \<Rightarrow> JNull | Some x \<Rightarrow> rounded 3 x),
      (''cost'', JObj [(''total_usd'', rounded 4 (er_total_cost_usd r)),
                       (''per_case_usd'', rounded 4 (er_cost_per_case_usd r))]),
      (''per_case'', JList (map case_dict (er_cases r)))]"

subsection \<open>The ratios\<close>

lemma ratio_nonneg: "0 \<le> a \<Longrightarrow> 0 \<le> b \<Longrightarrow> 0 \<le> ratio a b"
  by (simp add: ratio_def)

lemma ratio_unit: "0 \<le> a \<Longrightarrow> a \<le> b \<Longrightarrow> 0 \<le> ratio a b \<and> ratio a b \<le> 1"
  by (simp add: ratio_def)

lemma ratio_antimono: "0 \<le> a \<Longrightarrow> a \<le> b \<Longrightarrow> b \<le> c \<Longrightarrow> ratio a c \<le> ratio a b"
  by (auto simp: ratio_def intro: divide_left_mono)

lemma bucket_unit:
  "0 \<le> precision_strict b \<and> precision_strict b \<le> 1" "0 \<le> precision_lenient b \<and> precision_lenient b \<le> 1"
  "0 \<le> recall b \<and> recall b \<le> 1"
  unfolding precision_strict_def precision_lenient_def recall_def by (rule ratio_unit; simp)+

text \<open>The quality measures of any bucket lie in the unit interval, the strict precision never exceeds the
  lenient one, and \<^verbatim>\<open>f1\<close> lies between zero and the larger of precision and recall and is their harmonic
  mean: it is zero exactly if one of them is.\<close>

theorem bucket_ratios:
  "precision_strict b \<in> {0..1} \<and> precision_lenient b \<in> {0..1} \<and> recall b \<in> {0..1} \<and>
   precision_strict b \<le> precision_lenient b \<and>
   0 \<le> f1 b \<and> f1 b \<le> max (precision_strict b) (recall b) \<and>
   (f1 b = 0 \<longleftrightarrow> precision_strict b = 0 \<or> recall b = 0)"
proof -
  define p r where "p = precision_strict b" and "r = recall b"
  have u: "0 \<le> p" "p \<le> 1" "0 \<le> r" "r \<le> 1" using bucket_unit [of b] by (simp_all add: p_def r_def)
  have f: "f1 b = ratio (2 * p * r) (p + r)" by (simp add: f1_def p_def r_def)
  have "2 * p * r \<le> max p r * (p + r)"
    using u mult_right_mono [of p "max p r" r] mult_right_mono [of r "max p r" p]
    by (simp add: algebra_simps)
  then have "f1 b \<le> max p r" using u by (simp add: f ratio_def divide_le_eq)
  moreover have "0 \<le> f1 b" "f1 b = 0 \<longleftrightarrow> p = 0 \<or> r = 0" using u by (auto simp: f ratio_def)
  moreover have "precision_strict b \<le> precision_lenient b"
    unfolding precision_strict_def precision_lenient_def by (rule ratio_antimono) simp_all
  ultimately show ?thesis using bucket_unit [of b] by (simp add: p_def r_def)
qed

subsection \<open>The counters account for everything\<close>

definition agent_sum :: "(bucket \<Rightarrow> nat) \<Rightarrow> tally \<Rightarrow> nat" where
  "agent_sum g t = sum_list (map (\<lambda>x. g (snd x)) (tl_by_agent t))"

lemma bucket_upd_sum:
  fixes g :: "bucket \<Rightarrow> nat"
  assumes "\<And>b. g (f b) = g b + d" "g empty_bucket = 0"
  shows "sum_list (map (\<lambda>x. g (snd x)) (bucket_upd k f bs)) = sum_list (map (\<lambda>x. g (snd x)) bs) + d"
  by (induction bs) (auto simp: assms)

text \<open>The counters of one kind of finding: on the whole and summed over the agents.\<close>

definition kind_counter :: "string \<Rightarrow> bucket \<Rightarrow> nat" where
  "kind_counter k b =
     (if k = ''hit'' then bk_hits b else if k = ''false_positive'' then bk_false_positives b
      else if k = ''allowed'' then bk_allowed b else bk_unlabelled b)"

definition KINDS :: "string list" where
  "KINDS = [''hit'', ''false_positive'', ''allowed'', ''unlabelled'']"

definition kind_total :: "string \<Rightarrow> tally \<Rightarrow> nat \<times> nat" where
  "kind_total k t = (kind_counter k (tl_overall t), agent_sum (kind_counter k) t)"

lemmas tally_defs = on_both_def on_overall_def on_agent_def add_found_def add_concern_def add_miss_def

lemma quiet_updates:
  "kind_counter k (add_found b) = kind_counter k b" "kind_counter k (add_concern b) = kind_counter k b"
  "kind_counter k (add_miss b) = kind_counter k b" "kind_counter k empty_bucket = 0"
  by (simp_all add: kind_counter_def tally_defs empty_bucket_def)

lemma on_agent_quiet:
  assumes "\<And>b. g (f b) = g b" "g empty_bucket = 0"
  shows "agent_sum g (on_agent a f t) = agent_sum g t"
  using bucket_upd_sum [of g f 0] assms by (simp add: agent_sum_def on_agent_def)

lemma agent_sum_overall [simp]: "agent_sum g (on_overall f t) = agent_sum g t"
  by (simp add: agent_sum_def on_overall_def)

lemma overall_simps [simp]:
  "tl_overall (on_overall f t) = f (tl_overall t)" "tl_overall (on_agent a f t) = tl_overall t"
  by (simp_all add: on_overall_def on_agent_def)

lemma score_label_total: "kind_total k (fst (score_label f ts l)) = kind_total k (fst ts)"
  by (cases ts) (simp add: score_label_def kind_total_def quiet_updates on_agent_quiet Let_def)

lemma score_labels_total: "kind_total k (fst (foldl (score_label f) ts ls)) = kind_total k (fst ts)"
  by (induction ls arbitrary: ts) (simp_all add: score_label_total)

lemma score_missed_total: "kind_total k (score_missed t l) = kind_total k t"
  by (simp add: score_missed_def kind_total_def quiet_updates on_agent_quiet split: option.split)

text \<open>One finding adds one to the counters of its kind, on the whole and for its agent.\<close>

definition kind_bit :: "label_match \<Rightarrow> string \<Rightarrow> nat" where
  "kind_bit m k = (if lm_kind m = k then 1 else 0)"

definition add2 :: "nat \<Rightarrow> nat \<times> nat \<Rightarrow> nat \<times> nat" where
  "add2 d p = (fst p + d, snd p + d)"

lemma count_upd:
  assumes "\<And>b. kind_counter k (f b) = kind_counter k b + d"
  shows "kind_total k (on_both a f t) = add2 d (kind_total k t)"
  using bucket_upd_sum [of "kind_counter k" f d] assms quiet_updates(4)
  by (simp add: kind_total_def add2_def on_both_def agent_sum_def on_agent_def on_overall_def)

lemma count_hit:
  "k \<in> set KINDS \<Longrightarrow> kind_counter k (b\<lparr>bk_hits := bk_hits b + 1\<rparr>) = kind_counter k b + (if k = ''hit'' then 1 else 0)"
  "k \<in> set KINDS \<Longrightarrow> kind_counter k (b\<lparr>bk_false_positives := bk_false_positives b + 1\<rparr>) =
     kind_counter k b + (if k = ''false_positive'' then 1 else 0)"
  "k \<in> set KINDS \<Longrightarrow> kind_counter k (b\<lparr>bk_allowed := bk_allowed b + 1\<rparr>) =
     kind_counter k b + (if k = ''allowed'' then 1 else 0)"
  "k \<in> set KINDS \<Longrightarrow> kind_counter k (b\<lparr>bk_unlabelled := bk_unlabelled b + 1\<rparr>) =
     kind_counter k b + (if k = ''unlabelled'' then 1 else 0)"
  by (auto simp: kind_counter_def KINDS_def)

lemma score_match_total:
  assumes "lm_kind m \<in> set KINDS" and "k \<in> set KINDS"
  shows "kind_total k (fst (score_match ts m)) = add2 (kind_bit m k) (kind_total k (fst ts))"
proof (cases ts)
  case (Pair t sn)
  note counts = count_hit [OF assms(2), THEN count_upd, of "agent_str (f_agent (lm_finding m))" t,
      unfolded One_nat_def add_Suc_right add_0_right]
  from assms(1) consider "lm_kind m = ''hit''" | "lm_kind m = ''false_positive''" | "lm_kind m = ''allowed''"
    | "lm_kind m = ''unlabelled''" by (auto simp: KINDS_def)
  then show ?thesis
    by cases (auto simp: Pair score_match_def Let_def score_labels_total counts kind_bit_def)
qed

definition kind_count :: "string \<Rightarrow> label_match list \<Rightarrow> nat" where
  "kind_count k ms = length (of_kind k ms)"

lemma score_matches_total:
  assumes "\<forall>m \<in> set ms. lm_kind m \<in> set KINDS" and "k \<in> set KINDS"
  shows "kind_total k (fst (foldl score_match ts ms)) = add2 (kind_count k ms) (kind_total k (fst ts))"
  using assms(1)
proof (induction ms arbitrary: ts)
  case (Cons m ms)
  then show ?case
    using score_match_total [of m k ts] assms(2) by (simp add: kind_count_def of_kind_def kind_bit_def add2_def)
qed (simp add: kind_count_def of_kind_def add2_def)

lemma score_misses_total: "kind_total k (foldl score_missed t ls) = kind_total k t"
  by (induction ls arbitrary: t) (simp_all add: score_missed_total)

lemma score_results_total:
  assumes "\<forall>r \<in> set rs. \<forall>m \<in> set (cr_matches r). lm_kind m \<in> set KINDS" and "k \<in> set KINDS"
  shows "kind_total k (foldl score_result t rs) = add2 (kind_count k (concat (map cr_matches rs))) (kind_total k t)"
  using assms(1)
proof (induction rs arbitrary: t)
  case (Cons r rs)
  then show ?case
    using score_matches_total [OF _ assms(2), of "cr_matches r" "(t, nothing_seen)"]
    by (simp add: score_result_def score_misses_total kind_count_def of_kind_def add2_def)
qed (simp add: kind_count_def of_kind_def add2_def)

text \<open>Labels: a label that is seen for the first time is counted once.\<close>

definition label_total :: "tally \<Rightarrow> nat \<times> nat" where
  "label_total t = (bk_labels_found (tl_overall t), bk_misses (tl_overall t))"

lemma score_label_found:
  assumes "finite (sn_labels (snd ts))"
  shows "label_total (fst (score_label f ts l)) =
      (fst (label_total (fst ts)) + (if lb_id l \<in> sn_labels (snd ts) then 0 else 1), snd (label_total (fst ts)))"
    "sn_labels (snd (score_label f ts l)) = insert (lb_id l) (sn_labels (snd ts))"
  by (cases ts, simp add: score_label_def label_total_def tally_defs Let_def)+

definition found_upto :: "tally \<times> seen \<Rightarrow> tally \<times> seen \<Rightarrow> nat set \<Rightarrow> bool" where
  "found_upto ts ts' A \<longleftrightarrow>
     sn_labels (snd ts') = sn_labels (snd ts) \<union> A \<and>
     fst (label_total (fst ts')) + card (sn_labels (snd ts)) = fst (label_total (fst ts)) + card (sn_labels (snd ts')) \<and>
     snd (label_total (fst ts')) = snd (label_total (fst ts))"

lemma score_labels_found:
  assumes "finite (sn_labels (snd ts))"
  shows "found_upto ts (foldl (score_label f) ts ls) (lb_id ` set ls)"
  using assms
proof (induction ls arbitrary: ts)
  case (Cons l ls)
  then have "finite (sn_labels (snd (score_label f ts l)))" by (simp add: score_label_found)
  from Cons.IH [OF this] Cons.prems show ?case
    by (cases "lb_id l \<in> sn_labels (snd ts)")
      (simp_all add: found_upto_def score_label_found card_insert_if insert_absorb)
qed (simp add: found_upto_def)

lemma score_match_found:
  assumes "finite (sn_labels (snd ts))"
  shows "found_upto ts (score_match ts m) (if lm_kind m = ''hit'' then lb_id ` set (lm_labels m) else {})"
proof (cases ts)
  case (Pair t sn)
  have keep: "label_total (on_both a f t) = label_total t"
    if "\<And>b. bk_labels_found (f b) = bk_labels_found b" "\<And>b. bk_misses (f b) = bk_misses b" for a f
    using that by (simp add: label_total_def on_both_def)
  from assms Pair show ?thesis
    using score_labels_found [of "(on_both (agent_str (f_agent (lm_finding m))) (\<lambda>b. b\<lparr>bk_hits := bk_hits b + 1\<rparr>) t, sn)"
        "lm_finding m" "lm_labels m"]
    by (simp add: score_match_def Let_def found_upto_def keep)
qed

lemma score_matches_found:
  assumes "finite (sn_labels (snd ts))"
  shows "found_upto ts (foldl score_match ts ms) (lb_id ` set (concat (map lm_labels (of_kind ''hit'' ms))))"
  using assms
proof (induction ms arbitrary: ts)
  case (Cons m ms)
  from score_match_found [OF Cons.prems, of m] Cons.prems have "finite (sn_labels (snd (score_match ts m)))"
    by (simp add: found_upto_def)
  from Cons.IH [OF this] score_match_found [OF Cons.prems, of m] show ?case
    by (auto simp: found_upto_def of_kind_def)
qed (simp add: found_upto_def of_kind_def)

lemma score_missed_label: "label_total (foldl score_missed t ls) = (fst (label_total t), snd (label_total t) + length ls)"
proof (induction ls arbitrary: t)
  case (Cons l ls)
  have "label_total (score_missed t l) = (fst (label_total t), snd (label_total t) + 1)"
    by (simp add: score_missed_def label_total_def tally_defs split: option.split)
  with Cons show ?case by simp
qed simp

text \<open>A result that \<^const>\<open>classify\<close> and \<^const>\<open>missed\<close> made of a case with these expected labels.\<close>

definition scored :: "case_result \<Rightarrow> label list \<Rightarrow> bool" where
  "scored r expected \<longleftrightarrow>
     distinct (map lb_id expected) \<and> cr_missed r = missed expected (cr_matches r) \<and>
     (\<exists>fs forbidden allowed concerns. classify fs expected forbidden allowed concerns = Inr (cr_matches r))"

lemma score_case_scored:
  "score_case c fs dec confidence cost duration failed err = Inr r \<Longrightarrow> distinct (map lb_id (ec_expected c)) \<Longrightarrow>
     scored r (ec_expected c)"
  unfolding scored_def by (auto simp: score_case_def ebind_Inr intro!: exI)

lemma classify_kinds:
  assumes "classify fs expected forbidden allowed concerns = Inr ms"
  shows "\<forall>m \<in> set ms. lm_kind m \<in> set KINDS"
  using classify_judged [OF assms]
  by (induction rule: list_all2_induct) (auto simp: judged_def KINDS_def split: if_splits)

lemma scored_kinds:
  assumes "list_all2 scored rs expecteds"
  shows "\<forall>r \<in> set rs. \<forall>m \<in> set (cr_matches r). lm_kind m \<in> set KINDS"
  using assms
proof (induction rule: list_all2_induct)
  case (Cons r rs e es)
  from Cons.hyps(1) have "\<forall>m \<in> set (cr_matches r). lm_kind m \<in> set KINDS"
    by (auto simp: scored_def dest: classify_kinds)
  with Cons.IH show ?case by simp
qed simp

lemma scored_found:
  assumes "scored r expected"
  shows "card (lb_id ` set (concat (map lm_labels (of_kind ''hit'' (cr_matches r))))) + length (cr_missed r) = length expected"
proof -
  from assms obtain fs forbidden allowed concerns where
    c: "classify fs expected forbidden allowed concerns = Inr (cr_matches r)"
    and d: "distinct (map lb_id expected)" and m: "cr_missed r = missed expected (cr_matches r)"
    by (auto simp: scored_def)
  let ?hit = "set (concat (map lm_labels (of_kind ''hit'' (cr_matches r))))"
  have sub: "?hit \<subseteq> set expected" using hit_labels [OF c] by (auto simp: of_kind_def)
  have "lb_id ` ?hit = set (map lb_id (filter (\<lambda>l. lb_id l \<in> lb_id ` ?hit) expected))"
    using sub unfolding set_map set_filter by blast
  moreover have "distinct (map lb_id (filter (\<lambda>l. lb_id l \<in> lb_id ` ?hit) expected))"
    using d by (rule distinct_map_filter)
  ultimately have "card (lb_id ` ?hit) = length (filter (\<lambda>l. lb_id l \<in> lb_id ` ?hit) expected)"
    using distinct_card by fastforce
  moreover have "cr_missed r = filter (\<lambda>l. \<not> lb_id l \<in> lb_id ` ?hit) expected"
    unfolding m missed_def of_kind_def set_map ..
  ultimately show ?thesis
    using sum_length_filter_compl [of "\<lambda>l. lb_id l \<in> lb_id ` ?hit" expected] by simp
qed

lemma score_result_found:
  assumes "scored r expected"
  shows "fst (label_total (score_result t r)) + snd (label_total (score_result t r)) =
      fst (label_total t) + snd (label_total t) + length expected"
    "snd (label_total (score_result t r)) = snd (label_total t) + length (cr_missed r)"
  using score_matches_found [of "(t, nothing_seen)" "cr_matches r"] scored_found [OF assms]
  by (simp_all add: score_result_def score_missed_label found_upto_def nothing_seen_def)

lemma score_results_found:
  assumes "list_all2 scored rs expecteds"
  shows "fst (label_total (foldl score_result t rs)) + snd (label_total (foldl score_result t rs)) =
      fst (label_total t) + snd (label_total t) + length (concat expecteds) \<and>
    snd (label_total (foldl score_result t rs)) = snd (label_total t) + length (concat (map cr_missed rs))"
  using assms
proof (induction arbitrary: t rule: list_all2_induct)
  case (Cons r rs e es)
  from Cons.IH [of "score_result t r"] score_result_found [OF Cons.hyps(1), of t] show ?case by simp
qed simp

lemma kind_count_all:
  assumes "\<forall>m \<in> set ms. lm_kind m \<in> set KINDS"
  shows "length ms = kind_count ''hit'' ms + kind_count ''false_positive'' ms + kind_count ''allowed'' ms +
    kind_count ''unlabelled'' ms"
  using assms by (induction ms) (auto simp: kind_count_def of_kind_def KINDS_def)

text \<open>C37. The score of a run accounts for every finding and every label. Each judged finding is counted in
  exactly one counter, on the whole and for its agent; and every expected label of every case is either
  found or missed, once, however many findings describe it, so that recall is the share of the labels that
  were found.\<close>

theorem score_accounts:
  assumes "list_all2 scored results expecteds"
  shows "length (concat (map cr_matches results)) =
      bk_hits (er_overall (score results p ms)) + bk_false_positives (er_overall (score results p ms)) +
      bk_allowed (er_overall (score results p ms)) + bk_unlabelled (er_overall (score results p ms)) \<and>
    sum_list (map (\<lambda>x. bk_hits (snd x)) (er_by_agent (score results p ms))) =
      bk_hits (er_overall (score results p ms)) \<and>
    bk_labels_found (er_overall (score results p ms)) + bk_misses (er_overall (score results p ms)) =
      length (concat expecteds) \<and>
    bk_misses (er_overall (score results p ms)) = length (concat (map cr_missed results))"
proof -
  let ?t = "foldl score_result empty_tally results" and ?ms = "concat (map cr_matches results)"
  have kinds: "\<forall>r \<in> set results. \<forall>m \<in> set (cr_matches r). lm_kind m \<in> set KINDS"
    by (rule scored_kinds [OF assms])
  have total: "kind_total k ?t = (kind_count k ?ms, kind_count k ?ms)" if "k \<in> set KINDS" for k
    using score_results_total [OF kinds that, of empty_tally]
    by (simp add: kind_total_def add2_def empty_tally_def quiet_updates agent_sum_def)
  have t: "er_overall (score results p ms) = tl_overall ?t" by (simp add: score_def Let_def)
  have counts: "bk_hits (tl_overall ?t) = kind_count ''hit'' ?ms"
    "bk_false_positives (tl_overall ?t) = kind_count ''false_positive'' ?ms"
    "bk_allowed (tl_overall ?t) = kind_count ''allowed'' ?ms"
    "bk_unlabelled (tl_overall ?t) = kind_count ''unlabelled'' ?ms"
    "agent_sum bk_hits ?t = kind_count ''hit'' ?ms"
    using total [of "''hit''"] total [of "''false_positive''"] total [of "''allowed''"] total [of "''unlabelled''"]
    by (simp_all add: kind_total_def kind_counter_def [abs_def] KINDS_def)
  have "sum_list (map g (sort_key fst xs)) = sum_list (map g xs)" for g :: "_ \<Rightarrow> nat" and xs :: "(string \<times> bucket) list"
    by (simp flip: sum_mset_sum_list)
  then have agents: "sum_list (map (\<lambda>x. bk_hits (snd x)) (er_by_agent (score results p ms))) = agent_sum bk_hits ?t"
    by (simp add: agent_sum_def score_def Let_def)
  have "length ?ms = kind_count ''hit'' ?ms + kind_count ''false_positive'' ?ms +
      kind_count ''allowed'' ?ms + kind_count ''unlabelled'' ?ms"
    using kinds by (intro kind_count_all) auto
  moreover have "bk_labels_found (tl_overall ?t) + bk_misses (tl_overall ?t) = length (concat expecteds)"
    "bk_misses (tl_overall ?t) = length (concat (map cr_missed results))"
    using score_results_found [OF assms, of empty_tally]
    by (simp_all add: label_total_def empty_tally_def empty_bucket_def)
  ultimately show ?thesis unfolding t agents counts by simp
qed

lemma sample_scored: "\<exists>r. scored r [sample_label 0 ''authz'' 14, sample_label 2 ''docs'' 90]"
proof -
  let ?expected = "[sample_label 0 ''authz'' 14, sample_label 2 ''docs'' 90]"
  define c :: eval_case where "c = \<lparr>ec_id = ''c'', ec_title = [], ec_summary = [], ec_expected_decision = None,
    ec_files = [], ec_context_chunks = [], ec_expected = ?expected, ec_body = [], ec_provenance = None,
    ec_must_not_find = [], ec_may_find = [], ec_permitted_concerns = []\<rparr>"
  obtain r where "score_case c [sample_injection] ''escalate'' 1 0 0 [] None = Inr r"
    by (simp add: score_case_def c_def sample_classify)
  then have "scored r ?expected"
    using score_case_scored [of c] by (fastforce simp: c_def sample_label_def)
  then show ?thesis by blast
qed

lemma score_accounts_witness:
  "\<exists>r. scored r [sample_label 0 ''authz'' 14, sample_label 2 ''docs'' 90] \<and>
     bk_labels_found (er_overall (score [r] ''echo'' [])) + bk_misses (er_overall (score [r] ''echo'' [])) = 2"
proof -
  let ?expected = "[sample_label 0 ''authz'' 14, sample_label 2 ''docs'' 90]"
  obtain r where "scored r ?expected" using sample_scored by blast
  with score_accounts [of "[r]" "[?expected]" "''echo''" "[]"] show ?thesis by auto
qed

subsection \<open>Calibration\<close>

definition confident :: "label_match list \<Rightarrow> bool" where
  "confident ms \<longleftrightarrow> list_all (\<lambda>m. 0 \<le> lm_confidence m \<and> lm_confidence m \<le> 1) ms"

text \<open>The bins divide the unit interval.\<close>

lemma bins_divide:
  "confident ms \<Longrightarrow> sum_list (map (\<lambda>b. length (bin_members ms b)) CONFIDENCE_BINS) = length ms"
proof (induction ms)
  case (Cons m ms)
  have "sum_list (map (\<lambda>b. if fst b \<le> x \<and> x < snd b then 1 else 0) CONFIDENCE_BINS) = (1::nat)"
    if "0 \<le> x" "x \<le> 1" for x
    using that by (auto simp: CONFIDENCE_BINS_def)
  moreover have "sum_list (map (\<lambda>b. length (bin_members (m # ms) b)) bs) =
      sum_list (map (\<lambda>b. if fst b \<le> lm_confidence m \<and> lm_confidence m < snd b then 1 else 0) bs) +
      sum_list (map (\<lambda>b. length (bin_members ms b)) bs)" for bs
    by (induction bs) (simp_all add: bin_members_def)
  ultimately show ?case using Cons by (simp add: confident_def)
qed (simp add: bin_members_def CONFIDENCE_BINS_def)

definition bin_gap :: "label_match list \<Rightarrow> real \<times> real \<Rightarrow> real" where
  "bin_gap ms b =
     \<bar>real (length (of_kind ''hit'' (bin_members ms b))) - sum_list (map lm_confidence (bin_members ms b))\<bar>"

lemma sum_confidences:
  "confident ms \<Longrightarrow> 0 \<le> sum_list (map lm_confidence ms) \<and> sum_list (map lm_confidence ms) \<le> real (length ms)"
  by (induction ms) (auto simp: confident_def)

lemma bin_gap_bound:
  assumes "confident ms"
  shows "bin_gap ms b \<le> real (length (bin_members ms b))"
proof -
  have "confident (bin_members ms b)" using assms by (auto simp: confident_def bin_members_def list_all_iff)
  from sum_confidences [OF this] have "0 \<le> sum_list (map lm_confidence (bin_members ms b))"
    "sum_list (map lm_confidence (bin_members ms b)) \<le> real (length (bin_members ms b))" by simp_all
  moreover have "length (of_kind ''hit'' (bin_members ms b)) \<le> length (bin_members ms b)"
    by (simp add: of_kind_def)
  ultimately show ?thesis unfolding bin_gap_def abs_le_iff by linarith
qed

lemma bin_term:
  assumes "0 < n"
  shows "(if 0 < cb_count (make_bin ms b)
      then real (cb_count (make_bin ms b)) / n * \<bar>cb_hit_rate (make_bin ms b) - cb_mean_confidence (make_bin ms b)\<bar>
      else 0) = bin_gap ms b / n"
proof (cases "bin_members ms b = []")
  case True
  then show ?thesis by (simp add: make_bin_def bin_gap_def of_kind_def)
next
  case False
  define c h s where "c = real (length (bin_members ms b))"
    and "h = real (length (of_kind ''hit'' (bin_members ms b)))"
    and "s = sum_list (map lm_confidence (bin_members ms b))"
  have "0 < c" using False by (simp add: c_def)
  then have "c / n * \<bar>h / c - s / c\<bar> = \<bar>h - s\<bar> / n"
    by (simp add: abs_divide flip: diff_divide_distrib)
  with False show ?thesis by (simp add: make_bin_def Let_def bin_gap_def c_def h_def s_def)
qed

lemma foldl_if_sum:
  "foldl (\<lambda>err b. if p b then err + g b else err) (a :: real) bs = a + sum_list (map (\<lambda>b. if p b then g b else 0) bs)"
  by (induction bs arbitrary: a) simp_all

lemma ece_sum:
  assumes "scoreable ms \<noteq> []"
  shows "ece ms = sum_list (map (bin_gap (scoreable ms)) CONFIDENCE_BINS) / real (length (scoreable ms))"
proof -
  let ?n = "real (length (scoreable ms))"
  have n: "0 < ?n" using assms by simp
  have "ece ms = sum_list (map (\<lambda>b. bin_gap (scoreable ms) b / ?n) CONFIDENCE_BINS)"
    using assms by (simp add: ece_def calibration_def foldl_if_sum o_def bin_term [OF n])
  also have "\<dots> = sum_list (map (bin_gap (scoreable ms)) CONFIDENCE_BINS) / ?n"
    by (simp add: divide_inverse sum_list_mult_const)
  finally show ?thesis .
qed

text \<open>For judged findings with confidences between 0 and 1, the calibration bins divide them: every one is
  in exactly one bin. The expected calibration error is the sum over the bins of the distance between the
  number of hits and the sum of the stated confidences, per finding, and lies between 0 and 1.\<close>

theorem calibration_sound:
  assumes "confident (scoreable ms)"
  shows "sum_list (map cb_count (calibration ms)) = length (scoreable ms) \<and>
    ece ms * real (length (scoreable ms)) = sum_list (map (bin_gap (scoreable ms)) CONFIDENCE_BINS) \<and>
    0 \<le> ece ms \<and> ece ms \<le> 1"
proof (cases "scoreable ms = []")
  case True
  then show ?thesis
    by (simp add: ece_def calibration_def make_bin_def bin_members_def bin_gap_def of_kind_def CONFIDENCE_BINS_def)
next
  case False
  let ?n = "real (length (scoreable ms))"
  have n: "0 < ?n" using False by simp
  have "cb_count (make_bin ns b) = length (bin_members ns b)" for ns b
    by (simp add: make_bin_def Let_def)
  then have counts: "sum_list (map cb_count (calibration ms)) = length (scoreable ms)"
    using bins_divide [OF assms] by (simp add: calibration_def o_def)
  have "sum_list (map (bin_gap (scoreable ms)) bs) \<le> real (sum_list (map (\<lambda>b. length (bin_members (scoreable ms) b)) bs))"
    for bs by (induction bs) (use bin_gap_bound [OF assms] in \<open>auto intro: add_mono\<close>)
  from this [of CONFIDENCE_BINS] have "sum_list (map (bin_gap (scoreable ms)) CONFIDENCE_BINS) \<le> ?n"
    by (simp add: bins_divide [OF assms])
  moreover have "0 \<le> sum_list (map (bin_gap (scoreable ms)) CONFIDENCE_BINS)"
    by (intro sum_list_nonneg) (auto simp: bin_gap_def)
  ultimately show ?thesis using n counts by (simp add: ece_sum [OF False])
qed

lemma calibration_sound_witness:
  "ece [plain_match sample_injection None ''hit'' [], plain_match sample_logic None ''unlabelled'' []] \<le> 1"
proof -
  have "confident (scoreable [plain_match sample_injection None ''hit'' [], plain_match sample_logic None ''unlabelled'' []])"
    by (simp add: confident_def scoreable_def plain_match_def lm_confidence_def sample_injection_def)
  from calibration_sound [OF this] show ?thesis by blast
qed

end
