(* ===== verification/EvalRunner.thy ===== *)
theory EvalRunner
  imports Engines Metrics Effects
begin

section \<open>Running the panel over the golden set\<close>

text \<open>
  \<^verbatim>\<open>evaluation/runner.py\<close>. The engines' panels and the retrieval against an index are fields of the
  environment; a run of the whole set is the list of its case results, in the order \<^verbatim>\<open>asyncio.gather\<close>
  returns them. The properties: the guard against outages refuses exactly the runs that lost too much, and
  a repeated evaluation reports the runs before the first refused one and nothing else.
\<close>

record eval_env =
  ev_settings :: settings
  ev_langgraph :: bool
  ev_temporal :: bool
  ev_panel :: "engine \<Rightarrow> review_context \<Rightarrow> agent_type list \<Rightarrow> (llm_world, agent_verdict list) effect"
  ev_retrieve :: "eval_case \<Rightarrow> pull_request \<Rightarrow> (llm_world, code_chunk list) effect"
  ev_elapsed_ms :: int

definition case_context ::
  "eval_env \<Rightarrow> eval_case \<Rightarrow> bool \<Rightarrow> bool \<Rightarrow> (llm_world, review_context) effect" where
  "case_context env c no_context with_retrieval =
     (let pr = case_pull_request c in
      case render_for_prompt (pr_files pr) (s_max_diff_bytes (ev_settings env)) of (diff_text, truncated) \<Rightarrow>
        eff_bind (if no_context then eff_return []
                  else if with_retrieval
                  then (if ec_context_chunks c = [] then eff_return [] else ev_retrieve env c pr)
                  else eff_return (ec_context_chunks c)) (\<lambda>chunks.
          eff_return \<lparr>rc_pr = pr, rc_diff_text = diff_text, rc_chunks = chunks, rc_conventions = [],
            rc_truncated = truncated, rc_index_drift = None, rc_indexed_sha = None\<rparr>))"

definition start_case :: "uuid \<Rightarrow> bool \<Rightarrow> (llm_world, unit) effect" where
  "start_case review_id capped w =
     (Inr (), w\<lparr>lw_spine := new_spine (Some review_id) None None (review_id + 1),
               lw_budget := Some \<lparr>b_review_id = review_id, b_day_spent = 0, b_review_spent = 0, b_enabled = capped\<rparr>\<rparr>)"

definition score_panel :: "eval_env \<Rightarrow> eval_case \<Rightarrow> agent_verdict list \<Rightarrow> exc + case_result" where
  "score_panel env c vs =
     (case aggregate (ev_settings env) vs of (fs, confidence) \<Rightarrow>
        score_case c fs (decision_str (g_decision (evaluate (ev_settings env) fs vs confidence False False)))
          confidence (sum_list (map v_cost_usd vs)) (ev_elapsed_ms env)
          (map (\<lambda>v. agent_str (v_agent v)) (filter (\<lambda>v. \<not> v_ok v) vs)) None)"

definition run_case ::
  "eval_env \<Rightarrow> uuid \<Rightarrow> eval_case \<Rightarrow> string option \<Rightarrow> real option \<Rightarrow> bool \<Rightarrow> bool \<Rightarrow> (llm_world, case_result) effect" where
  "run_case env review_id c engine_name budget_cap no_context with_retrieval =
     eff_bind (case_context env c no_context with_retrieval) (\<lambda>ctx.
     eff_bind (start_case review_id (budget_cap \<noteq> None)) (\<lambda>_.
     eff_bind (eff_lift (get_engine (ev_langgraph env) (ev_temporal env) engine_name)) (\<lambda>eng.
     eff_bind (ev_panel env eng ctx ALL_AGENTS) (\<lambda>vs.
       eff_lift (score_panel env c vs)))))"

subsection \<open>Outages\<close>

definition OUTAGE_THRESHOLD :: real where
  "OUTAGE_THRESHOLD = 25 / 100"

definition DEGRADED_THRESHOLD :: real where
  "DEGRADED_THRESHOLD = 10 / 100"

definition eval_run_failed :: "string \<Rightarrow> exc" where
  "eval_run_failed m = OtherError ''EvalRunFailed'' m"

definition dead_cases :: "case_result list \<Rightarrow> nat" where
  "dead_cases rs = length (filter (\<lambda>r. length (cr_failed_agents r) = length ALL_AGENTS) rs)"

definition lost_calls :: "case_result list \<Rightarrow> nat" where
  "lost_calls rs = sum_list (map (\<lambda>r. length (cr_failed_agents r)) rs)"

definition agent_calls :: "case_result list \<Rightarrow> nat" where
  "agent_calls rs = length rs * length ALL_AGENTS"

definition dead_message :: "case_result list \<Rightarrow> string" where
  "dead_message rs =
     py_str_nat (dead_cases rs) @ '' of '' @ py_str_nat (length rs) @ '' case(s) lost their whole panel '' @
     EM_DASH @ '' this is an outage, not a result, and the cases that did run are whichever ones got '' @
     ''in first. Nothing was scored or saved. Check the worker log for the '' @
     ''provider error (an exhausted credit balance looks exactly like this).''"

definition lost_message :: "case_result list \<Rightarrow> string" where
  "lost_message rs =
     py_str_nat (lost_calls rs) @ '' of '' @ py_str_nat (agent_calls rs) @ '' agent call(s) failed ('' @
     py_fixed 0 (100 * real (lost_calls rs) / real (agent_calls rs)) @ ''%) '' @ EM_DASH @ '' the panel was '' @
     ''degraded across the run, so the findings are whichever agents happened to '' @
     ''answer. Nothing was scored or saved. Check the worker log for the provider '' @
     ''error (an exhausted credit balance looks exactly like this).''"

definition refuse_if_everything_failed :: "case_result list \<Rightarrow> exc + unit" where
  "refuse_if_everything_failed rs =
     (if rs = [] then Inr ()
      else if dead_cases rs \<noteq> 0 \<and> OUTAGE_THRESHOLD < real (dead_cases rs) / real (length rs)
      then Inl (eval_run_failed (dead_message rs))
      else if agent_calls rs \<noteq> 0 \<and> DEGRADED_THRESHOLD < real (lost_calls rs) / real (agent_calls rs)
      then Inl (eval_run_failed (lost_message rs))
      else Inr ())"

subsection \<open>Repeated runs\<close>

definition agent_models :: "settings \<Rightarrow> (string \<times> string) list" where
  "agent_models s = map (\<lambda>a. (agent_str a, model_for s (agent_str a))) ALL_AGENTS"

text \<open>The loop over the runs, with the reports so far. \<open>gather n\<close> is the whole set run for the
  \<open>n\<close>-th time.\<close>

fun eval_loop ::
  "settings \<Rightarrow> string \<Rightarrow> (nat \<Rightarrow> ('s, case_result list) effect) \<Rightarrow> nat list \<Rightarrow> eval_report list \<Rightarrow>
     ('s, eval_report list) effect" where
  "eval_loop s provider gather [] reports w = (Inr reports, w)"
| "eval_loop s provider gather (n # ns) reports w =
     (case gather n w of
        (Inl e, w') \<Rightarrow> (Inl e, w')
      | (Inr results, w') \<Rightarrow>
          (case refuse_if_everything_failed results of
             Inl e \<Rightarrow> (if reports = [] then (Inl e, w') else (Inr reports, w'))
           | Inr _ \<Rightarrow>
               eval_loop s provider gather ns (reports @ [score results provider (agent_models s)]) w'))"

definition run_eval ::
  "settings \<Rightarrow> string \<Rightarrow> (nat \<Rightarrow> ('s, case_result list) effect) \<Rightarrow> nat \<Rightarrow> ('s, eval_report list) effect" where
  "run_eval s provider gather repeat = eval_loop s provider gather [0..<repeat] []"

subsection \<open>What is refused and what is reported\<close>

definition healthy_run :: "case_result list \<Rightarrow> bool" where
  "healthy_run rs \<longleftrightarrow> 4 * dead_cases rs \<le> length rs \<and> 10 * lost_calls rs \<le> 4 * length rs"

lemma length_ALL_AGENTS [simp]: "length ALL_AGENTS = 4"
  by (simp add: ALL_AGENTS_def)

lemma refuse_iff: "refuse_if_everything_failed rs = Inr () \<longleftrightarrow> healthy_run rs"
proof (cases "rs = []")
  case True
  then show ?thesis
    by (simp add: refuse_if_everything_failed_def healthy_run_def dead_cases_def lost_calls_def)
next
  case False
  define n d l where "n = real (length rs)" and "d = real (dead_cases rs)" and "l = real (lost_calls rs)"
  have n: "0 < n" using False by (simp add: n_def)
  have "25 / 100 < d / n \<longleftrightarrow> n < 4 * d" "10 / 100 < l / (n * 4) \<longleftrightarrow> 4 * n < 10 * l"
    using n by (auto simp: field_simps)
  moreover have "n < 4 * d \<longleftrightarrow> length rs < 4 * dead_cases rs" "4 * n < 10 * l \<longleftrightarrow> 4 * length rs < 10 * lost_calls rs"
    unfolding n_def d_def l_def by (metis of_nat_less_iff of_nat_mult of_nat_numeral)+
  moreover have "dead_cases rs \<noteq> 0" if "length rs < 4 * dead_cases rs" using that by linarith
  ultimately show ?thesis
    using False
    by (auto simp: refuse_if_everything_failed_def healthy_run_def OUTAGE_THRESHOLD_def DEGRADED_THRESHOLD_def
        agent_calls_def n_def d_def l_def)
qed

text \<open>The first runs of the set, one after another, each from the state the one before left: they all returned,
  with the results \<open>runs\<close>, and left the state \<open>w'\<close>.\<close>

fun gathered ::
  "(nat \<Rightarrow> ('s, case_result list) effect) \<Rightarrow> nat \<Rightarrow> 's \<Rightarrow> case_result list list \<Rightarrow> 's \<Rightarrow> bool" where
  "gathered gather n w [] w' \<longleftrightarrow> w' = w"
| "gathered gather n w (rs # runs) w' \<longleftrightarrow> (\<exists>w1. gather n w = (Inr rs, w1) \<and> gathered gather (n + 1) w1 runs w')"

definition loop_ended ::
  "settings \<Rightarrow> string \<Rightarrow> (nat \<Rightarrow> ('s, case_result list) effect) \<Rightarrow> nat \<Rightarrow> nat \<Rightarrow> eval_report list \<Rightarrow>
     case_result list list \<Rightarrow> 's \<Rightarrow> exc + eval_report list \<Rightarrow> 's \<Rightarrow> bool" where
  "loop_ended s provider gather n k reports runs w1 r w' \<longleftrightarrow>
     (case r of
        Inr out \<Rightarrow>
          out = reports @ map (\<lambda>rs. score rs provider (agent_models s)) runs \<and>
          (length runs = k \<and> w' = w1 \<or>
           length runs < k \<and> out \<noteq> [] \<and> (\<exists>rs. gather (n + length runs) w1 = (Inr rs, w') \<and> \<not> healthy_run rs))
      | Inl e \<Rightarrow>
          length runs < k \<and>
          (gather (n + length runs) w1 = (Inl e, w') \<or>
           reports = [] \<and> runs = [] \<and>
             (\<exists>rs. gather n w1 = (Inr rs, w') \<and> refuse_if_everything_failed rs = Inl e)))"

lemma eval_loop_reports:
  assumes "eval_loop s provider gather [n..<n + k] reports w = (r, w')"
  shows "\<exists>runs w1. gathered gather n w runs w1 \<and> list_all healthy_run runs \<and>
    loop_ended s provider gather n k reports runs w1 r w'"
  using assms
proof (induction k arbitrary: n reports w)
  case 0
  then show ?case by (intro exI [of _ "[]"] exI [of _ w]) (auto simp: loop_ended_def)
next
  case (Suc k)
  have ns: "[n..<n + Suc k] = n # [n + 1..<(n + 1) + k]" by (simp add: upt_conv_Cons)
  obtain q w1 where g: "gather n w = (q, w1)" by fastforce
  show ?case
  proof (cases q)
    case (Inl e)
    with Suc.prems g have "r = Inl e" "w' = w1" unfolding ns by simp_all
    with g Inl show ?thesis by (intro exI [of _ "[]"] exI [of _ w]) (simp add: loop_ended_def)
  next
    case (Inr results)
    show ?thesis
    proof (cases "refuse_if_everything_failed results")
      case (Inl e)
      with Suc.prems g \<open>q = Inr results\<close> have "w' = w1" "r = (if reports = [] then Inl e else Inr reports)"
        unfolding ns by (auto split: if_splits)
      moreover have "\<not> healthy_run results" using Inl refuse_iff [of results] by simp
      ultimately show ?thesis
        using g \<open>q = Inr results\<close> Inl by (intro exI [of _ "[]"] exI [of _ w]) (simp add: loop_ended_def)
    next
      case (Inr u)
      let ?next = "reports @ [score results provider (agent_models s)]"
      from Suc.prems g \<open>q = Inr results\<close> Inr
      have "eval_loop s provider gather [n + 1..<(n + 1) + k] ?next w1 = (r, w')" unfolding ns by simp
      from Suc.IH [OF this] obtain runs w2 where
        "gathered gather (n + 1) w1 runs w2" "list_all healthy_run runs"
        "loop_ended s provider gather (n + 1) k ?next runs w2 r w'" by blast
      moreover have "healthy_run results" using Inr refuse_iff [of results] by simp
      ultimately show ?thesis
        using g \<open>q = Inr results\<close>
        by (intro exI [of _ "results # runs"] exI [of _ w2]) (auto simp: loop_ended_def split: sum.splits)
    qed
  qed
qed

lemma run_eval_reports:
  assumes "run_eval s provider gather repeat w = (Inr reports, w')"
  shows "\<exists>runs. reports = map (\<lambda>rs. score rs provider (agent_models s)) runs \<and> list_all healthy_run runs \<and>
    length runs \<le> repeat"
proof -
  from assms have "eval_loop s provider gather [0..<0 + repeat] [] w = (Inr reports, w')" by (simp add: run_eval_def)
  from eval_loop_reports [OF this] show ?thesis by (auto simp: loop_ended_def)
qed

text \<open>C38. An outage is never reported as a measurement, and nothing else is left out. The evaluation runs the
  set again and again, and the runs before the first refused one - in which at most a quarter of the cases
  lost their whole panel and at most a tenth of the agent calls failed - are scored, each from exactly the
  results it gathered and in order. If it returns, these runs are all that were asked for, or there is at
  least one and the run after them was gathered, refused, and the last one: the state is the one it left. If
  it raises, the next run raised, or it was the first and was refused.\<close>

theorem run_eval_healthy:
  assumes "run_eval s provider gather repeat w = (r, w')"
  shows "\<exists>runs w1. gathered gather 0 w runs w1 \<and> list_all healthy_run runs \<and>
    (case r of
       Inr reports \<Rightarrow>
         reports = map (\<lambda>rs. score rs provider (agent_models s)) runs \<and>
         (length runs = repeat \<and> w' = w1 \<or>
          length runs < repeat \<and> runs \<noteq> [] \<and>
            (\<exists>rs. gather (length runs) w1 = (Inr rs, w') \<and> \<not> healthy_run rs))
     | Inl e \<Rightarrow>
         length runs < repeat \<and>
         (gather (length runs) w1 = (Inl e, w') \<or>
          runs = [] \<and> (\<exists>rs. gather 0 w1 = (Inr rs, w') \<and> refuse_if_everything_failed rs = Inl e)))"
proof -
  from assms have "eval_loop s provider gather [0..<0 + repeat] [] w = (r, w')" by (simp add: run_eval_def)
  from eval_loop_reports [OF this] obtain runs w1 where "gathered gather 0 w runs w1" "list_all healthy_run runs"
    "loop_ended s provider gather 0 repeat [] runs w1 r w'" by blast
  then show ?thesis
    by (intro exI [of _ runs] exI [of _ w1]) (cases r; simp add: loop_ended_def)
qed

text \<open>Three runs of a set of one case: the first is healthy, in the second the whole panel fails. The state
  counts the runs.\<close>

definition plain_result :: "string list \<Rightarrow> case_result" where
  "plain_result failed =
     \<lparr>cr_case_id = ''c'', cr_matches = [], cr_missed = [], cr_decision = ''suppress'', cr_expected_decision = None,
      cr_confidence = 1, cr_cost_usd = 0, cr_duration_ms = 1, cr_failed_agents = failed, cr_error = None\<rparr>"

definition fading_set :: "nat \<Rightarrow> (nat, case_result list) effect" where
  "fading_set n w = (Inr [plain_result (if n = 0 then [] else map agent_str ALL_AGENTS)], w + 1)"

lemma fading_run:
  "run_eval default_settings ''echo'' fading_set 3 0 =
     (Inr [score [plain_result []] ''echo'' (agent_models default_settings)], 2)"
  by (simp add: run_eval_def upt_rec fading_set_def refuse_if_everything_failed_def dead_cases_def lost_calls_def
      agent_calls_def plain_result_def OUTAGE_THRESHOLD_def DEGRADED_THRESHOLD_def)

lemma run_eval_healthy_witness:
  "\<exists>runs w1 rs. length runs = 1 \<and> gathered fading_set 0 0 runs w1 \<and> list_all healthy_run runs \<and>
     fading_set 1 w1 = (Inr rs, 2) \<and> \<not> healthy_run rs"
  using run_eval_healthy [OF fading_run] by (auto simp: length_Suc_conv)

end
