(* ===== verification/Migrate.thy ===== *)
theory Migrate
  imports Regex Effects
begin

section \<open>Migrations\<close>

text \<open>
  \<^verbatim>\<open>db/migrate.py\<close>: splitting a migration into its statements and applying the files that the ledger
  does not name. The splitter is a loop over the characters with five flags and one buffer; it is proved
  equal to a reference that reads one quoted part, comment or separator at a time. The database and the
  checksum of a file are parameters. The properties: the pieces of the split are the text and nothing but
  the text, well-formed statements that are written one after another are read back, and over any number of
  runs the files are executed in order, none again once the ledger names it.
\<close>

subsection \<open>Splitting\<close>

definition SEMICOLON :: char where "SEMICOLON = CHR 0x3B"

definition LF :: char where "LF = CHR 0x0A"

definition SINGLE_QUOTE :: char where "SINGLE_QUOTE = CHR 0x27"

definition DOUBLE_QUOTE :: char where "DOUBLE_QUOTE = CHR 0x22"

definition is_tag_start :: "char \<Rightarrow> bool" where
  "is_tag_start c \<longleftrightarrow> is_upper c \<or> is_lower c \<or> code c = 95"

definition DOLLAR_TAG :: rx where
  "DOLLAR_TAG =
     Alt (Seq (Lit ''$'') (Seq (Chr is_tag_start) (Seq (rx_star is_word) (Lit ''$'')))) (Lit ''$$'')"

text \<open>\<^verbatim>\<open>_DOLLAR_TAG.match(sql, i)\<close> with the text that matched.\<close>

definition dollar_tag :: "string \<Rightarrow> string option" where
  "dollar_tag s =
     (case rx_match DOLLAR_TAG s of
        None \<Rightarrow> None
      | Some (pv, s', g) \<Rightarrow> Some (take (length s - length s') s))"

text \<open>At most one of the flags of the loop is set at a time, because each is set only when none is.\<close>

datatype sql_mode = Plain | InLineComment | InBlockComment | InDollar string | InSingle | InDouble

definition flush :: "string \<Rightarrow> string list \<Rightarrow> string list" where
  "flush buf out = (if py_strip buf = [] then out else out @ [py_strip buf])"

text \<open>A tag is never empty, so dropping one character less of the rest passes over it.\<close>

function (sequential) split_loop :: "sql_mode \<Rightarrow> string \<Rightarrow> string list \<Rightarrow> string \<Rightarrow> string list" where
  "split_loop mode buf out [] = flush buf out"
| "split_loop InLineComment buf out (c # cs) =
     split_loop (if c = LF then Plain else InLineComment) (buf @ [c]) out cs"
| "split_loop InBlockComment buf out (c # cs) =
     (if take 2 (c # cs) = ''*/'' then split_loop Plain (buf @ take 2 (c # cs)) out (drop 1 cs)
      else split_loop InBlockComment (buf @ [c]) out cs)"
| "split_loop (InDollar tag) buf out (c # cs) =
     (if startswith (c # cs) tag then split_loop Plain (buf @ tag) out (drop (length tag - 1) cs)
      else split_loop (InDollar tag) (buf @ [c]) out cs)"
| "split_loop InSingle buf out (c # cs) =
     split_loop (if c = SINGLE_QUOTE then Plain else InSingle) (buf @ [c]) out cs"
| "split_loop InDouble buf out (c # cs) =
     split_loop (if c = DOUBLE_QUOTE then Plain else InDouble) (buf @ [c]) out cs"
| "split_loop Plain buf out (c # cs) =
     (if take 2 (c # cs) = ''--'' then split_loop InLineComment (buf @ ''--'') out (drop 1 cs)
      else if take 2 (c # cs) = ''/*'' then split_loop InBlockComment (buf @ ''/*'') out (drop 1 cs)
      else if c = SINGLE_QUOTE then split_loop InSingle (buf @ [c]) out cs
      else if c = DOUBLE_QUOTE then split_loop InDouble (buf @ [c]) out cs
      else case (if c = CHR ''$'' then dollar_tag (c # cs) else None) of
        Some tag \<Rightarrow> split_loop (InDollar tag) (buf @ tag) out (drop (length tag - 1) cs)
      | None \<Rightarrow>
          (if c = SEMICOLON then split_loop Plain [] (flush buf out) cs
           else split_loop Plain (buf @ [c]) out cs))"
  by pat_completeness auto
termination
  by (relation "measure (\<lambda>(mode, buf, out, s). length s)") auto

declare split_loop.simps [simp del]

text \<open>\<^verbatim>\<open>_is_only_comments\<close>\<close>

definition code_line :: "string \<Rightarrow> bool" where
  "code_line l \<longleftrightarrow> py_strip l \<noteq> [] \<and> \<not> startswith (py_strip l) ''--''"

definition is_only_comments :: "string \<Rightarrow> bool" where
  "is_only_comments stmt \<longleftrightarrow> py_strip (py_join [LF] (filter code_line (py_splitlines stmt))) = []"

definition split_statements :: "string \<Rightarrow> string list" where
  "split_statements sql = filter (\<lambda>s. \<not> is_only_comments s) (split_loop Plain [] [] sql)"

subsection \<open>The reference\<close>

text \<open>The text up to and with the first occurrence of a closing delimiter, and what follows it; all of the
  text when there is none.\<close>

fun cut_after :: "string \<Rightarrow> string \<Rightarrow> string \<times> string" where
  "cut_after w [] = ([], [])"
| "cut_after w (c # cs) =
     (if prefix w (c # cs) then (w, drop (length w) (c # cs))
      else (case cut_after w cs of (a, b) \<Rightarrow> (c # a, b)))"

text \<open>Every form of quoting is an opening delimiter and the delimiter that closes it.\<close>

definition delimiters :: "string \<Rightarrow> (string \<times> string) option" where
  "delimiters s =
     (if prefix ''--'' s then Some (''--'', [LF])
      else if prefix ''/*'' s then Some (''/*'', ''*/'')
      else if prefix [SINGLE_QUOTE] s then Some ([SINGLE_QUOTE], [SINGLE_QUOTE])
      else if prefix [DOUBLE_QUOTE] s then Some ([DOUBLE_QUOTE], [DOUBLE_QUOTE])
      else map_option (\<lambda>t. (t, t)) (dollar_tag s))"

definition prepend :: "string \<Rightarrow> string list \<Rightarrow> string list" where
  "prepend a ps = (case ps of [] \<Rightarrow> [a] | p # ps' \<Rightarrow> (a @ p) # ps')"

lemma cut_after_append: "cut_after w s = (a, b) \<Longrightarrow> s = a @ b"
proof (induction s arbitrary: a)
  case (Cons c s)
  then show ?case by (auto simp: prefix_def split: if_splits prod.splits)
qed simp

lemma cut_after_shorter: "(a, b) = cut_after w (drop n s) \<Longrightarrow> length b \<le> length s"
  using cut_after_append [of w "drop n s" a b] by (metis diff_le_self dual_order.trans le_add2 length_append length_drop)

function raw_split :: "string \<Rightarrow> string list" where
  "raw_split [] = [[]]"
| "raw_split (c # cs) =
     (case delimiters (c # cs) of
        Some (opn, cls) \<Rightarrow>
          (case cut_after cls (drop (length opn - 1) cs) of
             (body, rest) \<Rightarrow> prepend (opn @ body) (raw_split rest))
      | None \<Rightarrow> if c = SEMICOLON then [] # raw_split cs else prepend [c] (raw_split cs))"
  by pat_completeness auto
termination by (relation "measure length") (auto simp: less_Suc_eq_le dest!: cut_after_shorter)

declare raw_split.simps(2) [simp del]

definition reference_split :: "string \<Rightarrow> string list" where
  "reference_split sql =
     filter (\<lambda>s. \<not> is_only_comments s) (filter (\<lambda>s. s \<noteq> []) (map py_strip (raw_split sql)))"

subsection \<open>Dollar tags\<close>

definition tag_of :: "string \<Rightarrow> string option" where
  "tag_of s =
     (case s of
        [] \<Rightarrow> None
      | c # r \<Rightarrow>
          (if c = CHR ''$'' \<and> prefix ''$'' (dropWhile is_word r) \<and>
              (takeWhile is_word r = [] \<or> is_tag_start (hd (takeWhile is_word r)))
           then Some (''$'' @ takeWhile is_word r @ ''$'') else None))"

lemma dollar_not_word: "\<not> is_word (CHR ''$'')" "\<not> is_tag_start (CHR ''$'')"
  by (simp_all add: is_tag_start_def char_class_defs)

lemma tag_start_word: "is_tag_start c \<Longrightarrow> is_word c"
  by (auto simp: is_tag_start_def is_word_def is_alnum_def)

lemma mt_tag_tail:
  "mt (Seq (rx_star is_word) (Lit ''$'')) (pv, ds, g) =
     (if prefix ''$'' (dropWhile is_word ds)
      then [(Some (CHR ''$''), drop 1 (dropWhile is_word ds), g)] else [])"
proof -
  let ?w = "takeWhile is_word ds" and ?r = "dropWhile is_word ds"
  have "mt (Seq (rx_star is_word) (Lit ''$'')) (pv, ?w @ ?r, g) = mt (Lit ''$'') (last_of pv ?w, ?r, g)"
    using dollar_not_word hd_dropWhile [of is_word ds]
    by (intro mt_commit) (auto simp: stops_def list_all_iff dest: set_takeWhileD)
  then show ?thesis by (simp add: advance_def split: if_splits) (auto simp: prefix_def)
qed



lemma mt_Seq_Chr: "mt (Seq (Chr p) r) (pv, s, g) =
    (case s of [] \<Rightarrow> [] | c # cs \<Rightarrow> if p c then mt r (Some c, cs, g) else [])"
  by (cases s) simp_all

lemma mt_DOLLAR_TAG:
  "mt DOLLAR_TAG (pv, CHR ''$'' # r, g) =
     (case r of
        [] \<Rightarrow> []
      | d # ds \<Rightarrow>
          (if is_tag_start d \<and> prefix ''$'' (dropWhile is_word ds)
           then [(Some (CHR ''$''), drop 1 (dropWhile is_word ds), g)] else [])) @
     (if prefix ''$'' r then [(Some (CHR ''$''), drop 1 r, g)] else [])"
proof -
  have "mt (Seq (Lit ''$'') R) (pv, CHR ''$'' # r, g) = mt R (Some (CHR ''$''), r, g)" for R
    using mt_Seq_Lit [of "''$''" R pv r g] by (simp add: last_of_def del: mt.simps)
  moreover have "mt (Lit ''$$'') (pv, CHR ''$'' # r, g) =
      (if prefix ''$'' r then [(Some (CHR ''$''), drop 1 r, g)] else [])"
    by (auto simp: advance_def prefix_def)
  ultimately show ?thesis
    by (simp add: DOLLAR_TAG_def mt_Seq_Chr mt_tag_tail del: mt.simps(2,5,6) split: list.splits)
qed

lemma tag_text:
  assumes "prefix ''$'' (dropWhile is_word r)"
  shows "take (length (CHR ''$'' # r) - length (drop 1 (dropWhile is_word r))) (CHR ''$'' # r) =
    ''$'' @ takeWhile is_word r @ ''$''"
proof -
  obtain t where t: "dropWhile is_word r = CHR ''$'' # t"
    using assms by (auto simp: prefix_def)
  have "CHR ''$'' # r = (''$'' @ takeWhile is_word r @ ''$'') @ t"
    using takeWhile_dropWhile_id [of is_word r] t by simp
  then show ?thesis using t by (metis Cons_eq_appendI append_eq_conv_conj diff_add_inverse2 drop_0
    drop_Suc_Cons One_nat_def length_append)
qed

lemma dollar_tag_eq: "dollar_tag s = tag_of s"
proof (cases "\<exists>r. s = CHR ''$'' # r")
  case False
  then show ?thesis
    by (cases s) (auto simp: dollar_tag_def tag_of_def rx_match_def rx_match_at_def DOLLAR_TAG_def)
next
  case True
  then obtain r where s: "s = CHR ''$'' # r" by blast
  show ?thesis
  proof (cases r)
    case Nil
    with s show ?thesis
      by (simp add: dollar_tag_def tag_of_def rx_match_def rx_match_at_def mt_DOLLAR_TAG)
  next
    case (Cons d ds)
    have "dropWhile is_word r = dropWhile is_word ds" if "is_tag_start d"
      using that Cons by (simp add: tag_start_word)
    moreover have "\<not> prefix ''$'' (dropWhile is_word r)" if "is_word d" "\<not> prefix ''$'' (dropWhile is_word ds)"
      using that Cons by simp
    ultimately show ?thesis
      using tag_text [of r] dollar_not_word
      by (cases "is_word d")
        (auto simp: dollar_tag_def tag_of_def rx_match_def rx_match_at_def mt_DOLLAR_TAG s Cons
          dest: tag_start_word)
  qed
qed

subsection \<open>The loop reads one part at a time\<close>

fun closes_with :: "sql_mode \<Rightarrow> string option" where
  "closes_with Plain = None"
| "closes_with InLineComment = Some [LF]"
| "closes_with InBlockComment = Some ''*/''"
| "closes_with (InDollar tag) = Some tag"
| "closes_with InSingle = Some [SINGLE_QUOTE]"
| "closes_with InDouble = Some [DOUBLE_QUOTE]"

lemma loop_quoted:
  assumes "closes_with mode = Some w" and "w \<noteq> []"
  shows "split_loop mode buf out s =
    split_loop Plain (buf @ fst (cut_after w s)) out (snd (cut_after w s))"
  using assms
proof (induction s arbitrary: buf)
  case Nil
  then show ?case by (cases mode) (simp_all add: split_loop.simps)
next
  case (Cons c cs)
  have drop: "drop (length w) (c # cs) = drop (length w - 1) cs"
    using Cons.prems(2) by (cases w) simp_all
  show ?case
  proof (cases mode)
    case InBlockComment
    with Cons show ?thesis
      by (cases cs) (auto simp: split_loop.simps split: prod.splits)
  next
    case (InDollar tag)
    with Cons drop show ?thesis by (auto simp: split_loop.simps split: prod.splits)
  qed (use Cons in \<open>auto simp: split_loop.simps split: prod.splits\<close>)
qed

lemma raw_split_nonempty [simp]: "raw_split s \<noteq> []"
  by (induction s rule: raw_split.induct)
    (auto simp: raw_split.simps(2) prepend_def split: option.splits prod.splits list.splits)

lemma prepend_simps [simp]:
  "prepend a (p # ps) = (a @ p) # ps"
  "ps \<noteq> [] \<Longrightarrow> prepend [] ps = ps"
  "ps \<noteq> [] \<Longrightarrow> prepend a (prepend b ps) = prepend (a @ b) ps"
  by (cases ps; simp add: prepend_def)+

definition pieces :: "string list \<Rightarrow> string list" where
  "pieces ps = filter (\<lambda>s. s \<noteq> []) (map py_strip ps)"

lemma flush_pieces: "flush buf out = out @ pieces [buf]"
  by (simp add: flush_def pieces_def)

lemma dollar_tag_prefix:
  assumes "dollar_tag s = Some t"
  shows "prefix t s \<and> prefix ''$'' t"
proof -
  obtain r where s: "s = CHR ''$'' # r" and r: "prefix ''$'' (dropWhile is_word r)"
    and t: "t = ''$'' @ takeWhile is_word r @ ''$''"
    using assms by (auto simp: dollar_tag_eq tag_of_def split: list.splits if_splits)
  then obtain u where "r = takeWhile is_word r @ CHR ''$'' # u"
    by (metis append_Cons append_Nil prefix_def takeWhile_dropWhile_id)
  with s t have "s = t @ u" by simp
  with t show ?thesis by simp
qed

lemma delimiters_None:
  "delimiters s = None \<longleftrightarrow> \<not> prefix ''--'' s \<and> \<not> prefix ''/*'' s \<and> \<not> prefix [SINGLE_QUOTE] s \<and>
     \<not> prefix [DOUBLE_QUOTE] s \<and> dollar_tag s = None"
  by (simp add: delimiters_def)

lemma delimiters_tag:
  assumes "delimiters s = Some (opn, cls)" and "\<not> prefix ''--'' s" and "\<not> prefix ''/*'' s"
    and "\<not> prefix [SINGLE_QUOTE] s" and "\<not> prefix [DOUBLE_QUOTE] s"
  shows "dollar_tag s = Some opn \<and> cls = opn"
  using assms by (auto simp: delimiters_def)

lemma delimiters_closed:
  assumes "delimiters s = Some (opn, cls)"
  shows "opn \<noteq> [] \<and> cls \<noteq> [] \<and> prefix opn s"
  using assms dollar_tag_prefix by (fastforce simp: delimiters_def split: if_splits)

lemma take2_prefix: "length w = 2 \<Longrightarrow> take 2 s = w \<longleftrightarrow> prefix w s"
  by (metis append_eq_conv_conj prefix_def take_is_prefix)

lemma loop_Plain:
  "split_loop Plain buf out (c # cs) =
     (if prefix ''--'' (c # cs) then split_loop InLineComment (buf @ ''--'') out (drop 1 cs)
      else if prefix ''/*'' (c # cs) then split_loop InBlockComment (buf @ ''/*'') out (drop 1 cs)
      else if prefix [SINGLE_QUOTE] (c # cs) then split_loop InSingle (buf @ [c]) out cs
      else if prefix [DOUBLE_QUOTE] (c # cs) then split_loop InDouble (buf @ [c]) out cs
      else case dollar_tag (c # cs) of
        Some tag \<Rightarrow> split_loop (InDollar tag) (buf @ tag) out (drop (length tag - 1) cs)
      | None \<Rightarrow>
          (if c = SEMICOLON then split_loop Plain [] (flush buf out) cs
           else split_loop Plain (buf @ [c]) out cs))"
proof -
  have "dollar_tag (c # cs) = (if c = CHR ''$'' then dollar_tag (c # cs) else None)"
    by (simp add: dollar_tag_eq tag_of_def)
  moreover have "prefix [x] (c # cs) \<longleftrightarrow> c = x" for x by auto
  moreover have "take 2 (c # cs) = ''--'' \<longleftrightarrow> prefix ''--'' (c # cs)"
    and "take 2 (c # cs) = ''/*'' \<longleftrightarrow> prefix ''/*'' (c # cs)"
    by (rule take2_prefix; simp)+
  ultimately show ?thesis
    by (subst split_loop.simps) (simp only:)
qed

text \<open>In plain text the loop opens the same parts as the reference.\<close>

lemma loop_opens:
  assumes "delimiters (c # cs) = Some (opn, cls)"
  shows "\<exists>mode. closes_with mode = Some cls \<and>
    split_loop Plain buf out (c # cs) = split_loop mode (buf @ opn) out (drop (length opn - 1) cs)"
  (is "\<exists>mode. ?P mode")
proof -
  note d = assms [unfolded delimiters_def]
  let ?s = "c # cs"
  consider (line) "prefix ''--'' ?s" | (block) "\<not> prefix ''--'' ?s" "prefix ''/*'' ?s"
    | (single) "\<not> prefix ''--'' ?s" "\<not> prefix ''/*'' ?s" "prefix [SINGLE_QUOTE] ?s"
    | (dbl) "\<not> prefix ''--'' ?s" "\<not> prefix ''/*'' ?s" "\<not> prefix [SINGLE_QUOTE] ?s" "prefix [DOUBLE_QUOTE] ?s"
    | (other) "\<not> prefix ''--'' ?s" "\<not> prefix ''/*'' ?s" "\<not> prefix [SINGLE_QUOTE] ?s"
        "\<not> prefix [DOUBLE_QUOTE] ?s"
    by blast
  then show ?thesis
  proof cases
    case line
    then have "?P InLineComment" using d by (auto simp add: loop_Plain simp del: Cons_prefix_Cons)
    then show ?thesis by blast
  next
    case block
    then have "?P InBlockComment" using d by (auto simp add: loop_Plain simp del: Cons_prefix_Cons)
    then show ?thesis by blast
  next
    case single
    then have "?P InSingle" using d by (simp add: loop_Plain del: Cons_prefix_Cons) auto
    then show ?thesis by blast
  next
    case dbl
    then have "?P InDouble" using d by (simp add: loop_Plain del: Cons_prefix_Cons) auto
    then show ?thesis by blast
  next
    case other
    then have "?P (InDollar opn)"
      using delimiters_tag [OF assms] by (simp add: loop_Plain del: Cons_prefix_Cons)
    then show ?thesis by blast
  qed
qed

lemma loop_plain:
  assumes "delimiters (c # cs) = None"
  shows "split_loop Plain buf out (c # cs) =
    (if c = SEMICOLON then split_loop Plain [] (flush buf out) cs else split_loop Plain (buf @ [c]) out cs)"
  using assms unfolding delimiters_None by (simp add: loop_Plain del: Cons_prefix_Cons)

lemma split_loop_pieces: "split_loop Plain buf out s = out @ pieces (prepend buf (raw_split s))"
proof (induction s arbitrary: buf out rule: raw_split.induct)
  case 1
  then show ?case by (simp add: split_loop.simps flush_pieces)
next
  case (2 c cs)
  show ?case
  proof (cases "delimiters (c # cs)")
    case None
    with 2 show ?thesis
      by (cases "c = SEMICOLON") (simp_all add: loop_plain raw_split.simps(2) flush_pieces pieces_def)
  next
    case (Some d)
    obtain opn cls where d: "d = (opn, cls)" by (cases d)
    obtain body rest where cut: "cut_after cls (drop (length opn - 1) cs) = (body, rest)"
      by (cases "cut_after cls (drop (length opn - 1) cs)")
    obtain mode where "closes_with mode = Some cls"
      and "split_loop Plain buf out (c # cs) = split_loop mode (buf @ opn) out (drop (length opn - 1) cs)"
      using loop_opens Some d by blast
    moreover have "cls \<noteq> []"
      using delimiters_closed Some d by blast
    ultimately have "split_loop Plain buf out (c # cs) = split_loop Plain (buf @ opn @ body) out rest"
      using loop_quoted [of mode cls "buf @ opn" out] cut by simp
    then show ?thesis
      using 2 Some d cut by (simp add: raw_split.simps(2))
  qed
qed

text \<open>Nothing is lost or invented: the pieces, joined by the separator, are the text.\<close>

lemma join_prepend: "ps \<noteq> [] \<Longrightarrow> py_join sep (prepend a ps) = a @ py_join sep ps"
proof (cases ps)
  case (Cons p ps')
  then show ?thesis by (cases ps') simp_all
qed simp

lemma join_empty_first: "ps \<noteq> [] \<Longrightarrow> py_join sep ([] # ps) = sep @ py_join sep ps"
  by (cases ps) simp_all

lemma delimiters_rest:
  assumes "delimiters (c # cs) = Some (opn, cls)"
  shows "c # cs = opn @ drop (length opn - 1) cs"
proof -
  obtain u o1 ops where "c # cs = opn @ u" "opn = o1 # ops"
    using delimiters_closed [OF assms] by (cases opn) (auto simp: prefix_def)
  then show ?thesis by simp
qed

lemma raw_split_join: "py_join [SEMICOLON] (raw_split s) = s"
proof (induction s rule: raw_split.induct)
  case (2 c cs)
  show ?case
  proof (cases "delimiters (c # cs)")
    case None
    with 2 show ?thesis
      by (cases "c = SEMICOLON") (simp_all add: raw_split.simps(2) join_prepend join_empty_first)
  next
    case (Some d)
    obtain opn cls where d: "d = (opn, cls)" by (cases d)
    obtain body rest where cut: "cut_after cls (drop (length opn - 1) cs) = (body, rest)"
      by (cases "cut_after cls (drop (length opn - 1) cs)")
    have "py_join [SEMICOLON] (raw_split (c # cs)) = opn @ body @ rest"
      using 2 Some d cut by (simp add: raw_split.simps(2) join_prepend)
    also have "\<dots> = c # cs"
      using delimiters_rest [of c cs opn cls] Some d cut_after_append [OF cut] by metis
    finally show ?thesis .
  qed
qed simp

text \<open>Splitting a migration is what reading it part by part gives: the loop over characters and flags
  returns, stripped and without the empty ones and those that are only comments, the pieces a reference
  finds that reads a comment, a string, an identifier or a dollar-quoted body as one part and cuts at the
  semicolons between the parts; and these pieces joined by semicolons are the migration, to the
  character.\<close>

theorem split_statements_reference:
  "split_statements sql = reference_split sql \<and> py_join [SEMICOLON] (raw_split sql) = sql"
  by (simp add: split_statements_def reference_split_def split_loop_pieces pieces_def raw_split_join)

subsection \<open>Reading back what is written\<close>

lemma semicolon_other:
  "\<not> is_word SEMICOLON" "\<not> is_space SEMICOLON" "SEMICOLON \<noteq> CHR ''$''" "SEMICOLON \<noteq> CHR ''-''"
  "SEMICOLON \<noteq> CHR ''*''" "SEMICOLON \<noteq> CHR ''/''" "SEMICOLON \<noteq> SINGLE_QUOTE" "SEMICOLON \<noteq> DOUBLE_QUOTE"
  "SEMICOLON \<noteq> LF"
  by (simp_all add: SEMICOLON_def SINGLE_QUOTE_def DOUBLE_QUOTE_def LF_def char_class_defs)

lemma while_word_semicolon:
  "takeWhile is_word (cs @ SEMICOLON # r) = takeWhile is_word cs"
  "dropWhile is_word (cs @ SEMICOLON # r) = dropWhile is_word cs @ SEMICOLON # r"
  using semicolon_other(1) by (induction cs) simp_all

lemma tag_of_local: "tag_of (c # cs @ SEMICOLON # r) = tag_of (c # cs @ [SEMICOLON])"
proof -
  have "prefix ''$'' (x @ SEMICOLON # r) \<longleftrightarrow> prefix ''$'' (x @ [SEMICOLON])" for x
    using semicolon_other(3) by (cases x) auto
  then show ?thesis
    by (simp add: tag_of_def while_word_semicolon [where r = r] while_word_semicolon [where r = "[]"])
qed

lemma prefix_semicolon:
  assumes "SEMICOLON \<notin> set w"
  shows "prefix w (x @ SEMICOLON # r) \<longleftrightarrow> prefix w x"
  using assms by (auto simp: prefix_append prefix_Cons)

lemma delimiters_local: "delimiters (c # cs @ SEMICOLON # r) = delimiters (c # cs @ [SEMICOLON])"
proof -
  have "prefix w (c # cs @ SEMICOLON # r) \<longleftrightarrow> prefix w (c # cs @ [SEMICOLON])" if "SEMICOLON \<notin> set w" for w
    using prefix_semicolon [OF that, of "c # cs" r] prefix_semicolon [OF that, of "c # cs" "[]"] by simp
  then have "prefix ''--'' (c # cs @ SEMICOLON # r) \<longleftrightarrow> prefix ''--'' (c # cs @ [SEMICOLON])"
    and "prefix ''/*'' (c # cs @ SEMICOLON # r) \<longleftrightarrow> prefix ''/*'' (c # cs @ [SEMICOLON])"
    and "prefix [SINGLE_QUOTE] (c # cs @ SEMICOLON # r) \<longleftrightarrow> prefix [SINGLE_QUOTE] (c # cs @ [SEMICOLON])"
    and "prefix [DOUBLE_QUOTE] (c # cs @ SEMICOLON # r) \<longleftrightarrow> prefix [DOUBLE_QUOTE] (c # cs @ [SEMICOLON])"
    using semicolon_other by (simp_all del: Cons_prefix_Cons)
  then show ?thesis
    unfolding delimiters_def dollar_tag_eq tag_of_local [of c cs r] by (simp only:)
qed

lemma delimiters_no_semicolon:
  assumes "delimiters s = Some (opn, cls)"
  shows "SEMICOLON \<notin> set opn \<and> SEMICOLON \<notin> set cls"
proof -
  have "SEMICOLON \<notin> set t" if "dollar_tag s = Some t" for t
    using that semicolon_other
    by (auto simp: dollar_tag_eq tag_of_def split: list.splits if_splits dest: set_takeWhileD)
  with assms semicolon_other show ?thesis
    by (auto simp: delimiters_def split: if_splits)
qed

lemma cut_after_semicolon:
  assumes "SEMICOLON \<notin> set w" and "w \<noteq> []"
  shows "cut_after w (x @ SEMICOLON # r) =
    (if py_contains w x
     then (fst (cut_after w x), snd (cut_after w x) @ SEMICOLON # r)
     else (x @ SEMICOLON # fst (cut_after w r), snd (cut_after w r)))"
proof (induction x)
  case Nil
  have "\<not> prefix w (SEMICOLON # r)"
    using prefix_semicolon [OF assms(1), of "[]" r] assms(2) by simp
  then show ?case
    using assms by (simp split: prod.splits)
next
  case (Cons c cs)
  have "prefix w (c # cs @ SEMICOLON # r) \<longleftrightarrow> prefix w (c # cs)"
    using prefix_semicolon [OF assms(1), of "c # cs" r] by simp
  moreover have "drop (length w) (c # cs @ SEMICOLON # r) = drop (length w) (c # cs) @ SEMICOLON # r"
    if "prefix w (c # cs)"
    using prefix_length_le [OF that] by (cases w) simp_all
  ultimately show ?case
    using Cons by (auto split: prod.splits)
qed

lemma raw_split_part:
  assumes del: "delimiters (c # cs @ [SEMICOLON]) = Some (opn, cls)"
    and whole: "raw_split (c # cs @ [SEMICOLON]) = [c # cs, []]"
  obtains a b where "c # cs = opn @ a @ b" and "length b < length (c # cs)"
    and "raw_split (b @ [SEMICOLON]) = [b, []]"
    and "\<And>r. raw_split (c # cs @ SEMICOLON # r) = prepend (opn @ a) (raw_split (b @ SEMICOLON # r))"
proof -
  have free: "SEMICOLON \<notin> set opn" "SEMICOLON \<notin> set cls" "cls \<noteq> []" "opn \<noteq> []"
    and "prefix opn (c # cs)"
    using delimiters_no_semicolon [OF del] delimiters_closed [OF del]
      prefix_semicolon [of opn "c # cs" "[]"] by auto
  then obtain x where x: "c # cs = opn @ x" "drop (length opn - 1) (cs @ y) = x @ y" for y
    by (cases opn) (auto simp: prefix_def)
  have cut: "cut_after cls (drop (length opn - 1) (cs @ SEMICOLON # y)) =
    (if py_contains cls x
     then (fst (cut_after cls x), snd (cut_after cls x) @ SEMICOLON # y)
     else (x @ SEMICOLON # fst (cut_after cls y), snd (cut_after cls y)))" for y
    using cut_after_semicolon [OF free(2,3)] x(2) by simp
  have step: "raw_split (c # cs @ SEMICOLON # y) =
    (case cut_after cls (drop (length opn - 1) (cs @ SEMICOLON # y)) of
       (body, rest) \<Rightarrow> prepend (opn @ body) (raw_split rest))" for y
    using del delimiters_local [of c cs y] by (simp add: raw_split.simps(2) del: drop_append)
  have contains: "py_contains cls x"
  proof (rule ccontr)
    assume "\<not> py_contains cls x"
    then have "length (raw_split (c # cs @ [SEMICOLON])) = 1"
      using step [of "[]"] cut [of "[]"] by (simp del: drop_append)
    with whole show False by simp
  qed
  obtain a b where ab: "cut_after cls x = (a, b)" by (cases "cut_after cls x")
  have split: "raw_split (c # cs @ SEMICOLON # y) = prepend (opn @ a) (raw_split (b @ SEMICOLON # y))" for y
    using step [of y] cut [of y] contains ab by (simp del: drop_append)
  have parts: "c # cs = opn @ a @ b"
    using x(1) cut_after_append [OF ab] by simp
  have "prepend (opn @ a) (raw_split (b @ [SEMICOLON])) = [opn @ a @ b, []]"
    using split [of "[]"] whole parts by metis
  then have "raw_split (b @ [SEMICOLON]) = [b, []]"
    by (cases "raw_split (b @ [SEMICOLON])") simp_all
  moreover have "length b < length (c # cs)"
    unfolding parts using free(4) by (cases opn) simp_all
  ultimately show thesis
    using that [OF parts] split by blast
qed

lemma raw_split_closed:
  "raw_split (s @ [SEMICOLON]) = [s, []] \<Longrightarrow> raw_split (s @ SEMICOLON # r) = s # raw_split r"
proof (induction s rule: length_induct)
  case (1 s)
  show ?case
  proof (cases s)
    case Nil
    have "delimiters (SEMICOLON # r) = None"
      using semicolon_other by (simp add: delimiters_None dollar_tag_eq tag_of_def)
    with Nil show ?thesis by (simp add: raw_split.simps(2))
  next
    case (Cons c cs)
    show ?thesis
    proof (cases "delimiters (c # cs @ [SEMICOLON])")
      case None
      then have "c \<noteq> SEMICOLON"
        using 1 Cons by (auto simp: raw_split.simps(2))
      with None 1 Cons have "prepend [c] (raw_split (cs @ [SEMICOLON])) = [c # cs, []]"
        by (simp add: raw_split.simps(2))
      then have "raw_split (cs @ [SEMICOLON]) = [cs, []]"
        by (cases "raw_split (cs @ [SEMICOLON])") simp_all
      with 1 Cons None delimiters_local [of c cs r] \<open>c \<noteq> SEMICOLON\<close> show ?thesis
        by (simp add: raw_split.simps(2))
    next
      case (Some d)
      obtain opn cls where d: "d = (opn, cls)" by (cases d)
      have "raw_split (c # cs @ [SEMICOLON]) = [c # cs, []]"
        using 1 Cons by simp
      with Some d obtain a b where parts: "c # cs = opn @ a @ b" "length b < length (c # cs)"
        and b: "raw_split (b @ [SEMICOLON]) = [b, []]"
        and r: "raw_split (c # cs @ SEMICOLON # r) = prepend (opn @ a) (raw_split (b @ SEMICOLON # r))"
        using raw_split_part by metis
      have "raw_split (b @ SEMICOLON # r) = b # raw_split r"
        using 1 Cons parts(2) b by blast
      with r have "raw_split (c # cs @ SEMICOLON # r) = (opn @ a @ b) # raw_split r"
        by simp
      with Cons show ?thesis by (simp flip: parts(1))
    qed
  qed
qed

definition sql_statement :: "string \<Rightarrow> bool" where
  "sql_statement s \<longleftrightarrow>
     raw_split (s @ [SEMICOLON]) = [s, []] \<and> py_strip s = s \<and> s \<noteq> [] \<and> \<not> is_only_comments s"

definition write_script :: "string list \<Rightarrow> string" where
  "write_script ss = concat (map (\<lambda>s. s @ [SEMICOLON, LF]) ss)"

lemma raw_split_LF: "raw_split (LF # s) = prepend [LF] (raw_split s)"
proof -
  have "delimiters (LF # s) = None" "LF \<noteq> SEMICOLON"
    by (simp_all add: delimiters_None dollar_tag_eq tag_of_def LF_def SINGLE_QUOTE_def DOUBLE_QUOTE_def
        SEMICOLON_def)
  then show ?thesis by (simp add: raw_split.simps(2))
qed

lemma pieces_LF: "ps \<noteq> [] \<Longrightarrow> pieces (prepend [LF] ps) = pieces ps"
proof (cases ps)
  case (Cons p ps')
  have "py_strip (LF # p) = py_strip p"
    by (simp add: py_strip_def py_lstrip_def LF_def char_class_defs)
  with Cons show ?thesis by (simp add: pieces_def)
qed simp

lemma pieces_write_script:
  "list_all sql_statement ss \<Longrightarrow> pieces (raw_split (write_script ss)) = ss"
proof (induction ss)
  case (Cons s ss)
  then have "raw_split (write_script (s # ss)) = s # raw_split (LF # write_script ss)"
    using raw_split_closed [of s "LF # write_script ss"] by (simp add: sql_statement_def write_script_def)
  with Cons show ?case
    by (simp add: raw_split_LF pieces_def sql_statement_def) (simp flip: pieces_def add: pieces_LF)
qed (simp add: write_script_def pieces_def py_strip_def py_lstrip_def py_rstrip_def)

text \<open>Statements that are written one after another, each ended by a semicolon and a newline, are read
  back as they were: semicolons within strings, quoted identifiers, comments and dollar-quoted bodies
  never cut a statement in two.\<close>

theorem split_statements_roundtrip:
  assumes "list_all sql_statement ss"
  shows "split_statements (write_script ss) = ss"
proof -
  have "split_statements (write_script ss) = filter (\<lambda>s. \<not> is_only_comments s) ss"
    using pieces_write_script [OF assms] by (simp add: split_statements_def split_loop_pieces)
  also have "\<dots> = ss"
    using assms by (simp add: list_all_iff sql_statement_def filter_id_conv)
  finally show ?thesis .
qed

definition sample_script :: "string list" where
  "sample_script =
     [''CREATE TABLE t (v TEXT DEFAULT '' @ [SINGLE_QUOTE] @ ''a;b'' @ [SINGLE_QUOTE] @ '')'',
      ''CREATE FUNCTION f() RETURNS int AS $body$ BEGIN; RETURN 1; END $body$'']"

lemmas split_defs = sql_statement_def raw_split.simps delimiters_def dollar_tag_eq tag_of_def
  prepend_def is_only_comments_def code_line_def py_splitlines_def splitlines_from.simps
  SEMICOLON_def LF_def SINGLE_QUOTE_def DOUBLE_QUOTE_def py_strip_def py_lstrip_def py_rstrip_def
  is_tag_start_def char_class_defs is_linebreak_def

lemma split_statements_roundtrip_witness:
  "split_statements (write_script sample_script) = sample_script"
  by (rule split_statements_roundtrip) (simp add: sample_script_def split_defs)

subsection \<open>Applying the files\<close>

text \<open>What is asked of the connection, and what it answers: \<open>run calls c\<close> is the message of the
  \<^verbatim>\<open>PostgresError\<close> that call \<open>c\<close> raises after the calls \<open>calls\<close>, if it raises one. The state is
  the ledger and the calls that succeeded. Statements are executed outside a transaction.\<close>

datatype db_call =
    CreateLedger
  | ReadLedger string
  | Execute string
  | WriteLedger string string

record migration =
  mi_name :: string
  mi_sql :: string

record migration_db =
  md_ledger :: "string \<rightharpoonup> string"
  md_calls :: "db_call list"

type_synonym db_script = "db_call list \<Rightarrow> db_call \<Rightarrow> string option"

definition db_call :: "db_script \<Rightarrow> db_call \<Rightarrow> (migration_db, unit) effect" where
  "db_call run c db =
     (case run (md_calls db) c of
        Some m \<Rightarrow> (Inl (OtherError ''PostgresError'' m), db)
      | None \<Rightarrow> (Inr (), db\<lparr>md_calls := md_calls db @ [c]\<rparr>))"

definition execute_statement :: "db_script \<Rightarrow> string \<Rightarrow> string \<Rightarrow> (migration_db, unit) effect" where
  "execute_statement run name stmt db =
     (case db_call run (Execute stmt) db of
        (Inr u, db') \<Rightarrow> (Inr u, db')
      | (Inl e, db') \<Rightarrow>
          (Inl (OtherError ''RuntimeError''
             (name @ '': statement failed: '' @ exc_str e @ [LF] @ ''--- statement ---'' @ [LF] @ take 600 stmt)),
           db'))"

definition record_migration :: "db_script \<Rightarrow> string \<Rightarrow> string \<Rightarrow> (migration_db, unit) effect" where
  "record_migration run name checksum =
     eff_bind (db_call run (WriteLedger name checksum)) (\<lambda>_ db.
       (Inr (), db\<lparr>md_ledger := (md_ledger db)(name \<mapsto> checksum)\<rparr>))"

definition apply_one :: "db_script \<Rightarrow> (string \<Rightarrow> string) \<Rightarrow> migration \<Rightarrow> (migration_db, bool) effect" where
  "apply_one run sha f =
     eff_bind (db_call run (ReadLedger (mi_name f))) (\<lambda>_ db.
       if md_ledger db (mi_name f) \<noteq> None then (Inr False, db)
       else eff_bind (eff_all (execute_statement run (mi_name f)) (split_statements (mi_sql f))) (\<lambda>_.
            eff_bind (record_migration run (mi_name f) (take 16 (sha (mi_sql f)))) (\<lambda>_.
              eff_return True)) db)"

fun apply_files ::
  "db_script \<Rightarrow> (string \<Rightarrow> string) \<Rightarrow> migration list \<Rightarrow> string list \<Rightarrow> (migration_db, string list) effect" where
  "apply_files run sha [] applied = eff_return applied"
| "apply_files run sha (f # fs) applied =
     eff_bind (apply_one run sha f) (\<lambda>new.
       apply_files run sha fs (if new then applied @ [mi_name f] else applied))"

definition apply_migrations ::
  "db_script \<Rightarrow> (string \<Rightarrow> string) \<Rightarrow> migration list \<Rightarrow> (migration_db, string list) effect" where
  "apply_migrations run sha files =
     eff_bind (db_call run CreateLedger) (\<lambda>_. apply_files run sha (sort_key mi_name files) [])"

text \<open>The statements that were executed.\<close>

fun call_statement :: "db_call \<Rightarrow> string list" where
  "call_statement (Execute s) = [s]"
| "call_statement _ = []"

definition executed :: "migration_db \<Rightarrow> string list" where
  "executed db = concat (map call_statement (md_calls db))"

definition file_statements :: "migration list \<Rightarrow> string list" where
  "file_statements fs = concat (map (\<lambda>f. split_statements (mi_sql f)) fs)"

definition ledger_with :: "(string \<Rightarrow> string) \<Rightarrow> migration list \<Rightarrow> (string \<rightharpoonup> string) \<Rightarrow> string \<rightharpoonup> string" where
  "ledger_with sha fs ledger = foldl (\<lambda>l f. l(mi_name f \<mapsto> take 16 (sha (mi_sql f)))) ledger fs"

definition pending :: "(string \<rightharpoonup> string) \<Rightarrow> migration list \<Rightarrow> migration list" where
  "pending ledger files = filter (\<lambda>f. ledger (mi_name f) = None) (sort_key mi_name files)"

lemma db_call_other:
  assumes "db_call run c db = (r, db')"
  shows "md_ledger db' = md_ledger db"
    and "call_statement c = [] \<Longrightarrow> executed db' = executed db"
  using assms by (auto simp: db_call_def executed_def split: option.splits)

lemma execute_all:
  assumes "eff_all (execute_statement run name) ss db = (r, db')"
  shows "\<exists>part. prefix part ss \<and> executed db' = executed db @ part \<and> md_ledger db' = md_ledger db \<and>
    (\<forall>u. r = Inr u \<longrightarrow> part = ss)"
  using assms
proof (induction ss arbitrary: db)
  case (Cons s ss)
  from Cons.prems show ?case
  proof (cases "db_call run (Execute s) db")
    case (Pair q db1)
    show ?thesis
    proof (cases q)
      case (Inl e)
      with Pair Cons.prems have "db' = db1" "r \<noteq> Inr u" for u
        by (auto simp: execute_statement_def eff_bind_def)
      moreover from Pair Inl have "db1 = db"
        by (auto simp: db_call_def split: option.splits)
      ultimately show ?thesis by auto
    next
      case (Inr u)
      with Pair have "execute_statement run name s db = (Inr (), db1)"
        by (simp add: execute_statement_def)
      with Cons.prems have "eff_all (execute_statement run name) ss db1 = (r, db')"
        by (simp add: eff_bind_def)
      moreover have "executed db1 = executed db @ [s]" "md_ledger db1 = md_ledger db"
        using Pair Inr by (auto simp: db_call_def executed_def split: option.splits)
      ultimately show ?thesis using Cons.IH [of db1] by auto
    qed
  qed
qed auto

lemma apply_one_new:
  assumes "apply_one run sha f db = (r, db')" and "md_ledger db (mi_name f) = None"
  shows "\<exists>part. prefix part (split_statements (mi_sql f)) \<and> executed db' = executed db @ part \<and>
    (case r of
       Inl e \<Rightarrow> md_ledger db' = md_ledger db
     | Inr new \<Rightarrow> new \<and> part = split_statements (mi_sql f) \<and> md_ledger db' = ledger_with sha [f] (md_ledger db))"
  using assms(1) unfolding apply_one_def
proof (cases rule: eff_bindE)
  case (raised e)
  then show ?thesis using db_call_other [OF raised(1)] by auto
next
  case (went_on u db1)
  note read = db_call_other [OF went_on(1)]
  with went_on(2) assms(2) have
    "eff_bind (eff_all (execute_statement run (mi_name f)) (split_statements (mi_sql f))) (\<lambda>_.
       eff_bind (record_migration run (mi_name f) (take 16 (sha (mi_sql f)))) (\<lambda>_. eff_return True)) db1 = (r, db')"
    by simp
  then show ?thesis
  proof (cases rule: eff_bindE)
    case (raised e)
    then show ?thesis using execute_all [OF raised(1)] read by auto
  next
    case (went_on v db2)
    note ex = execute_all [OF went_on(1)]
    from went_on(2) show ?thesis
    proof (cases rule: eff_bindE)
      case (raised e)
      then have "db_call run (WriteLedger (mi_name f) (take 16 (sha (mi_sql f)))) db2 = (Inl e, db')"
        by (auto simp: record_migration_def eff_bind_def split: prod.splits sum.splits)
      from db_call_other [OF this] raised ex read show ?thesis by auto
    next
      case (went_on z db3)
      then obtain db4 where "db_call run (WriteLedger (mi_name f) (take 16 (sha (mi_sql f)))) db2 = (Inr (), db4)"
        and "db3 = db4\<lparr>md_ledger := (md_ledger db4)(mi_name f \<mapsto> take 16 (sha (mi_sql f)))\<rparr>"
        by (auto simp: record_migration_def eff_bind_def split: prod.splits sum.splits)
      moreover note db_call_other [OF this(1)]
      ultimately show ?thesis
        using went_on ex read by (auto simp: ledger_with_def executed_def)
    qed
  qed
qed

lemma apply_one_old:
  assumes "apply_one run sha f db = (r, db')" and "md_ledger db (mi_name f) \<noteq> None"
  shows "executed db' = executed db \<and> md_ledger db' = md_ledger db \<and> (\<forall>new. r = Inr new \<longrightarrow> \<not> new)"
  using assms db_call_other
  by (auto simp: apply_one_def eff_bind_def split: prod.splits sum.splits)

lemma ledger_with_Cons: "ledger_with sha (f # fs) l = ledger_with sha fs (ledger_with sha [f] l)"
  by (simp add: ledger_with_def)

lemma ledger_with_dom: "dom (ledger_with sha fs l) = dom l \<union> mi_name ` set fs"
  by (induction fs arbitrary: l) (auto simp: ledger_with_def)

lemma filter_unnamed:
  assumes "mi_name f \<notin> mi_name ` set fs"
  shows "filter (\<lambda>g. ledger_with sha [f] l (mi_name g) = None) fs = filter (\<lambda>g. l (mi_name g) = None) fs"
proof -
  have "mi_name g \<noteq> mi_name f" if "g \<in> set fs" for g
    using assms that by (metis image_eqI)
  then show ?thesis by (intro filter_cong refl) (simp add: ledger_with_def)
qed

text \<open>The state of a run over files that are \<open>todo\<close> when it begins.\<close>

definition progress ::
  "(string \<Rightarrow> string) \<Rightarrow> migration list \<Rightarrow> migration_db \<Rightarrow> migration_db \<Rightarrow> migration list \<Rightarrow> migration list \<Rightarrow> bool" where
  "progress sha todo db db' fin rest \<longleftrightarrow>
     todo = fin @ rest \<and> md_ledger db' = ledger_with sha fin (md_ledger db) \<and>
     (\<exists>part. prefix part (file_statements (take 1 rest)) \<and>
        executed db' = executed db @ file_statements fin @ part)"

lemma progress_none: "md_ledger db' = md_ledger db \<Longrightarrow> executed db' = executed db \<Longrightarrow> progress sha todo db db' [] todo"
  by (auto simp: progress_def ledger_with_def file_statements_def)

lemma progress_step:
  assumes "progress sha todo db1 db' fin rest" and "md_ledger db1 = ledger_with sha [f] (md_ledger db)"
    and "executed db1 = executed db @ split_statements (mi_sql f)"
  shows "progress sha (f # todo) db db' (f # fin) rest"
  using assms by (auto simp: progress_def ledger_with_Cons [of sha f fin] file_statements_def)

lemma progress_stop:
  assumes "md_ledger db' = md_ledger db" and "executed db' = executed db @ part"
    and "prefix part (split_statements (mi_sql f))"
  shows "progress sha (f # todo) db db' [] (f # todo)"
  using assms by (auto simp: progress_def file_statements_def ledger_with_def)

lemma apply_files_progress:
  assumes "apply_files run sha fs applied db = (r, db')" and "distinct (map mi_name fs)"
  shows "\<exists>fin rest. progress sha (filter (\<lambda>f. md_ledger db (mi_name f) = None) fs) db db' fin rest \<and>
    (\<forall>names. r = Inr names \<longrightarrow> rest = [] \<and> names = applied @ map mi_name fin)"
  using assms
proof (induction fs arbitrary: applied db)
  case Nil
  then show ?case using progress_none [of db db sha "[]"] by auto
next
  case (Cons f fs)
  obtain q db1 where one: "apply_one run sha f db = (q, db1)" by (cases "apply_one run sha f db")
  show ?case
  proof (cases "md_ledger db (mi_name f)")
    case None
    note new = apply_one_new [OF one None]
    show ?thesis
    proof (cases q)
      case (Inl e)
      with one Cons.prems have "r = Inl e" "db' = db1" by (simp_all add: eff_bind_def)
      with new Inl None show ?thesis using progress_stop by fastforce
    next
      case (Inr b)
      with new have b: "b" "executed db1 = executed db @ split_statements (mi_sql f)"
        "md_ledger db1 = ledger_with sha [f] (md_ledger db)" by auto
      with one Inr Cons.prems have "apply_files run sha fs (applied @ [mi_name f]) db1 = (r, db')"
        by (simp add: eff_bind_def)
      from Cons.IH [OF this] Cons.prems(2) b(3) obtain fin rest where
        "progress sha (filter (\<lambda>g. md_ledger db (mi_name g) = None) fs) db1 db' fin rest"
        "\<forall>names. r = Inr names \<longrightarrow> rest = [] \<and> names = (applied @ [mi_name f]) @ map mi_name fin"
        by (auto simp: filter_unnamed)
      with progress_step [OF this(1) b(3,2)] None show ?thesis
        by (intro exI [of _ "f # fin"] exI [of _ rest]) simp
    qed
  next
    case (Some c)
    with apply_one_old [OF one] have old: "executed db1 = executed db" "md_ledger db1 = md_ledger db"
      "\<forall>new. q = Inr new \<longrightarrow> \<not> new" by auto
    show ?thesis
    proof (cases q)
      case (Inl e)
      with one Cons.prems have "r = Inl e" "db' = db1" by (simp_all add: eff_bind_def)
      with old Some show ?thesis using progress_none by fastforce
    next
      case (Inr b)
      with old one Cons.prems have "apply_files run sha fs applied db1 = (r, db')"
        by (simp add: eff_bind_def)
      from Cons.IH [OF this] Cons.prems(2) old(1,2) Some show ?thesis
        by (simp add: progress_def)
    qed
  qed
qed

text \<open>One run: of the files the ledger does not name it executes some completely and of the next one at most
  a first part; the ledger then names exactly those whose row was written.\<close>

lemma migrations_one_run:
  assumes "distinct (map mi_name files)" and "apply_migrations run sha files db = (r, db')"
  shows "\<exists>fin rest part. pending (md_ledger db) files = fin @ rest \<and>
    md_ledger db' = ledger_with sha fin (md_ledger db) \<and>
    executed db' = executed db @ file_statements fin @ part \<and>
    prefix part (file_statements (take 1 rest)) \<and>
    (\<forall>names. r = Inr names \<longrightarrow>
       rest = [] \<and> names = map mi_name (pending (md_ledger db) files) \<and> pending (md_ledger db') files = [])"
proof -
  have "mi_name x \<in> dom (ledger_with sha (pending l files) l)" if "x \<in> set files" for x l
    using that unfolding ledger_with_dom by (auto simp: pending_def)
  then have all: "pending (ledger_with sha (pending l files) l) files = []" for l
    unfolding pending_def [of "ledger_with sha (pending l files) l"]
    by (fastforce simp: filter_empty_conv)
  have "\<exists>fin rest. progress sha (pending (md_ledger db) files) db db' fin rest \<and>
      (\<forall>names. r = Inr names \<longrightarrow> rest = [] \<and> names = map mi_name fin)"
    using assms(2) unfolding apply_migrations_def
  proof (cases rule: eff_bindE)
    case (raised e)
    with db_call_other [OF raised(1)] show ?thesis using progress_none by fastforce
  next
    case (went_on u db1)
    have "distinct (map mi_name (sort_key mi_name files))"
      using assms(1) by (metis mset_map mset_eq_imp_distinct_iff mset_sort)
    with apply_files_progress [OF went_on(2)] db_call_other [OF went_on(1)] show ?thesis
      by (simp add: pending_def progress_def)
  qed
  then obtain fin rest where p: "progress sha (pending (md_ledger db) files) db db' fin rest"
    and r: "\<forall>names. r = Inr names \<longrightarrow> rest = [] \<and> names = map mi_name fin"
    by blast
  from p obtain part where "prefix part (file_statements (take 1 rest))"
    and "executed db' = executed db @ file_statements fin @ part"
    by (auto simp: progress_def)
  moreover from p have split: "pending (md_ledger db) files = fin @ rest"
    and ledger: "md_ledger db' = ledger_with sha fin (md_ledger db)"
    by (simp_all add: progress_def)
  moreover have "rest = [] \<and> names = map mi_name (pending (md_ledger db) files) \<and>
      pending (md_ledger db') files = []" if "r = Inr names" for names
    using r that split all [of "md_ledger db"] by (simp add: ledger)
  ultimately show ?thesis by blast
qed

subsection \<open>Any number of runs\<close>

text \<open>Runs one after another over the same files, each with a database that may fail anywhere.\<close>

definition migrated ::
  "(string \<Rightarrow> string) \<Rightarrow> migration list \<Rightarrow> db_script list \<Rightarrow> migration_db \<Rightarrow> migration_db" where
  "migrated sha files runs db = fold (\<lambda>run db. snd (apply_migrations run sha files db)) runs db"

text \<open>The attempts at the files \<open>todo\<close>: each is at the first file that is left and executes a first part of it. Only an
  attempt that executed all of its file can be recorded in the ledger, and only then the next file is
  attempted; after any other attempt the same file is attempted again, from its beginning.\<close>

type_synonym attempt = "migration \<times> string list \<times> bool"

fun attempts_at :: "migration list \<Rightarrow> attempt list \<Rightarrow> bool" where
  "attempts_at todo [] \<longleftrightarrow> True"
| "attempts_at [] (a # as) \<longleftrightarrow> False"
| "attempts_at (f # todo) ((g, part, recorded) # as) \<longleftrightarrow>
     g = f \<and> prefix part (split_statements (mi_sql f)) \<and>
     (if recorded then part = split_statements (mi_sql f) \<and> attempts_at todo as else attempts_at (f # todo) as)"

definition recorded_files :: "attempt list \<Rightarrow> migration list" where
  "recorded_files as = map fst (filter (snd \<circ> snd) as)"

definition attempted :: "attempt list \<Rightarrow> string list" where
  "attempted as = concat (map (fst \<circ> snd) as)"

definition one_run :: "migration list \<Rightarrow> migration list \<Rightarrow> string list \<Rightarrow> attempt list" where
  "one_run fin rest part =
     map (\<lambda>f. (f, split_statements (mi_sql f), True)) fin @
     (case rest of [] \<Rightarrow> [] | f # _ \<Rightarrow> if part = [] then [] else [(f, part, False)])"

lemma one_run_attempts:
  assumes "prefix part (file_statements (take 1 rest))" and "attempts_at rest as"
  shows "attempts_at (fin @ rest) (one_run fin rest part @ as)"
proof (induction fin)
  case Nil
  with assms show ?case by (cases rest) (auto simp: one_run_def file_statements_def)
next
  case (Cons f fin)
  then show ?case by (simp add: one_run_def)
qed

lemma one_run_books:
  assumes "prefix part (file_statements (take 1 rest))"
  shows "recorded_files (one_run fin rest part) = fin" "attempted (one_run fin rest part) = file_statements fin @ part"
    "length (filter (\<lambda>a. \<not> snd (snd a)) (one_run fin rest part)) \<le> 1"
  using assms
  by (auto simp: one_run_def recorded_files_def attempted_def file_statements_def comp_def filter_map split: list.split)

lemma books_append:
  "recorded_files (as @ bs) = recorded_files as @ recorded_files bs" "attempted (as @ bs) = attempted as @ attempted bs"
  by (simp_all add: recorded_files_def attempted_def)

lemma ledger_with_append: "ledger_with sha (fs @ gs) l = ledger_with sha gs (ledger_with sha fs l)"
  by (simp add: ledger_with_def)

lemma pending_after:
  assumes "distinct (map mi_name files)" and "pending l files = fin @ rest"
  shows "pending (ledger_with sha fin l) files = rest"
proof -
  have "distinct (map mi_name (sort_key mi_name files))"
    using assms(1) by (metis mset_map mset_eq_imp_distinct_iff mset_sort)
  then have d: "distinct (map mi_name (fin @ rest))"
    unfolding assms(2) [symmetric] pending_def by (rule distinct_map_filter)
  have named: "ledger_with sha fin l (mi_name f) = None \<longleftrightarrow> l (mi_name f) = None \<and> mi_name f \<notin> mi_name ` set fin" for f
    using ledger_with_dom [of sha fin l] by (metis Un_iff domIff)
  have "pending (ledger_with sha fin l) files = filter (\<lambda>f. mi_name f \<notin> mi_name ` set fin) (pending l files)"
    unfolding pending_def filter_filter named by (rule filter_cong) auto
  also have "\<dots> = rest" using d unfolding assms(2) by (auto simp: filter_empty_conv filter_id_conv)
  finally show ?thesis .
qed

text \<open>C39. Migrations over any number of runs, whatever fails in them. There is one history of attempts at the
  files that were not in the ledger, in the order of their names: the executed statements are those of the
  attempts, the ledger gained exactly the recorded ones, and no run adds more than one attempt that was not
  recorded. So a file is executed in order after all files before it are recorded, a recorded file is never
  executed again, and a file is recorded only after all of it was executed; but a file whose attempt failed -
  also if only the row of the ledger was lost after its last statement - is executed again from its
  beginning. A run that returns executes all that is left, reports its names and leaves nothing.\<close>

theorem migrations_applied_once:
  assumes "distinct (map mi_name files)" and "db' = migrated sha files runs db"
  shows "(\<exists>as. attempts_at (pending (md_ledger db) files) as \<and>
      executed db' = executed db @ attempted as \<and>
      md_ledger db' = ledger_with sha (recorded_files as) (md_ledger db) \<and>
      length (filter (\<lambda>a. \<not> snd (snd a)) as) \<le> length runs) \<and>
    (\<forall>run names db''. apply_migrations run sha files db' = (Inr names, db'') \<longrightarrow>
      names = map mi_name (pending (md_ledger db') files) \<and>
      executed db'' = executed db' @ file_statements (pending (md_ledger db') files) \<and>
      pending (md_ledger db'') files = [])"
proof -
  have "\<exists>as. attempts_at (pending (md_ledger db) files) as \<and>
      executed (migrated sha files runs db) = executed db @ attempted as \<and>
      md_ledger (migrated sha files runs db) = ledger_with sha (recorded_files as) (md_ledger db) \<and>
      length (filter (\<lambda>a. \<not> snd (snd a)) as) \<le> length runs" for db
  proof (induction runs arbitrary: db)
    case Nil
    then show ?case
      by (intro exI [of _ "[]"]) (simp add: migrated_def attempted_def recorded_files_def ledger_with_def)
  next
    case (Cons run runs)
    obtain r db1 where run: "apply_migrations run sha files db = (r, db1)" by fastforce
    from migrations_one_run [OF assms(1) run] obtain fin rest part where
      todo: "pending (md_ledger db) files = fin @ rest"
      and l1: "md_ledger db1 = ledger_with sha fin (md_ledger db)"
      and e1: "executed db1 = executed db @ file_statements fin @ part"
      and part: "prefix part (file_statements (take 1 rest))"
      by blast
    have "pending (md_ledger db1) files = rest" unfolding l1 by (rule pending_after [OF assms(1) todo])
    with Cons.IH [of db1] obtain as where as: "attempts_at rest as"
      "executed (migrated sha files runs db1) = executed db1 @ attempted as"
      "md_ledger (migrated sha files runs db1) = ledger_with sha (recorded_files as) (md_ledger db1)"
      "length (filter (\<lambda>a. \<not> snd (snd a)) as) \<le> length runs" by metis
    have "migrated sha files (run # runs) db = migrated sha files runs db1" by (simp add: migrated_def run)
    with as one_run_attempts [OF part as(1), of fin] one_run_books [OF part, of fin] l1 e1 todo show ?case
      by (intro exI [of _ "one_run fin rest part @ as"]) (simp add: books_append ledger_with_append)
  qed
  moreover have "names = map mi_name (pending (md_ledger db') files) \<and>
      executed db'' = executed db' @ file_statements (pending (md_ledger db') files) \<and>
      pending (md_ledger db'') files = []" if "apply_migrations run sha files db' = (Inr names, db'')" for run names db''
    using migrations_one_run [OF assms(1) that] by (auto simp: file_statements_def)
  ultimately show ?thesis unfolding assms(2) by blast
qed

definition sample_migrations :: "migration list" where
  "sample_migrations =
     [\<lparr>mi_name = ''002.sql'', mi_sql = ''CREATE TABLE b; CREATE TABLE c''\<rparr>,
      \<lparr>mi_name = ''001.sql'', mi_sql = ''CREATE TABLE a;''\<rparr>]"

text \<open>A database that loses every row of the ledger, and one that works.\<close>

definition loses_rows :: db_script where
  "loses_rows calls c = (case c of WriteLedger _ _ \<Rightarrow> Some ''connection lost'' | _ \<Rightarrow> None)"

definition works :: db_script where
  "works calls c = None"

abbreviation fresh_db :: migration_db where
  "fresh_db \<equiv> \<lparr>md_ledger = Map.empty, md_calls = []\<rparr>"

lemma migrations_applied_once_witness:
  "\<exists>as. attempts_at (pending Map.empty sample_migrations) as \<and>
     executed (migrated (\<lambda>s. s) sample_migrations [loses_rows, works] fresh_db) = attempted as \<and>
     md_ledger (migrated (\<lambda>s. s) sample_migrations [loses_rows, works] fresh_db) =
       ledger_with (\<lambda>s. s) (recorded_files as) Map.empty \<and>
     length (filter (\<lambda>a. \<not> snd (snd a)) as) \<le> 2"
proof -
  have d: "distinct (map mi_name sample_migrations)"
    by (simp add: sample_migrations_def)
  have none: "executed fresh_db = []" "md_ledger fresh_db = Map.empty" "length [loses_rows, works] = 2"
    by (simp_all add: executed_def)
  from conjunct1 [OF migrations_applied_once [OF d refl, of fresh_db "\<lambda>s. s" "[loses_rows, works]"]] show ?thesis
    unfolding none by simp
qed

text \<open>Once is not exactly once: a file whose row is lost after its last statement is executed a second time by
  the next run, because the statements and the row are no transaction.\<close>

lemma execute_all_works:
  assumes "\<And>calls s. run calls (Execute s) = None"
  shows "eff_all (execute_statement run name) ss db = (Inr (), db\<lparr>md_calls := md_calls db @ map Execute ss\<rparr>)"
  by (induction ss arbitrary: db) (simp_all add: execute_statement_def db_call_def assms eff_bind_def)

theorem lost_row_executes_again:
  "executed (migrated sha [f] [loses_rows, works] fresh_db) = split_statements (mi_sql f) @ split_statements (mi_sql f)"
proof -
  have "concat (map (call_statement \<circ> Execute) ss) = ss" for ss by (induction ss) simp_all
  then show ?thesis
    by (simp add: migrated_def apply_migrations_def apply_one_def record_migration_def db_call_def execute_all_works
        loses_rows_def works_def eff_bind_def executed_def)
qed

end
