(* ===== verification/Chunking.thy ===== *)
theory Chunking
  imports Regex
begin

section \<open>Chunking source files\<close>

text \<open>
  \<^verbatim>\<open>retrieval/chunking.py\<close>: a file is cut at its definitions, or into overlapping windows when none is
  found, and a definition that is too long is cut into windows too. Line numbers count from one. The
  properties: a chunk is an unbroken, bounded piece of the file under its line numbers; every line that is
  not blank is in some chunk, except that lines before an early first definition are dropped; and cutting a
  long range into windows never separates lines that are close together.
\<close>

definition MAX_CHUNK_LINES :: nat where
  "MAX_CHUNK_LINES = 120"

definition MIN_CHUNK_LINES :: nat where
  "MIN_CHUNK_LINES = 5"

definition WINDOW_OVERLAP :: nat where
  "WINDOW_OVERLAP = 15"

subsection \<open>Where definitions begin\<close>

definition PY_DEF :: rx where
  "PY_DEF =
     rx_seq [Bol, rx_alts (rx_seq [Lit ''async'', rx_plus is_space, Lit ''def'']) [Lit ''def'', Lit ''class''],
             rx_plus is_space, Grp ''1'' (rx_plus is_word)]"

definition brace_filler :: "char \<Rightarrow> bool" where
  "brace_filler c \<longleftrightarrow> is_space c \<or> is_word c \<or> c \<in> set ''<>,[]*&:''"

definition BRACE_DEF :: rx where
  "BRACE_DEF =
     rx_seq [Bol, rx_star is_space, rx_opt (Seq (Lit ''export'') (rx_plus is_space)),
             rx_opt (rx_alts (Lit ''public'') [Lit ''private'', Lit ''protected'', Lit ''static'', Lit ''final'',
               Lit ''async'', Lit ''func'', Lit ''fn'', Lit ''pub'']),
             Rep brace_filler 0 None False, WordB,
             rx_alts (Lit ''function'') [Lit ''func'', Lit ''fn'', Lit ''class'', Lit ''interface'', Lit ''struct'',
               Lit ''type'', Lit ''impl'', Lit ''def''],
             rx_plus is_space, Grp ''1'' (rx_plus is_word)]"

definition rx_group1 :: "rx \<Rightarrow> string \<Rightarrow> string option" where
  "rx_group1 r s = Option.bind (rx_match r s) (group_of ''1'')"

definition python_symbol :: "string \<Rightarrow> string option" where
  "python_symbol line = (if line \<noteq> py_lstrip line then None else rx_group1 PY_DEF (py_lstrip line))"

definition brace_symbol :: "string \<Rightarrow> string option" where
  "brace_symbol line = rx_group1 BRACE_DEF line"

fun boundaries_from :: "(string \<Rightarrow> string option) \<Rightarrow> nat \<Rightarrow> string list \<Rightarrow> (nat \<times> string) list" where
  "boundaries_from symbol i [] = []"
| "boundaries_from symbol i (line # ls) =
     (case symbol line of
        Some s \<Rightarrow> (i + 1, s) # boundaries_from symbol (i + 1) ls
      | None \<Rightarrow> boundaries_from symbol (i + 1) ls)"

definition python_boundaries :: "string list \<Rightarrow> (nat \<times> string) list" where
  "python_boundaries ls = boundaries_from python_symbol 0 ls"

definition brace_boundaries :: "string list \<Rightarrow> (nat \<times> string) list" where
  "brace_boundaries ls = boundaries_from brace_symbol 0 ls"

subsection \<open>Tables\<close>

definition SKIP_DIRS :: "string list" where
  "SKIP_DIRS =
     [''.git'', ''node_modules'', ''venv'', ''.venv'', ''__pycache__'', ''dist'', ''build'', ''target'', ''.next'',
      ''.mypy_cache'', ''.pytest_cache'', ''vendor'', ''.terraform'', ''migrations/__pycache__'']"

definition INDEXABLE_EXT :: "string list" where
  "INDEXABLE_EXT =
     [''.py'', ''.ts'', ''.tsx'', ''.js'', ''.jsx'', ''.go'', ''.rs'', ''.java'', ''.kt'', ''.rb'', ''.php'', ''.cs'',
      ''.c'', ''.h'', ''.cc'', ''.cpp'', ''.hpp'', ''.sql'', ''.sh'', ''.tf'', ''.md'', ''.yaml'', ''.yml'']"

definition LANGUAGE_BY_EXT :: "(string \<times> string) list" where
  "LANGUAGE_BY_EXT =
     [(''.py'', ''python''), (''.ts'', ''typescript''), (''.tsx'', ''typescript''), (''.js'', ''javascript''),
      (''.jsx'', ''javascript''), (''.go'', ''go''), (''.rs'', ''rust''), (''.java'', ''java''),
      (''.kt'', ''kotlin''), (''.rb'', ''ruby''), (''.php'', ''php''), (''.cs'', ''csharp''), (''.c'', ''c''),
      (''.h'', ''c''), (''.cc'', ''cpp''), (''.cpp'', ''cpp''), (''.hpp'', ''cpp''), (''.sql'', ''sql''),
      (''.sh'', ''shell''), (''.tf'', ''terraform''), (''.md'', ''markdown''), (''.yaml'', ''yaml''),
      (''.yml'', ''yaml'')]"

subsection \<open>Chunks\<close>

record chunk =
  cu_file_path :: string
  cu_start_line :: nat
  cu_end_line :: nat
  cu_content :: string
  cu_symbol :: "string option"
  cu_language :: "string option"

text \<open>\<^verbatim>\<open>"\n".join(lines[start - 1 : end])\<close>\<close>

definition line_range :: "string list \<Rightarrow> nat \<Rightarrow> nat \<Rightarrow> string list" where
  "line_range ls a b = take (b - (a - 1)) (drop (a - 1) ls)"

definition make_chunk ::
  "string \<Rightarrow> string list \<Rightarrow> string option \<Rightarrow> string option \<Rightarrow> nat \<Rightarrow> nat \<Rightarrow> chunk" where
  "make_chunk path ls lang symbol a b =
     \<lparr>cu_file_path = path, cu_start_line = a, cu_end_line = b,
      cu_content = py_join [CHR 0x0A] (line_range ls a b), cu_symbol = symbol, cu_language = lang\<rparr>"

function windows_loop ::
  "string \<Rightarrow> string list \<Rightarrow> string option \<Rightarrow> string option \<Rightarrow> nat \<Rightarrow> nat \<Rightarrow> chunk list" where
  "windows_loop path ls lang symbol end_line cursor =
     (if cursor \<le> end_line then
        (let stop = min (cursor + MAX_CHUNK_LINES - 1) end_line in
         make_chunk path ls lang symbol cursor stop #
         (if end_line \<le> stop then []
          else windows_loop path ls lang symbol end_line (cursor + (MAX_CHUNK_LINES - WINDOW_OVERLAP))))
      else [])"
  by pat_completeness auto
termination
  by (relation "measure (\<lambda>(path, ls, lang, symbol, e, c). Suc e - c)")
    (auto simp: MAX_CHUNK_LINES_def WINDOW_OVERLAP_def)

declare windows_loop.simps [simp del]

definition windows ::
  "string \<Rightarrow> string list \<Rightarrow> string option \<Rightarrow> nat \<Rightarrow> nat option \<Rightarrow> string option \<Rightarrow> chunk list" where
  "windows path ls lang start end_line symbol =
     windows_loop path ls lang symbol
       (case end_line of None \<Rightarrow> length ls | Some e \<Rightarrow> if e = 0 then length ls else e) start"

fun boundary_chunks ::
  "string \<Rightarrow> string list \<Rightarrow> string option \<Rightarrow> (nat \<times> string) list \<Rightarrow> chunk list" where
  "boundary_chunks path ls lang [] = []"
| "boundary_chunks path ls lang ((start, symbol) # bs) =
     (let e = (case bs of [] \<Rightarrow> length ls | (next_start, _) # _ \<Rightarrow> next_start - 1) in
      (if e < start then [] else [make_chunk path ls lang (Some symbol) start e]) @
      boundary_chunks path ls lang bs)"

definition from_boundaries ::
  "string \<Rightarrow> string list \<Rightarrow> (nat \<times> string) list \<Rightarrow> string option \<Rightarrow> chunk list" where
  "from_boundaries path ls bs lang =
     (if MIN_CHUNK_LINES < fst (hd bs)
      then [make_chunk path ls lang (Some ''<module>'') 1 (fst (hd bs) - 1)] else []) @
     boundary_chunks path ls lang bs"

definition file_language :: "string \<Rightarrow> string option \<Rightarrow> string option" where
  "file_language path lang =
     (case lang of
        Some (c # l) \<Rightarrow> Some (c # l)
      | _ \<Rightarrow> map_of LANGUAGE_BY_EXT (CHR ''.'' # after_last (CHR ''.'') path))"

definition file_boundaries :: "string option \<Rightarrow> string list \<Rightarrow> (nat \<times> string) list" where
  "file_boundaries lang ls =
     (if lang = Some ''python'' then python_boundaries ls else brace_boundaries ls)"

definition cap_chunk :: "string \<Rightarrow> string list \<Rightarrow> string option \<Rightarrow> chunk \<Rightarrow> chunk list" where
  "cap_chunk path ls lang c =
     (if int (cu_end_line c) - int (cu_start_line c) + 1 \<le> int MAX_CHUNK_LINES then [c]
      else windows path ls lang (cu_start_line c) (Some (cu_end_line c)) (cu_symbol c))"

definition chunk_file :: "string \<Rightarrow> string \<Rightarrow> string option \<Rightarrow> chunk list" where
  "chunk_file path body lang0 =
     (let ls = py_splitlines body in
      if ls = [] then []
      else
        let lang = file_language path lang0;
            bs = file_boundaries lang ls;
            cs = (if bs \<noteq> [] then from_boundaries path ls bs lang else windows path ls lang 1 None None)
        in filter (\<lambda>c. py_strip (cu_content c) \<noteq> []) (concat (map (cap_chunk path ls lang) cs)))"

definition should_index :: "string \<Rightarrow> nat \<Rightarrow> nat \<Rightarrow> bool" where
  "should_index path size_bytes max_bytes \<longleftrightarrow>
     \<not> list_ex (\<lambda>part. part \<in> set SKIP_DIRS) (py_split (CHR ''/'') path) \<and> size_bytes \<le> max_bytes \<and>
     (if CHR ''.'' \<in> set path then CHR ''.'' # after_last (CHR ''.'') path else []) \<in> set INDEXABLE_EXT"

subsection \<open>Chunks are pieces of the file\<close>

definition is_piece :: "string \<Rightarrow> string list \<Rightarrow> chunk \<Rightarrow> bool" where
  "is_piece path ls c \<longleftrightarrow>
     cu_file_path c = path \<and> 1 \<le> cu_start_line c \<and> cu_start_line c \<le> cu_end_line c \<and>
     cu_end_line c \<le> length ls \<and>
     cu_content c = py_join [CHR 0x0A] (line_range ls (cu_start_line c) (cu_end_line c))"

definition lines_of :: "chunk \<Rightarrow> nat set" where
  "lines_of c = {cu_start_line c..cu_end_line c}"

definition covered :: "chunk list \<Rightarrow> nat set" where
  "covered cs = (\<Union>c \<in> set cs. lines_of c)"

lemma covered_simps [simp]:
  "covered [] = {}" "covered (c # cs) = lines_of c \<union> covered cs" "covered (cs @ ds) = covered cs \<union> covered ds"
  by (auto simp: covered_def)

lemma make_chunk_simps [simp]:
  "lines_of (make_chunk path ls lang symbol a b) = {a..b}"
  "cu_start_line (make_chunk path ls lang symbol a b) = a"
  "cu_end_line (make_chunk path ls lang symbol a b) = b"
  "is_piece path ls (make_chunk path ls lang symbol a b) \<longleftrightarrow> 1 \<le> a \<and> a \<le> b \<and> b \<le> length ls"
  by (auto simp: make_chunk_def lines_of_def is_piece_def)

lemma windows_loop_pieces:
  assumes "1 \<le> cursor" and "e \<le> length ls"
  shows "list_all (\<lambda>c. is_piece path ls c \<and> cu_end_line c < cu_start_line c + MAX_CHUNK_LINES)
    (windows_loop path ls lang symbol e cursor)"
  using assms
proof (induction path ls lang symbol e cursor rule: windows_loop.induct)
  case (1 path ls lang symbol e cursor)
  let ?rest = "windows_loop path ls lang symbol e (cursor + (MAX_CHUNK_LINES - WINDOW_OVERLAP))"
  have "list_all (\<lambda>c. is_piece path ls c \<and> cu_end_line c < cu_start_line c + MAX_CHUNK_LINES) ?rest"
    if "cursor \<le> e" "\<not> e \<le> min (cursor + MAX_CHUNK_LINES - 1) e"
    by (rule "1.IH") (use that "1.prems" in simp_all)
  then show ?case
    using "1.prems" by (subst windows_loop.simps) (simp add: Let_def, simp add: MAX_CHUNK_LINES_def)
qed

lemma ivl_join: "a \<le> b \<Longrightarrow> b \<le> Suc m \<Longrightarrow> m \<le> e \<Longrightarrow> {a..m} \<union> {b..e} = {a..e::nat}"
  by auto

lemma windows_loop_covered: "covered (windows_loop path ls lang symbol e cursor) = {cursor..e}"
proof (induction path ls lang symbol e cursor rule: windows_loop.induct)
  case (1 path ls lang symbol e cursor)
  show ?case
  proof (cases "cursor + (MAX_CHUNK_LINES - 1) < e")
    case True
    then have "cursor \<le> e" "\<not> e \<le> min (cursor + MAX_CHUNK_LINES - 1) e" "min (cursor + MAX_CHUNK_LINES - 1) e = cursor + (MAX_CHUNK_LINES - 1)"
      by (simp_all add: MAX_CHUNK_LINES_def)
    with 1 [OF this(1) refl this(2)] have "covered (windows_loop path ls lang symbol e cursor) =
        {cursor..cursor + (MAX_CHUNK_LINES - 1)} \<union> {cursor + (MAX_CHUNK_LINES - WINDOW_OVERLAP)..e}"
      by (subst windows_loop.simps) (simp add: Let_def)
    also have "\<dots> = {cursor..e}"
      by (rule ivl_join) (use True in \<open>simp_all add: MAX_CHUNK_LINES_def WINDOW_OVERLAP_def\<close>)
    finally show ?thesis .
  next
    case False
    then show ?thesis
      by (subst windows_loop.simps) (auto simp: Let_def MAX_CHUNK_LINES_def)
  qed
qed

lemma windows_loop_close:
  assumes "cursor \<le> i" and "i \<le> j" and "j \<le> e" and "j \<le> i + WINDOW_OVERLAP"
  shows "\<exists>c \<in> set (windows_loop path ls lang symbol e cursor). cu_start_line c \<le> i \<and> j \<le> cu_end_line c"
  using assms
proof (induction path ls lang symbol e cursor rule: windows_loop.induct)
  case (1 path ls lang symbol e cursor)
  let ?stop = "min (cursor + MAX_CHUNK_LINES - 1) e"
  show ?case
  proof (cases "j \<le> ?stop")
    case True
    with 1 show ?thesis by (subst windows_loop.simps) (auto simp: Let_def)
  next
    case False
    with "1.prems" have "\<not> e \<le> ?stop" "cursor + (MAX_CHUNK_LINES - WINDOW_OVERLAP) \<le> i"
      by (auto simp: MAX_CHUNK_LINES_def WINDOW_OVERLAP_def)
    with 1 obtain c where "c \<in> set (windows_loop path ls lang symbol e (cursor + (MAX_CHUNK_LINES - WINDOW_OVERLAP)))"
      and "cu_start_line c \<le> i" "j \<le> cu_end_line c"
      by auto
    with 1 \<open>\<not> e \<le> ?stop\<close> show ?thesis
      by (subst windows_loop.simps) (auto simp: Let_def)
  qed
qed

text \<open>Cutting a long range into windows keeps what is close together together: any two lines of the
  range that are at most fifteen lines apart are in one window, whatever lies between, and no window is
  longer than the cap.\<close>

theorem windows_overlap:
  assumes "1 \<le> a" and "a \<le> i" and "i \<le> j" and "j \<le> i + 15" and "j \<le> b" and "b \<le> length ls"
  shows "list_ex (\<lambda>c. cu_start_line c \<le> i \<and> j \<le> cu_end_line c) (windows path ls lang a (Some b) symbol) \<and>
    list_all (\<lambda>c. is_piece path ls c \<and> cu_end_line c < cu_start_line c + 120) (windows path ls lang a (Some b) symbol)"
proof -
  have "b \<noteq> 0" using assms by simp
  then show ?thesis
    using windows_loop_close [of a i j b] windows_loop_pieces [of a b ls path lang symbol] assms
    by (auto simp: windows_def list_ex_iff WINDOW_OVERLAP_def MAX_CHUNK_LINES_def)
qed

lemma windows_overlap_witness:
  "list_ex (\<lambda>c. cu_start_line c \<le> 119 \<and> 130 \<le> cu_end_line c)
     (windows ''a.py'' (replicate 300 ''x'') None 1 (Some 300) None)"
  using windows_overlap [of 1 119 130 300 "replicate 300 ''x''" "''a.py''" None None] by simp

subsection \<open>No line with text is lost after the header\<close>

lemma boundaries_from_bounds:
  "list_all (\<lambda>b. i < fst b \<and> fst b \<le> i + length ls) (boundaries_from symbol i ls)"
proof (induction ls arbitrary: i)
  case (Cons l ls)
  have "list_all (\<lambda>b. i < fst b \<and> fst b \<le> i + length (l # ls)) (boundaries_from symbol (i + 1) ls)"
    using Cons [of "i + 1"] by (auto simp: list_all_iff)
  then show ?case by (simp split: option.splits)
qed simp

lemma boundaries_from_sorted: "sorted_wrt (<) (map fst (boundaries_from symbol i ls))"
proof (induction ls arbitrary: i)
  case (Cons l ls)
  then show ?case
    using boundaries_from_bounds [of "i + 1" ls symbol] by (auto simp: list_all_iff split: option.splits)
qed simp

lemma boundary_chunks_pieces:
  assumes "sorted_wrt (<) (map fst bs)" and "\<And>b. b \<in> set bs \<Longrightarrow> 1 \<le> fst b \<and> fst b \<le> length ls"
  shows "list_all (is_piece path ls) (boundary_chunks path ls lang bs) \<and>
    covered (boundary_chunks path ls lang bs) = (if bs = [] then {} else {fst (hd bs)..length ls})"
  using assms
proof (induction path ls lang bs rule: boundary_chunks.induct)
  case (2 path ls lang start symbol bs)
  show ?case
  proof (cases bs)
    case Nil
    with 2 show ?thesis by (auto simp: Let_def)
  next
    case (Cons b bs')
    then obtain n s where b: "b = (n, s)" by (cases b)
    have "start < n" "1 \<le> start" "n \<le> length ls"
      using 2(2) 2(3) [of "(start, symbol)"] 2(3) [of "(n, s)"] Cons b by simp_all
    moreover have "{start..n - 1} \<union> {n..length ls} = {start..length ls}"
      using \<open>start < n\<close> \<open>n \<le> length ls\<close> by auto
    moreover have "list_all (is_piece path ls) (boundary_chunks path ls lang bs) \<and>
        covered (boundary_chunks path ls lang bs) = {n..length ls}"
      using 2 Cons b by simp
    ultimately show ?thesis using Cons b by (auto simp: Let_def)
  qed
qed simp

lemma from_boundaries_pieces:
  assumes "sorted_wrt (<) (map fst bs)" and "\<And>b. b \<in> set bs \<Longrightarrow> 1 \<le> fst b \<and> fst b \<le> length ls" and "bs \<noteq> []"
  shows "list_all (is_piece path ls) (from_boundaries path ls bs lang) \<and>
    covered (from_boundaries path ls bs lang) =
      {if MIN_CHUNK_LINES < fst (hd bs) then 1 else fst (hd bs)..length ls}"
proof -
  have "1 \<le> fst (hd bs)" "fst (hd bs) \<le> length ls"
    using assms by simp_all
  moreover have "{1..fst (hd bs) - 1} \<union> {fst (hd bs)..length ls} = {1..length ls}"
    using calculation by auto
  ultimately show ?thesis
    using boundary_chunks_pieces [OF assms(1,2), of path lang] assms(3)
    by (auto simp: from_boundaries_def MIN_CHUNK_LINES_def)
qed

lemma cap_chunk_pieces:
  assumes "is_piece path ls c"
  shows "list_all (\<lambda>d. is_piece path ls d \<and> cu_end_line d < cu_start_line d + MAX_CHUNK_LINES) (cap_chunk path ls lang c)"
    and "covered (cap_chunk path ls lang c) = lines_of c"
proof -
  have c: "1 \<le> cu_start_line c" "cu_end_line c \<noteq> 0" "cu_end_line c \<le> length ls"
    using assms by (auto simp: is_piece_def)
  show "list_all (\<lambda>d. is_piece path ls d \<and> cu_end_line d < cu_start_line d + MAX_CHUNK_LINES) (cap_chunk path ls lang c)"
    using assms windows_loop_pieces [OF c(1,3), of path lang "cu_symbol c"] c(2)
    by (auto simp: cap_chunk_def windows_def)
  show "covered (cap_chunk path ls lang c) = lines_of c"
    using c(2) by (auto simp: cap_chunk_def windows_def windows_loop_covered lines_of_def)
qed

lemma join_blank: "py_strip (py_join [CHR 0x0A] ls) = [] \<longleftrightarrow> list_all (\<lambda>l. py_strip l = []) ls"
proof (induction "[CHR 0x0A]" ls rule: py_join.induct)
  case (3 x y zs)
  then show ?case by (simp add: py_strip_space_free_iff char_class_defs)
qed (simp_all add: py_strip_space_free_iff)

lemma piece_blank:
  assumes "is_piece path ls c" and "i \<in> lines_of c" and "py_strip (ls ! (i - 1)) \<noteq> []"
  shows "py_strip (cu_content c) \<noteq> []"
proof -
  let ?a = "cu_start_line c" and ?b = "cu_end_line c"
  have b: "1 \<le> ?a" "?a \<le> i" "i \<le> ?b" "?b \<le> length ls"
    using assms by (auto simp: is_piece_def lines_of_def)
  then have "line_range ls ?a ?b ! (i - ?a) = ls ! (i - 1)" "i - ?a < length (line_range ls ?a ?b)"
    by (auto simp: line_range_def)
  then have "ls ! (i - 1) \<in> set (line_range ls ?a ?b)" by (metis nth_mem)
  with assms show ?thesis by (auto simp: is_piece_def join_blank list_all_iff)
qed

lemma covered_filter_blank:
  assumes "list_all (is_piece path ls) cs" and "py_strip (ls ! (i - 1)) \<noteq> []"
  shows "i \<in> covered (filter (\<lambda>c. py_strip (cu_content c) \<noteq> []) cs) \<longleftrightarrow> i \<in> covered cs"
  using assms piece_blank [OF _ _ assms(2), of path] by (auto simp: covered_def list_all_iff)

text \<open>The chunks before and after the cap.\<close>

definition uncapped :: "string \<Rightarrow> string list \<Rightarrow> string option \<Rightarrow> chunk list" where
  "uncapped path ls lang =
     (let bs = file_boundaries lang ls in
      if bs \<noteq> [] then from_boundaries path ls bs lang else windows path ls lang 1 None None)"

definition first_kept :: "(nat \<times> string) list \<Rightarrow> nat" where
  "first_kept bs = (if bs \<noteq> [] \<and> fst (hd bs) \<le> MIN_CHUNK_LINES then fst (hd bs) else 1)"

lemma uncapped_pieces:
  "list_all (is_piece path ls) (uncapped path ls lang) \<and>
   covered (uncapped path ls lang) = {first_kept (file_boundaries lang ls)..length ls}"
proof (cases "file_boundaries lang ls = []")
  case True
  then show ?thesis
    using windows_loop_pieces [of 1 "length ls" ls path lang None]
    by (auto simp: uncapped_def first_kept_def windows_def windows_loop_covered list_all_iff)
next
  case False
  obtain symbol where "file_boundaries lang ls = boundaries_from symbol 0 ls"
    by (metis file_boundaries_def python_boundaries_def brace_boundaries_def)
  then have "sorted_wrt (<) (map fst (file_boundaries lang ls))"
    and "\<And>b. b \<in> set (file_boundaries lang ls) \<Longrightarrow> 1 \<le> fst b \<and> fst b \<le> length ls"
    using boundaries_from_sorted [of symbol 0 ls] boundaries_from_bounds [of 0 ls symbol]
    by (auto simp: list_all_iff Suc_le_eq)
  from from_boundaries_pieces [OF this False, of path lang] False show ?thesis
    by (auto simp: uncapped_def first_kept_def)
qed

lemma chunk_file_uncapped:
  "chunk_file path body lang =
     filter (\<lambda>c. py_strip (cu_content c) \<noteq> [])
       (concat (map (cap_chunk path (py_splitlines body) (file_language path lang))
         (if py_splitlines body = [] then [] else uncapped path (py_splitlines body) (file_language path lang))))"
  by (simp add: chunk_file_def uncapped_def Let_def)

lemma capped_pieces:
  assumes "list_all (is_piece path ls) cs"
  shows "list_all (\<lambda>d. is_piece path ls d \<and> cu_end_line d < cu_start_line d + MAX_CHUNK_LINES)
      (concat (map (cap_chunk path ls lang) cs)) \<and>
    covered (concat (map (cap_chunk path ls lang) cs)) = covered cs"
  using assms by (induction cs) (simp_all add: cap_chunk_pieces)

text \<open>C40. What chunking a file keeps. Every chunk is an unbroken piece of the file under its line numbers,
  at most 120 lines long and not blank; and a line with text is in some chunk unless it stands before the
  first definition and that definition begins within the first five lines, in which case it is in none: a
  short header is not indexed.\<close>

theorem chunk_file_covers:
  assumes "1 \<le> i" and "i \<le> length (py_splitlines body)" and "py_strip (py_splitlines body ! (i - 1)) \<noteq> []"
  shows "list_all (\<lambda>c. is_piece path (py_splitlines body) c \<and> cu_end_line c < cu_start_line c + 120 \<and>
        py_strip (cu_content c) \<noteq> []) (chunk_file path body lang) \<and>
    (i \<in> covered (chunk_file path body lang) \<longleftrightarrow>
       first_kept (file_boundaries (file_language path lang) (py_splitlines body)) \<le> i)"
proof -
  let ?ls = "py_splitlines body" and ?lang = "file_language path lang"
  let ?cs = "concat (map (cap_chunk path ?ls ?lang) (uncapped path ?ls ?lang))"
  have "?ls \<noteq> []"
    using assms(1,2) by auto
  then have cf: "chunk_file path body lang = filter (\<lambda>c. py_strip (cu_content c) \<noteq> []) ?cs"
    by (simp add: chunk_file_uncapped)
  have pieces: "list_all (\<lambda>d. is_piece path ?ls d \<and> cu_end_line d < cu_start_line d + MAX_CHUNK_LINES) ?cs"
    and covered: "covered ?cs = {first_kept (file_boundaries ?lang ?ls)..length ?ls}"
    using capped_pieces uncapped_pieces by metis+
  have "i \<in> covered (chunk_file path body lang) \<longleftrightarrow> i \<in> covered ?cs"
    unfolding cf using pieces by (intro covered_filter_blank [OF _ assms(3)]) (auto simp: list_all_iff)
  moreover have "list_all (\<lambda>c. is_piece path ?ls c \<and> cu_end_line c < cu_start_line c + 120 \<and>
      py_strip (cu_content c) \<noteq> []) (chunk_file path body lang)"
    using pieces by (auto simp: cf list_all_iff MAX_CHUNK_LINES_def)
  ultimately show ?thesis
    using assms(2) by (simp add: covered)
qed

definition sample_source :: string where
  "sample_source =
     py_join [CHR 0x0A] [''import os'', ''API = 1'', ''def f(x):'', ''    return x'', [], ''class C:'', ''    pass'']"

lemma chunk_file_covers_witness:
  "2 \<notin> covered (chunk_file ''a.py'' sample_source None) \<and> 4 \<in> covered (chunk_file ''a.py'' sample_source None)"
proof -
  have ls: "py_splitlines sample_source =
      [''import os'', ''API = 1'', ''def f(x):'', ''    return x'', [], ''class C:'', ''    pass'']"
    unfolding sample_source_def by (rule splitlines_join) (simp_all add: line_free_def is_linebreak_def code_def)
  have "file_language ''a.py'' None = Some ''python''"
    by (simp add: file_language_def LANGUAGE_BY_EXT_def after_last_def)
  then have "first_kept (file_boundaries (file_language ''a.py'' None) (py_splitlines sample_source)) = 3"
    by (simp add: ls first_kept_def file_boundaries_def python_boundaries_def python_symbol_def py_lstrip_def
        char_class_defs rx_group1_def rx_match_def rx_match_at_def PY_DEF_def rx_alts.simps rx_seq.simps
        advance_def rep_counts_def group_of_def MIN_CHUNK_LINES_def upt_rec Let_def)
  with chunk_file_covers [of 2 sample_source "''a.py''" None] chunk_file_covers [of 4 sample_source "''a.py''" None]
  show ?thesis by (simp add: ls py_strip_def py_lstrip_def py_rstrip_def char_class_defs)
qed

end
