(* ===== verification/Embeddings.thy ===== *)
theory Embeddings
  imports Regex Exceptions "HOL-Library.Word"
begin

section \<open>Embeddings\<close>

text \<open>
  \<^verbatim>\<open>llm/embeddings.py\<close>: the hashing embedder, the padding of a trained model's vectors and the batches
  of the hosted one. The 64-bit hash, the trained model and the hosted endpoint are parameters. The
  properties: a hashed vector has the configured width and norm one (or is zero), padding changes no inner
  product, and batching does not show in the result.
\<close>

subsection \<open>Feature hashing\<close>

definition is_name_start :: "char \<Rightarrow> bool" where
  "is_name_start c \<longleftrightarrow> is_upper c \<or> is_lower c \<or> code c = 95"

definition is_symbol_char :: "char \<Rightarrow> bool" where
  "is_symbol_char c \<longleftrightarrow> \<not> is_space c \<and> \<not> is_word c"

definition TOKEN :: rx where
  "TOKEN = rx_alts (Seq (Chr is_name_start) (rx_star is_word)) [rx_plus is_digit, Chr is_symbol_char]"

definition NAME_PIECE :: rx where
  "NAME_PIECE = Alt (Seq (rx_opt (Chr is_upper)) (rx_plus is_lower)) (rx_plus is_digit)"

definition UNIT_SEPARATOR :: string where
  "UNIT_SEPARATOR = [CHR 0xE2, CHR 0x90, CHR 0x9F]"

definition expand_token :: "string \<Rightarrow> string list" where
  "expand_token tok =
     py_lower tok # map py_lower (filter (\<lambda>p. 2 < length p) (rx_findall NAME_PIECE tok))"

fun adjacent :: "string list \<Rightarrow> string list" where
  "adjacent (a # b # rest) = (a @ UNIT_SEPARATOR @ b) # adjacent (b # rest)"
| "adjacent _ = []"

definition bigrams :: "string list \<Rightarrow> string list" where
  "bigrams tokens = tokens @ adjacent tokens"

definition slot :: "(string \<Rightarrow> 64 word) \<Rightarrow> string \<Rightarrow> nat \<Rightarrow> nat \<times> real" where
  "slot digest token width = (unat (digest token) mod width, if bit (digest token) 63 then 1 else -1)"

definition add_gram :: "(string \<Rightarrow> 64 word) \<Rightarrow> nat \<Rightarrow> real list \<Rightarrow> string \<Rightarrow> real list" where
  "add_gram digest width vec gram =
     (case slot digest gram width of (i, sign) \<Rightarrow> vec[i := vec ! i + sign])"

definition dot :: "real list \<Rightarrow> real list \<Rightarrow> real" where
  "dot u v = sum_list (map2 (*) u v)"

definition hash_counts :: "(string \<Rightarrow> 64 word) \<Rightarrow> nat \<Rightarrow> string \<Rightarrow> real list" where
  "hash_counts digest width body =
     foldl (add_gram digest width) (replicate width 0)
       (bigrams (concat (map expand_token (rx_findall TOKEN body))))"

definition hash_vector :: "(string \<Rightarrow> 64 word) \<Rightarrow> nat \<Rightarrow> string \<Rightarrow> real list" where
  "hash_vector digest width body =
     (let vec = hash_counts digest width body; norm = sqrt (sum_list (map (\<lambda>v. v * v) vec))
      in if norm \<noteq> 0 then map (\<lambda>v. v / norm) vec else vec)"

definition hash_embed :: "(string \<Rightarrow> 64 word) \<Rightarrow> nat \<Rightarrow> string list \<Rightarrow> exc + real list list" where
  "hash_embed digest width texts = Inr (map (hash_vector digest width) texts)"

subsection \<open>A trained model and a hosted one\<close>

definition local_init :: "nat \<Rightarrow> string \<Rightarrow> nat \<Rightarrow> exc + unit" where
  "local_init width model native =
     (if width < native then
        Inl (ValueError
          (model @ '' produces '' @ py_str_nat native @ ''-dimensional vectors but EMBEDDING_DIM is '' @
           py_str_nat width @ ''. Truncating would change the ranking, so this is refused. Set EMBEDDING_DIM='' @
           py_str_nat native @ '' and re-run the migrations.''))
      else Inr ())"

definition pad_vector :: "nat \<Rightarrow> nat \<Rightarrow> real list \<Rightarrow> real list" where
  "pad_vector width native v = v @ replicate (width - native) 0"

definition local_embed :: "(string list \<Rightarrow> real list list) \<Rightarrow> nat \<Rightarrow> nat \<Rightarrow> string list \<Rightarrow> exc + real list list" where
  "local_embed encode width native texts =
     (if texts = [] then Inr [] else Inr (map (pad_vector width native) (encode texts)))"

function batches :: "nat \<Rightarrow> 'a list \<Rightarrow> 'a list list" where
  "batches n [] = []"
| "batches n (x # xs) = take (max 1 n) (x # xs) # batches n (drop (max 1 n) (x # xs))"
  by pat_completeness auto
termination by (relation "measure (\<lambda>(n, xs). length xs)") auto

definition openai_embed :: "(string list \<Rightarrow> exc + real list list) \<Rightarrow> string list \<Rightarrow> exc + real list list" where
  "openai_embed create texts =
     ebind (e_traverse create (batches 96 texts)) (\<lambda>vs. Inr (concat vs))"

datatype embedder = HashingEmbedder | OpenAIEmbedder | LocalEmbedder

definition get_embedder :: "string \<Rightarrow> embedder" where
  "get_embedder provider =
     (if provider = ''openai'' then OpenAIEmbedder
      else if provider = ''local'' then LocalEmbedder else HashingEmbedder)"

definition embedder_name :: "embedder \<Rightarrow> string" where
  "embedder_name e =
     (case e of HashingEmbedder \<Rightarrow> ''hash'' | OpenAIEmbedder \<Rightarrow> ''openai'' | LocalEmbedder \<Rightarrow> ''local'')"

subsection \<open>The vectors\<close>

lemma length_add_gram [simp]: "length (add_gram digest width vec g) = length vec"
  by (simp add: add_gram_def split: prod.splits)

lemma length_hash_counts [simp]: "length (hash_counts digest width body) = width"
proof -
  have "length (foldl (add_gram digest width) vec gs) = length vec" for vec gs
    by (induction gs arbitrary: vec) simp_all
  then show ?thesis by (simp add: hash_counts_def)
qed

lemma dot_self: "dot v v = sum_list (map (\<lambda>x. x * x) v)"
  by (induction v) (simp_all add: dot_def)

lemma dot_self_nonneg: "0 \<le> dot v v"
  unfolding dot_self by (intro sum_list_nonneg) auto

lemma dot_divide: "dot (map (\<lambda>x. x / r) v) (map (\<lambda>x. x / r) v) = dot v v / (r * r)"
proof -
  have "sum_list (map (\<lambda>x. x / r * (x / r)) v) = sum_list (map (\<lambda>x. x * x) v) / (r * r)"
    by (induction v) (simp_all add: add_divide_distrib)
  then show ?thesis by (simp add: dot_self comp_def)
qed

lemma dot_append: "length u = length v \<Longrightarrow> dot (u @ u') (v @ v') = dot u v + dot u' v'"
  by (simp add: dot_def)

lemma dot_zeros: "dot (replicate n 0) v = 0"
proof -
  have "\<forall>x \<in> set (map2 (*) (replicate n 0) v). x = 0"
    by (auto simp: set_zip)
  then show ?thesis by (simp add: dot_def sum_list_eq_0_iff) (metis (no_types, lifting) sum_list_0 map_idI map_cong)
qed

lemma hash_vector_norm: "dot (hash_vector digest width body) (hash_vector digest width body) \<in> {0, 1}"
proof -
  let ?v = "hash_counts digest width body"
  have "sqrt (dot ?v ?v) * sqrt (dot ?v ?v) = dot ?v ?v"
    using dot_self_nonneg by simp
  then show ?thesis
    by (simp add: hash_vector_def Let_def dot_divide flip: dot_self)
qed

lemma batches_concat: "concat (batches n xs) = xs"
  by (induction n xs rule: batches.induct) simp_all

lemma batches_map: "concat (map (map f) (batches n xs)) = map f xs"
  by (metis batches_concat map_concat)

text \<open>What retrieval may rely on, whichever embedder is configured. The hashing embedder gives every text
  a vector of the configured width whose norm is one or zero; the local embedder's padding gives vectors of
  the configured width with the inner products of the model's own, so that no ranking changes; and the
  hosted embedder gives one vector for every text in order, the batches notwithstanding, if the endpoint
  does so for a batch.\<close>

theorem embedders_sound:
  assumes "native \<le> width" and "length u = native" and "length v = native" and "\<And>ts. create ts = Inr (map f ts)"
  shows "length (hash_vector digest width body) = width \<and>
    dot (hash_vector digest width body) (hash_vector digest width body) \<in> {0, 1} \<and>
    length (pad_vector width native u) = width \<and>
    dot (pad_vector width native u) (pad_vector width native v) = dot u v \<and>
    openai_embed create texts = Inr (map f texts)"
  using assms hash_vector_norm
  by (auto simp: hash_vector_def Let_def pad_vector_def dot_append dot_zeros openai_embed_def
      e_traverse_Inr [where g = "map f"] batches_map)

lemma embedders_sound_witness:
  "length (hash_vector (\<lambda>s. of_nat (length s)) 8 ''a b'') = 8 \<and>
   dot (pad_vector 8 2 [3, 4]) (pad_vector 8 2 [1, 2]) = 11 \<and>
   openai_embed (\<lambda>ts. Inr (map (\<lambda>s. [real (length s)]) ts)) [''a'', ''bc''] = Inr [[1], [2]]"
  using embedders_sound [of 2 8 "[3, 4]" "[1, 2]" "\<lambda>ts. Inr (map (\<lambda>s. [real (length s)]) ts)"
      "\<lambda>s. [real (length s)]" "\<lambda>s. of_nat (length s)" "''a b''" "[''a'', ''bc'']"]
  by (simp add: dot_def)

end
