(* ===== verification/Index.thy ===== *)
theory Index
  imports Chunking Embeddings Domain Effects
begin

section \<open>The semantic index\<close>

text \<open>
  \<^verbatim>\<open>retrieval/indexer.py\<close> and the chunk table of \<^verbatim>\<open>db/repositories/chunks.py\<close>: walking a checkout,
  chunking and embedding its files and replacing the rows of the repository in one transaction, and the
  hybrid search that fuses the ranking by vector with the ranking by text. The file system, the embedder
  and the two rankings of the database are parameters. The properties: after indexing, the rows of a
  repository are its chunks, each with its own vector, whatever the (positive) batch size, and a failure leaves the
  index as it was; and the fusion of the rankings respects them.
\<close>

subsection \<open>Walking a checkout\<close>

text \<open>A directory with the sizes of its files (\<^const>\<open>None\<close> where \<^verbatim>\<open>stat\<close> fails) and its
  subdirectories, in the order in which \<^verbatim>\<open>os.walk\<close> lists them.\<close>

datatype dir_tree = Dir "(string \<times> nat option) list" "(string \<times> dir_tree) list"

definition rel_path :: "string \<Rightarrow> string \<Rightarrow> string" where
  "rel_path base name = (if base = [] then name else base @ ''/'' @ name)"

definition walked_dir :: "string \<Rightarrow> bool" where
  "walked_dir d \<longleftrightarrow> \<not> startswith d ''.'' \<or> d = ''.github''"

definition indexed_files :: "string \<Rightarrow> (string \<times> nat option) list \<Rightarrow> string list" where
  "indexed_files base fs =
     concat (map (\<lambda>(name, sz).
       case sz of
         None \<Rightarrow> []
       | Some n \<Rightarrow> if should_index (rel_path base name) n 400000 then [rel_path base name] else []) fs)"

fun walk :: "string \<Rightarrow> dir_tree \<Rightarrow> string list" where
  "walk base (Dir fs ds) =
     indexed_files base fs @
     concat (map (\<lambda>(d, t). if walked_dir d then walk (rel_path base d) t else []) ds)"

subsection \<open>The chunk table\<close>

record chunk_row =
  cr_repo :: int
  cr_sha :: string
  cr_path :: string
  cr_language :: "string option"
  cr_symbol :: "string option"
  cr_start :: nat
  cr_end :: nat
  cr_content :: string
  cr_hash :: string
  cr_embedding :: string

record index_store =
  ix_chunks :: "chunk_row list"
  ix_repos :: "int \<rightharpoonup> string option"

definition vec_text :: "real list \<Rightarrow> string" where
  "vec_text v = ''['' @ py_join '','' (map (py_fixed 6) v) @ '']''"

definition content_hash :: "(string \<Rightarrow> string) \<Rightarrow> chunk \<Rightarrow> string" where
  "content_hash sha c = take 32 (sha (cu_content c))"

definition chunk_as_row :: "(string \<Rightarrow> string) \<Rightarrow> int \<Rightarrow> string \<Rightarrow> chunk \<Rightarrow> real list \<Rightarrow> chunk_row" where
  "chunk_as_row sha repo commit c v =
     \<lparr>cr_repo = repo, cr_sha = commit, cr_path = cu_file_path c, cr_language = cu_language c,
      cr_symbol = cu_symbol c, cr_start = cu_start_line c, cr_end = cu_end_line c,
      cr_content = cu_content c, cr_hash = content_hash sha c, cr_embedding = vec_text v\<rparr>"

definition row_key :: "chunk_row \<Rightarrow> int \<times> string \<times> string \<times> nat \<times> string" where
  "row_key r = (cr_repo r, cr_sha r, cr_path r, cr_start r, cr_hash r)"

text \<open>\<^verbatim>\<open>INSERT ... ON CONFLICT DO NOTHING\<close>\<close>

definition insert_row :: "chunk_row list \<Rightarrow> chunk_row \<Rightarrow> chunk_row list" where
  "insert_row rows r = (if row_key r \<in> set (map row_key rows) then rows else rows @ [r])"

text \<open>One transaction: an error of the database rolls all of it back. The insert is checked against
  \<^verbatim>\<open>code_chunks.repo_id REFERENCES repositories (id)\<close> (\<^verbatim>\<open>migrations/002_semantic.sql\<close>): rows of a repository
  that is not in the table are refused. \<open>db_error\<close> is any other failure.\<close>

definition replace_repo_chunks ::
  "exc option \<Rightarrow> int \<Rightarrow> string \<Rightarrow> chunk_row list \<Rightarrow> (index_store, nat) effect" where
  "replace_repo_chunks db_error repo commit rows st =
     (case db_error of
        Some e \<Rightarrow> (Inl e, st)
      | None \<Rightarrow>
          (if rows \<noteq> [] \<and> ix_repos st repo = None
           then (Inl (OtherError ''ForeignKeyViolationError'' ''code_chunks_repo_id_fkey''), st)
           else
          (Inr (length rows),
           st\<lparr>ix_chunks := foldl insert_row (filter (\<lambda>r. cr_repo r \<noteq> repo) (ix_chunks st)) rows,
              ix_repos := (case ix_repos st repo of
                             None \<Rightarrow> ix_repos st
                           | Some _ \<Rightarrow> (ix_repos st)(repo \<mapsto> Some commit))\<rparr>)))"

subsection \<open>Indexing\<close>

record index_env =
  in_read :: "string \<Rightarrow> string option"
  in_sha :: "string \<Rightarrow> string"
  in_embed :: "string list \<Rightarrow> exc + real list list"
  in_db_error :: "exc option"

definition file_chunks :: "index_env \<Rightarrow> string \<Rightarrow> chunk list" where
  "file_chunks env path =
     (case in_read env path of None \<Rightarrow> [] | Some body \<Rightarrow> chunk_file path body None)"

definition embed_batch ::
  "index_env \<Rightarrow> int \<Rightarrow> string \<Rightarrow> chunk list \<Rightarrow> exc + chunk_row list" where
  "embed_batch env repo commit batch =
     ebind (in_embed env (map cu_content batch)) (\<lambda>vectors.
       if length vectors \<noteq> length batch then Inl (ValueError ''zip() arguments differ in length'')
       else Inr (map2 (chunk_as_row (in_sha env) repo commit) batch vectors))"

text \<open>The slices \<^verbatim>\<open>xs[i : i + k]\<close> for \<^verbatim>\<open>i\<close> in \<^verbatim>\<open>range(0, len(xs), k)\<close>: a step of 0 is refused, and a negative one
  gives no slice at all.\<close>

definition range_batches :: "int \<Rightarrow> 'a list \<Rightarrow> exc + 'a list list" where
  "range_batches k xs =
     (if k = 0 then Inl (ValueError ''range() arg 3 must not be zero'')
      else if k < 0 then Inr []
      else Inr (batches (nat k) xs))"

definition index_repository ::
  "index_env \<Rightarrow> int \<Rightarrow> dir_tree \<Rightarrow> string \<Rightarrow> int \<Rightarrow> (index_store, nat \<times> nat) effect" where
  "index_repository env repo tree commit batch_size =
     (let files = walk [] tree;
          chunks = concat (map (file_chunks env) files)
      in eff_bind (eff_lift (ebind (range_batches batch_size chunks) (e_traverse (embed_batch env repo commit)))) (\<lambda>rows.
         eff_bind (replace_repo_chunks (in_db_error env) repo commit (concat rows)) (\<lambda>written.
           eff_return (length files, written))))"

subsection \<open>Reading the index back\<close>

definition indexed_sha :: "index_store \<Rightarrow> int \<Rightarrow> string option" where
  "indexed_sha st repo = Option.bind (ix_repos st repo) id"

text \<open>A row of \<^verbatim>\<open>conventions\<close>: a rule of one repository, or of all of them when the repository is
  \<^const>\<open>None\<close>.\<close>

record convention =
  cv_id :: int
  cv_repo :: "int option"
  cv_rule :: string
  cv_active :: bool

text \<open>\<^verbatim>\<open>ORDER BY repo_id NULLS LAST, id LIMIT 60\<close>; the rows that qualify have one repository at most, so
  the first key only separates the own rules from the general ones.\<close>

definition conventions_for :: "convention list \<Rightarrow> int \<Rightarrow> string list" where
  "conventions_for rows repo =
     (let rs = filter (\<lambda>c. cv_active c \<and> (cv_repo c = Some repo \<or> cv_repo c = None)) rows
      in map cv_rule (take 60 (sort_key (\<lambda>c. cv_repo c = None) (sort_key cv_id rs))))"

subsection \<open>Hybrid search\<close>

text \<open>\<open>ranked\<close> is the order in which the database ranks the rows that qualify.\<close>

fun rrf_from :: "nat \<Rightarrow> nat list \<Rightarrow> nat \<Rightarrow> real" where
  "rrf_from rnk [] i = 0"
| "rrf_from rnk (j # js) i = (if j = i then 1 / (60 + real rnk) else 0) + rrf_from (rnk + 1) js i"

definition rrf_share :: "nat list \<Rightarrow> nat \<Rightarrow> real" where
  "rrf_share ranked i = rrf_from 1 ranked i"

definition rrf_score :: "nat list \<Rightarrow> nat list \<Rightarrow> nat \<Rightarrow> real" where
  "rrf_score vec txt i = rrf_share vec i + rrf_share txt i"

definition search_limit :: "nat \<Rightarrow> nat" where
  "search_limit top_k = max (top_k * 4) 40"

definition row_chunk :: "chunk_row \<Rightarrow> real \<Rightarrow> code_chunk" where
  "row_chunk r score =
     \<lparr>ck_file_path = cr_path r, ck_start_line = int (cr_start r), ck_end_line = int (cr_end r),
      ck_content = cr_content r, ck_symbol = cr_symbol r, ck_language = cr_language r, ck_score = score\<rparr>"

definition hybrid_search ::
  "(nat \<Rightarrow> chunk_row) \<Rightarrow> nat list \<Rightarrow> nat list \<Rightarrow> nat \<Rightarrow> string list \<Rightarrow> code_chunk list" where
  "hybrid_search row vec_ranked txt_ranked top_k exclude_paths =
     (let vec = take (search_limit top_k) vec_ranked;
          txt = take (search_limit top_k) txt_ranked;
          ids = filter (\<lambda>i. cr_path (row i) \<notin> set exclude_paths) (dict_fromkeys (vec @ txt))
      in map (\<lambda>i. row_chunk (row i) (rrf_score vec txt i))
           (take top_k (sort_key (\<lambda>i. - rrf_score vec txt i) ids)))"

subsection \<open>Chunks have distinct keys\<close>

lemma windows_loop_starts:
  "sorted_wrt (<) (map cu_start_line (windows_loop path ls lang symbol e cursor)) \<and>
   list_all (\<lambda>c. cursor \<le> cu_start_line c \<and> cu_start_line c \<le> e \<and> cu_file_path c = path)
     (windows_loop path ls lang symbol e cursor)"
proof (induction path ls lang symbol e cursor rule: windows_loop.induct)
  case (1 path ls lang symbol e cursor)
  let ?next = "cursor + (MAX_CHUNK_LINES - WINDOW_OVERLAP)"
  show ?case
  proof (cases "e \<le> min (cursor + MAX_CHUNK_LINES - 1) e")
    case True
    then show ?thesis by (subst (1 2) windows_loop.simps) (simp add: Let_def make_chunk_def)
  next
    case False
    with 1 have "sorted_wrt (<) (map cu_start_line (windows_loop path ls lang symbol e ?next)) \<and>
        list_all (\<lambda>c. ?next \<le> cu_start_line c \<and> cu_start_line c \<le> e \<and> cu_file_path c = path)
          (windows_loop path ls lang symbol e ?next)"
      by simp
    moreover have "cursor < ?next" by (simp add: MAX_CHUNK_LINES_def WINDOW_OVERLAP_def)
    ultimately show ?thesis
      using False by (subst (1 2) windows_loop.simps) (fastforce simp: Let_def make_chunk_def list_all_iff)
  qed
qed

definition disjoint_chunks :: "chunk list \<Rightarrow> bool" where
  "disjoint_chunks cs \<longleftrightarrow> sorted_wrt (\<lambda>c d. cu_end_line c < cu_start_line d) cs"

lemma disjoint_prepend:
  assumes "disjoint_chunks cs" and "list_all (\<lambda>c. n \<le> cu_start_line c) cs" and "a < n"
  shows "disjoint_chunks ((if n - 1 < a then [] else [make_chunk path ls lang s a (n - 1)]) @ cs) \<and>
    list_all (\<lambda>c. a \<le> cu_start_line c) ((if n - 1 < a then [] else [make_chunk path ls lang s a (n - 1)]) @ cs)"
  using assms by (auto simp: disjoint_chunks_def list_all_iff)

lemma boundary_chunks_disjoint:
  assumes "sorted_wrt (<) (map fst bs)"
  shows "disjoint_chunks (boundary_chunks path ls lang bs) \<and>
    list_all (\<lambda>c. fst (hd bs) \<le> cu_start_line c) (boundary_chunks path ls lang bs)"
  using assms
proof (induction path ls lang bs rule: boundary_chunks.induct)
  case (2 path ls lang start symbol bs)
  show ?case
  proof (cases bs)
    case Nil
    then show ?thesis by (simp add: disjoint_chunks_def Let_def)
  next
    case (Cons b bs')
    with 2 have "disjoint_chunks (boundary_chunks path ls lang bs)" "start < fst b"
      "list_all (\<lambda>c. fst b \<le> cu_start_line c) (boundary_chunks path ls lang bs)"
      by simp_all
    moreover have "boundary_chunks path ls lang ((start, symbol) # bs) =
        (if fst b - 1 < start then [] else [make_chunk path ls lang (Some symbol) start (fst b - 1)]) @
        boundary_chunks path ls lang bs"
      by (simp only: boundary_chunks.simps(2) Cons list.case split_beta Let_def)
    ultimately show ?thesis
      using disjoint_prepend [of "boundary_chunks path ls lang bs" "fst b" start] by simp
  qed
qed (simp add: disjoint_chunks_def)

lemma uncapped_disjoint: "disjoint_chunks (uncapped path ls lang) \<or> file_boundaries lang ls = []"
proof (cases "file_boundaries lang ls = []")
  case False
  let ?bs = "file_boundaries lang ls"
  obtain symbol where "?bs = boundaries_from symbol 0 ls"
    by (metis file_boundaries_def python_boundaries_def brace_boundaries_def)
  then have "sorted_wrt (<) (map fst ?bs)"
    using boundaries_from_sorted by simp
  from boundary_chunks_disjoint [OF this, of path ls lang]
  have "disjoint_chunks (from_boundaries path ls ?bs lang)"
    using disjoint_prepend [of "boundary_chunks path ls lang ?bs" "fst (hd ?bs)" 1 path ls lang "Some ''<module>''"]
    by (auto simp: from_boundaries_def MIN_CHUNK_LINES_def)
  with False show ?thesis by (simp add: uncapped_def Let_def)
qed simp

lemma cap_chunk_starts:
  assumes "is_piece path ls c"
  shows "sorted_wrt (<) (map cu_start_line (cap_chunk path ls lang c)) \<and>
    list_all (\<lambda>d. cu_start_line c \<le> cu_start_line d \<and> cu_start_line d \<le> cu_end_line c \<and> cu_file_path d = path)
      (cap_chunk path ls lang c)"
  using assms windows_loop_starts [of path ls lang "cu_symbol c" "cu_end_line c" "cu_start_line c"]
  by (auto simp: cap_chunk_def windows_def is_piece_def)

lemma sorted_starts_append:
  assumes "sorted_wrt (<) (map cu_start_line xs)" and "sorted_wrt (<) (map cu_start_line ys)"
    and "\<And>x y. x \<in> set xs \<Longrightarrow> y \<in> set ys \<Longrightarrow> cu_start_line x < cu_start_line y"
  shows "sorted_wrt (<) (map cu_start_line (xs @ ys))"
  using assms by (auto simp: sorted_wrt_append)

lemma capped_starts:
  assumes "list_all (is_piece path ls) cs" and "disjoint_chunks cs"
  shows "sorted_wrt (<) (map cu_start_line (concat (map (cap_chunk path ls lang) cs))) \<and>
    list_all (\<lambda>d. cu_file_path d = path) (concat (map (cap_chunk path ls lang) cs))"
  using assms
proof (induction cs)
  case (Cons c cs)
  let ?C = "cap_chunk path ls lang c" and ?R = "concat (map (cap_chunk path ls lang) cs)"
  note c = cap_chunk_starts [of path ls c lang]
  have R: "sorted_wrt (<) (map cu_start_line ?R) \<and> list_all (\<lambda>d. cu_file_path d = path) ?R"
    using Cons by (simp add: disjoint_chunks_def)
  have later: "cu_end_line c < cu_start_line d" if d: "d \<in> set ?R" for d
  proof -
    from d obtain b where b: "b \<in> set cs" "d \<in> set (cap_chunk path ls lang b)" by auto
    with Cons.prems have "cu_end_line c < cu_start_line b" "is_piece path ls b"
      by (auto simp: disjoint_chunks_def list_all_iff)
    with b cap_chunk_starts [of path ls b lang] show ?thesis
      by (auto simp: list_all_iff)
  qed
  have "sorted_wrt (<) (map cu_start_line (?C @ ?R))"
  proof (rule sorted_starts_append)
    show "cu_start_line x < cu_start_line y" if "x \<in> set ?C" "y \<in> set ?R" for x y
      using that(1) c Cons.prems(1) later [OF that(2)] by (fastforce simp only: list_all_iff list.set)
  qed (use c R Cons.prems(1) in simp_all)
  moreover have "list_all (\<lambda>d. cu_file_path d = path) ?C"
    using c Cons.prems(1) by (simp add: list_all_iff)
  ultimately show ?case using R by simp
qed simp

lemma cap_short:
  "list_all (\<lambda>c. cu_end_line c < cu_start_line c + MAX_CHUNK_LINES) cs \<Longrightarrow> concat (map (cap_chunk path ls lang) cs) = cs"
  by (induction cs) (simp_all add: cap_chunk_def)

lemma uncapped_windows:
  assumes "file_boundaries lang ls = []"
  shows "uncapped path ls lang = windows_loop path ls lang None (length ls) 1"
  using assms by (simp add: uncapped_def windows_def)

lemma chunk_file_starts:
  "sorted_wrt (<) (map cu_start_line (chunk_file path body lang)) \<and>
   list_all (\<lambda>d. cu_file_path d = path) (chunk_file path body lang)"
proof -
  let ?ls = "py_splitlines body" and ?lang = "file_language path lang"
  let ?cs = "concat (map (cap_chunk path ?ls ?lang) (uncapped path ?ls ?lang))"
  have "sorted_wrt (<) (map cu_start_line ?cs) \<and> list_all (\<lambda>d. cu_file_path d = path) ?cs"
  proof (cases "file_boundaries ?lang ?ls = []")
    case True
    have "list_all (\<lambda>c. cu_end_line c < cu_start_line c + MAX_CHUNK_LINES) (uncapped path ?ls ?lang)"
      using windows_loop_pieces [of 1 "length ?ls" ?ls path ?lang None] True
      by (simp add: uncapped_windows list_all_iff)
    then show ?thesis
      using windows_loop_starts [of path ?ls ?lang None "length ?ls" 1] True
      by (simp add: cap_short uncapped_windows list_all_iff)
  next
    case False
    then show ?thesis using capped_starts uncapped_pieces uncapped_disjoint by metis
  qed
  then have "sorted_wrt (<) (map cu_start_line (filter P ?cs)) \<and> list_all (\<lambda>d. cu_file_path d = path) (filter P ?cs)" for P
    by (auto simp: sorted_wrt_map sorted_wrt_filter list_all_iff)
  then show ?thesis
    by (simp add: chunk_file_uncapped)
qed

subsection \<open>What indexing leaves in the table\<close>

definition tree_chunks :: "index_env \<Rightarrow> dir_tree \<Rightarrow> chunk list" where
  "tree_chunks env tree = concat (map (file_chunks env) (walk [] tree))"

lemma file_chunks_keys:
  "distinct (map (\<lambda>c. (cu_file_path c, cu_start_line c)) (file_chunks env path)) \<and>
   list_all (\<lambda>c. cu_file_path c = path) (file_chunks env path)"
proof (cases "in_read env path")
  case (Some body)
  have "distinct (map cu_start_line (chunk_file path body None))"
    using chunk_file_starts strict_sorted_iff by blast
  then have "distinct (map (\<lambda>c. (cu_file_path c, cu_start_line c)) (chunk_file path body None))"
    by (auto simp: distinct_map inj_on_def)
  with Some chunk_file_starts show ?thesis by (simp add: file_chunks_def)
qed (simp add: file_chunks_def)

lemma tree_chunks_keys:
  "distinct ps \<Longrightarrow> distinct (map (\<lambda>c. (cu_file_path c, cu_start_line c)) (concat (map (file_chunks env) ps)))"
proof (induction ps)
  case (Cons p ps)
  have "cu_file_path d \<in> set ps" if "d \<in> set (concat (map (file_chunks env) ps))" for d
    using that file_chunks_keys [of env] by (auto simp: list_all_iff)
  moreover have "cu_file_path c = p" if "c \<in> set (file_chunks env p)" for c
    using that file_chunks_keys [of env p] by (auto simp: list_all_iff)
  ultimately have "(\<lambda>c. (cu_file_path c, cu_start_line c)) ` set (file_chunks env p) \<inter>
      (\<lambda>c. (cu_file_path c, cu_start_line c)) ` set (concat (map (file_chunks env) ps)) = {}"
    using Cons.prems by fastforce
  with Cons file_chunks_keys [of env p] show ?case by simp
qed simp

lemma insert_fresh_rows:
  assumes "distinct (map row_key rows)" and "row_key ` set rows \<inter> row_key ` set old = {}"
  shows "foldl insert_row old rows = old @ rows"
  using assms
proof (induction rows arbitrary: old)
  case (Cons r rows)
  then have "row_key r \<notin> row_key ` set old" by auto
  then have "insert_row old r = old @ [r]" by (simp add: insert_row_def)
  moreover have "foldl insert_row (old @ [r]) rows = (old @ [r]) @ rows"
    using Cons.prems by (intro Cons.IH) auto
  ultimately show ?case by simp
qed simp

definition chunk_rows ::
  "index_env \<Rightarrow> int \<Rightarrow> string \<Rightarrow> (string \<Rightarrow> real list) \<Rightarrow> chunk list \<Rightarrow> chunk_row list" where
  "chunk_rows env repo commit vec cs =
     map (\<lambda>c. chunk_as_row (in_sha env) repo commit c (vec (cu_content c))) cs"

lemma chunk_rows_keys:
  assumes "distinct (map (\<lambda>c. (cu_file_path c, cu_start_line c)) cs)"
  shows "distinct (map row_key (chunk_rows env repo commit vec cs))"
proof -
  let ?key = "\<lambda>k. (fst (snd (snd k)), fst (snd (snd (snd k))))"
  have "map ?key (map row_key (chunk_rows env repo commit vec cs)) =
      map (\<lambda>c. (cu_file_path c, cu_start_line c)) cs"
    by (simp add: chunk_rows_def row_key_def chunk_as_row_def)
  with assms have "distinct (map ?key (map row_key (chunk_rows env repo commit vec cs)))"
    by (simp only:)
  then show ?thesis by (rule distinct_map [THEN iffD1, THEN conjunct1])
qed

lemma embed_batches:
  assumes "\<And>ts. in_embed env ts = Inr (map vec ts)"
  shows "e_traverse (embed_batch env repo commit) bs = Inr (map (chunk_rows env repo commit vec) bs)"
proof (intro e_traverse_Inr)
  fix b
  have "map2 (chunk_as_row (in_sha env) repo commit) b (map vec (map cu_content b)) =
      chunk_rows env repo commit vec b"
    unfolding chunk_rows_def by (induction b) simp_all
  then show "embed_batch env repo commit b = Inr (chunk_rows env repo commit vec b)"
    by (simp add: embed_batch_def assms)
qed

lemma concat_chunk_rows: "concat (map (chunk_rows env repo commit vec) bs) = chunk_rows env repo commit vec (concat bs)"
  by (induction bs) (simp_all add: chunk_rows_def)

lemma index_repository_failed:
  assumes "fst (index_repository env repo tree commit batch_size st) = Inl e"
  shows "snd (index_repository env repo tree commit batch_size st) = st"
  using assms by (auto simp: index_repository_def eff_bind_def replace_repo_chunks_def Let_def
      split: sum.splits prod.splits option.splits)

text \<open>A batch size below 1 never indexes anything: 0 is refused and leaves the index as it was, and a
  negative one empties the index of the repository.\<close>

lemma index_repository_bad_batch:
  "index_repository env repo tree commit 0 st = (Inl (ValueError ''range() arg 3 must not be zero''), st)"
  "k < 0 \<Longrightarrow> in_db_error env = None \<Longrightarrow>
     ix_chunks (snd (index_repository env repo tree commit k st)) = filter (\<lambda>r. cr_repo r \<noteq> repo) (ix_chunks st)"
  by (simp_all add: index_repository_def range_batches_def eff_bind_def replace_repo_chunks_def Let_def)

text \<open>C25. Indexing a checkout with an embedder that gives every text its vector and a database that
  works leaves in the table, for a repository that has a row of its own, exactly the chunks of its files, in
  order and each with the vector of its own text, whatever the size of the batches, as long as it is at
  least 1; the rows of other repositories stay, none of the new rows is lost to the unique key, and the
  commit is the indexed one. For a repository the table does not have, a checkout with any chunk is refused
  by the foreign key and nothing changes. The walk must not list a path twice, which \<^verbatim>\<open>os.walk\<close> does not.\<close>

theorem index_repository_exact:
  assumes "distinct (walk [] tree)" and "\<And>ts. in_embed env ts = Inr (map vec ts)" and "in_db_error env = None"
    and "0 < batch_size"
  shows "(ix_repos st repo \<noteq> None \<longrightarrow>
      fst (index_repository env repo tree commit batch_size st) =
        Inr (length (walk [] tree), length (tree_chunks env tree)) \<and>
      ix_chunks (snd (index_repository env repo tree commit batch_size st)) =
        filter (\<lambda>r. cr_repo r \<noteq> repo) (ix_chunks st) @ chunk_rows env repo commit vec (tree_chunks env tree) \<and>
      indexed_sha (snd (index_repository env repo tree commit batch_size st)) repo = Some commit) \<and>
    (ix_repos st repo = None \<and> tree_chunks env tree \<noteq> [] \<longrightarrow>
      index_repository env repo tree commit batch_size st =
        (Inl (OtherError ''ForeignKeyViolationError'' ''code_chunks_repo_id_fkey''), st))"
proof -
  let ?rows = "chunk_rows env repo commit vec (tree_chunks env tree)"
  have "distinct (map row_key ?rows)"
    using tree_chunks_keys [OF assms(1)] by (intro chunk_rows_keys) (simp add: tree_chunks_def)
  moreover have "row_key ` set ?rows \<inter> row_key ` set (filter (\<lambda>r. cr_repo r \<noteq> repo) (ix_chunks st)) = {}"
    by (auto simp: row_key_def chunk_rows_def chunk_as_row_def)
  ultimately have "foldl insert_row (filter (\<lambda>r. cr_repo r \<noteq> repo) (ix_chunks st)) ?rows =
      filter (\<lambda>r. cr_repo r \<noteq> repo) (ix_chunks st) @ ?rows"
    by (rule insert_fresh_rows)
  moreover have "index_repository env repo tree commit batch_size st =
      (case replace_repo_chunks None repo commit ?rows st of
         (Inl e, st') \<Rightarrow> (Inl e, st')
       | (Inr n, st') \<Rightarrow> (Inr (length (walk [] tree), n), st'))"
    using assms(4) by (simp add: index_repository_def range_batches_def eff_bind_def embed_batches [OF assms(2)]
        assms(3) concat_chunk_rows batches_concat tree_chunks_def Let_def split: sum.splits prod.splits)
  moreover have "length ?rows = length (tree_chunks env tree)" "?rows = [] \<longleftrightarrow> tree_chunks env tree = []"
    by (simp_all add: chunk_rows_def)
  ultimately show ?thesis
    by (auto simp: replace_repo_chunks_def indexed_sha_def)
qed

definition sample_tree :: dir_tree where
  "sample_tree =
     Dir [(''a.py'', Some 10), (''b.bin'', Some 10), (''c.py'', None)]
       [(''.git'', Dir [(''d.py'', Some 1)] []), (''src'', Dir [(''e.py'', Some 20)] [])]"

definition sample_index_env :: index_env where
  "sample_index_env =
     \<lparr>in_read = (\<lambda>p. Some ''x = 1''), in_sha = (\<lambda>s. s),
      in_embed = (\<lambda>ts. Inr (map (\<lambda>t. [real (length t)]) ts)), in_db_error = None\<rparr>"

lemma sample_walk: "walk [] sample_tree = [''a.py'', ''src/e.py'']"
  by (simp add: sample_tree_def indexed_files_def rel_path_def walked_dir_def should_index_def
      INDEXABLE_EXT_def SKIP_DIRS_def after_last_def)

lemma index_repository_exact_witness:
  "ix_chunks (snd (index_repository sample_index_env 7 sample_tree ''sha'' 1 \<lparr>ix_chunks = [], ix_repos = [7 \<mapsto> None]\<rparr>)) =
     chunk_rows sample_index_env 7 ''sha'' (\<lambda>t. [real (length t)]) (tree_chunks sample_index_env sample_tree)"
  using index_repository_exact [of sample_tree sample_index_env "\<lambda>t. [real (length t)]" 1
      "\<lparr>ix_chunks = [], ix_repos = [7 \<mapsto> None]\<rparr>" 7 "''sha''"]
  by (simp add: sample_walk) (simp add: sample_index_env_def)

subsection \<open>Conventions\<close>

text \<open>At most sixty rules are shown, the rules of the repository itself before the general ones; so a
  general rule is dropped before any rule of the repository.\<close>

lemma conventions_for_own_first:
  "length (conventions_for rows repo) \<le> 60 \<and>
   (\<exists>own general :: convention list. conventions_for rows repo = map cv_rule (own @ general) \<and>
      list_all (\<lambda>c. cv_repo c = Some repo \<and> cv_active c) own \<and>
      list_all (\<lambda>c. cv_repo c = None \<and> cv_active c) general)"
proof -
  let ?rs = "sort_key cv_id (filter (\<lambda>c. cv_active c \<and> (cv_repo c = Some repo \<or> cv_repo c = None)) rows)"
  have split: "sort_key (\<lambda>c. cv_repo c = None) xs =
      filter (\<lambda>c. cv_repo c \<noteq> None) xs @ filter (\<lambda>c. cv_repo c = None) xs" for xs :: "convention list"
  proof (induction xs)
    case (Cons x xs)
    have "insort_key (\<lambda>c. cv_repo c = None) x (ys @ zs) = (if cv_repo x = None then ys @ x # zs else x # ys @ zs)"
      if "list_all (\<lambda>c. cv_repo c \<noteq> None) ys" "list_all (\<lambda>c. cv_repo c = None) zs" for ys zs
      using that by (induction ys; cases zs) auto
    from this [of "filter (\<lambda>c. cv_repo c \<noteq> None) xs" "filter (\<lambda>c. cv_repo c = None) xs"] show ?case
      by (simp add: Cons list_all_iff)
  qed simp
  have eq: "conventions_for rows repo = map cv_rule (take 60 (filter (\<lambda>c. cv_repo c \<noteq> None) ?rs) @
      take (60 - length (filter (\<lambda>c. cv_repo c \<noteq> None) ?rs)) (filter (\<lambda>c. cv_repo c = None) ?rs))"
    (is "_ = map cv_rule (?own @ ?general)")
    by (simp add: conventions_for_def Let_def split)
  have own: "list_all (\<lambda>c. cv_repo c = Some repo \<and> cv_active c) ?own"
    by (auto simp: list_all_iff dest!: in_set_takeD)
  have general: "list_all (\<lambda>c. cv_repo c = None \<and> cv_active c) ?general"
    by (auto simp: list_all_iff dest!: in_set_takeD)
  have "length (conventions_for rows repo) \<le> 60"
    by (simp add: conventions_for_def Let_def)
  moreover have "\<exists>own general :: convention list. conventions_for rows repo = map cv_rule (own @ general) \<and>
      list_all (\<lambda>c. cv_repo c = Some repo \<and> cv_active c) own \<and>
      list_all (\<lambda>c. cv_repo c = None \<and> cv_active c) general"
    by (rule exI [of _ ?own], rule exI [of _ ?general], intro conjI; fact)
  ultimately show ?thesis by (rule conjI)
qed

subsection \<open>Fused rankings\<close>

definition ranked_before :: "nat list \<Rightarrow> nat \<Rightarrow> nat \<Rightarrow> bool" where
  "ranked_before ranked i j \<longleftrightarrow> (\<forall>q < length ranked. ranked ! q = j \<longrightarrow> (\<exists>p \<le> q. ranked ! p = i))"

lemma rrf_from_absent: "i \<notin> set ranked \<Longrightarrow> rrf_from rnk ranked i = 0"
  by (induction ranked arbitrary: rnk) auto

lemma rrf_from_at:
  "distinct ranked \<Longrightarrow> k < length ranked \<Longrightarrow> rrf_from rnk ranked (ranked ! k) = 1 / (60 + real rnk + real k)"
proof (induction ranked arbitrary: rnk k)
  case (Cons j js)
  show ?case
  proof (cases k)
    case 0
    with Cons.prems show ?thesis by (simp add: rrf_from_absent)
  next
    case (Suc n)
    with Cons.prems have "j \<noteq> js ! n" by auto
    with Cons Suc show ?thesis by (simp add: algebra_simps)
  qed
qed simp

lemma rrf_share_mono:
  assumes "distinct ranked" and "ranked_before ranked i j"
  shows "rrf_share ranked j \<le> rrf_share ranked i"
proof (cases "j \<in> set ranked")
  case True
  then obtain q where q: "q < length ranked" "ranked ! q = j" by (auto simp: in_set_conv_nth)
  with assms(2) obtain p where p: "p \<le> q" "ranked ! p = i" by (auto simp: ranked_before_def)
  have "rrf_share ranked j = 1 / (61 + real q)" "rrf_share ranked i = 1 / (61 + real p)"
    using rrf_from_at [OF assms(1), of q 1] rrf_from_at [OF assms(1), of p 1] p q by (auto simp: rrf_share_def)
  with p show ?thesis by (simp add: frac_le)
next
  case False
  have "0 \<le> rrf_from rnk ranked i" for rnk
    by (induction ranked arbitrary: rnk) auto
  with False show ?thesis by (simp add: rrf_share_def rrf_from_absent)
qed

text \<open>The hybrid search respects both rankings. It returns at most the number of chunks asked for, none from
  an excluded path, in descending order of their fused score; and a row that neither the vector search nor
  the text search ranks behind another one scores at least as high, so a row both put first comes first.\<close>

theorem hybrid_search_respects:
  assumes "distinct vec" and "distinct txt"
    and "ranked_before (take (search_limit top_k) vec) i j"
    and "ranked_before (take (search_limit top_k) txt) i j"
  shows "length (hybrid_search row vec txt top_k exclude) \<le> top_k \<and>
    list_all (\<lambda>c. ck_file_path c \<notin> set exclude) (hybrid_search row vec txt top_k exclude) \<and>
    sorted_wrt (\<ge>) (map ck_score (hybrid_search row vec txt top_k exclude)) \<and>
    rrf_score (take (search_limit top_k) vec) (take (search_limit top_k) txt) j \<le>
      rrf_score (take (search_limit top_k) vec) (take (search_limit top_k) txt) i"
proof -
  let ?V = "take (search_limit top_k) vec" and ?T = "take (search_limit top_k) txt"
  let ?ids = "filter (\<lambda>i. cr_path (row i) \<notin> set exclude) (dict_fromkeys (?V @ ?T))"
  let ?sorted = "sort_key (\<lambda>i. - rrf_score ?V ?T i) ?ids"
  have result: "hybrid_search row vec txt top_k exclude =
      map (\<lambda>i. row_chunk (row i) (rrf_score ?V ?T i)) (take top_k ?sorted)"
    by (simp add: hybrid_search_def Let_def)
  have "sorted (map (\<lambda>i. - rrf_score ?V ?T i) ?sorted)" by (rule sorted_sort_key)
  then have "sorted_wrt (\<ge>) (map (rrf_score ?V ?T) ?sorted)"
    by (simp add: sorted_wrt_map)
  then have "sorted_wrt (\<ge>) (take top_k (map (rrf_score ?V ?T) ?sorted))"
    by (rule sorted_wrt_take)
  then have "sorted_wrt (\<ge>) (map ck_score (hybrid_search row vec txt top_k exclude))"
    unfolding result by (simp add: row_chunk_def comp_def take_map)
  moreover have "list_all (\<lambda>c. ck_file_path c \<notin> set exclude) (hybrid_search row vec txt top_k exclude)"
    unfolding result by (auto simp: list_all_iff row_chunk_def dest: in_set_takeD)
  ultimately show ?thesis
    using rrf_share_mono [of ?V i j] rrf_share_mono [of ?T i j] assms
    by (simp add: result rrf_score_def add_mono)
qed

end
