(* ===== verification/Report.thy ===== *)
theory Report
  imports Metrics
begin

section \<open>The printed evaluation report\<close>

text \<open>
  \<^verbatim>\<open>evaluation/report.py\<close>: the report a person reads, the findings left unlabelled over several runs,
  the comparison with a saved run and the spread of repeated runs. The properties: the recall printed for
  the full panels is the recall of a score of those cases alone; the comparison reports a regression
  exactly for a move that the rounding of the saved report cannot explain, so never for a run against its
  own file; and the union over the runs accounts for every unlabelled finding.
\<close>

definition LEFT_ARROW :: string where
  "LEFT_ARROW = [CHR 0xE2, CHR 0x86, CHR 0x90]"

definition py_count :: "nat \<Rightarrow> nat \<Rightarrow> string" where
  "py_count k n = rjust k (py_str_nat n)"

definition or_none_text :: "string option \<Rightarrow> string" where
  "or_none_text s = (case s of None \<Rightarrow> ''None'' | Some x \<Rightarrow> x)"

subsection \<open>Banner and calibration\<close>

definition banner :: "eval_report \<Rightarrow> string list" where
  "banner r =
     [replicate 74 CHR ''='',
      ''  eval '' @ EM_DASH @ '' '' @ py_str_nat (length (er_cases r)) @ '' cases '' @ MIDDLE_DOT @
        '' provider='' @ er_provider r,
      replicate 74 CHR ''='']"

definition echo_notice :: "eval_report \<Rightarrow> string list" where
  "echo_notice r =
     (if er_provider r = ''echo'' then
        [[],
         ''  NOTE: the `echo` provider is a regex-based fake, not a reviewer. These'',
         ''  numbers measure whether the harness works '' @ EM_DASH @ '' matching, calibration binning,'',
         ''  trap detection, gate comparison '' @ EM_DASH @ '' and say nothing about review quality.'',
         ''  Run with --provider anthropic for numbers that mean something.'']
      else [])"

definition bin_line :: "calibration_bin \<Rightarrow> string" where
  "bin_line b =
     ''  '' @ py_fixed 2 (cb_low b) @ ''-'' @ ljust 9 (py_fixed 2 (cb_high b)) @ py_count 5 (cb_count b) @
     rjust 10 (py_fixed 2 (cb_mean_confidence b)) @ rjust 11 (py_fixed 2 (cb_hit_rate b)) @
     rjust 9 (py_signed 2 (cb_hit_rate b - cb_mean_confidence b)) @
     (if cb_hit_rate b - cb_mean_confidence b < - 15 / 100 then ''  '' @ LEFT_ARROW @ '' overconfident'' else [])"

definition calibration_lines :: "eval_report \<Rightarrow> string list" where
  "calibration_lines r =
     [[], ''CALIBRATION   does a confidence of X turn out right X of the time?'',
      ''  expected calibration error : '' @ py_fixed 3 (er_ece r) @ ''   (lower is better; <0.10 is good)''] @
     (let bins = filter (\<lambda>b. cb_count b \<noteq> 0) (er_calibration r) in
      if bins = [] then []
      else [[], ''  '' @ ljust 14 ''confidence'' @ rjust 5 ''n'' @ rjust 10 ''stated'' @ rjust 11 ''observed'' @
              rjust 9 ''gap''] @ map bin_line bins)"

subsection \<open>Recall over the panels that were complete\<close>

definition intact_cases :: "case_result list \<Rightarrow> case_result list" where
  "intact_cases rs = filter (\<lambda>c. cr_failed_agents c = []) rs"

definition degraded_cases :: "case_result list \<Rightarrow> case_result list" where
  "degraded_cases rs = filter (\<lambda>c. cr_failed_agents c \<noteq> []) rs"

text \<open>\<^verbatim>\<open>if id(label) not in seen: seen.add(id(label)); found += 1\<close>.\<close>

definition count_label :: "nat set \<times> nat \<Rightarrow> label \<Rightarrow> nat set \<times> nat" where
  "count_label st l =
     (case st of (objs, found) \<Rightarrow> if lb_id l \<in> objs then (objs, found) else (insert (lb_id l) objs, found + 1))"

definition count_case :: "nat set \<times> nat \<Rightarrow> case_result \<Rightarrow> nat set \<times> nat" where
  "count_case st c = foldl (\<lambda>st m. foldl count_label st (lm_labels m)) st (cr_hits c)"

definition distinct_found :: "case_result list \<Rightarrow> nat" where
  "distinct_found rs = snd (foldl count_case ({}, 0) (intact_cases rs))"

definition conditional_recall :: "case_result list \<Rightarrow> real" where
  "conditional_recall rs =
     (let found = distinct_found rs; missed = sum_list (map (\<lambda>c. length (cr_missed c)) (intact_cases rs))
      in ratio (real found) (real (found + missed)))"

definition availability_lines :: "case_result list \<Rightarrow> string list" where
  "availability_lines rs =
     (let degraded = degraded_cases rs;
          whole = length (filter (\<lambda>c. length ALL_AGENTS \<le> length (cr_failed_agents c)) degraded);
          lost = sum_list (map (\<lambda>c. length (cr_failed_agents c)) degraded);
          total_calls = length rs * length ALL_AGENTS;
          intact = intact_cases rs
      in if degraded = [] then []
         else
           [''  recall (full panels): '' @ py_fixed 3 (conditional_recall rs) @ ''   over '' @
              py_str_nat (length intact) @ '' case(s) whose panel was complete'',
            ''  availability        : '' @ py_str_nat (length intact) @ ''/'' @ py_str_nat (length rs) @
              '' complete panels, '' @ py_str_int (int total_calls - int lost) @ ''/'' @ py_str_nat total_calls @
              '' agent calls'' @
              (if whole \<noteq> 0
               then '' '' @ EM_DASH @ '' '' @ py_str_nat whole @ '' case(s) lost the whole panel'' else [])])"

subsection \<open>Accuracy, agents and cost\<close>

definition accuracy_lines :: "eval_report \<Rightarrow> string list" where
  "accuracy_lines r =
     (let b = er_overall r in
      [[], ''ACCURACY'',
       ''  precision (strict)  : '' @ py_fixed 3 (precision_strict b) @ ''   unlabelled findings count against'',
       ''  precision (lenient) : '' @ py_fixed 3 (precision_lenient b) @ ''   only labelled traps count against'',
       ''  recall              : '' @ py_fixed 3 (recall b) @ ''   over distinct labels, not matches''] @
      availability_lines (er_cases r) @
      [''  f1                  : '' @ py_fixed 3 (f1 b),
       ''  '' @ py_str_nat (bk_labels_found b) @ '' of '' @ py_str_nat (bk_labels_found b + bk_misses b) @
         '' defects found by '' @ py_str_nat (bk_hits b) @ '' finding(s) '' @ MIDDLE_DOT @ '' '' @
         py_str_nat (bk_false_positives b) @ '' false positive(s) '' @ MIDDLE_DOT @ '' '' @
         py_str_nat (bk_unlabelled b) @ '' unlabelled'',
       ''  findings per concern: '' @ py_fixed 2 (duplicate_rate b) @
         (if 3 / 2 < duplicate_rate b
          then ''   '' @ LEFT_ARROW @ '' the aggregator is under-merging'' else []),
       ''  category agreement  : '' @ py_fixed 3 (er_category_agreement r) @ ''   right problem, right name'',
       ''  agent attribution   : '' @ py_fixed 3 (er_agent_attribution r) @ ''   found by the expected specialist''] @
      (case er_decision_accuracy r of
         None \<Rightarrow> [] | Some x \<Rightarrow> [''  gate decision match : '' @ py_fixed 3 x]))"

definition agent_line :: "string \<times> bucket \<Rightarrow> string" where
  "agent_line nb =
     (case nb of (name, b) \<Rightarrow>
        ''  '' @ ljust 14 name @ py_count 6 (bk_hits b) @ py_count 6 (bk_misses b) @
        py_count 5 (bk_false_positives b) @ py_count 7 (bk_unlabelled b) @
        rjust 8 (py_fixed 2 (precision_strict b)) @ rjust 8 (py_fixed 2 (recall b)))"

definition agent_lines :: "eval_report \<Rightarrow> string list" where
  "agent_lines r =
     [[], ''BY AGENT'',
      ''  '' @ ljust 14 ''agent'' @ rjust 6 ''hits'' @ rjust 6 ''miss'' @ rjust 5 ''fp'' @ rjust 7 ''unlab'' @
        rjust 8 ''prec'' @ rjust 8 ''recall''] @
     map agent_line (er_by_agent r)"

definition cost_lines :: "eval_report \<Rightarrow> string list" where
  "cost_lines r =
     [[], ''COST'', ''  total     : $'' @ py_fixed 4 (er_total_cost_usd r),
      ''  per case  : $'' @ py_fixed 4 (er_cost_per_case_usd r)]"

subsection \<open>Lists of misses, traps, duplicates and disagreements\<close>

definition case_pairs :: "(case_result \<Rightarrow> 'a list) \<Rightarrow> case_result list \<Rightarrow> (case_result \<times> 'a) list" where
  "case_pairs g rs = concat (map (\<lambda>c. map (Pair c) (g c)) rs)"

definition miss_lines :: "case_result list \<Rightarrow> string list" where
  "miss_lines rs =
     (let misses = case_pairs cr_missed rs in
      if misses = [] then []
      else [[], ''MISSED  ('' @ py_str_nat (length misses) @ '')''] @
        concat (map (\<lambda>(c, l).
          [''  '' @ cr_case_id c,
           ''    '' @ lb_file_path l @ '':'' @ py_str_int (lb_line l) @ '' ['' @ or_none_text (lb_agent l) @ ''/'' @
             or_none_text (lb_category l) @ ''] '' @ lb_note l]) misses))"

definition found_at :: "finding \<Rightarrow> string" where
  "found_at f = f_file_path f @ '':'' @ py_str_int (f_line_start f)"

definition found_line :: "finding \<Rightarrow> string" where
  "found_line f =
     found_at f @ '' ['' @ agent_str (f_agent f) @ ''] '' @ f_title f @ '' ('' @ py_fixed 2 (f_confidence f) @ '')''"

definition trap_lines :: "case_result list \<Rightarrow> string list" where
  "trap_lines rs =
     (let traps = case_pairs cr_false_positives rs in
      if traps = [] then []
      else [[], ''FALSE POSITIVES  ('' @ py_str_nat (length traps) @ '')  '' @ EM_DASH @
              '' flagged a line labelled as clean''] @
        concat (map (\<lambda>(c, m).
          [''  '' @ cr_case_id c, ''    '' @ found_line (lm_finding m)] @
          (case lm_label m of None \<Rightarrow> [] | Some l \<Rightarrow> [''    why it is clean: '' @ lb_note l])) traps))"

definition concern_groups :: "case_result \<Rightarrow> ((nat option \<times> string) \<times> label_match nelist) list" where
  "concern_groups c =
     foldl (\<lambda>gs m. group_add (map_option lb_id (lm_label m), family_of (f_category (lm_finding m))) m gs) []
       (cr_hits c)"

definition duplicate_lines :: "eval_report \<Rightarrow> string list" where
  "duplicate_lines r =
     (let b = er_overall r in
      if 3 / 2 < duplicate_rate b then
        [[], ''DUPLICATES  '' @ EM_DASH @ '' '' @ py_str_nat (bk_hits b) @ '' findings across '' @
           py_str_nat (bk_concerns b) @ '' distinct concerns. '' @
           ''Same concern, same lines, said more than once:''] @
        concat (map (\<lambda>c. concat (map (\<lambda>g.
          [''  '' @ ljust 34 (cr_case_id c) @ '' '' @ found_at (lm_finding (fst (snd g))) @ '' '' @ EM_DASH @ '' '' @
             py_str_nat (length (ne_list (snd g))) @ '' findings''] @
          map (\<lambda>m.
            ''      ['' @ ljust 11 (agent_str (f_agent (lm_finding m))) @ '' '' @
            ljust 17 (category_str (f_category (lm_finding m))) @ '' '' @
            py_fixed 2 (f_confidence (lm_finding m)) @ ''] '' @ f_title (lm_finding m)) (ne_list (snd g)))
          (filter (\<lambda>g. 2 \<le> length (ne_list (snd g))) (concern_groups c)))) (er_cases r))
      else [])"

definition gate_lines :: "case_result list \<Rightarrow> string list" where
  "gate_lines rs =
     (let wrong = filter (\<lambda>c. decision_correct c = Some False) rs in
      if wrong = [] then []
      else [[], ''GATE DISAGREEMENTS  ('' @ py_str_nat (length wrong) @ '')''] @
        map (\<lambda>c.
          ''  '' @ ljust 34 (cr_case_id c) @ '' expected '' @ ljust 10 (or_none_text (cr_expected_decision c)) @
          '' got '' @ ljust 10 (cr_decision c) @ '' (confidence '' @ py_fixed 2 (cr_confidence c) @ '')'') wrong)"

definition unlabelled_lines :: "case_result list \<Rightarrow> string list" where
  "unlabelled_lines rs =
     (let un = case_pairs cr_unlabelled rs in
      if un = [] then []
      else [[], ''UNLABELLED  ('' @ py_str_nat (length un) @ '')  '' @ EM_DASH @
              '' real defects or noise; label them to find out''] @
        map (\<lambda>(c, m). ''  '' @ ljust 34 (cr_case_id c) @ '' '' @ found_line (lm_finding m)) un)"

definition render :: "eval_report \<Rightarrow> bool \<Rightarrow> string" where
  "render r verbose =
     py_join NEWLINE
       (banner r @ echo_notice r @ calibration_lines r @ accuracy_lines r @ agent_lines r @ cost_lines r @
        miss_lines (er_cases r) @ trap_lines (er_cases r) @ duplicate_lines r @ gate_lines (er_cases r) @
        (if verbose then unlabelled_lines (er_cases r) else []) @ [[]])"

subsection \<open>Unlabelled findings over several runs\<close>

type_synonym union_key = "string \<times> string \<times> int \<times> string \<times> string"

definition unlabelled_key :: "case_result \<times> label_match \<Rightarrow> union_key" where
  "unlabelled_key cm =
     (let f = lm_finding (snd cm) in
      (cr_case_id (fst cm), f_file_path f, f_line_start f, agent_str (f_agent f), f_title f))"

definition unlabelled_rows :: "eval_report list \<Rightarrow> (union_key \<times> (case_result \<times> label_match) nelist) list" where
  "unlabelled_rows reports =
     foldl (\<lambda>rows cm. group_add (unlabelled_key cm) cm rows) []
       (concat (map (\<lambda>r. case_pairs cr_unlabelled (er_cases r)) reports))"

definition row_runs :: "union_key \<times> (case_result \<times> label_match) nelist \<Rightarrow> nat" where
  "row_runs row = length (ne_list (snd row))"

definition sorted_rows :: "eval_report list \<Rightarrow> (union_key \<times> (case_result \<times> label_match) nelist) list" where
  "sorted_rows reports = sort_key (\<lambda>row. (- int (row_runs row), fst (fst row))) (unlabelled_rows reports)"

definition row_line :: "nat \<Rightarrow> union_key \<times> (case_result \<times> label_match) nelist \<Rightarrow> string" where
  "row_line n row =
     (let f = lm_finding (snd (fst (snd row)));
          confidences = map (\<lambda>cm. f_confidence (lm_finding (snd cm))) (ne_list (snd row));
          mean_conf = sum_list confidences / real (length confidences)
      in ''  ['' @ py_str_nat (row_runs row) @ ''/'' @ py_str_nat n @ ''] '' @ ljust 34 (fst (fst row)) @ '' '' @
         found_at f @ '' ['' @ agent_str (f_agent f) @ ''] '' @ f_title f @ '' ('' @ py_fixed 2 mean_conf @ '')'')"

definition unlabelled_union :: "eval_report list \<Rightarrow> string" where
  "unlabelled_union reports =
     (if length reports < 2 \<or> unlabelled_rows reports = [] then []
      else py_join NEWLINE
        ([[], ''UNLABELLED across '' @ py_str_nat (length reports) @ '' runs  ('' @
            py_str_nat (length (unlabelled_rows reports)) @ '' distinct)  '' @ EM_DASH @
            '' real defects or noise; label them to find out''] @
         map (row_line (length reports)) (sorted_rows reports) @ [[]]))"

subsection \<open>Against a saved run\<close>

text \<open>A number that \<^verbatim>\<open>json.loads\<close> read, in arithmetic and in a format with \<open>k\<close> places.\<close>

definition json_number :: "json \<Rightarrow> exc + pyfloat" where
  "json_number v =
     (case v of
        JInt i \<Rightarrow> Inr (Fin (of_int i)) | JBool b \<Rightarrow> Inr (Fin (if b then 1 else 0)) | JFloat x \<Rightarrow> Inr x
      | _ \<Rightarrow> Inl (TypeError ''unsupported operand type(s) for -''))"

fun minus_float :: "real \<Rightarrow> pyfloat \<Rightarrow> pyfloat" where
  "minus_float a (Fin b) = Fin (a - b)"
| "minus_float a PInf = NInf"
| "minus_float a NInf = PInf"
| "minus_float a NaN = NaN"

fun float_fixed :: "nat \<Rightarrow> pyfloat \<Rightarrow> string" where
  "float_fixed k (Fin x) = py_fixed k x"
| "float_fixed k PInf = ''inf''"
| "float_fixed k NInf = ''-inf''"
| "float_fixed k NaN = ''nan''"

fun float_signed :: "nat \<Rightarrow> pyfloat \<Rightarrow> string" where
  "float_signed k (Fin x) = py_signed k x"
| "float_signed k PInf = ''+inf''"
| "float_signed k NInf = ''-inf''"
| "float_signed k NaN = ''+nan''"

text \<open>\<^verbatim>\<open>direction * delta < -0.02\<close>, where the direction is 1 if higher is better.\<close>

fun is_regression :: "bool \<Rightarrow> pyfloat \<Rightarrow> bool" where
  "is_regression up (Fin d) = ((if up then d else - d) < - 2 / 100)"
| "is_regression up PInf = (\<not> up)"
| "is_regression up NInf = up"
| "is_regression up NaN = False"

definition sub_dict :: "string \<Rightarrow> (string \<times> json) list \<Rightarrow> exc + (string \<times> json) list" where
  "sub_dict k d =
     (case jget_or k (JObj []) d of JObj kvs \<Rightarrow> Inr kvs | _ \<Rightarrow> Inl (AttributeError ''get''))"

definition float_zero :: json where
  "float_zero = JFloat (Fin 0)"

definition compare_rows ::
  "eval_report \<Rightarrow> (string \<times> json) list \<Rightarrow> exc + (string \<times> json \<times> real \<times> bool) list" where
  "compare_rows cur baseline =
     ebind (sub_dict ''overall'' baseline) (\<lambda>base.
     ebind (sub_dict ''calibration'' baseline) (\<lambda>cal.
     ebind (sub_dict ''cost'' baseline) (\<lambda>cost.
       Inr [(''precision (strict)'', jget_or ''precision_strict'' float_zero base,
               precision_strict (er_overall cur), True),
            (''recall'', jget_or ''recall'' float_zero base, recall (er_overall cur), True),
            (''f1'', jget_or ''f1'' float_zero base, f1 (er_overall cur), True),
            (''calibration error'', jget_or ''expected_calibration_error'' float_zero cal, er_ece cur, False),
            (''cost per case'', jget_or ''per_case_usd'' float_zero cost, er_cost_per_case_usd cur, False)])))"

definition compare_line :: "string \<times> json \<times> real \<times> bool \<Rightarrow> exc + (string \<times> bool)" where
  "compare_line row =
     (case row of (name, before_json, after, up) \<Rightarrow>
        ebind (json_number before_json) (\<lambda>before.
          let delta = minus_float after before; worse = is_regression up delta;
              mark = (if worse then ''  '' @ LEFT_ARROW @ '' regression'' else [])
          in Inr (''  '' @ ljust 22 name @ rjust 10 (float_fixed 3 before) @ rjust 10 (py_fixed 3 after) @
                  rjust 10 (float_signed 3 delta) @ mark, worse)))"

definition compare_runs :: "eval_report \<Rightarrow> (string \<times> json) list \<Rightarrow> exc + (string \<times> bool)" where
  "compare_runs cur baseline =
     ebind (compare_rows cur baseline) (\<lambda>rows.
     ebind (e_traverse compare_line rows) (\<lambda>ls.
       Inr (py_join NEWLINE
              ([[], ''AGAINST BASELINE'',
                ''  '' @ ljust 22 ''metric'' @ rjust 10 ''baseline'' @ rjust 10 ''current'' @ rjust 10 ''delta''] @
               map fst ls @ [[]]),
            list_ex snd ls)))"

subsection \<open>Repeated runs\<close>

definition run_metrics :: "(string \<times> (eval_report \<Rightarrow> real)) list" where
  "run_metrics =
     [(''precision (strict)'', \<lambda>r. precision_strict (er_overall r)),
      (''precision (lenient)'', \<lambda>r. precision_lenient (er_overall r)),
      (''recall'', \<lambda>r. recall (er_overall r)), (''f1'', \<lambda>r. f1 (er_overall r)),
      (''calibration error'', er_ece), (''findings per concern'', \<lambda>r. duplicate_rate (er_overall r)),
      (''findings produced'', \<lambda>r. real (bk_hits (er_overall r) + bk_unlabelled (er_overall r) +
         bk_false_positives (er_overall r))),
      (''cost per case ($)'', er_cost_per_case_usd)]"

definition spread_of :: "real list \<Rightarrow> real \<times> real \<times> real" where
  "spread_of values = (sum_list values / real (length values), Min (set values), Max (set values))"

definition metric_line :: "string \<Rightarrow> real list \<Rightarrow> string" where
  "metric_line name values =
     (case spread_of values of (mean, lo, hi) \<Rightarrow>
        ''  '' @ ljust 22 name @ rjust 9 (py_fixed 3 mean) @ rjust 9 (py_fixed 3 lo) @ rjust 9 (py_fixed 3 hi) @
        rjust 9 (py_signed 3 (hi - lo)))"

definition stability :: "eval_report list \<Rightarrow> string" where
  "stability reports =
     (if length reports < 2 then []
      else py_join NEWLINE
        ([[], ''STABILITY over '' @ py_str_nat (length reports) @ '' runs of the same configuration'',
          ''  '' @ ljust 22 ''metric'' @ rjust 9 ''mean'' @ rjust 9 ''min'' @ rjust 9 ''max'' @ rjust 9 ''spread''] @
         map (\<lambda>(name, g). metric_line name (map g reports)) run_metrics @
         [[], ''  A change smaller than the spread above has not been demonstrated.'',
          ''  If the spread is uncomfortably wide, the set is too small '' @ EM_DASH @ '' add cases'',
          ''  before tuning against it.'', []]))"

subsection \<open>The recall of the full panels\<close>

definition found_in :: "case_result \<Rightarrow> nat set" where
  "found_in r = lb_id ` set (concat (map lm_labels (cr_hits r)))"

lemma count_labels:
  "finite (fst st) \<Longrightarrow> fst (foldl count_label st ls) = fst st \<union> lb_id ` set ls \<and>
     snd (foldl count_label st ls) + card (fst st) = snd st + card (fst st \<union> lb_id ` set ls)"
proof (induction ls arbitrary: st)
  case (Cons l ls)
  then have "finite (fst (count_label st l))" by (cases st) (simp add: count_label_def)
  from Cons.IH [OF this] Cons.prems show ?case
    by (cases st) (auto simp: count_label_def insert_absorb)
qed simp

lemma count_case_found:
  assumes "finite (fst st)"
  shows "fst (count_case st r) = fst st \<union> found_in r \<and>
    snd (count_case st r) + card (fst st) = snd st + card (fst st \<union> found_in r)"
proof -
  have "foldl (\<lambda>st m. foldl count_label st (lm_labels m)) st ms = foldl count_label st (concat (map lm_labels ms))"
    for ms :: "label_match list"
    by (induction ms arbitrary: st) simp_all
  then show ?thesis
    using count_labels [OF assms] by (simp only: count_case_def found_in_def)
qed

definition separate :: "case_result list \<Rightarrow> bool" where
  "separate rs \<longleftrightarrow> sorted_wrt (\<lambda>r r'. found_in r \<inter> found_in r' = {}) rs"

lemma count_cases_found:
  assumes "finite (fst st)" and "separate rs" and "\<forall>r \<in> set rs. fst st \<inter> found_in r = {}"
  shows "snd (foldl count_case st rs) = snd st + sum_list (map (\<lambda>r. card (found_in r)) rs)"
  using assms
proof (induction rs arbitrary: st)
  case (Cons r rs)
  have fin: "finite (found_in r)" by (simp add: found_in_def)
  note c = count_case_found [OF Cons.prems(1), of r]
  have "snd (count_case st r) = snd st + card (found_in r)"
    using c Cons.prems fin by (simp add: card_Un_disjoint)
  moreover have "snd (foldl count_case (count_case st r) rs) =
      snd (count_case st r) + sum_list (map (\<lambda>r. card (found_in r)) rs)"
    using c Cons.prems fin by (intro Cons.IH) (auto simp: separate_def)
  ultimately show ?case by simp
qed simp

lemma found_in_scored: "scored r expected \<Longrightarrow> found_in r \<subseteq> lb_id ` set expected"
  using hit_labels by (fastforce simp: scored_def found_in_def cr_hits_def of_kind_def)

lemma separate_scored:
  assumes "list_all2 scored rs es" and "distinct (map lb_id (concat es))"
  shows "separate rs \<and> (\<forall>r \<in> set rs. found_in r \<subseteq> lb_id ` set (concat es))"
  using assms
proof (induction rule: list_all2_induct)
  case (Cons r rs e es)
  let ?E = "lb_id ` set (concat es)"
  from Cons have IH: "separate rs" "\<forall>r' \<in> set rs. found_in r' \<subseteq> ?E" and d: "lb_id ` set e \<inter> ?E = {}"
    by simp_all
  have r: "found_in r \<subseteq> lb_id ` set e" by (rule found_in_scored [OF Cons.hyps(1)])
  have "found_in r \<inter> found_in r' = {}" if "r' \<in> set rs" for r'
    using IH(2) d r that by blast
  then have "separate (r # rs)" using IH(1) by (simp add: separate_def)
  moreover have "found_in r \<subseteq> lb_id ` set (concat (e # es))"
    using r by auto
  moreover have "\<forall>r' \<in> set rs. found_in r' \<subseteq> lb_id ` set (concat (e # es))"
    using IH(2) unfolding concat.simps set_append image_Un by blast
  ultimately show ?case by simp
qed (simp add: separate_def)

lemma distinct_found_sum:
  assumes "separate rs"
  shows "distinct_found rs = sum_list (map (\<lambda>r. card (found_in r)) (intact_cases rs))"
  using assms count_cases_found [of "({}, 0)" "intact_cases rs"]
  by (simp add: distinct_found_def separate_def intact_cases_def sorted_wrt_filter)

lemma score_result_label_total:
  "label_total (score_result t r) =
     (fst (label_total t) + card (found_in r), snd (label_total t) + length (cr_missed r))"
  using score_matches_found [of "(t, nothing_seen)" "cr_matches r"]
  by (simp add: score_result_def score_missed_label found_upto_def nothing_seen_def found_in_def cr_hits_def)

lemma score_results_label_total:
  "label_total (foldl score_result t rs) =
     (fst (label_total t) + sum_list (map (\<lambda>r. card (found_in r)) rs),
      snd (label_total t) + sum_list (map (\<lambda>c. length (cr_missed c)) rs))"
  by (induction rs arbitrary: t) (simp_all add: score_result_label_total)

text \<open>C26. The recall printed for the full panels is the recall that scoring those cases alone would give: the
  loop of the report over label objects, one set for all cases, and the loop of the score, a set for each
  case, count the same labels, as no two cases share one.\<close>

theorem full_panel_recall:
  assumes "list_all2 scored results expecteds" and "distinct (map lb_id (concat expecteds))"
  shows "conditional_recall (er_cases (score results p ms)) =
     recall (er_overall (score (intact_cases results) p ms))"
proof -
  have "label_total (foldl score_result empty_tally rs) =
      (sum_list (map (\<lambda>r. card (found_in r)) rs), sum_list (map (\<lambda>c. length (cr_missed c)) rs))" for rs
    using score_results_label_total [of empty_tally rs]
    by (simp add: label_total_def empty_tally_def empty_bucket_def)
  moreover have "distinct_found results = sum_list (map (\<lambda>r. card (found_in r)) (intact_cases results))"
    using separate_scored [OF assms] by (intro distinct_found_sum) simp
  ultimately show ?thesis
    by (simp add: conditional_recall_def recall_def score_def label_total_def Let_def)
qed

lemma full_panel_recall_witness:
  "\<exists>r. scored r [sample_label 0 ''authz'' 14, sample_label 2 ''docs'' 90] \<and>
     conditional_recall (er_cases (score [r] ''echo'' [])) = recall (er_overall (score (intact_cases [r]) ''echo'' []))"
proof -
  let ?expected = "[sample_label 0 ''authz'' 14, sample_label 2 ''docs'' 90]"
  obtain r where "scored r ?expected" using sample_scored by blast
  with full_panel_recall [of "[r]" "[?expected]" "''echo''" "[]"] show ?thesis
    by (auto simp: sample_label_def)
qed

subsection \<open>A saved run and its comparison\<close>

text \<open>How much worse each measure of a run is than in an earlier one, in the order of the rows.\<close>

definition worse_by :: "eval_report \<Rightarrow> eval_report \<Rightarrow> real list" where
  "worse_by saved cur =
     [precision_strict (er_overall saved) - precision_strict (er_overall cur),
      recall (er_overall saved) - recall (er_overall cur), f1 (er_overall saved) - f1 (er_overall cur),
      er_ece cur - er_ece saved, er_cost_per_case_usd cur - er_cost_per_case_usd saved]"

lemma compare_saved:
  "\<exists>body. compare_runs cur (report_dict saved) = Inr (body,
     precision_strict (er_overall cur) - py_round 3 (precision_strict (er_overall saved)) < - 2 / 100 \<or>
     recall (er_overall cur) - py_round 3 (recall (er_overall saved)) < - 2 / 100 \<or>
     f1 (er_overall cur) - py_round 3 (f1 (er_overall saved)) < - 2 / 100 \<or>
     - (er_ece cur - py_round 3 (er_ece saved)) < - 2 / 100 \<or>
     - (er_cost_per_case_usd cur - py_round 4 (er_cost_per_case_usd saved)) < - 2 / 100)"
  by (simp add: compare_runs_def compare_rows_def report_dict_def sub_dict_def jget_or_def jget_def
      bucket_dict_def rounded_def compare_line_def json_number_def Let_def)

lemma round_slack:
  "py_round 3 x \<le> x + 1 / 2000 \<and> x - 1 / 2000 \<le> py_round 3 x \<and>
   py_round 4 x \<le> x + 1 / 2000 \<and> x - 1 / 2000 \<le> py_round 4 x"
proof -
  have "(1 :: real) / (2 * 10 ^ 3) = 1 / 2000" "(1 :: real) / (2 * 10 ^ 4) \<le> 1 / 2000" by simp_all
  with py_round_error [of 3 x] py_round_error [of 4 x] show ?thesis by linarith
qed

text \<open>Comparing a run with the file of a saved one never fails. A measure that got worse by more than 0.0205
  is reported as a regression, and when none got worse by more than 0.0195 no regression is reported, so a run
  never regresses against its own file; only in between does the rounding of the file decide.\<close>

theorem compare_with_saved:
  "\<exists>body regressed. compare_runs cur (report_dict saved) = Inr (body, regressed) \<and>
     (list_ex (\<lambda>d. 205 / 10000 < d) (worse_by saved cur) \<longrightarrow> regressed) \<and>
     (list_all (\<lambda>d. d \<le> 195 / 10000) (worse_by saved cur) \<longrightarrow> \<not> regressed)"
proof -
  note slack = round_slack [of "precision_strict (er_overall saved)"] round_slack [of "recall (er_overall saved)"]
    round_slack [of "f1 (er_overall saved)"] round_slack [of "er_ece saved"] round_slack [of "er_cost_per_case_usd saved"]
  obtain body where c: "compare_runs cur (report_dict saved) = Inr (body,
     precision_strict (er_overall cur) - py_round 3 (precision_strict (er_overall saved)) < - 2 / 100 \<or>
     recall (er_overall cur) - py_round 3 (recall (er_overall saved)) < - 2 / 100 \<or>
     f1 (er_overall cur) - py_round 3 (f1 (er_overall saved)) < - 2 / 100 \<or>
     - (er_ece cur - py_round 3 (er_ece saved)) < - 2 / 100 \<or>
     - (er_cost_per_case_usd cur - py_round 4 (er_cost_per_case_usd saved)) < - 2 / 100)"
    (is "_ = Inr (body, ?regressed)")
    using compare_saved by blast
  have "list_ex (\<lambda>d. 205 / 10000 < d) (worse_by saved cur) \<Longrightarrow> ?regressed"
    using slack by (simp add: worse_by_def) linarith
  moreover have "list_all (\<lambda>d. d \<le> 195 / 10000) (worse_by saved cur) \<Longrightarrow> \<not> ?regressed"
    using slack by (simp add: worse_by_def)
  ultimately show ?thesis using c by blast
qed

definition sample_report :: "real \<Rightarrow> eval_report" where
  "sample_report cost =
     \<lparr>er_overall = \<lparr>bk_hits = 2, bk_allowed = 0, bk_labels_found = 1, bk_concerns = 1, bk_false_positives = 1,
        bk_unlabelled = 1, bk_misses = 1\<rparr>, er_by_agent = [], er_calibration = [], er_ece = 1 / 10,
      er_category_agreement = 1, er_agent_attribution = 1, er_decision_accuracy = None,
      er_total_cost_usd = cost, er_cost_per_case_usd = cost, er_cases = [], er_provider = ''echo'', er_models = []\<rparr>"

lemma compare_with_saved_witness:
  "(\<exists>body. compare_runs (sample_report (1 / 10)) (report_dict (sample_report 0)) = Inr (body, True)) \<and>
   (\<exists>body. compare_runs (sample_report 0) (report_dict (sample_report 0)) = Inr (body, False))"
  using compare_with_saved [of "sample_report (1 / 10)" "sample_report 0"]
    compare_with_saved [of "sample_report 0" "sample_report 0"]
  by (auto simp: worse_by_def sample_report_def)

subsection \<open>The union of the unlabelled findings\<close>

definition all_unlabelled :: "eval_report list \<Rightarrow> (case_result \<times> label_match) list" where
  "all_unlabelled reports = concat (map (\<lambda>r. case_pairs cr_unlabelled (er_cases r)) reports)"

lemma group_fold:
  fixes key :: "'a \<Rightarrow> 'k"
  assumes "groups_keyed key gs" and "distinct (map fst gs)"
  shows "groups_keyed key (foldl (\<lambda>gs x. group_add (key x) x gs) gs xs) \<and>
    distinct (map fst (foldl (\<lambda>gs x. group_add (key x) x gs) gs xs)) \<and>
    mset (group_values (foldl (\<lambda>gs x. group_add (key x) x gs) gs xs)) = mset (group_values gs) + mset xs"
  using assms
proof (induction xs arbitrary: gs)
  case (Cons x xs)
  from Cons.IH [OF groups_keyed_add [OF Cons.prems(1) refl] group_add_distinct [OF Cons.prems(2)], of x]
  show ?case by (simp add: group_values_add)
qed simp

lemma row_runs_sum: "sum_list (map row_runs rows) = length (group_values rows)"
  by (induction rows) (simp_all add: row_runs_def group_values_def)

lemma sort_key_sum: "sum_list (map f (sort_key k xs)) = (sum_list (map f xs) :: nat)"
  by (metis mset_map mset_sort sum_mset_sum_list)

text \<open>The union over several runs lists every unlabelled finding: the counts of its rows add up to the
  number of unlabelled matches of all runs, no two rows have the same key, the matches of a row are the
  unlabelled matches with its key, and the rows are ordered by descending count. A count is therefore a
  number of matches: it is a number of runs only if no run has two matches with one key.\<close>

lemma unlabelled_union_accounts:
  "sum_list (map row_runs (sorted_rows reports)) = length (all_unlabelled reports) \<and>
   distinct (map fst (sorted_rows reports)) \<and>
   list_all (\<lambda>row. row_runs row = length (filter (\<lambda>cm. unlabelled_key cm = fst row) (all_unlabelled reports)))
     (sorted_rows reports) \<and>
   sorted_wrt (\<ge>) (map row_runs (sorted_rows reports))"
proof -
  let ?rows = "unlabelled_rows reports"
  have rows: "groups_keyed unlabelled_key ?rows" "distinct (map fst ?rows)"
    "mset (group_values ?rows) = mset (all_unlabelled reports)"
    using group_fold [of unlabelled_key "[]" "all_unlabelled reports"]
    by (simp_all add: unlabelled_rows_def all_unlabelled_def group_values_def)
  have len: "length (group_values ?rows) = length (all_unlabelled reports)"
    using rows(3) by (rule mset_eq_length)
  have runs: "row_runs row = length (filter (\<lambda>cm. unlabelled_key cm = fst row) (all_unlabelled reports))"
    if "row \<in> set ?rows" for row
  proof -
    have pick: "filter (\<lambda>x. key x = fst row) (group_values gs) = ne_list (snd row)"
      if "groups_keyed key gs" "distinct (map fst gs)" "row \<in> set gs"
      for key :: "case_result \<times> label_match \<Rightarrow> union_key" and gs
      using that
    proof (induction gs)
      case (Cons g gs)
      have own: "list_all (\<lambda>x. key x = fst g) (ne_list (snd g))" and rest: "groups_keyed key gs"
        using Cons.prems(1) by (simp_all add: groups_keyed_def)
      have later: "list_all (\<lambda>x. key x \<in> fst ` set gs) (group_values gs)"
        using rest by (auto simp: groups_keyed_def group_values_def list_all_iff)
      show ?case
      proof (cases "row = g")
        case True
        have "filter (\<lambda>x. key x = fst g) (group_values gs) = []"
          using later Cons.prems(2) unfolding filter_empty_conv list_all_iff distinct.simps list.map set_map by metis
        with True own show ?thesis by (simp add: group_values_def list_all_iff)
      next
        case False
        with Cons.prems have row: "row \<in> set gs" by simp
        then have "fst row \<noteq> fst g" using Cons.prems(2) by (auto simp: image_iff)
        then have "filter (\<lambda>x. key x = fst row) (ne_list (snd g)) = []"
          using own by (auto simp: filter_empty_conv list_all_iff)
        with Cons.IH rest row Cons.prems(2) show ?thesis by (simp add: group_values_def)
      qed
    qed simp
    have "mset (filter (\<lambda>cm. unlabelled_key cm = fst row) (all_unlabelled reports)) =
        mset (filter (\<lambda>cm. unlabelled_key cm = fst row) (group_values ?rows))"
      by (simp only: mset_filter rows(3))
    then show ?thesis
      using pick [OF rows(1,2) that] by (metis row_runs_def mset_eq_length)
  qed
  have "sorted (map (\<lambda>row. (- int (row_runs row), fst (fst row))) (sorted_rows reports))"
    by (simp add: sorted_rows_def)
  then have "sorted_wrt (\<ge>) (map row_runs (sorted_rows reports))"
    unfolding sorted_map by (rule sorted_wrt_mono_rel [rotated, THEN sorted_wrt_map [THEN iffD2]]) (auto simp: less_eq_prod_def)
  moreover have "distinct (map fst (sorted_rows reports))"
    using rows(2) by (simp add: sorted_rows_def distinct_map)
  ultimately show ?thesis
    using runs len by (simp add: sorted_rows_def sort_key_sum row_runs_sum list_all_iff)
qed

lemma spread_of_ordered:
  assumes "vs \<noteq> []" and "spread_of vs = (mean, lo, hi)"
  shows "lo \<le> mean \<and> mean \<le> hi"
proof -
  have "Min (set vs) \<le> v \<and> v \<le> Max (set vs)" if "v \<in> set vs" for v using that by simp
  with weighted_mean_bounds [of vs "\<lambda>_. 1" "Min (set vs)" "\<lambda>v. v" "Max (set vs)"] assms
  show ?thesis by (simp add: spread_of_def sum_list_triv)
qed

end
