(* ===== verification/Rescore.thy ===== *)
theory Rescore
  imports Report
begin

section \<open>Scoring a recorded run again\<close>

text \<open>
  \<^verbatim>\<open>scripts/rescore.py\<close>: the findings of a saved report are read back and scored under the labels and
  the matcher of today. The JSON text of the file is its value here, and the file system is an argument.
  The properties: re-scoring a report the program wrote gives the counts of the report back, if the
  evidence of its findings cites single lines; a finding whose evidence spans lines loses all but the first
  and may be judged differently; and a recorded run is never written over.
\<close>

definition int_text :: "string \<Rightarrow> exc + int" where
  "int_text s =
     (case int_of_str s of
        None \<Rightarrow> Inl (ValueError ''invalid literal for int() with base 10'') | Some i \<Rightarrow> Inr i)"

definition agent_of_str :: "string \<Rightarrow> agent_type option" where
  "agent_of_str s = List.find (\<lambda>a. agent_str a = s) ALL_AGENTS"

subsection \<open>Reading a finding\<close>

definition the_value :: "string \<Rightarrow> 'a option \<Rightarrow> exc + 'a" where
  "the_value what x = (case x of None \<Rightarrow> Inl (ValueError what) | Some v \<Rightarrow> Inr v)"

definition rebuilt_cite :: "json \<Rightarrow> exc + evidence" where
  "rebuilt_cite v =
     ebind (typed_str v) (\<lambda>cite.
       case py_rpartition CHR '':'' cite of (cpath, cline) \<Rightarrow>
         ebind (int_text cline) (\<lambda>n.
           Inr \<lparr>e_kind = ''diff'', e_file_path = cpath, e_line_start = Some n, e_line_end = Some n,
                e_excerpt = []\<rparr>))"

definition rebuilt_place :: "json \<Rightarrow> exc + string \<times> int \<times> int" where
  "rebuilt_place v =
     ebind (typed_str v) (\<lambda>place.
       case py_rpartition CHR '':'' place of (path, lines_text) \<Rightarrow>
       case py_partition CHR ''-'' lines_text of (lo, hi) \<Rightarrow>
         ebind (int_text lo) (\<lambda>line_start.
         ebind (if hi \<noteq> [] then int_text hi else Inr line_start) (\<lambda>line_end.
           Inr (path, line_start, line_end))))"

text \<open>\<^verbatim>\<open>raw.get(key) or []\<close>, a list of strings.\<close>

definition string_list :: "string \<Rightarrow> json \<Rightarrow> exc + string list" where
  "string_list k raw =
     ebind (json_get k JNull raw) (\<lambda>v. if truthy v then ebind (typed_list v) (e_traverse typed_str) else Inr [])"

definition finite_float :: "json \<Rightarrow> exc + real" where
  "finite_float v =
     ebind (py_float v) (\<lambda>x. case x of Fin r \<Rightarrow> Inr r | _ \<Rightarrow> Inl (ValueError ''Input should be a finite number''))"

definition rebuild :: "uuid \<Rightarrow> json \<Rightarrow> exc + finding" where
  "rebuild i raw =
     ebind (ebind (json_index ''where'' raw) rebuilt_place) (\<lambda>(path, line_start, line_end).
     ebind (ebind (json_get ''cites'' (JList []) raw) typed_list) (\<lambda>cites.
     ebind (e_traverse rebuilt_cite cites) (\<lambda>evidence.
     ebind (ebind (json_index ''agent'' raw) typed_str) (\<lambda>agent_name.
     ebind (ebind (json_index ''category'' raw) typed_str) (\<lambda>category_name.
     ebind (ebind (json_index ''severity'' raw) typed_str) (\<lambda>severity_name.
     ebind (ebind (json_index ''title'' raw) typed_str) (\<lambda>title.
     ebind (json_get ''body'' JNull raw) (\<lambda>body_value.
     ebind (if truthy body_value then typed_str body_value else Inr title) (\<lambda>body.
     ebind (ebind (json_index ''confidence'' raw) finite_float) (\<lambda>confidence.
     ebind (string_list ''agreeing'' raw) (\<lambda>agreeing.
     ebind (string_list ''categories'' raw) (\<lambda>categories.
     ebind (the_value ''agent'' (agent_of_str agent_name)) (\<lambda>agent.
     ebind (the_value ''category'' (category_of_str category_name)) (\<lambda>category.
     ebind (the_value ''severity'' (severity_of_str severity_name)) (\<lambda>severity.
       the_value ''findings must carry a non-empty title and rationale''
         (validate_finding
           \<lparr>f_id = i, f_agent = agent, f_category = category, f_severity = severity, f_file_path = path,
            f_line_start = line_start, f_line_end = line_end, f_title = title, f_body = body,
            f_rationale = title, f_confidence = confidence, f_evidence = evidence, f_agreeing = agreeing,
            f_categories = categories, f_merged_into = None\<rparr>))))))))))))))))"

subsection \<open>Scoring the recorded cases\<close>

definition recorded_failed :: "json \<Rightarrow> exc + string list" where
  "recorded_failed recorded =
     ebind (ebind (json_get ''failed_agents'' (JList []) recorded) typed_list) (e_traverse typed_str)"

text \<open>\<^verbatim>\<open>{c.id: c for c in load_cases()}.get(id)\<close>: the last case of that id.\<close>

definition case_by_id :: "eval_case list \<Rightarrow> string \<Rightarrow> eval_case option" where
  "case_by_id cases i = List.find (\<lambda>c. ec_id c = i) (rev cases)"

definition rescore_case :: "eval_case list \<Rightarrow> json \<Rightarrow> exc + case_result list" where
  "rescore_case cases recorded =
     ebind (ebind (json_index ''id'' recorded) typed_str) (\<lambda>i.
       case case_by_id cases i of
         None \<Rightarrow> Inr []
       | Some c \<Rightarrow>
           ebind (ebind (json_get ''findings'' (JList []) recorded) typed_list) (\<lambda>raws.
           ebind (e_traverse (\<lambda>(n, raw). rebuild n raw) (enumerate 0 raws)) (\<lambda>fs.
           ebind (ebind (json_index ''decision'' recorded) typed_str) (\<lambda>dec.
           ebind (ebind (json_index ''confidence'' recorded) finite_float) (\<lambda>confidence.
           ebind (ebind (json_index ''cost_usd'' recorded) finite_float) (\<lambda>cost.
           ebind (recorded_failed recorded) (\<lambda>failed.
           ebind (score_case c fs dec confidence cost 0 failed None) (\<lambda>r. Inr [r]))))))))"

definition dead_recorded :: "json list \<Rightarrow> exc + nat" where
  "dead_recorded per_case =
     ebind (e_traverse recorded_failed per_case) (\<lambda>faileds. Inr (length (filter (\<lambda>f. 4 \<le> length f) faileds)))"

text \<open>\<^const>\<open>None\<close> is a run that is skipped as an outage.\<close>

definition rescore_run ::
  "eval_case list \<Rightarrow> string \<Rightarrow> (string \<times> string) list \<Rightarrow> json \<Rightarrow> exc + eval_report option" where
  "rescore_run cases provider models run =
     ebind (ebind (json_index ''per_case'' run) typed_list) (\<lambda>per_case.
     ebind (dead_recorded per_case) (\<lambda>dead.
       if dead \<noteq> 0 \<and> 25 / 100 < real dead / real (max (length per_case) 1) then Inr None
       else ebind (e_traverse (rescore_case cases) per_case) (\<lambda>results.
              Inr (Some (score (concat results) provider models)))))"

definition model_names :: "json \<Rightarrow> exc + (string \<times> string) list" where
  "model_names v =
     ebind (typed_obj v) (e_traverse (\<lambda>(k, x). ebind (typed_str x) (\<lambda>s. Inr (k, s))))"

text \<open>The reports of the runs that were no outage, and the number of those that were.\<close>

definition rescore :: "eval_case list \<Rightarrow> json \<Rightarrow> exc + nat \<times> eval_report list" where
  "rescore cases payload =
     ebind (json_get ''runs'' JNull payload) (\<lambda>runs_value.
     ebind (if truthy runs_value then typed_list runs_value else Inr [payload]) (\<lambda>runs.
     ebind (ebind (json_get ''provider'' (JStr ''?'') payload) typed_str) (\<lambda>provider.
     ebind (ebind (json_get ''models'' (JObj []) payload) model_names) (\<lambda>models.
     ebind (e_traverse (rescore_run cases provider models) runs) (\<lambda>outcomes.
       Inr (length (filter (\<lambda>x. x = None) outcomes), List.map_filter id outcomes))))))"

definition rescored_payload :: "(string \<Rightarrow> string) \<Rightarrow> string \<Rightarrow> eval_report list \<Rightarrow> json" where
  "rescored_payload base_name source reports =
     JObj (report_dict (last reports) @
       [(''runs'', JList (map (\<lambda>r. JObj (report_dict r)) reports)),
        (''rescored_from'', JStr (base_name source))])"

text \<open>The script: its exit status and what it writes where. \<open>resolve\<close> is \<^verbatim>\<open>Path.resolve\<close>.\<close>

definition rescore_main ::
  "(string \<Rightarrow> string) \<Rightarrow> (string \<Rightarrow> string) \<Rightarrow> eval_case list \<Rightarrow> json \<Rightarrow> string \<Rightarrow> string option \<Rightarrow>
     exc + nat \<times> (string \<times> json) option" where
  "rescore_main resolve base_name cases payload source save_to =
     (if map_option resolve save_to = Some (resolve source) then Inr (2, None)
      else ebind (rescore cases payload) (\<lambda>(skipped, reports).
        if reports = [] then Inr (1, None)
        else Inr (0, map_option (\<lambda>target. (target, rescored_payload base_name source reports)) save_to)))"

subsection \<open>Text that is printed and read\<close>

lemma str_int_chars:
  "CHR '':'' \<notin> set (py_str_int i)" "0 \<le> i \<Longrightarrow> CHR ''-'' \<notin> set (py_str_int i)" "py_str_int i \<noteq> []"
proof -
  have "CHR '':'' \<notin> set (py_str_nat n) \<and> CHR ''-'' \<notin> set (py_str_nat n)" for n
    using py_str_nat_digits [of n] by (force simp: list_all_iff is_digit_def code_def)
  then show "CHR '':'' \<notin> set (py_str_int i)" "0 \<le> i \<Longrightarrow> CHR ''-'' \<notin> set (py_str_int i)" "py_str_int i \<noteq> []"
    by (simp_all add: py_str_int_def)
qed

lemma int_text_str [simp]: "int_text (py_str_int i) = Inr i"
  by (simp add: int_text_def int_of_str_str_int)

lemma agent_of_str_str [simp]: "agent_of_str (agent_str a) = Some a"
  by (cases a) (simp_all add: agent_of_str_def ALL_AGENTS_def)

subsection \<open>A finding that is written and read\<close>

text \<open>Evidence that cites at most one line.\<close>

definition cites_point :: "evidence \<Rightarrow> bool" where
  "cites_point e \<longleftrightarrow> (case e_line_start e of None \<Rightarrow> True | Some s \<Rightarrow> evidence_end s e = s)"

definition recordable :: "finding \<Rightarrow> bool" where
  "recordable f \<longleftrightarrow>
     0 \<le> f_line_start f \<and> f_line_start f \<le> f_line_end f \<and> 0 \<le> f_confidence f \<and> f_confidence f \<le> 1 \<and>
     f_title f \<noteq> [] \<and> py_strip (f_title f) = f_title f \<and> list_all cites_point (f_evidence f)"

definition cite_evidence :: "evidence \<Rightarrow> evidence option" where
  "cite_evidence e =
     map_option (\<lambda>s. \<lparr>e_kind = ''diff'', e_file_path = e_file_path e, e_line_start = Some s,
       e_line_end = Some s, e_excerpt = []\<rparr>) (e_line_start e)"

text \<open>What is left of a finding after it was written and read.\<close>

definition reread :: "uuid \<Rightarrow> finding \<Rightarrow> finding" where
  "reread i f =
     f\<lparr>f_id := i, f_body := (if f_body f = [] then f_title f else f_body f), f_rationale := f_title f,
       f_confidence := py_round 3 (f_confidence f), f_evidence := List.map_filter cite_evidence (f_evidence f),
       f_merged_into := None\<rparr>"

lemma rebuilt_place_ref:
  assumes "0 \<le> f_line_start f" and "f_line_start f \<le> f_line_end f"
  shows "rebuilt_place (JStr (finding_ref f)) = Inr (f_file_path f, f_line_start f, f_line_end f)"
proof (cases "f_line_end f = f_line_start f")
  case True
  then show ?thesis
    using assms by (simp add: finding_ref_def rebuilt_place_def typed_str_def py_rpartition_text
        py_partition_absent str_int_chars)
next
  case False
  then have ref: "finding_ref f = f_file_path f @ CHR '':'' # (py_str_int (f_line_start f) @ CHR ''-'' #
      py_str_int (f_line_end f))"
    by (simp add: finding_ref_def)
  show ?thesis
    using assms unfolding ref
    by (simp add: rebuilt_place_def typed_str_def py_rpartition_text py_partition_text str_int_chars)
qed

lemma rebuilt_cites:
  "e_traverse rebuilt_cite (map JStr (cited es)) = Inr (List.map_filter cite_evidence es)"
proof (induction es)
  case (Cons e es)
  have "rebuilt_cite (JStr (p @ CHR '':'' # py_str_int s)) =
      Inr \<lparr>e_kind = ''diff'', e_file_path = p, e_line_start = Some s, e_line_end = Some s, e_excerpt = []\<rparr>" for p s
    by (simp add: rebuilt_cite_def typed_str_def py_rpartition_text str_int_chars)
  with Cons show ?case
    by (cases "e_line_start e") (simp_all add: cited_def cite_evidence_def map_filter_simps)
qed (simp add: cited_def map_filter_simps)

lemma typed_strs: "e_traverse typed_str (map JStr xs) = Inr xs"
  by (induction xs) (simp_all add: typed_str_def)

lemma string_list_field: "jget k kvs = Some (str_list xs) \<Longrightarrow> string_list k (JObj kvs) = Inr xs"
  by (simp add: string_list_def json_get_def jget_or_def str_list_def typed_list_def typed_strs)

theorem rebuild_recorded:
  assumes "recordable (lm_finding m)"
  shows "rebuild i (match_dict m) = Inr (reread i (lm_finding m))"
proof -
  let ?f = "lm_finding m"
  from assms have f: "0 \<le> f_line_start ?f" "f_line_start ?f \<le> f_line_end ?f"
    "f_title ?f \<noteq> []" "py_strip (f_title ?f) = f_title ?f"
    and unit: "0 \<le> py_round 3 (f_confidence ?f) \<and> py_round 3 (f_confidence ?f) \<le> 1"
    by (simp_all add: recordable_def py_round_unit)
  have strings: "string_list ''agreeing'' (match_dict m) = Inr (f_agreeing ?f)"
    "string_list ''categories'' (match_dict m) = Inr (f_categories ?f)"
    unfolding match_dict_def Let_def by (rule string_list_field, simp add: jget_def)+
  have fields: "json_index ''where'' (match_dict m) = Inr (JStr (finding_ref ?f))"
    "json_get ''cites'' (JList []) (match_dict m) = Inr (str_list (cited (f_evidence ?f)))"
    "json_index ''agent'' (match_dict m) = Inr (JStr (agent_str (f_agent ?f)))"
    "json_index ''category'' (match_dict m) = Inr (JStr (category_str (f_category ?f)))"
    "json_index ''severity'' (match_dict m) = Inr (JStr (severity_str (f_severity ?f)))"
    "json_index ''title'' (match_dict m) = Inr (JStr (f_title ?f))"
    "json_get ''body'' JNull (match_dict m) = Inr (JStr (f_body ?f))"
    "json_index ''confidence'' (match_dict m) = Inr (rounded 3 (f_confidence ?f))"
    by (simp_all add: match_dict_def json_index_def json_get_def jget_or_def jget_def Let_def)
  have "max (f_line_end ?f) (f_line_start ?f) = f_line_end ?f" using f by simp
  with f unit show ?thesis
    by (cases "f_body ?f = []")
      (simp_all add: rebuild_def fields strings rebuilt_place_ref str_list_def typed_list_def rebuilt_cites typed_str_def
        rounded_def finite_float_def the_value_def validate_finding_def reread_def)
qed

subsection \<open>What the scoring reads of a finding\<close>

definition same_view :: "finding \<Rightarrow> finding \<Rightarrow> bool" where
  "same_view f g \<longleftrightarrow>
     f_agent f = f_agent g \<and> f_category f = f_category g \<and> f_severity f = f_severity g \<and>
     f_agreeing f = f_agreeing g \<and> f_categories f = f_categories g \<and>
     locates f = locates g \<and> covers f = covers g"

lemma reread_view:
  assumes "recordable f"
  shows "same_view f (reread i f)"
proof -
  have any: "list_ex p (List.map_filter cite_evidence es) = list_ex p es"
    if "list_all cites_point es" "\<And>e. e_line_start e = None \<Longrightarrow> \<not> p e"
      "\<And>e s. e_line_start e = Some s \<Longrightarrow> cites_point e \<Longrightarrow> p (the (cite_evidence e)) = p e"
    for p es
    using that
  proof (induction es)
    case (Cons e es)
    then show ?case
      by (cases "e_line_start e") (simp_all add: map_filter_simps cite_evidence_def)
  qed (simp add: map_filter_simps)
  have "list_all cites_point (f_evidence f)" using assms by (simp add: recordable_def)
  note any = any [OF this]
  have "locates f l = locates (reread i f) l" for l
    unfolding locates_def reread_def
    by (simp, subst any) (auto simp: cites_point_def cite_evidence_def evidence_end_def)
  moreover have "covers f l = covers (reread i f) l" for l
    unfolding covers_def reread_def
    by (simp, subst any) (auto simp: cites_point_def cite_evidence_def evidence_end_def)
  ultimately show ?thesis by (auto simp: same_view_def reread_def)
qed

definition refound :: "label_match \<Rightarrow> finding \<Rightarrow> label_match" where
  "refound m g = m\<lparr>lm_finding := g\<rparr>"

lemma refound_simps [simp]:
  "lm_finding (refound m g) = g" "lm_kind (refound m g) = lm_kind m" "lm_labels (refound m g) = lm_labels m"
  "lm_agent_correct (refound m g) = lm_agent_correct m"
  "lm_category_correct (refound m g) = lm_category_correct m" "lm_label (refound m g) = lm_label m"
  by (simp_all add: refound_def)

lemma same_view_concern: "same_view f g \<Longrightarrow> same_concern f l = same_concern g l"
  by (simp add: same_view_def same_concern_def found_categories_def cong: option.case_cong if_cong)

lemma classify_one_view:
  assumes "same_view f g" and "classify_one expected forbidden allowed concerns f = Inr m"
  shows "classify_one expected forbidden allowed concerns g = Inr (refound m g)"
proof -
  note v = assms(1) [unfolded same_view_def]
  have s: "satisfies f = satisfies g" and t: "traps f = traps g"
    using v same_view_concern [OF assms(1)] by (auto simp: satisfies_def traps_def fun_eq_iff cong: option.case_cong)
  have a: "agent_matches f = agent_matches g" "category_matches f = category_matches g"
    using v by (auto simp: agent_matches_def category_matches_def found_categories_def fun_eq_iff
        cong: option.case_cong)
  have hit: "hit_match f primary covered = Inr m \<Longrightarrow> hit_match g primary covered = Inr (refound m g)"
    for primary covered
    using v by (auto simp: hit_match_def ebind_Inr refound_def a)
  have plain: "plain_match g l kind ls = refound (plain_match f l kind ls) g" for l kind ls
    by (simp add: plain_match_def refound_def)
  have loc: "locates f = locates g" and key: "f_agent f = f_agent g" "f_category f = f_category g"
    using v by simp_all
  from assms(2) obtain covered where cov: "e_filter (satisfies g) expected = Inr covered"
    and rest: "(case covered of primary # _ \<Rightarrow> hit_match f primary covered
       | [] \<Rightarrow>
           (case (if list_ex (locates g) expected then None else List.find (traps g) forbidden) of
              Some trap \<Rightarrow> Inr (plain_match f (Some trap) ''false_positive'' [trap])
            | None \<Rightarrow>
                ebind (e_find (satisfies g) allowed) (\<lambda>permitted.
                  case permitted of
                    Some l \<Rightarrow> Inr (plain_match f (Some l) ''allowed'' [l])
                  | None \<Rightarrow>
                      Inr (plain_match f None
                        (if (agent_str (f_agent g), category_str (f_category g)) \<in> set concerns
                         then ''allowed'' else ''unlabelled'') [])))) = Inr m"
    unfolding classify_one_def s t loc key ebind_Inr by blast
  show ?thesis
  proof (cases covered)
    case (Cons primary ls)
    with rest cov hit show ?thesis by (simp add: classify_one_def)
  next
    case Nil
    show ?thesis
    proof (cases "if list_ex (locates g) expected then None else List.find (traps g) forbidden")
      case (Some trap)
      with rest cov Nil show ?thesis by (simp add: classify_one_def plain)
    next
      case None
      with rest Nil obtain permitted where p: "e_find (satisfies g) allowed = Inr permitted"
        by (auto simp: ebind_Inr)
      with rest cov Nil None show ?thesis
        by (cases permitted) (simp_all only: classify_one_def ebind_simps list.case option.case plain sum.inject)
    qed
  qed
qed

lemma classify_view:
  assumes "list_all2 same_view fs gs" and "classify fs expected forbidden allowed concerns = Inr ms"
  shows "classify gs expected forbidden allowed concerns = Inr (map2 refound ms gs) \<and>
    list_all2 same_view (map lm_finding ms) gs"
  using assms
proof (induction arbitrary: ms rule: list_all2_induct)
  case (Cons f fs g gs)
  then obtain m ms' where m: "classify_one expected forbidden allowed concerns f = Inr m" "ms = m # ms'"
    "classify fs expected forbidden allowed concerns = Inr ms'"
    by (auto simp: classify_def ebind_Inr)
  have "lm_finding m = f"
    using classify_one_judged [OF m(1)] by (simp add: judged_def)
  with m Cons.IH [OF m(3)] Cons.hyps(1) classify_one_view [OF Cons.hyps(1) m(1)] show ?case
    by (simp add: classify_def)
qed (simp add: classify_def)

definition same_match :: "label_match \<Rightarrow> label_match \<Rightarrow> bool" where
  "same_match m m' \<longleftrightarrow> same_view (lm_finding m) (lm_finding m') \<and> m' = refound m (lm_finding m')"

definition same_result :: "case_result \<Rightarrow> case_result \<Rightarrow> bool" where
  "same_result r r' \<longleftrightarrow>
     list_all2 same_match (cr_matches r) (cr_matches r') \<and> cr_missed r' = cr_missed r \<and>
     cr_decision r' = cr_decision r \<and> cr_expected_decision r' = cr_expected_decision r"

lemma refound_matches:
  assumes "list_all2 same_view (map lm_finding ms) gs"
  shows "list_all2 same_match ms (map2 refound ms gs)"
  using assms by (induction ms arbitrary: gs) (auto simp: list_all2_Cons1 same_match_def)

lemma same_match_fields:
  "same_match m m' \<Longrightarrow> lm_kind m' = lm_kind m \<and> lm_labels m' = lm_labels m \<and>
     lm_agent_correct m' = lm_agent_correct m \<and> lm_category_correct m' = lm_category_correct m \<and>
     f_agent (lm_finding m') = f_agent (lm_finding m) \<and> f_category (lm_finding m') = f_category (lm_finding m)"
  unfolding same_match_def same_view_def by (metis refound_simps)

lemma score_match_same:
  assumes "same_match m m'"
  shows "score_match ts m' = score_match ts m"
proof -
  note m = same_match_fields [OF assms]
  have "score_label (lm_finding m') = score_label (lm_finding m)"
    using m by (intro ext) (simp add: score_label_def Let_def split: prod.splits)
  with m show ?thesis by (simp add: score_match_def Let_def split: prod.split cong: if_cong)
qed

lemma score_matches_same: "list_all2 same_match ms ms' \<Longrightarrow> foldl score_match ts ms' = foldl score_match ts ms"
  by (induction arbitrary: ts rule: list_all2_induct) (simp_all add: score_match_same)

lemma score_results_same: "list_all2 same_result rs rs' \<Longrightarrow> foldl score_result t rs' = foldl score_result t rs"
proof (induction arbitrary: t rule: list_all2_induct)
  case (Cons r rs r' rs')
  then have "score_result t r' = score_result t r" for t
    using score_matches_same [of "cr_matches r" "cr_matches r'"] by (simp add: same_result_def score_result_def)
  with Cons.IH show ?case by simp
qed simp

lemma share_same: "map p xs = map q ys \<Longrightarrow> share p xs = share q ys"
proof -
  assume eq: "map p xs = map q ys"
  have "length (filter f zs) = length (filter id (map f zs))" for f :: "'z \<Rightarrow> bool" and zs
    by (induction zs) simp_all
  then have "length (filter p xs) = length (filter q ys)"
    using eq by (metis (no_types, lifting) comp_id filter_map id_apply length_map map_eq_conv)
  moreover have "length xs = length ys" using eq by (metis length_map)
  ultimately show ?thesis by (simp add: share_def)
qed

subsection \<open>Scoring a report again\<close>

text \<open>A result as the evaluation makes it, of findings that can be read back.\<close>

definition recorded_case :: "eval_case \<Rightarrow> case_result \<Rightarrow> bool" where
  "recorded_case c r \<longleftrightarrow>
     (\<exists>fs. list_all recordable fs \<and>
        score_case c fs (cr_decision r) (cr_confidence r) (cr_cost_usd r) (cr_duration_ms r)
          (cr_failed_agents r) (cr_error r) = Inr r)"

lemma rebuild_matches:
  "list_all (\<lambda>m. recordable (lm_finding m)) ms \<Longrightarrow>
     e_traverse (\<lambda>(n, raw). rebuild n raw) (enumerate k (map match_dict ms)) =
       Inr (map (\<lambda>(n, m). reread n (lm_finding m)) (enumerate k ms))"
  by (induction ms arbitrary: k) (simp_all add: rebuild_recorded)

lemma rebuild_matches_view:
  "list_all (\<lambda>m. recordable (lm_finding m)) ms \<Longrightarrow>
     list_all2 same_view (map lm_finding ms) (map (\<lambda>(n, m). reread n (lm_finding m)) (enumerate k ms))"
  by (induction ms arbitrary: k) (simp_all add: reread_view)

lemma recorded_failed_dict [simp]: "recorded_failed (case_dict r) = Inr (cr_failed_agents r)"
  by (simp add: recorded_failed_def case_dict_def json_get_def jget_or_def jget_def str_list_def typed_list_def typed_strs)

lemma case_dict_fields:
  "json_index ''id'' (case_dict r) = Inr (JStr (cr_case_id r))"
  "json_get ''findings'' (JList []) (case_dict r) = Inr (JList (map match_dict (cr_matches r)))"
  "json_index ''decision'' (case_dict r) = Inr (JStr (cr_decision r))"
  "json_index ''confidence'' (case_dict r) = Inr (rounded 3 (cr_confidence r))"
  "json_index ''cost_usd'' (case_dict r) = Inr (rounded 4 (cr_cost_usd r))"
  by (simp_all add: case_dict_def json_index_def json_get_def jget_or_def jget_def)

lemma case_by_id_member:
  assumes "distinct (map ec_id cases)" and "c \<in> set cases"
  shows "case_by_id cases (ec_id c) = Some c"
proof -
  obtain c' where c': "case_by_id cases (ec_id c) = Some c'"
    using assms(2) by (cases "case_by_id cases (ec_id c)") (auto simp: case_by_id_def find_None_iff)
  have find_in: "List.find p xs = Some x \<Longrightarrow> x \<in> set xs \<and> p x" for p and x :: eval_case and xs
    by (induction xs) (auto split: if_splits)
  from c' have "c' \<in> set cases" "ec_id c' = ec_id c"
    using find_in by (fastforce simp: case_by_id_def)+
  with assms c' show ?thesis by (auto simp: distinct_map inj_on_def)
qed

lemma rescore_case_same:
  assumes "recorded_case c r" and "distinct (map ec_id cases)" and "c \<in> set cases"
  shows "\<exists>r'. rescore_case cases (case_dict r) = Inr [r'] \<and> same_result r r'"
proof -
  from assms(1) obtain fs where fs: "list_all recordable fs"
    and s: "score_case c fs (cr_decision r) (cr_confidence r) (cr_cost_usd r) (cr_duration_ms r)
      (cr_failed_agents r) (cr_error r) = Inr r"
    by (auto simp: recorded_case_def)
  let ?ms = "cr_matches r" and ?gs = "map (\<lambda>(n, m). reread n (lm_finding m)) (enumerate 0 (cr_matches r))"
  from s have c: "classify fs (ec_expected c) (ec_must_not_find c) (ec_may_find c) (ec_permitted_concerns c) = Inr ?ms"
    and r: "cr_case_id r = ec_id c" "cr_missed r = missed (ec_expected c) ?ms"
      "cr_expected_decision r = ec_expected_decision c"
    by (cases r; auto simp: score_case_def ebind_Inr)+
  have "list_all2 (\<lambda>f m. lm_finding m = f) fs ?ms"
    using classify_judged [OF c] by (rule list_all2_mono) (simp add: judged_def)
  then have fms: "map lm_finding ?ms = fs"
    by (induction rule: list_all2_induct) simp_all
  with fs have rec: "list_all (\<lambda>m. recordable (lm_finding m)) ?ms"
    by (auto simp: list_all_iff)
  from rebuild_matches_view [OF rec, of 0] have v: "list_all2 same_view fs ?gs" unfolding fms .
  from classify_view [OF v c] refound_matches [of ?ms ?gs]
  have c': "classify ?gs (ec_expected c) (ec_must_not_find c) (ec_may_find c) (ec_permitted_concerns c) =
      Inr (map2 refound ?ms ?gs)" and m: "list_all2 same_match ?ms (map2 refound ?ms ?gs)"
    by simp_all
  have missed_same: "missed es ms' = missed es ms" if "list_all2 same_match ms ms'" for es ms ms'
  proof -
    have "map lm_labels (filter (\<lambda>m. lm_kind m = ''hit'') ms') = map lm_labels (filter (\<lambda>m. lm_kind m = ''hit'') ms)"
      using that by (induction rule: list_all2_induct) (simp_all add: same_match_fields)
    then show ?thesis by (simp add: missed_def)
  qed
  show ?thesis
    using c' m r missed_same [OF m, of "ec_expected c"]
    by (simp add: rescore_case_def case_dict_fields typed_str_def r(1) case_by_id_member [OF assms(2,3)] typed_list_def
        rebuild_matches [OF rec] rounded_def finite_float_def score_case_def same_result_def)
qed

lemma rescore_cases_same:
  assumes "list_all2 recorded_case cs rs" and "distinct (map ec_id cases)" and "set cs \<subseteq> set cases"
  shows "\<exists>rs'. e_traverse (rescore_case cases) (map case_dict rs) = Inr (map (\<lambda>r. [r]) rs') \<and> list_all2 same_result rs rs'"
  using assms
proof (induction rule: list_all2_induct)
  case (Cons c cs r rs)
  then obtain r' rs' where "rescore_case cases (case_dict r) = Inr [r'] \<and> same_result r r'"
    "e_traverse (rescore_case cases) (map case_dict rs) = Inr (map (\<lambda>r. [r]) rs') \<and> list_all2 same_result rs rs'"
    using rescore_case_same [OF Cons.hyps(1) assms(2)] by auto
  then show ?case by (intro exI [of _ "r' # rs'"]) simp
qed simp

lemma dead_recorded_dicts:
  "dead_recorded (map case_dict rs) = Inr (length (filter (\<lambda>r. 4 \<le> length (cr_failed_agents r)) rs))"
proof -
  have "e_traverse recorded_failed (map case_dict rs) = Inr (map cr_failed_agents rs)"
    by (induction rs) simp_all
  then show ?thesis by (simp add: dead_recorded_def filter_map comp_def)
qed

lemma report_fields:
  "json_get ''runs'' JNull (JObj (report_dict r)) = Inr JNull"
  "json_get ''provider'' (JStr ''?'') (JObj (report_dict r)) = Inr (JStr (er_provider r))"
  "json_get ''models'' (JObj []) (JObj (report_dict r)) = Inr (JObj (map (\<lambda>(k, v). (k, JStr v)) (er_models r)))"
  "json_index ''per_case'' (JObj (report_dict r)) = Inr (JList (map case_dict (er_cases r)))"
  by (simp_all add: report_dict_def json_get_def json_index_def jget_or_def jget_def)

lemma model_names_dict: "model_names (JObj (map (\<lambda>(k, v). (k, JStr v)) ms)) = Inr ms"
proof -
  have "e_traverse (\<lambda>(k, x). ebind (typed_str x) (\<lambda>s. Inr (k, s))) (map (\<lambda>(k, v). (k, JStr v)) ms) = Inr ms"
    by (induction ms) (auto simp: typed_str_def)
  then show ?thesis by (simp add: model_names_def typed_obj_def)
qed

lemma score_same:
  assumes "list_all2 same_result rs rs'"
  shows "er_overall (score rs' p ms) = er_overall (score rs p ms) \<and>
    er_by_agent (score rs' p ms) = er_by_agent (score rs p ms) \<and>
    er_category_agreement (score rs' p ms) = er_category_agreement (score rs p ms) \<and>
    er_agent_attribution (score rs' p ms) = er_agent_attribution (score rs p ms) \<and>
    er_decision_accuracy (score rs' p ms) = er_decision_accuracy (score rs p ms)"
proof -
  let ?hits = "\<lambda>rs. of_kind ''hit'' (concat (map cr_matches rs))"
  have "list_all2 same_match (concat (map cr_matches rs)) (concat (map cr_matches rs'))"
    using assms by (induction rule: list_all2_induct) (auto simp: same_result_def list_all2_appendI)
  then have hits: "map lm_category_correct (?hits rs') = map lm_category_correct (?hits rs) \<and>
      map lm_agent_correct (?hits rs') = map lm_agent_correct (?hits rs)"
    by (induction rule: list_all2_induct) (auto simp: of_kind_def dest: same_match_fields)
  have "decision_correct r' = decision_correct r" if "same_result r r'" for r r'
    using that by (simp add: same_result_def decision_correct_def)
  with assms have dec: "map (\<lambda>r. decision_correct r = Some True) (filter (\<lambda>r. decision_correct r \<noteq> None) rs') =
      map (\<lambda>r. decision_correct r = Some True) (filter (\<lambda>r. decision_correct r \<noteq> None) rs)"
    by (induction rule: list_all2_induct) simp_all
  then have "(filter (\<lambda>r. decision_correct r \<noteq> None) rs' = []) = (filter (\<lambda>r. decision_correct r \<noteq> None) rs = [])"
    by (metis map_is_Nil_conv)
  moreover note share_same [OF dec] share_same [OF conjunct1 [OF hits]] share_same [OF conjunct2 [OF hits]]
    score_results_same [OF assms, of empty_tally]
  ultimately show ?thesis
    unfolding score_def Let_def eval_report.select_convs by (simp only: simp_thms)
qed

text \<open>C24. Scoring a saved report again, with the labels and the matcher it was made with, gives its counts
  back - the buckets of the panel and of every agent, the category agreement, the agent attribution and the
  decision accuracy - under four conditions: every result of the report is what the scoring of its case made
  of findings that can be read back (\<open>recordable\<close>: a validated finding with a title, none of whose evidence
  spans more than one line), the names of the cases are distinct, the cases of the report are among those
  loaded, and at most a quarter of the results lost the whole panel. The first is needed: evidence of several
  lines is cut to its first line (\<^verbatim>\<open>rescore_loses_evidence\<close> below), and counts can then change; a run that
  lost more is skipped.\<close>

theorem rescore_reproduces:
  assumes "list_all2 recorded_case cs results" and "distinct (map ec_id cases)" and "set cs \<subseteq> set cases"
    and "4 * length (filter (\<lambda>r. 4 \<le> length (cr_failed_agents r)) results) \<le> length results"
  shows "\<exists>r'. rescore cases (JObj (report_dict (score results p ms))) = Inr (0, [r']) \<and>
    er_overall r' = er_overall (score results p ms) \<and> er_by_agent r' = er_by_agent (score results p ms) \<and>
    er_category_agreement r' = er_category_agreement (score results p ms) \<and>
    er_agent_attribution r' = er_agent_attribution (score results p ms) \<and>
    er_decision_accuracy r' = er_decision_accuracy (score results p ms)"
proof -
  let ?r = "score results p ms"
  let ?dead = "length (filter (\<lambda>r. 4 \<le> length (cr_failed_agents r)) results)"
  have r: "er_cases ?r = results" "er_provider ?r = p" "er_models ?r = ms"
    by (simp_all add: score_def Let_def)
  obtain rs' where rs': "e_traverse (rescore_case cases) (map case_dict results) = Inr (map (\<lambda>r. [r]) rs')"
    "list_all2 same_result results rs'"
    using rescore_cases_same [OF assms(1,2,3)] by blast
  have "real ?dead * 4 \<le> real (max (length results) 1)"
    using assms(4) by linarith
  then have "\<not> (?dead \<noteq> 0 \<and> 25 / 100 < real ?dead / real (max (length results) 1))"
    by (simp add: field_simps)
  then have run: "rescore_run cases p ms (JObj (report_dict ?r)) = Inr (Some (score rs' p ms))"
    using rs'(1) by (simp add: rescore_run_def report_fields r typed_list_def dead_recorded_dicts)
  have "rescore cases (JObj (report_dict ?r)) = Inr (0, [score rs' p ms])"
    by (simp add: rescore_def report_fields r typed_str_def model_names_dict run map_filter_simps)
  with score_same [OF rs'(2), of p ms] show ?thesis by blast
qed

definition sample_case :: eval_case where
  "sample_case =
     \<lparr>ec_id = ''c'', ec_title = [], ec_summary = [], ec_expected_decision = Some ''escalate'', ec_files = [],
      ec_context_chunks = [], ec_expected = [sample_label 0 ''authz'' 14, sample_label 2 ''docs'' 90], ec_body = [],
      ec_provenance = None, ec_must_not_find = [], ec_may_find = [], ec_permitted_concerns = []\<rparr>"

definition sample_result :: case_result where
  "sample_result =
     \<lparr>cr_case_id = ''c'', cr_matches =
        [\<lparr>lm_finding = sample_injection, lm_label = Some (sample_label 0 ''authz'' 14), lm_kind = ''hit'',
          lm_labels = [sample_label 0 ''authz'' 14], lm_agent_correct = True, lm_category_correct = False,
          lm_severity_sufficient = True\<rparr>],
      cr_missed = [sample_label 2 ''docs'' 90], cr_decision = ''escalate'', cr_expected_decision = Some ''escalate'',
      cr_confidence = 8 / 10, cr_cost_usd = 1 / 100, cr_duration_ms = 900, cr_failed_agents = [], cr_error = None\<rparr>"

lemma sample_recorded: "recorded_case sample_case sample_result"
proof -
  have "recordable sample_injection"
    by (simp add: recordable_def sample_injection_def py_strip_def py_lstrip_def py_rstrip_def is_space_def code_def)
  moreover have "score_case sample_case [sample_injection] ''escalate'' (8 / 10) (1 / 100) 900 [] None = Inr sample_result"
    by (simp add: score_case_def sample_case_def sample_classify sample_result_def missed_def)
      (simp add: sample_label_def)
  ultimately show ?thesis
    by (auto simp: recorded_case_def sample_result_def intro!: exI [of _ "[sample_injection]"])
qed

lemma rescore_reproduces_witness:
  "\<exists>r'. rescore [sample_case] (JObj (report_dict (score [sample_result] ''echo'' []))) = Inr (0, [r']) \<and>
     er_overall r' = er_overall (score [sample_result] ''echo'' [])"
proof -
  have "list_all2 recorded_case [sample_case] [sample_result]" by (simp add: sample_recorded)
  moreover have "4 * length (filter (\<lambda>r. 4 \<le> length (cr_failed_agents r)) [sample_result]) \<le> length [sample_result]"
    by (simp add: sample_result_def)
  ultimately show ?thesis
    using rescore_reproduces [of "[sample_case]" "[sample_result]" "[sample_case]" "''echo''" "[]"] by auto
qed

text \<open>Evidence that spans lines is cut to its first line: a finding that covers a label by its evidence no
  longer does when it is read back.\<close>

definition spanning_finding :: finding where
  "spanning_finding =
     sample_injection\<lparr>f_evidence :=
       [\<lparr>e_kind = ''diff'', e_file_path = ''app/db.py'', e_line_start = Some 40, e_line_end = Some 60, e_excerpt = []\<rparr>]\<rparr>"

lemma rescore_loses_evidence:
  "\<exists>g. rebuild 1 (match_dict (plain_match spanning_finding None ''hit'' [])) = Inr g \<and>
     locates spanning_finding (sample_label 0 ''injection'' 55) \<and> \<not> locates g (sample_label 0 ''injection'' 55)"
proof -
  let ?f = "spanning_finding" and ?h = "spanning_finding\<lparr>f_evidence := [\<lparr>e_kind = ''diff'', e_file_path = ''app/db.py'',
    e_line_start = Some 40, e_line_end = None, e_excerpt = []\<rparr>]\<rparr>"
  have "match_dict (plain_match ?f None ''hit'' []) = match_dict (plain_match ?h None ''hit'' [])"
    by (simp add: match_dict_def plain_match_def spanning_finding_def cited_def map_filter_simps finding_ref_def Let_def)
  moreover have "recordable ?h"
    by (simp add: recordable_def spanning_finding_def sample_injection_def cites_point_def evidence_end_def py_strip_def
        py_lstrip_def py_rstrip_def is_space_def code_def)
  ultimately have "rebuild 1 (match_dict (plain_match ?f None ''hit'' [])) = Inr (reread 1 ?h)"
    using rebuild_recorded [of "plain_match ?h None ''hit'' []" 1] by (simp add: plain_match_def)
  moreover have "locates ?f (sample_label 0 ''injection'' 55)" "\<not> locates (reread 1 ?h) (sample_label 0 ''injection'' 55)"
    by (simp_all add: locates_def near_def spanning_finding_def sample_injection_def sample_label_def evidence_end_def
        reread_def cite_evidence_def map_filter_simps LINE_TOLERANCE_def)
  ultimately show ?thesis by blast
qed

lemma rescore_never_overwrites:
  "rescore_main resolve base_name cases payload source save_to = Inr (n, Some (target, v)) \<Longrightarrow>
     save_to = Some target \<and> resolve target \<noteq> resolve source \<and> n = 0"
  by (auto simp: rescore_main_def ebind_Inr split: if_splits prod.splits)

end
