(* ===== verification/Echo.thy ===== *)
theory Echo
  imports Llm Grounding
begin

section \<open>The echo provider\<close>

text \<open>
  \<^verbatim>\<open>llm/echo_provider.py\<close>: the offline stand-in for a model, which reads the rendered diff out of the
  prompt and reports what its patterns find. The JSON writer is an argument. The properties: the provider
  reads from a rendered diff exactly the added lines the renderer showed, with their numbers; and every
  finding of its answer about such a diff is kept, unmoved, by the grounding of answers.
\<close>

definition quote_char :: "char \<Rightarrow> bool" where
  "quote_char c \<longleftrightarrow> code c = 34 \<or> code c = 39"

definition SECRET :: rx where
  "SECRET = rx_seq
     [rx_alts (rx_seq [LitI ''api'', Rep (\<lambda>c. c = CHR ''_'' \<or> c = CHR ''-'') 0 (Some 1) True, LitI ''key''])
        [Seq (Chr (\<lambda>c. c = CHR ''_'' \<or> c = CHR ''-'')) (LitI ''key''), LitI ''secret'', LitI ''token'',
         LitI ''password'', LitI ''passwd''],
      rx_star is_space, Chr (\<lambda>c. c = CHR '':'' \<or> c = CHR ''=''), rx_star is_space, Chr quote_char,
      Rep (\<lambda>c. \<not> quote_char c) 12 None True, Chr quote_char]"

definition SQL_FSTRING :: rx where
  "SQL_FSTRING = rx_seq
     [rx_alts (LitI ''execute'') [LitI ''executemany'', LitI ''cursor.execute'', LitI ''query''],
      rx_star is_space, Lit ''('', rx_star is_space, LitI ''f'', Chr quote_char]"

definition BARE_EXCEPT :: rx where
  "BARE_EXCEPT = rx_seq [Lit ''except'', rx_star is_space, Lit '':'']"

definition FILE_HEADER :: rx where
  "FILE_HEADER = rx_seq [Bol, Lit ''+++ '', Grp ''1'' (rx_plus (\<lambda>c. \<not> is_space c))]"

definition RENDERED_ADD :: rx where
  "RENDERED_ADD =
     rx_seq [Bol, rx_star is_space, Grp ''1'' (rx_plus is_digit), Lit '' + '', Grp ''2'' (rx_star any_char), Eol]"

definition RAW_HUNK :: rx where
  "RAW_HUNK = rx_seq
     [Bol, Lit ''@@ -'', rx_plus is_digit, rx_opt (Seq (Lit '','') (rx_plus is_digit)), Lit '' +'',
      Grp ''1'' (rx_plus is_digit), rx_opt (Seq (Lit '','') (Grp ''2'' (rx_plus is_digit))), Lit '' @@'']"

definition removeprefix :: "string \<Rightarrow> string \<Rightarrow> string" where
  "removeprefix p s = (if startswith s p then drop (length p) s else s)"

subsection \<open>Reading the prompt\<close>

definition group_text :: "string \<Rightarrow> rx_pos \<Rightarrow> string" where
  "group_text name m = (case group_of name m of None \<Rightarrow> [] | Some s \<Rightarrow> s)"

type_synonym added_line = "string \<times> int \<times> string"

definition added_step :: "string \<times> int \<times> added_line list \<Rightarrow> string \<Rightarrow> string \<times> int \<times> added_line list" where
  "added_step st line =
     (case st of (path, raw_line, out) \<Rightarrow>
        case rx_match FILE_HEADER line of
          Some m \<Rightarrow> (removeprefix ''b/'' (group_text ''1'' m), raw_line, out)
        | None \<Rightarrow>
            (case rx_match RENDERED_ADD line of
               Some m \<Rightarrow>
                 (path, raw_line, out @ [(path, int (digits_value (group_text ''1'' m)), group_text ''2'' m)])
             | None \<Rightarrow>
                 (case rx_match RAW_HUNK line of
                    Some m \<Rightarrow> (path, int (digits_value (group_text ''1'' m)) - 1, out)
                  | None \<Rightarrow>
                      if startswith line ''+'' \<and> \<not> startswith line ''+++''
                      then (path, raw_line + 1, out @ [(path, raw_line + 1, drop 1 line)])
                      else if startswith line '' '' then (path, raw_line + 1, out)
                      else (path, raw_line, out))))"

definition added_lines :: "string \<Rightarrow> added_line list" where
  "added_lines prompt = snd (snd (foldl added_step (''unknown'', 0, []) (py_splitlines prompt)))"

subsection \<open>Findings\<close>

definition echo_finding ::
  "string \<Rightarrow> int \<Rightarrow> string \<Rightarrow> string \<Rightarrow> real \<Rightarrow> string \<Rightarrow> string \<Rightarrow> string \<Rightarrow> string \<Rightarrow> (string \<times> json) list" where
  "echo_finding path line cat sev confidence title body rationale excerpt =
     [(''file_path'', JStr path), (''line_start'', JInt line), (''line_end'', JInt line),
      (''category'', JStr cat), (''severity'', JStr sev), (''confidence'', JFloat (Fin confidence)),
      (''title'', JStr title), (''body'', JStr body), (''rationale'', JStr rationale),
      (''evidence'', JList [JObj
         [(''kind'', JStr ''diff''), (''file_path'', JStr path), (''line_start'', JInt line),
          (''line_end'', JInt line), (''excerpt'', JStr (take 200 (py_strip excerpt)))]])]"

definition report_if :: "bool \<Rightarrow> 'a \<Rightarrow> 'a list" where
  "report_if b x = (if b then [x] else [])"

definition scan_line :: "string \<Rightarrow> bool \<Rightarrow> added_line \<Rightarrow> (string \<times> json) list list" where
  "scan_line agent has_docstring added =
     (case added of (path, line_no, body) \<Rightarrow>
        report_if (agent = ''security'' \<and> rx_search SQL_FSTRING body \<noteq> None)
          (echo_finding path line_no ''injection'' ''critical'' (88 / 100) ''SQL built by string interpolation''
             (''The query is assembled with an f-string, so any caller-controlled '' @
              ''value becomes SQL. Use a parameterised query.'')
             ''Interpolated SQL on this line; no placeholder binding present.'' body) @
        report_if (agent = ''security'' \<and> rx_search SECRET body \<noteq> None)
          (echo_finding path line_no ''secrets'' ''critical'' (82 / 100)
             ''Credential literal committed to the repository''
             ''A secret is hardcoded here. Move it to configuration and rotate it.''
             ''A long string literal is assigned to a secret-shaped name.'' body) @
        report_if (agent = ''correctness'' \<and> rx_search BARE_EXCEPT body \<noteq> None)
          (echo_finding path line_no ''error_handling'' ''major'' (71 / 100)
             ''Bare except swallows control-flow exceptions''
             (''`except:` also catches KeyboardInterrupt and SystemExit. Catch '' @
              ''`Exception`, or the specific error.'')
             ''Bare `except:` with no exception class on this line.'' body) @
        report_if (agent = ''correctness'' \<and> rx_search SQL_FSTRING body \<noteq> None)
          (echo_finding path line_no ''injection'' ''major'' (64 / 100)
             ''Unvalidated identifier reaches the query''
             ''`customer_id` is interpolated without a type check or binding.''
             ''The value flows from the parameter straight into the SQL string.'' body) @
        report_if (agent = ''tests'' \<and> startswith (py_strip body) ''def '' \<and> \<not> py_contains ''test'' path)
          (echo_finding path line_no ''test_coverage'' ''minor'' (55 / 100)
             ''New function arrives without a test'' ''No test file in this diff covers the new function.''
             ''Function defined here; no matching test path in the changed set.'' body) @
        report_if (agent = ''docs'' \<and> (startswith (py_strip body) ''def '' \<or> startswith (py_strip body) ''class '') \<and>
              \<not> has_docstring)
          (echo_finding path line_no ''documentation'' ''info'' (45 / 100)
             ''Public definition has no docstring'' ''Add a one-line docstring describing the contract.''
             ''Definition on this line, no docstring in the added block.'' body))"

definition DOCSTRING_MARK :: string where
  "DOCSTRING_MARK = replicate 3 CHR 0x22"

definition scan :: "string \<Rightarrow> string \<Rightarrow> (string \<times> json) list list" where
  "scan prompt agent =
     take 8 (concat (map (scan_line agent (py_contains DOCSTRING_MARK prompt)) (added_lines prompt)))"

definition echo_payload :: "string \<Rightarrow> string \<Rightarrow> json" where
  "echo_payload prompt agent =
     (let findings = scan prompt agent in JObj
        [(''summary'', JStr (if findings \<noteq> []
            then ''[echo:'' @ agent @ ''] '' @ py_str_nat (length findings) @ '' finding(s) from static patterns.''
            else ''[echo:'' @ agent @ ''] nothing matched.'')),
         (''findings'', JList (map JObj findings))])"

text \<open>\<open>dumps\<close> is \<^verbatim>\<open>json.dumps\<close>, \<open>repr_of\<close> Python's text for floats and containers.\<close>

definition echo_complete :: "(json \<Rightarrow> string) \<Rightarrow> (json \<Rightarrow> string) \<Rightarrow> llm_request \<Rightarrow> llm_response" where
  "echo_complete dumps repr_of rq =
     (let agent = py_str repr_of (jget_or ''agent'' (JStr ''correctness'') (rq_metadata rq));
          answer = dumps (echo_payload (rq_user rq) agent)
      in \<lparr>rs_text = answer, rs_model = rq_model rq, rs_input_tokens = int (length (rq_user rq)) div 4,
          rs_output_tokens = int (length answer) div 4, rs_cached_read_tokens = 0, rs_cache_write_tokens = 0,
          rs_duration_ms = 1, rs_stop_reason = Some ''end_turn''\<rparr>)"

subsection \<open>One line of a rendered diff\<close>

lemma match_Bol: "rx_match (Seq Bol r) s = (case mt r (None, s, []) of [] \<Rightarrow> None | st # _ \<Rightarrow> Some st)"
  by (simp add: rx_match_def rx_match_at_def)

lemma no_file_header: "\<not> startswith s ''+++ '' \<Longrightarrow> rx_match FILE_HEADER s = None"
  by (simp add: FILE_HEADER_def match_Bol)

lemma file_header_match:
  assumes "list_all (\<lambda>c. \<not> is_space c) p" and "p \<noteq> []" and "t = [] \<or> is_space (hd t)"
  shows "\<exists>m. rx_match FILE_HEADER (''+++ '' @ p @ t) = Some m \<and> group_text ''1'' m = p"
proof -
  have "takeWhile (\<lambda>c. \<not> is_space c) (p @ t) = p"
    using assms by (intro takeWhile_run) auto
  then have "mt (Grp ''1'' (rx_plus (\<lambda>c. \<not> is_space c))) (pv, p @ t, []) =
      (last_of pv p, t, [(''1'', p)]) # tl (mt (Grp ''1'' (rx_plus (\<lambda>c. \<not> is_space c))) (pv, p @ t, []))" for pv
    using assms(2) by (cases p rule: rev_cases)
      (simp_all add: rep_counts_def Let_def advance_def last_of_def nth_append)
  then have "mt (Seq (Lit ''+++ '') (Grp ''1'' (rx_plus (\<lambda>c. \<not> is_space c)))) (None, ''+++ '' @ p @ t, []) =
      (last_of (last_of None ''+++ '') p, t, [(''1'', p)]) #
        tl (mt (Grp ''1'' (rx_plus (\<lambda>c. \<not> is_space c))) (last_of None ''+++ '', p @ t, []))"
    unfolding mt_Seq_Lit .
  then show ?thesis
    unfolding FILE_HEADER_def rx_seq.simps match_Bol by (simp add: group_text_def group_of_def del: mt.simps)
qed

definition rendered_tail :: rx where
  "rendered_tail = Seq (Grp ''1'' (rx_plus is_digit)) (Seq (Lit '' + '') (Seq (Grp ''2'' (rx_star any_char)) Eol))"

lemma stops_rendered: "stops is_space rendered_tail" "stops is_digit (Seq (Lit '' + '') r)"
proof -
  have "\<not> (is_space c \<and> is_digit c)" for c by (simp add: is_space_def is_digit_def)
  then show "stops is_space rendered_tail"
    by (auto simp: stops_def rendered_tail_def rep_counts_def)
  show "stops is_digit (Seq (Lit '' + '') r)"
    by (rule stops_Lit) (simp_all add: is_digit_def code_def)
qed

lemma rendered_match_tail:
  assumes "list_all is_space sp" and "t = [] \<or> \<not> is_space (hd t)"
  shows "rx_match RENDERED_ADD (sp @ t) = (case mt rendered_tail (last_of None sp, t, []) of [] \<Rightarrow> None | st # _ \<Rightarrow> Some st)"
proof -
  have "mt (Seq (rx_star is_space) rendered_tail) (None, sp @ t, []) = mt rendered_tail (last_of None sp, t, [])"
    using stops_rendered(1) assms by (intro mt_commit) simp_all
  then show ?thesis
    unfolding RENDERED_ADD_def rx_seq.simps match_Bol rendered_tail_def [symmetric] by simp
qed

lemma rendered_other:
  assumes "list_all is_space sp" and "t = [] \<or> \<not> is_space (hd t) \<and> \<not> is_digit (hd t)"
  shows "rx_match RENDERED_ADD (sp @ t) = None"
proof -
  have "mt rendered_tail (pv, t, []) = []" for pv
    using assms(2) by (cases t) (auto simp: rendered_tail_def rep_counts_def)
  with assms show ?thesis by (subst rendered_match_tail) auto
qed

lemma mt_digits:
  assumes "list_all is_digit ds" and "ds \<noteq> []" and "t \<noteq> []" and "\<not> is_digit (hd t)"
  shows "mt rendered_tail (pv, ds @ t, []) =
    mt (Seq (Lit '' + '') (Seq (Grp ''2'' (rx_star any_char)) Eol)) (last_of pv ds, t, [(''1'', ds)])"
  unfolding rendered_tail_def using assms stops_rendered(2)
  by (intro mt_commit_group) (simp_all add: Suc_le_eq)

lemma digits_not_space: "list_all is_digit ds \<Longrightarrow> ds \<noteq> [] \<Longrightarrow> \<not> is_space (hd (ds @ t))"
  by (cases ds) (auto simp: is_digit_def is_space_def)

lemma rendered_added:
  assumes "list_all is_space sp" and "list_all is_digit ds" and "ds \<noteq> []" and "list_all any_char text"
  shows "\<exists>m. rx_match RENDERED_ADD (sp @ ds @ '' + '' @ text) = Some m \<and> group_text ''1'' m = ds \<and>
    group_text ''2'' m = text"
proof -
  have "\<not> is_digit CHR '' ''" by (simp add: is_digit_def code_def)
  then have "mt rendered_tail (pv, ds @ '' + '' @ text, []) =
      mt (Seq (Lit '' + '') (Seq (Grp ''2'' (rx_star any_char)) Eol)) (last_of pv ds, '' + '' @ text, [(''1'', ds)])" for pv
    using assms(2,3) by (intro mt_digits) simp_all
  moreover have "mt (Seq (Grp ''2'' (rx_star any_char)) Eol) (pv, text, g) = [(last_of pv text, [], (''2'', text) # g)]" for pv g
    using mt_commit_group [OF stops_any_Eol assms(4), of "[]" 0 "''2''" pv g] by (simp del: mt.simps) simp
  ultimately obtain pv' where m: "mt rendered_tail (last_of None sp, ds @ '' + '' @ text, []) =
      [(pv', [], [(''2'', text), (''1'', ds)])]"
    by (simp only: mt_Seq_Lit)
  have "rx_match RENDERED_ADD (sp @ ds @ '' + '' @ text) = Some (pv', [], [(''2'', text), (''1'', ds)])"
    using rendered_match_tail [OF assms(1) disjI2 [OF digits_not_space [OF assms(2,3)]]] by (simp only: m list.case)
  then show ?thesis by (auto simp: group_text_def group_of_def)
qed

lemma rendered_context:
  assumes "list_all is_space sp" and "list_all is_digit ds" and "ds \<noteq> []"
  shows "rx_match RENDERED_ADD (sp @ ds @ ''   '' @ text) = None"
proof -
  have "\<not> is_digit CHR '' ''" by (simp add: is_digit_def code_def)
  then have "mt rendered_tail (pv, ds @ ''   '' @ text, []) =
      mt (Seq (Lit '' + '') (Seq (Grp ''2'' (rx_star any_char)) Eol)) (last_of pv ds, ''   '' @ text, [(''1'', ds)])" for pv
    using assms(2,3) by (intro mt_digits) simp_all
  then have "mt rendered_tail (pv, ds @ ''   '' @ text, []) = []" for pv by simp
  with assms digits_not_space [OF assms(2,3)] show ?thesis
    by (subst rendered_match_tail) (auto simp del: mt.simps hd_append)
qed

subsection \<open>Reading a rendered file\<close>

text \<open>The step leaves the file and the findings as they are on a line that is neither the header of a file
  nor an added line.\<close>

definition quiet_line :: "string \<Rightarrow> bool" where
  "quiet_line l \<longleftrightarrow> \<not> startswith l ''+'' \<and> rx_match RENDERED_ADD l = None"

lemma quiet_step:
  "quiet_line l \<Longrightarrow> \<exists>raw'. added_step (path, raw, out) l = (path, raw', out)"
  by (cases l) (auto simp: quiet_line_def added_step_def no_file_header split: option.splits)

lemma nat_digits: "0 \<le> n \<Longrightarrow> py_str_int n = py_str_nat (nat n)"
  by (simp add: py_str_int_def)

lemma spaces: "list_all is_space (replicate k CHR '' '')"
  by (induction k) (simp_all add: is_space_def code_def)

lemma padded_head: "\<exists>c cs. replicate k CHR '' '' @ py_str_nat n = c # cs \<and> (c = CHR '' '' \<or> is_digit c)"
  using py_str_nat_digits [of n] py_str_nat_nonempty [of n] by (cases k; cases "py_str_nat n") simp_all

lemma added_row_step:
  assumes "0 \<le> n" and "list_all any_char text"
  shows "added_step (path, raw, out) (added_row n text) = (path, raw, out @ [(path, n, text)])"
proof -
  let ?sp = "replicate (6 - length (py_str_nat (nat n))) CHR '' ''" and ?ds = "py_str_nat (nat n)"
  have row: "added_row n text = ?sp @ ?ds @ '' + '' @ text"
    using assms(1) by (simp add: added_row_def rjust_def nat_digits)
  obtain c cs where c: "?sp @ ?ds = c # cs" "c = CHR '' '' \<or> is_digit c"
    using padded_head by blast
  then have "c \<noteq> CHR ''+''" by (auto simp: is_digit_def code_def)
  then have "\<not> startswith (added_row n text) ''+++ ''"
    using row c(1) by (metis append.assoc append_Cons Cons_prefix_Cons)
  then have h: "rx_match FILE_HEADER (added_row n text) = None" by (rule no_file_header)
  obtain m where "rx_match RENDERED_ADD (added_row n text) = Some m" "group_text ''1'' m = ?ds" "group_text ''2'' m = text"
    using rendered_added [OF spaces py_str_nat_digits py_str_nat_nonempty assms(2)] unfolding row by blast
  with h assms(1) show ?thesis by (simp add: added_step_def)
qed

lemma quiet_rows:
  "0 \<le> n \<Longrightarrow> quiet_line (context_row n text)" "quiet_line (''       - '' @ text)" "quiet_line []"
  "quiet_line (hunk_line h)" "quiet_line (CHR ''['' # text)"
proof -
  assume n: "0 \<le> n"
  let ?sp = "replicate (6 - length (py_str_nat (nat n))) CHR '' ''" and ?ds = "py_str_nat (nat n)"
  have row: "context_row n text = ?sp @ ?ds @ ''   '' @ text"
    using n by (simp add: context_row_def rjust_def nat_digits)
  obtain c cs where c: "?sp @ ?ds = c # cs" "c = CHR '' '' \<or> is_digit c"
    using padded_head by blast
  then have "c \<noteq> CHR ''+''" by (auto simp: is_digit_def code_def)
  then have "\<not> startswith (context_row n text) ''+''"
    using row c(1) by (metis append.assoc append_Cons Cons_prefix_Cons)
  then show "quiet_line (context_row n text)"
    using rendered_context [OF spaces py_str_nat_digits] row by (simp add: quiet_line_def)
next
  have "rx_match RENDERED_ADD (replicate 7 CHR '' '' @ ''- '' @ text) = None"
    by (rule rendered_other [OF spaces]) (simp add: is_space_def is_digit_def code_def)
  then show "quiet_line (''       - '' @ text)"
    by (simp add: quiet_line_def numeral_eq_Suc)
next
  show "quiet_line []" using rendered_other [of "[]" "[]"] by (simp add: quiet_line_def)
next
  have "rx_match RENDERED_ADD (c # t) = None" if "\<not> is_space c" "\<not> is_digit c" for c t
    using rendered_other [of "[]" "c # t"] that by simp
  then show "quiet_line (hunk_line h)" "quiet_line (CHR ''['' # text)"
    by (simp_all add: quiet_line_def hunk_line_def is_space_def is_digit_def code_def)
qed

text \<open>The added lines of a hunk body with their numbers, as \<^const>\<open>new_numbers\<close> counts them.\<close>

definition body_additions :: "int \<Rightarrow> string list \<Rightarrow> (int \<times> string) list" where
  "body_additions n body = map (\<lambda>(n, l). (n, drop 1 l)) (filter (\<lambda>(_, l). startswith l ''+'') (new_numbers n body))"

lemma render_lines_read:
  assumes "0 \<le> n" and "list_all (list_all any_char) body"
  shows "\<exists>raw'. foldl added_step (path, raw, out) (render_lines n body) =
    (path, raw', out @ map (\<lambda>(n, t). (path, n, t)) (body_additions (n + 1) body))"
  using assms
proof (induction n body arbitrary: raw out rule: render_lines.induct)
  case (2 n l ls)
  have l: "list_all any_char (drop 1 l)"
    using "2.prems"(2) by (simp add: list_all_iff) (meson in_set_dropD)
  consider (plus) "startswith l ''+''" | (minus) "\<not> startswith l ''+''" "startswith l ''-''"
    | (slash) "\<not> startswith l ''+''" "\<not> startswith l ''-''" "startswith l [CHR 0x5C]"
    | (ctx) "\<not> startswith l ''+''" "\<not> startswith l ''-''" "\<not> startswith l [CHR 0x5C]"
    by blast
  then show ?case
  proof cases
    case plus
    have "\<not> deleted_line l" using plus by (rule plus_not_deleted)
    with plus 2(1) [OF plus, of raw "out @ [(path, n + 1, drop 1 l)]"] "2.prems" l show ?thesis
      by (simp add: added_row_step body_additions_def)
  next
    case minus
    then have d: "deleted_line l" by (simp add: deleted_line_def)
    obtain raw1 where "added_step (path, raw, out) (''       - '' @ drop 1 l) = (path, raw1, out)"
      using quiet_step [OF quiet_rows(2)] by blast
    with minus d 2 show ?thesis by (simp add: body_additions_def)
  next
    case slash
    then have d: "deleted_line l" by (simp add: deleted_line_def)
    with slash 2 show ?thesis by (simp add: body_additions_def)
  next
    case ctx
    then have d: "\<not> deleted_line l" by (simp add: deleted_line_def)
    obtain raw1 where "added_step (path, raw, out) (context_row (n + 1) (if startswith l '' '' then drop 1 l else l)) = (path, raw1, out)"
      using quiet_step [OF quiet_rows(1)] 2 by (metis add_nonneg_nonneg zero_le_one)
    with ctx d 2 show ?thesis by (simp add: body_additions_def)
  qed
qed (simp add: body_additions_def)

subsection \<open>Reading a rendered diff\<close>

text \<open>A file as GitHub describes it: a path without white space that does not begin with \<^verbatim>\<open>b/\<close>, a status
  and hunk headers on one line, hunks that begin at or after line 0.\<close>

definition plain_file :: "diff_file \<Rightarrow> bool" where
  "plain_file f \<longleftrightarrow>
     df_path f \<noteq> [] \<and> list_all (\<lambda>c. \<not> is_space c) (df_path f) \<and> \<not> startswith (df_path f) ''b/'' \<and>
     line_free (df_status f) \<and> list_all (\<lambda>h. 0 < h_new_start h \<and> line_free (h_header h)) (df_hunks f)"

definition hunk_body :: "hunk \<Rightarrow> string list" where
  "hunk_body h = drop 1 (py_splitlines (h_text h))"

definition hunk_additions :: "string \<Rightarrow> hunk \<Rightarrow> added_line list" where
  "hunk_additions path h = map (\<lambda>(n, t). (path, n, t)) (body_additions (h_new_start h) (hunk_body h))"

definition file_additions :: "diff_file \<Rightarrow> added_line list" where
  "file_additions f = (if df_binary f then [] else concat (map (hunk_additions (df_path f)) (df_hunks f)))"

lemma line_free_any: "line_free l \<Longrightarrow> list_all any_char l"
  by (auto simp: line_free_def any_char_def list_all_iff newline_code)

lemma hunk_body_free: "list_all line_free (hunk_body h)"
  using splitlines_line_free by (auto simp: list_all_iff hunk_body_def dest: in_set_dropD)

lemma render_hunk_read:
  assumes "0 < h_new_start h"
  shows "\<exists>raw'. foldl added_step (path, raw, out) (render_hunk h) = (path, raw', out @ hunk_additions path h)"
proof -
  obtain raw1 where "added_step (path, raw, out) (hunk_line h) = (path, raw1, out)"
    using quiet_step [OF quiet_rows(4)] by blast
  moreover have "list_all (list_all any_char) (hunk_body h)"
    using hunk_body_free [of h] by (auto simp: list_all_iff dest!: line_free_any)
  then obtain raw2 where "foldl added_step (path, raw1, out) (render_lines (h_new_start h - 1) (hunk_body h)) =
      (path, raw2, out @ hunk_additions path h)"
    using render_lines_read [of "h_new_start h - 1" "hunk_body h" path raw1 out] assms
    by (auto simp: hunk_additions_def)
  ultimately show ?thesis by (simp add: render_hunk_def hunk_body_def)
qed

lemma render_hunks_read:
  "list_all (\<lambda>h. 0 < h_new_start h) hs \<Longrightarrow>
     \<exists>raw'. foldl added_step (path, raw, out) (concat (map render_hunk hs)) =
       (path, raw', out @ concat (map (hunk_additions path) hs))"
proof (induction hs arbitrary: raw out)
  case (Cons h hs)
  obtain raw1 where "foldl added_step (path, raw, out) (render_hunk h) = (path, raw1, out @ hunk_additions path h)"
    using render_hunk_read Cons.prems by (metis list.pred_inject(2))
  with Cons.IH [of raw1 "out @ hunk_additions path h"] Cons.prems show ?case by simp
qed simp

lemma header_step:
  assumes "plain_file f" and "t = [] \<or> is_space (hd t)"
  shows "added_step (path, raw, out) (''+++ '' @ df_path f @ t) = (df_path f, raw, out)"
proof -
  obtain m where "rx_match FILE_HEADER (''+++ '' @ df_path f @ t) = Some m" "group_text ''1'' m = df_path f"
    using file_header_match [OF _ _ assms(2), of "df_path f"] assms(1) by (auto simp: plain_file_def)
  with assms(1) show ?thesis by (simp add: added_step_def removeprefix_def plain_file_def)
qed

text \<open>The lines of one part of the rendering.\<close>

definition file_rows :: "diff_file \<Rightarrow> string list" where
  "file_rows f =
     (if df_binary f then [''+++ '' @ df_path f, ''[binary file, '' @ py_str_int (df_additions f) @ '' additions]'']
      else (''+++ '' @ df_path f @ ''  ('' @ df_status f @ '', +'' @ py_str_int (df_additions f) @ ''/-'' @
              py_str_int (df_deletions f) @ '')'') # concat (map render_hunk (df_hunks f)))"

lemma file_rows_read:
  assumes "plain_file f"
  shows "\<exists>path' raw'. foldl added_step (path, raw, out) (file_rows f) = (path', raw', out @ file_additions f)"
proof (cases "df_binary f")
  case True
  obtain raw1 where "added_step (df_path f, raw, out) (CHR ''['' # ''binary file, '' @ py_str_int (df_additions f) @ '' additions]'') =
      (df_path f, raw1, out)"
    using quiet_step [OF quiet_rows(5)] by blast
  with True header_step [OF assms, of "[]"] show ?thesis
    by (simp add: file_rows_def file_additions_def)
next
  case False
  have "is_space CHR '' ''" by (simp add: is_space_def code_def)
  moreover have "list_all (\<lambda>h. 0 < h_new_start h) (df_hunks f)"
    using assms by (simp add: plain_file_def list_all_iff)
  ultimately show ?thesis
    using False header_step [OF assms] render_hunks_read [of "df_hunks f" "df_path f" raw out]
    by (auto simp: file_rows_def file_additions_def)
qed

lemma rows_read:
  "list_all plain_file fs \<Longrightarrow>
     snd (snd (foldl added_step (path, raw, out) (concat (map (\<lambda>f. [] # file_rows f) fs)))) =
       out @ concat (map file_additions fs)"
proof (induction fs arbitrary: path raw out)
  case (Cons f fs)
  obtain raw0 where "added_step (path, raw, out) [] = (path, raw0, out)"
    using quiet_step [OF quiet_rows(3)] by blast
  moreover obtain path1 raw1 where "foldl added_step (path, raw0, out) (file_rows f) = (path1, raw1, out @ file_additions f)"
    using file_rows_read Cons.prems by (metis list.pred_inject(2))
  ultimately show ?case
    using Cons.IH [of path1 raw1 "out @ file_additions f"] Cons.prems by simp
qed simp

text \<open>The text of the rendering is those rows, with an empty line between two files.\<close>

lemma part_rows:
  "\<not> df_binary f \<Longrightarrow> render_file f = py_join NEWLINE (file_rows f)"
  "df_binary f \<Longrightarrow> ''+++ '' @ df_path f @ NEWLINE @ ''[binary file, '' @ py_str_int (df_additions f) @ '' additions]'' =
     py_join NEWLINE (file_rows f)"
  by (simp_all add: render_file_def file_rows_def)

lemma render_untruncated:
  "foldl (render_step max_bytes) (out, used, tr) fs = (out', used', False) \<Longrightarrow>
     \<not> tr \<and> out' = out @ map (\<lambda>f. py_join NEWLINE (file_rows f)) fs"
proof (induction fs arbitrary: out used tr)
  case (Cons f fs)
  obtain out1 used1 tr1 where s: "render_step max_bytes (out, used, tr) f = (out1, used1, tr1)"
    by (cases "render_step max_bytes (out, used, tr) f")
  with Cons.prems have "foldl (render_step max_bytes) (out1, used1, tr1) fs = (out', used', False)" by simp
  from Cons.IH [OF this] s show ?case
    using part_rows [of f] by (auto simp: render_step_def split: if_splits)
qed simp

lemma py_join_rows:
  "xs \<noteq> [] \<Longrightarrow> list_all (\<lambda>r. r \<noteq> []) xs \<Longrightarrow>
     py_join (s @ s) (map (py_join s) xs) = py_join s (tl (concat (map (\<lambda>r. [] # r) xs)))"
proof (induction xs rule: list_nonempty_induct)
  case (cons x xs)
  have app: "py_join s (as @ [] # bs) = py_join s as @ s @ s @ py_join s bs" if "as \<noteq> []" "bs \<noteq> []" for as bs
    using that
  proof (induction as rule: list_nonempty_induct)
    case (single a)
    then show ?case by (cases bs) simp_all
  next
    case (cons a as)
    then show ?case by (cases as) simp_all
  qed
  obtain r rs where xs: "xs = r # rs" using cons.hyps by (cases xs) auto
  with cons.prems have "x \<noteq> []" "r @ concat (map (\<lambda>r. [] # r) rs) \<noteq> []" by simp_all
  with cons xs show ?case
    using app [of x "r @ concat (map (\<lambda>r. [] # r) rs)"] by simp
qed simp

lemma empty_line_step: "added_step st [] = st"
proof -
  have "quiet_line []" by (rule quiet_rows(3))
  then have "rx_match RENDERED_ADD [] = None" by (simp add: quiet_line_def)
  moreover have "rx_match RAW_HUNK [] = None" by (simp add: RAW_HUNK_def rx_match_def rx_match_at_def)
  ultimately show ?thesis by (cases st) (simp add: added_step_def no_file_header)
qed

lemma line_free_append [simp]: "line_free (a @ b) \<longleftrightarrow> line_free a \<and> line_free b"
  by (simp add: line_free_def)

lemma line_free_Cons: "line_free (c # s) \<longleftrightarrow> \<not> is_linebreak c \<and> line_free s"
  by (simp add: line_free_def)

lemma line_free_int: "line_free (py_str_int i)"
proof -
  have "line_free (py_str_nat n)" for n
    using py_str_nat_digits [of n] by (auto simp: line_free_def list_all_iff is_digit_def is_linebreak_def)
  then show ?thesis by (simp add: py_str_int_def line_free_Cons is_linebreak_def code_def)
qed

lemma render_lines_free:
  "list_all line_free body \<Longrightarrow> list_all line_free (render_lines n body)"
proof (induction n body rule: render_lines.induct)
  case (2 n l ls)
  have "line_free (drop 1 l)"
    using "2.prems" by (auto simp: line_free_def list_all_iff dest: in_set_dropD)
  moreover have "line_free (replicate k CHR '' '')" for k
    by (simp add: line_free_def list_all_iff is_linebreak_def code_def)
  ultimately show ?case
    using 2 by (simp add: added_row_def context_row_def rjust_def line_free_int line_free_Cons is_linebreak_def code_def)
qed simp

lemma file_rows_free:
  assumes "plain_file f"
  shows "list_all line_free (file_rows f) \<and> file_rows f \<noteq> [] \<and> last (file_rows f) \<noteq> []"
proof -
  have path: "line_free (df_path f)"
    using assms by (auto simp: plain_file_def line_free_def list_all_iff is_space_def is_linebreak_def)
  have hunk: "list_all line_free (render_hunk h) \<and> (\<forall>r \<in> set (render_hunk h). r \<noteq> [])" if "h \<in> set (df_hunks f)" for h
  proof -
    have "line_free (h_header h)" using assms that by (simp add: plain_file_def list_all_iff)
    then have "line_free (hunk_line h)"
      by (simp add: hunk_line_def line_free_int line_free_Cons is_linebreak_def code_def)
    moreover have "\<forall>r \<in> set (render_lines n body). r \<noteq> []" for n body
      by (induction n body rule: render_lines.induct) (auto simp: added_row_def context_row_def)
    ultimately show ?thesis
      using render_lines_free [OF hunk_body_free]
      by (simp add: render_hunk_def hunk_body_def) (simp add: hunk_line_def)
  qed
  then have rows: "list_all line_free (concat (map render_hunk (df_hunks f)))"
    "\<forall>r \<in> set (concat (map render_hunk (df_hunks f))). r \<noteq> []"
    by (auto simp: list_all_iff)
  have "line_free (df_status f)" using assms by (simp add: plain_file_def)
  with path rows(1) have "list_all line_free (file_rows f)"
    by (simp add: file_rows_def line_free_int line_free_Cons is_linebreak_def code_def) (simp add: line_free_def)
  moreover have "\<forall>r \<in> set (file_rows f). r \<noteq> []"
    using rows(2) by (simp add: file_rows_def)
  moreover have "file_rows f \<noteq> []" by (simp add: file_rows_def)
  ultimately show ?thesis using last_in_set by blast
qed

text \<open>The provider reads what the agents were shown: from the rendering of a diff that was not cut it gets
  exactly the added lines of its files, in order, each with the path of its file, the number of the line in
  the new file and its text.\<close>

theorem echo_reads_rendered:
  assumes "list_all plain_file files" and "render_for_prompt files max_bytes = (prompt, False)"
  shows "added_lines prompt = concat (map file_additions files)"
proof (cases "files = []")
  case True
  with assms(2) show ?thesis by (auto simp: render_for_prompt_def added_lines_def py_splitlines_def)
next
  case False
  let ?rows = "concat (map (\<lambda>f. [] # file_rows f) files)"
  from assms(2) have "prompt = py_join (NEWLINE @ NEWLINE) (map (py_join NEWLINE) (map file_rows files))"
    by (auto simp: render_for_prompt_def comp_def dest!: render_untruncated split: prod.splits)
  also have "\<dots> = py_join NEWLINE (tl (concat (map (\<lambda>r. [] # r) (map file_rows files))))"
    using False assms(1) file_rows_free by (intro py_join_rows) (auto simp: list_all_iff)
  finally have prompt: "prompt = py_join NEWLINE (tl ?rows)" by (simp add: comp_def)
  have rows: "?rows = [] # tl ?rows" using False by (cases files) simp_all
  have free: "list_all line_free ?rows"
    using assms(1) file_rows_free by (auto simp: list_all_iff line_free_def)
  then have "list_all line_free (tl ?rows)" using rows by (metis list.pred_inject(2))
  moreover have "tl ?rows \<noteq> [] \<and> last (tl ?rows) \<noteq> []"
  proof -
    obtain fs f where fs: "files = fs @ [f]" using False by (cases files rule: rev_cases) auto
    with assms(1) have f: "file_rows f \<noteq> []" "last (file_rows f) \<noteq> []" using file_rows_free by simp_all
    then have "tl ?rows \<noteq> []" by (cases fs) (simp_all add: fs)
    moreover have "last ?rows = last (file_rows f)" using f by (simp add: fs)
    ultimately show ?thesis using f rows by (metis last_tl)
  qed
  ultimately have "py_splitlines prompt = tl ?rows"
    unfolding prompt NEWLINE_def by (intro splitlines_join) simp_all
  moreover have "foldl added_step st ?rows = foldl added_step st (tl ?rows)" for st
    using rows empty_line_step by (metis foldl_Cons)
  ultimately show ?thesis
    using rows_read [OF assms(1), of "''unknown''" 0 "[]"] by (simp add: added_lines_def)
qed

subsection \<open>The answers of the provider are grounded\<close>

lemma splitlines_join_blank:
  assumes "list_all line_free ls" and "ls \<noteq> []" and "last ls = []"
  shows "py_splitlines (py_join [CHR 0x0A] ls) = butlast ls"
  using assms unfolding py_splitlines_def
proof (induction "[CHR 0x0A]" ls rule: py_join.induct)
  case (3 x y zs)
  then show ?case
    using splitlines_from_run [of x "[]" "[CHR 0x0A] @ py_join [CHR 0x0A] (y # zs)"]
    by (simp add: newline_code splitlines_from_step)
qed simp_all

lemma splitlines_join_prefix:
  assumes "list_all line_free ls" and "ls \<noteq> []"
  shows "prefix (py_splitlines (py_join [CHR 0x0A] ls)) ls"
  using splitlines_join [OF assms] splitlines_join_blank [OF assms] by (metis append_butlast_last_id assms(2) prefixI prefix_order.refl)

lemma new_numbers_prefix: "prefix xs ys \<Longrightarrow> set (new_numbers n xs) \<subseteq> set (new_numbers n ys)"
proof (induction xs arbitrary: n ys)
  case (Cons x xs)
  then obtain zs where "ys = x # zs" "prefix xs zs" by (cases ys) auto
  with Cons.IH show ?case by fastforce
qed simp

lemma body_additions_added:
  assumes "h \<in> set (parse_patch patch)" and "(n, t) \<in> set (body_additions (h_new_start h) (hunk_body h))"
  shows "n \<in> set (h_added_lines h)"
proof -
  from assms(1) obtain h0 l body where seg: "(h0, l, body) \<in> set (segments (py_splitlines patch))"
    and h: "h = hunk_of_segment (h0, l, body)"
    unfolding parse_patch_segments by auto
  have "list_all line_free (l # body)"
    using segments_header [OF seg] splitlines_line_free by (auto simp: list_all_iff)
  then have "prefix (py_splitlines (h_text h)) (l # body)"
    using splitlines_join_prefix [of "l # body"] by (simp add: h NEWLINE_def)
  then have "prefix (hunk_body h) body"
    by (cases "py_splitlines (h_text h)") (auto simp: hunk_body_def)
  moreover from assms(2) obtain x where x: "(n, x) \<in> set (new_numbers (h_new_start h) (hunk_body h))" "startswith x ''+''"
    by (auto simp: body_additions_def)
  ultimately have "(n, x) \<in> set (new_numbers (h_new_start h) body)"
    using new_numbers_prefix by blast
  with x(2) have "n \<in> set (added_numbers (h_new_start h) body)"
    by (force simp: added_numbers_def)
  then show ?thesis by (simp add: h)
qed

lemma file_additions_addressable:
  assumes "df_hunks f = parse_patch (df_patch f)" and "(path, n, t) \<in> set (file_additions f)"
  shows "path = df_path f \<and> n \<in> addressable_lines f"
proof -
  from assms(2) obtain h where h: "h \<in> set (df_hunks f)" "path = df_path f"
    "(n, t) \<in> set (body_additions (h_new_start h) (hunk_body h))"
    by (auto simp: file_additions_def hunk_additions_def split: if_splits)
  then have "n \<in> set (h_added_lines h)"
    using body_additions_added assms(1) by simp
  with h show ?thesis by (auto simp: addressable_lines_def)
qed

definition sound_echo :: "string \<Rightarrow> (string \<times> json) list \<Rightarrow> bool" where
  "sound_echo prompt raw \<longleftrightarrow>
     (\<exists>path n t cat sev conf title body rationale. (path, n, t) \<in> set (added_lines prompt) \<and>
        raw = echo_finding path n cat sev conf title body rationale t \<and>
        py_strip (take 200 title) \<noteq> [] \<and> py_strip (take 4000 rationale) \<noteq> [])"

lemma not_blank: "c \<in> set s \<Longrightarrow> \<not> is_space c \<Longrightarrow> py_strip s \<noteq> []"
  by (auto simp: py_strip_space_free_iff list_all_iff)

lemma scan_line_sound:
  assumes "(path, n, t) \<in> set (added_lines prompt)" and "raw \<in> set (scan_line agent d (path, n, t))"
  shows "sound_echo prompt raw"
proof -
  have "py_strip (take 200 (c # s)) \<noteq> []" "py_strip (take 4000 (c # s)) \<noteq> []" if "\<not> is_space c" for c s
    using that not_blank [of c "take 200 (c # s)"] not_blank [of c "take 4000 (c # s)"] by simp_all
  then have ok: "sound_echo prompt (echo_finding path n cat sev conf (c # title) body (k # rationale) t)"
    if "\<not> is_space c" "\<not> is_space k" for cat sev conf c title body k rationale
    using assms(1) that unfolding sound_echo_def by blast
  show ?thesis
    using assms(2) by (auto simp: scan_line_def report_if_def is_space_def code_def intro!: ok split: if_splits)
qed

lemma scan_sound: "raw \<in> set (scan prompt agent) \<Longrightarrow> sound_echo prompt raw"
  by (auto simp: scan_def dest!: in_set_takeD intro: scan_line_sound)

lemma find_by_key: "x \<in> set xs \<Longrightarrow> distinct (map g xs) \<Longrightarrow> List.find (\<lambda>y. g y = g x) xs = Some x"
  by (induction xs) auto

text \<open>The answer of the provider about a diff it was shown in full survives the grounding: every finding it
  reports for such a pull request is kept and stays on the added line it names.\<close>

theorem echo_findings_kept:
  assumes "list_all plain_file (pr_files pr)" and "render_for_prompt (pr_files pr) max_bytes = (prompt, False)"
    and "distinct (map df_path (pr_files pr))"
    and "list_all (\<lambda>f. hd (df_path f) \<notin> set ''./'' \<and> df_hunks f = parse_patch (df_patch f)) (pr_files pr)"
    and "raw \<in> set (scan prompt agent_name)"
  shows "\<exists>g path n t. ground repr_of int_field order agent pr new_id raw = Inr (Some (g, False)) \<and>
    (path, n, t) \<in> set (concat (map file_additions (pr_files pr))) \<and> f_file_path g = path \<and> f_line_start g = n"
proof -
  note read = echo_reads_rendered [OF assms(1,2)]
  from scan_sound [OF assms(5)] obtain path n t cat sev conf title body rationale where
    a: "(path, n, t) \<in> set (concat (map file_additions (pr_files pr)))"
    and raw: "raw = echo_finding path n cat sev conf title body rationale t"
    and blank: "py_strip (take 200 title) \<noteq> []" "py_strip (take 4000 rationale) \<noteq> []"
    unfolding sound_echo_def read by blast
  then obtain f where f: "f \<in> set (pr_files pr)" "(path, n, t) \<in> set (file_additions f)" by auto
  with assms(4) have path: "path = df_path f" and n: "n \<in> addressable_lines f"
    using file_additions_addressable [of f path n t] by (auto simp: list_all_iff)
  have "df_path f \<noteq> []" "hd (df_path f) \<notin> set ''./''"
    using f(1) assms(1,4) by (auto simp: list_all_iff plain_file_def)
  then have strip: "py_lstrip_chars ''./'' (df_path f) = df_path f"
    unfolding py_lstrip_chars_def by (intro dropWhile_idem_hd) simp
  have "pr_file pr (df_path f) = Some f"
    using find_by_key [OF f(1) assms(3)] by (simp add: pr_file_def)
  then have "\<exists>g. ground repr_of int_field order agent pr new_id raw = Inr (Some (g, False)) \<and>
      f_file_path g = df_path f \<and> f_line_start g = n"
    using n blank
    by (intro ground_complete [where start = n and end_line = n and conf = "Fin conf"])
      (auto simp: raw echo_finding_def raw_path_def jget_or_def jget_def path strip raw_numbers_def
        evidence_of_def or_empty_def json_iter_def)
  with a path show ?thesis by blast
qed

definition echo_patch :: string where
  "echo_patch = py_join NEWLINE [''@@ -1,2 +7,2 @@ def f'', '' try:'', ''-b'', ''+except:'']"

definition echo_pr :: pull_request where
  "echo_pr = sample_pr\<lparr>pr_files :=
     [\<lparr>df_path = ''a.py'', df_previous_path = None, df_status = ''modified'', df_additions = 1, df_deletions = 1,
       df_hunks = parse_patch echo_patch, df_patch = echo_patch, df_binary = False\<rparr>]\<rparr>"

definition echo_prompt :: string where
  "echo_prompt = fst (render_for_prompt (pr_files echo_pr) 200)"

definition echo_sample :: "(string \<times> json) list" where
  "echo_sample = echo_finding ''a.py'' 8 ''error_handling'' ''major'' (71 / 100)
     ''Bare except swallows control-flow exceptions''
     (''`except:` also catches KeyboardInterrupt and SystemExit. Catch '' @ ''`Exception`, or the specific error.'')
     ''Bare `except:` with no exception class on this line.'' ''except:''"

lemma echo_files: "pr_files echo_pr =
    [\<lparr>df_path = ''a.py'', df_previous_path = None, df_status = ''modified'', df_additions = 1, df_deletions = 1,
      df_hunks = parse_patch echo_patch, df_patch = echo_patch, df_binary = False\<rparr>]"
  by (simp add: echo_pr_def)

lemma echo_render: "render_for_prompt (pr_files echo_pr) 200 = (echo_prompt, False)"
proof -
  have "snd (render_for_prompt (pr_files echo_pr) 200) = False"
    unfolding echo_files echo_patch_def by code_simp
  then show ?thesis by (simp add: echo_prompt_def prod_eq_iff)
qed

lemma echo_plain: "list_all plain_file (pr_files echo_pr)"
  unfolding echo_files echo_patch_def by code_simp

lemma echo_added: "added_lines echo_prompt = [(''a.py'', 8, ''except:'')]"
  unfolding echo_prompt_def echo_files echo_patch_def by code_simp

lemma echo_scan: "echo_sample \<in> set (scan echo_prompt ''correctness'')"
proof -
  have "rx_search BARE_EXCEPT ''except:'' \<noteq> None" "rx_search SQL_FSTRING ''except:'' = None" by code_simp+
  then show ?thesis
    unfolding scan_def echo_added by (simp add: scan_line_def report_if_def echo_sample_def)
qed

lemma echo_findings_kept_witness:
  "\<exists>g. ground (\<lambda>_. []) (\<lambda>_. None) (\<lambda>_. []) CORRECTNESS echo_pr 1 echo_sample = Inr (Some (g, False))"
proof -
  have "list_all (\<lambda>f. hd (df_path f) \<notin> set ''./'' \<and> df_hunks f = parse_patch (df_patch f)) (pr_files echo_pr)"
    "distinct (map df_path (pr_files echo_pr))"
    by (simp_all add: echo_files)
  with echo_findings_kept [OF echo_plain echo_render _ _ echo_scan, where repr_of = "\<lambda>_. []" and int_field = "\<lambda>_. None"
      and order = "\<lambda>_. []" and agent = CORRECTNESS and new_id = 1]
  show ?thesis by blast
qed

lemma echo_reads_rendered_witness: "added_lines echo_prompt = concat (map file_additions (pr_files echo_pr))"
  by (rule echo_reads_rendered [OF echo_plain echo_render])

end
