(* ===== verification/BuildFixtures.thy ===== *)
theory BuildFixtures
  imports Matching
begin

section \<open>Building the golden set\<close>

text \<open>
  \<^verbatim>\<open>scripts/build_eval_fixtures.py\<close>: the sources of the cases with their marker comments, the labels
  read off them and the fixture written. \<^verbatim>\<open>difflib\<close> and the file system are arguments. The properties: a
  built fixture is read back by the loader, and its labels cannot fail or match by accident: each lies on a
  line its diff shows, names only categories that exist and an expected one a severity that exists.
\<close>

subsection \<open>Markers\<close>

definition MARKER :: rx where
  "MARKER = rx_seq
     [Bol, rx_star is_space, Alt (Lit ''#!'') (Lit ''//!''), rx_star is_space,
      Grp ''1'' (rx_alts (Lit ''EXPECT'') [Lit ''CLEAN'', Lit ''ALLOW'']), WordB,
      Grp ''attrs'' (Rep (\<lambda>c. c \<noteq> CHR '':'') 0 None False),
      rx_opt (rx_seq [rx_star is_space, Lit ''::'', rx_star is_space, Grp ''note'' (rx_star any_char)]), Eol]"

type_synonym marker = "(string \<times> json) list"

text \<open>\<^verbatim>\<open>d[k] = v\<close> on a dictionary in insertion order.\<close>

fun dict_put :: "string \<Rightarrow> json \<Rightarrow> marker \<Rightarrow> marker" where
  "dict_put k v [] = [(k, v)]"
| "dict_put k v ((k', v') # d) = (if k = k' then (k, v) # d else (k', v') # dict_put k v d)"

text \<open>\<^verbatim>\<open>s.partition(sep)\<close> for a separator that occurs: what is before and after its first occurrence.\<close>

fun partition_at :: "string \<Rightarrow> string \<Rightarrow> string \<times> string" where
  "partition_at sep [] = ([], [])"
| "partition_at sep (c # cs) =
     (if startswith (c # cs) sep then ([], drop (length sep) (c # cs))
      else (case partition_at sep cs of (a, b) \<Rightarrow> (c # a, b)))"

definition put_token :: "marker \<Rightarrow> string \<Rightarrow> marker" where
  "put_token d token =
     (if py_contains ''>='' token
      then (case partition_at ''>='' token of (key, v) \<Rightarrow> dict_put (''min_'' @ key) (JStr v) d)
      else if py_contains ''='' token
      then (case partition_at ''='' token of (key, v) \<Rightarrow> dict_put key (JStr v) d)
      else d)"

definition json_text :: "json \<Rightarrow> string" where
  "json_text v = (case v of JStr s \<Rightarrow> s | _ \<Rightarrow> [])"

definition check_category :: "marker \<Rightarrow> exc + unit" where
  "check_category d =
     (case jget ''category'' d of
        None \<Rightarrow> Inr ()
      | Some v \<Rightarrow>
          if list_all (\<lambda>name. category_of_str name \<noteq> None) (py_split CHR ''|'' (json_text v)) then Inr ()
          else Inl (ValueError ''unknown category in marker''))"

definition check_expect :: "marker \<Rightarrow> exc + marker" where
  "check_expect d =
     (if jget ''agent'' d = None then Inl (ValueError ''EXPECT marker needs agent='')
      else
        (let d' = (if jget ''min_severity'' d = None then dict_put ''min_severity'' (JStr ''info'') d else d)
         in if jget ''min_severity'' d' \<in> (\<lambda>s. Some (JStr s)) ` set SEVERITY_NAMES then Inr d'
            else Inl (ValueError ''unknown severity'')))"

definition marker_fields :: "string \<Rightarrow> string \<Rightarrow> string \<Rightarrow> marker" where
  "marker_fields kind attrs note' =
     foldl put_token [(''kind'', JStr kind), (''note'', JStr (py_strip note'))] (py_split_ws (py_strip attrs))"

definition parse_marker :: "rx_pos \<Rightarrow> exc + marker" where
  "parse_marker m =
     (let group = (\<lambda>name. case group_of name m of None \<Rightarrow> [] | Some s \<Rightarrow> s);
          d = marker_fields (group ''1'') (group ''attrs'') (group ''note'')
      in ebind (check_category d) (\<lambda>_. if group ''1'' = ''EXPECT'' then check_expect d else Inr d))"

text \<open>The loop of \<^verbatim>\<open>strip_markers\<close>: the lines that stay, the labels and the markers still waiting for
  their line.\<close>

fun strip_loop ::
  "string list \<Rightarrow> marker list \<Rightarrow> marker list \<Rightarrow> string list \<Rightarrow> exc + string list \<times> marker list" where
  "strip_loop out labels pending [] =
     (if pending \<noteq> [] then Inl (ValueError ''marker with no following line'') else Inr (out, labels))"
| "strip_loop out labels pending (raw # rest) =
     (case rx_match MARKER raw of
        Some m \<Rightarrow> ebind (parse_marker m) (\<lambda>d. strip_loop out labels (pending @ [d]) rest)
      | None \<Rightarrow>
          strip_loop (out @ [raw])
            (labels @ map (dict_put ''line'' (JInt (int (length out) + 1))) pending) [] rest)"

definition strip_markers :: "string \<Rightarrow> exc + string \<times> marker list" where
  "strip_markers source =
     ebind (strip_loop [] [] [] (py_splitlines source)) (\<lambda>(out, labels).
       Inr (py_join NEWLINE out @ (if endswith source NEWLINE then NEWLINE else []), labels))"

subsection \<open>Patches\<close>

text \<open>\<^verbatim>\<open>s.splitlines(keepends=True)\<close>.\<close>

fun keepends_from :: "string \<Rightarrow> string \<Rightarrow> string list" where
  "keepends_from acc [] = (if acc = [] then [] else [rev acc])"
| "keepends_from acc (c # cs) =
     (if code c = 13 then
        (if cs \<noteq> [] \<and> code (hd cs) = 10 then rev (hd cs # c # acc) # keepends_from [] (tl cs)
         else rev (c # acc) # keepends_from [] cs)
      else if is_linebreak c then rev (c # acc) # keepends_from [] cs
      else keepends_from (c # acc) cs)"

declare keepends_from.simps(2) [simp del]

definition rstrip_newline :: "string \<Rightarrow> string" where
  "rstrip_newline s = rev (dropWhile (\<lambda>c. c = CHR 0x0A) (rev s))"

text \<open>\<open>differ\<close> is \<^verbatim>\<open>difflib.unified_diff\<close> with the two file names and three lines of context.\<close>

definition make_patch ::
  "(string \<Rightarrow> string \<Rightarrow> string list \<Rightarrow> string list \<Rightarrow> string list) \<Rightarrow> string \<Rightarrow> string \<Rightarrow> string \<Rightarrow> string" where
  "make_patch differ path before after =
     py_join NEWLINE (map rstrip_newline (drop 2
       (differ (''a/'' @ path) (''b/'' @ path) (keepends_from [] before) (keepends_from [] after))))"

subsection \<open>Cases\<close>

record case_source =
  cs_id :: string
  cs_title :: string
  cs_provenance :: "string option"
  cs_summary :: string
  cs_body :: string
  cs_expected_decision :: "string option"
  cs_before :: "(string \<times> string) list"
  cs_after :: "(string \<times> string) list"
  cs_source_dir :: "string option"
  cs_context :: "(string \<times> string) list"

definition optional_text :: "string option \<Rightarrow> json" where
  "optional_text x = (case x of None \<Rightarrow> JNull | Some s \<Rightarrow> JStr s)"

definition file_payload :: "string \<Rightarrow> bool \<Rightarrow> string \<Rightarrow> (string \<times> json) list" where
  "file_payload path known patch =
     [(''filename'', JStr path), (''status'', JStr (if known then ''modified'' else ''added'')),
      (''additions'', JInt (int (length (filter (\<lambda>l. startswith l ''+'') (py_splitlines patch))))),
      (''deletions'', JInt (int (length (filter (\<lambda>l. startswith l ''-'') (py_splitlines patch))))),
      (''patch'', JStr patch)]"

definition label_entry :: "string \<Rightarrow> marker \<Rightarrow> marker" where
  "label_entry path d = dict_put ''file_path'' (JStr path) (filter (\<lambda>(k, v). k \<noteq> ''kind'') d)"

definition label_line :: "marker \<Rightarrow> int" where
  "label_line d = (case jget ''line'' d of Some (JInt n) \<Rightarrow> n | _ \<Rightarrow> 0)"

text \<open>The lists \<^verbatim>\<open>expected\<close>, \<^verbatim>\<open>forbidden\<close> and \<^verbatim>\<open>allowed\<close>.\<close>

type_synonym label_lists = "json list \<times> json list \<times> json list"

definition add_label :: "string \<Rightarrow> int set \<Rightarrow> label_lists \<Rightarrow> marker \<Rightarrow> exc + label_lists" where
  "add_label path addressable acc d =
     (case acc of (expected, forbidden, allowed) \<Rightarrow>
        let entry = JObj (label_entry path d) in
        if label_line d \<notin> addressable then Inl (ValueError ''labelled but not in the diff'')
        else if jget ''kind'' d = Some (JStr ''EXPECT'') then Inr (expected @ [entry], forbidden, allowed)
        else if jget ''kind'' d = Some (JStr ''CLEAN'') then Inr (expected, forbidden @ [entry], allowed)
        else if jget ''kind'' d = Some (JStr ''ALLOW'') then Inr (expected, forbidden, allowed @ [entry])
        else Inl (KeyError (json_text (the (jget ''kind'' d)))))"

fun add_labels :: "string \<Rightarrow> int set \<Rightarrow> label_lists \<Rightarrow> marker list \<Rightarrow> exc + label_lists" where
  "add_labels path addressable acc [] = Inr acc"
| "add_labels path addressable acc (d # ds) =
     ebind (add_label path addressable acc d) (\<lambda>acc'. add_labels path addressable acc' ds)"

fun build_files ::
  "(string \<Rightarrow> string \<Rightarrow> string list \<Rightarrow> string list \<Rightarrow> string list) \<Rightarrow> (string \<times> string) list \<Rightarrow> json list \<Rightarrow>
     label_lists \<Rightarrow> (string \<times> string) list \<Rightarrow> exc + json list \<times> label_lists" where
  "build_files differ before files acc [] = Inr (files, acc)"
| "build_files differ before files acc ((path, raw_after) # rest) =
     ebind (strip_markers raw_after) (\<lambda>(after, labels).
       let known = map_of before path;
           patch = make_patch differ path (case known of None \<Rightarrow> [] | Some b \<Rightarrow> b) after;
           payload = file_payload path (known \<noteq> None) patch
       in if py_strip patch = [] then Inl (ValueError (path @ '' produced an empty patch''))
          else ebind (build_diff_file payload) (\<lambda>df.
               ebind (add_labels path (addressable_lines df) acc labels) (\<lambda>acc'.
                 build_files differ before (files @ [JObj payload]) acc' rest)))"

definition PERMITTED_CONCERNS :: "json list" where
  "PERMITTED_CONCERNS =
     [JObj [(''agent'', JStr ''tests''), (''category'', JStr ''test_coverage'')],
      JObj [(''agent'', JStr ''docs''), (''category'', JStr ''documentation'')]]"

definition build_case ::
  "(string \<Rightarrow> string \<Rightarrow> string list \<Rightarrow> string list \<Rightarrow> string list) \<Rightarrow>
     (string \<Rightarrow> exc + (string \<times> string) list \<times> (string \<times> string) list) \<Rightarrow> case_source \<Rightarrow> exc + json" where
  "build_case differ read_source_dir c =
     ebind (case cs_source_dir c of
              Some d \<Rightarrow> read_source_dir d | None \<Rightarrow> Inr (cs_before c, cs_after c)) (\<lambda>(before, after).
     ebind (build_files differ before [] ([], [], []) after) (\<lambda>(files, expected, forbidden, allowed).
       Inr (JObj
         [(''id'', JStr (cs_id c)), (''title'', JStr (cs_title c)), (''provenance'', optional_text (cs_provenance c)),
          (''summary'', JStr (cs_summary c)), (''body'', JStr (cs_body c)),
          (''expected_decision'', optional_text (cs_expected_decision c)), (''files'', JList files),
          (''context_files'', JList (map (\<lambda>(p, t). JObj [(''path'', JStr p), (''content'', JStr t)]) (cs_context c))),
          (''expected'', JList expected), (''must_not_find'', JList forbidden), (''may_find'', JList allowed),
          (''permitted_concerns'', JList PERMITTED_CONCERNS)])))"

text \<open>\<^verbatim>\<open>--check\<close>: the ids of the fixtures whose file is missing or not what would be written. \<open>dumps\<close> is
  \<^verbatim>\<open>json.dumps\<close> with its indentation and sorted keys.\<close>

definition stale_fixtures :: "(json \<Rightarrow> string) \<Rightarrow> (string \<Rightarrow> string option) \<Rightarrow> (string \<times> json) list \<Rightarrow> string list" where
  "stale_fixtures dumps on_disk fixtures =
     map fst (filter (\<lambda>(i, fixture). on_disk (i @ ''.json'') \<noteq> Some (dumps fixture @ NEWLINE)) fixtures)"

subsection \<open>What a marker becomes\<close>

lemma dict_put_get: "jget k (dict_put k' v d) = (if k = k' then Some v else jget k d)"
  by (induction k' v d rule: dict_put.induct) (auto simp: jget_def)

definition all_text :: "marker \<Rightarrow> bool" where
  "all_text d \<longleftrightarrow> (\<forall>k v. jget k d = Some v \<longrightarrow> (\<exists>s. v = JStr s))"

lemma all_text_put: "all_text d \<Longrightarrow> all_text (dict_put k (JStr s) d)"
  by (auto simp: all_text_def dict_put_get)

lemma all_textD: "all_text d \<Longrightarrow> jget k d = Some v \<Longrightarrow> \<exists>s. v = JStr s"
  by (simp add: all_text_def)

definition has_text :: "string \<Rightarrow> marker \<Rightarrow> bool" where
  "has_text k d \<longleftrightarrow> (\<exists>s. jget k d = Some (JStr s))"

lemma put_token_keeps:
  assumes "all_text d" and "has_text k d"
  shows "all_text (put_token d token) \<and> has_text k (put_token d token)"
  using assms all_text_put
  by (auto simp: put_token_def has_text_def dict_put_get split: prod.splits)

text \<open>The attribute \<^verbatim>\<open>kind=\<close> would replace the kind of the marker.\<close>

definition keeps_kind :: "string \<Rightarrow> bool" where
  "keeps_kind token \<longleftrightarrow> \<not> startswith token ''kind=''"

lemma partition_at_text: "py_contains sep s \<Longrightarrow> sep \<noteq> [] \<Longrightarrow> s = fst (partition_at sep s) @ sep @ snd (partition_at sep s)"
proof (induction s)
  case (Cons c s)
  show ?case
  proof (cases "startswith (c # s) sep")
    case True
    then have "c # s = sep @ drop (length sep) (c # s)" by (metis prefix_def append_eq_conv_conj)
    with True show ?thesis by (simp only: partition_at.simps if_True fst_conv snd_conv append_Nil)
  next
    case False
    obtain a b where ab: "partition_at sep s = (a, b)" by fastforce
    with Cons False have "s = a @ sep @ b" by simp
    with False ab show ?thesis by simp
  qed
qed simp

lemma put_token_kind:
  assumes "keeps_kind token"
  shows "jget ''kind'' (put_token d token) = jget ''kind'' d"
proof -
  have "fst (partition_at ''='' token) \<noteq> ''kind''" if "py_contains ''='' token"
    using partition_at_text [OF that] assms by (auto simp: keeps_kind_def) (metis append_Cons append_Nil prefixI)
  then show ?thesis
    by (auto simp: put_token_def dict_put_get split: prod.splits)
qed

lemma marker_fields_text:
  "all_text (marker_fields kind attrs note') \<and> has_text ''note'' (marker_fields kind attrs note')"
proof -
  have "all_text (foldl put_token d ts) \<and> has_text ''note'' (foldl put_token d ts)"
    if "all_text d \<and> has_text ''note'' d" for d ts
    using that
  proof (induction ts arbitrary: d)
    case (Cons token ts)
    then show ?case using put_token_keeps [of d "''note''" token] by simp
  qed simp
  moreover have "all_text [(''kind'', JStr kind), (''note'', JStr s)]" for s
    by (auto simp: all_text_def jget_def split: if_splits)
  ultimately show ?thesis
    by (simp add: marker_fields_def) (simp add: has_text_def jget_def)
qed

lemma marker_fields_kind:
  assumes "list_all keeps_kind (py_split_ws (py_strip attrs))"
  shows "jget ''kind'' (marker_fields kind attrs note') = Some (JStr kind)"
proof -
  have "jget ''kind'' (foldl put_token d ts) = jget ''kind'' d" if "list_all keeps_kind ts" for d ts
    using that by (induction ts arbitrary: d) (simp_all add: put_token_kind)
  with assms show ?thesis by (simp add: marker_fields_def) (simp add: jget_def)
qed

definition known_categories :: "marker \<Rightarrow> bool" where
  "known_categories d \<longleftrightarrow>
     (case jget ''category'' d of
        None \<Rightarrow> True
      | Some v \<Rightarrow> list_all (\<lambda>name. category_of_str name \<noteq> None) (py_split CHR ''|'' (json_text v)))"

definition expect_ok :: "marker \<Rightarrow> bool" where
  "expect_ok d \<longleftrightarrow> has_text ''agent'' d \<and> jget ''min_severity'' d \<in> (\<lambda>s. Some (JStr s)) ` set SEVERITY_NAMES"

definition marker_ok :: "marker \<Rightarrow> bool" where
  "marker_ok d \<longleftrightarrow> all_text d \<and> has_text ''note'' d \<and> known_categories d"

definition attrs_of :: "rx_pos \<Rightarrow> string" where
  "attrs_of m = (case group_of ''attrs'' m of None \<Rightarrow> [] | Some s \<Rightarrow> s)"

lemma check_expect_keeps:
  assumes "check_expect d = Inr d'" and "marker_ok d"
  shows "marker_ok d' \<and> expect_ok d' \<and> jget ''kind'' d' = jget ''kind'' d"
proof -
  from assms have d': "d' = (if jget ''min_severity'' d = None then dict_put ''min_severity'' (JStr ''info'') d else d)"
    and a: "jget ''agent'' d \<noteq> None" and s: "jget ''min_severity'' d' \<in> (\<lambda>s. Some (JStr s)) ` set SEVERITY_NAMES"
    by (auto simp: check_expect_def Let_def split: if_splits)
  have "marker_ok d'" "jget ''kind'' d' = jget ''kind'' d" "jget ''agent'' d' = jget ''agent'' d"
    using assms(2) by (auto simp: d' marker_ok_def all_text_put has_text_def known_categories_def dict_put_get)
  with a s assms(2) show ?thesis
    by (auto simp: expect_ok_def has_text_def marker_ok_def dest: all_textD)
qed

lemma parse_marker_ok:
  assumes "parse_marker m = Inr d"
  shows "marker_ok d \<and>
    (list_all keeps_kind (py_split_ws (py_strip (attrs_of m))) \<longrightarrow> jget ''kind'' d = Some (JStr ''EXPECT'') \<longrightarrow> expect_ok d)"
proof -
  define k s where "k = (case group_of ''1'' m of None \<Rightarrow> [] | Some s \<Rightarrow> s)"
    and "s = (case group_of ''note'' m of None \<Rightarrow> [] | Some s \<Rightarrow> s)"
  let ?d = "marker_fields k (attrs_of m) s"
  from assms have c: "check_category ?d = Inr ()" and r: "(if k = ''EXPECT'' then check_expect ?d else Inr ?d) = Inr d"
    by (auto simp: parse_marker_def Let_def ebind_Inr k_def s_def attrs_of_def)
  have ok: "marker_ok ?d"
    using c marker_fields_text by (auto simp: marker_ok_def check_category_def known_categories_def split: option.splits if_splits)
  show ?thesis
  proof (cases "k = ''EXPECT''")
    case True
    with r check_expect_keeps ok show ?thesis by simp
  next
    case False
    with r ok marker_fields_kind show ?thesis by auto
  qed
qed

text \<open>A source none of whose markers has an attribute \<^verbatim>\<open>kind\<close>.\<close>

definition plain_source :: "string \<Rightarrow> bool" where
  "plain_source source \<longleftrightarrow>
     list_all (\<lambda>l. case rx_match MARKER l of
                      None \<Rightarrow> True | Some m \<Rightarrow> list_all keeps_kind (py_split_ws (py_strip (attrs_of m))))
       (py_splitlines source)"

definition label_ok :: "marker \<Rightarrow> bool" where
  "label_ok d \<longleftrightarrow>
     (\<exists>d0 n. d = dict_put ''line'' (JInt n) d0 \<and> marker_ok d0 \<and>
        (jget ''kind'' d0 = Some (JStr ''EXPECT'') \<longrightarrow> expect_ok d0))"

lemma strip_loop_ok:
  assumes "strip_loop out labels pending ls = Inr (out', labels')"
    and "list_all label_ok labels"
    and "list_all (\<lambda>d. marker_ok d \<and> (jget ''kind'' d = Some (JStr ''EXPECT'') \<longrightarrow> expect_ok d)) pending"
    and "list_all (\<lambda>l. case rx_match MARKER l of
        None \<Rightarrow> True | Some m \<Rightarrow> list_all keeps_kind (py_split_ws (py_strip (attrs_of m)))) ls"
  shows "list_all label_ok labels'"
  using assms
proof (induction out labels pending ls rule: strip_loop.induct)
  case (2 out labels pending raw rest)
  show ?case
  proof (cases "rx_match MARKER raw")
    case None
    have "list_all label_ok (map (dict_put ''line'' (JInt n)) pending)" for n
      using "2.prems"(3) by (auto simp: list_all_iff label_ok_def)
    with 2 None show ?thesis by simp
  next
    case (Some m)
    with "2.prems"(1) obtain d where d: "parse_marker m = Inr d" "strip_loop out labels (pending @ [d]) rest = Inr (out', labels')"
      by (auto simp: ebind_Inr)
    with parse_marker_ok [OF d(1)] 2 Some show ?thesis by simp
  qed
qed (simp split: if_splits)

lemma strip_markers_ok:
  "strip_markers source = Inr (after, labels) \<Longrightarrow> plain_source source \<Longrightarrow> list_all label_ok labels"
  by (auto simp: strip_markers_def ebind_Inr plain_source_def intro: strip_loop_ok)

text \<open>The lines that stay are the lines without markers, and a label has the number of the line after it.\<close>

lemma strip_loop_lines:
  "strip_loop out labels pending ls = Inr (out', labels') \<Longrightarrow> out' = out @ filter (\<lambda>l. rx_match MARKER l = None) ls"
  by (induction out labels pending ls rule: strip_loop.induct) (auto simp: ebind_Inr split: if_splits option.splits)

subsection \<open>The loader reads what is built\<close>

definition line_json :: "json \<Rightarrow> exc + diff_file" where
  "line_json v = ebind (typed_obj v) build_diff_file"

text \<open>An entry of a fixture, for the files of its case.\<close>

definition entry_ok :: "bool \<Rightarrow> diff_file list \<Rightarrow> json \<Rightarrow> bool" where
  "entry_ok expected dfs e \<longleftrightarrow>
     (\<exists>df d. df \<in> set dfs \<and> e = JObj (label_entry (df_path df) d) \<and> label_ok d \<and>
        label_line d \<in> addressable_lines df \<and> (expected \<longrightarrow> jget ''kind'' d = Some (JStr ''EXPECT'')))"

definition lists_ok :: "diff_file list \<Rightarrow> label_lists \<Rightarrow> bool" where
  "lists_ok dfs acc \<longleftrightarrow>
     list_all (entry_ok True dfs) (fst acc) \<and> list_all (entry_ok False dfs) (fst (snd acc)) \<and>
     list_all (entry_ok False dfs) (snd (snd acc))"

lemma lists_ok_more: "lists_ok dfs acc \<Longrightarrow> lists_ok (dfs @ dfs') acc"
  unfolding lists_ok_def entry_ok_def list_all_iff by fastforce

lemma add_label_ok:
  assumes "add_label (df_path df) (addressable_lines df) acc d = Inr acc'" and "lists_ok dfs acc" and "df \<in> set dfs"
    and "label_ok d"
  shows "lists_ok dfs acc'"
proof -
  have "entry_ok True dfs (JObj (label_entry (df_path df) d))"
    if "label_line d \<in> addressable_lines df" "jget ''kind'' d = Some (JStr ''EXPECT'')"
    using that assms(3,4) unfolding entry_ok_def by blast
  moreover have "entry_ok False dfs (JObj (label_entry (df_path df) d))" if "label_line d \<in> addressable_lines df"
    using that assms(3,4) unfolding entry_ok_def by blast
  moreover note assms(1,2)
  ultimately show ?thesis
    by (cases acc) (auto simp: add_label_def lists_ok_def Let_def split: if_splits)
qed

lemma add_labels_ok:
  "add_labels (df_path df) (addressable_lines df) acc ds = Inr acc' \<Longrightarrow> lists_ok dfs acc \<Longrightarrow> df \<in> set dfs \<Longrightarrow>
     list_all label_ok ds \<Longrightarrow> lists_ok dfs acc'"
proof (induction ds arbitrary: acc)
  case (Cons d ds)
  from Cons.prems(1) obtain acc1 where "add_label (df_path df) (addressable_lines df) acc d = Inr acc1"
    "add_labels (df_path df) (addressable_lines df) acc1 ds = Inr acc'"
    by (simp add: ebind_Inr) blast
  with Cons add_label_ok show ?case by simp
qed simp

lemma build_diff_file_path: "build_diff_file (file_payload path known patch) = Inr df \<Longrightarrow> df_path df = path"
  by (auto simp: build_diff_file_def file_payload_def jget_or_def jget_def ebind_Inr str_field_def split: if_splits)

lemma build_files_ok:
  assumes "build_files differ before files acc sources = Inr (files', acc')"
    and "e_traverse line_json files = Inr dfs" and "lists_ok dfs acc"
    and "list_all (\<lambda>(p, raw). plain_source raw) sources"
  shows "\<exists>dfs'. e_traverse line_json files' = Inr dfs' \<and> lists_ok dfs' acc'"
  using assms
proof (induction differ before files acc sources arbitrary: dfs rule: build_files.induct)
  case (2 differ before files acc path raw_after rest)
  from "2.prems"(1) obtain after labels where s: "strip_markers raw_after = Inr (after, labels)"
    by (auto simp: ebind_Inr)
  define known where "known = map_of before path"
  define patch where "patch = make_patch differ path (case known of None \<Rightarrow> [] | Some b \<Rightarrow> b) after"
  define payload where "payload = file_payload path (known \<noteq> None) patch"
  from "2.prems"(1) s obtain df acc1 where ne: "py_strip patch \<noteq> []" and df: "build_diff_file payload = Inr df"
    and acc1: "add_labels path (addressable_lines df) acc labels = Inr acc1"
    and rest: "build_files differ before (files @ [JObj payload]) acc1 rest = Inr (files', acc')"
    unfolding payload_def patch_def known_def by (auto simp: ebind_Inr Let_def split: if_splits)
  have path: "df_path df = path" using df build_diff_file_path by (simp add: payload_def)
  have "line_json (JObj payload) = Inr df" using df by (simp add: line_json_def typed_obj_def)
  with "2.prems"(2) have e: "e_traverse line_json (files @ [JObj payload]) = Inr (dfs @ [df])"
    by (rule e_traverse_snoc)
  have "list_all label_ok labels"
    using strip_markers_ok [OF s] "2.prems"(4) by simp
  then have "lists_ok (dfs @ [df]) acc1"
    using acc1 lists_ok_more [OF "2.prems"(3)] path by (intro add_labels_ok [of df acc labels acc1]) simp_all
  with "2.IH" [where x = after and dfs = "dfs @ [df]" and xb = known and xc = patch and xd = payload and xf = acc1]
    e rest ne "2.prems"(4)
  show ?case by (simp add: payload_def patch_def known_def)
qed auto

text \<open>What the loader makes of an entry.\<close>

definition sound_label :: "diff_file list \<Rightarrow> label \<Rightarrow> bool" where
  "sound_label dfs l \<longleftrightarrow>
     list_ex (\<lambda>df. df_path df = lb_file_path l \<and> lb_line l \<in> addressable_lines df) dfs \<and>
     (case lb_category l of None \<Rightarrow> True | Some cat \<Rightarrow> label_families (py_split CHR ''|'' cat) \<noteq> None)"

definition sound_expectation :: "label \<Rightarrow> bool" where
  "sound_expectation l \<longleftrightarrow> lb_agent l \<noteq> None \<and> lb_min_severity l \<in> set SEVERITY_NAMES"

lemma label_families_known: "list_all (\<lambda>name. category_of_str name \<noteq> None) names \<Longrightarrow> label_families names \<noteq> None"
  by (induction names) auto

lemma label_entry_get:
  "jget k (label_entry path d) =
     (if k = ''file_path'' then Some (JStr path) else if k = ''kind'' then None else jget k d)"
proof -
  have "jget k (filter (\<lambda>(k, v). k \<noteq> ''kind'') d) = (if k = ''kind'' then None else jget k d)"
    unfolding jget_def by (induction d) auto
  then show ?thesis by (simp add: label_entry_def dict_put_get)
qed

lemma label_ok_get:
  assumes "label_ok d"
  shows "(\<exists>n. jget ''line'' d = Some (JInt n) \<and> label_line d = n) \<and> has_text ''note'' d \<and> known_categories d \<and>
    (\<forall>k v. k \<noteq> ''line'' \<longrightarrow> jget k d = Some v \<longrightarrow> (\<exists>s. v = JStr s)) \<and>
    (jget ''kind'' d = Some (JStr ''EXPECT'') \<longrightarrow> expect_ok d)"
proof -
  from assms obtain d0 n where d: "d = dict_put ''line'' (JInt n) d0" "marker_ok d0"
    "jget ''kind'' d0 = Some (JStr ''EXPECT'') \<longrightarrow> expect_ok d0"
    by (auto simp: label_ok_def)
  then show ?thesis
    by (auto simp: dict_put_get label_line_def has_text_def known_categories_def marker_ok_def expect_ok_def
        dest: all_textD)
qed

lemma entry_label:
  assumes "entry_ok expected dfs e"
  shows "\<exists>l. fixture_label i e = Inr l \<and> sound_label dfs l \<and> (expected \<longrightarrow> sound_expectation l)"
proof -
  from assms obtain df d where df: "df \<in> set dfs" and e: "e = JObj (label_entry (df_path df) d)" and ok: "label_ok d"
    and line: "label_line d \<in> addressable_lines df" and kind: "expected \<longrightarrow> jget ''kind'' d = Some (JStr ''EXPECT'')"
    by (auto simp: entry_ok_def)
  note g = label_ok_get [OF ok]
  define agent where "agent = (case jget ''agent'' d of Some (JStr s) \<Rightarrow> Some s | _ \<Rightarrow> None)"
  define category where "category = (case jget ''category'' d of Some (JStr s) \<Rightarrow> Some s | _ \<Rightarrow> None)"
  define sev where "sev = (case jget ''min_severity'' d of Some (JStr s) \<Rightarrow> s | _ \<Rightarrow> ''info'')"
  define note' where "note' = (case jget ''note'' d of Some (JStr s) \<Rightarrow> s | _ \<Rightarrow> [])"
  let ?l = "\<lparr>lb_id = i, lb_file_path = df_path df, lb_line = label_line d, lb_note = note', lb_agent = agent,
    lb_category = category, lb_min_severity = sev\<rparr>"
  have fields: "json_index ''file_path'' e = Inr (JStr (df_path df))"
    "json_index ''line'' e = Inr (JInt (label_line d))" "json_get ''note'' (JStr []) e = Inr (JStr note')"
    using g by (auto simp: e json_index_def json_get_def jget_or_def label_entry_get has_text_def note'_def)
  have strs: "(\<exists>s. jget k d = Some (JStr s)) \<or> jget k d = None" if "k \<noteq> ''line''" for k
    using g that by (cases "jget k d") blast+
  have opt: "typed_opt_str (jget_or k JNull (label_entry (df_path df) d)) =
      Inr (case jget k d of Some (JStr s) \<Rightarrow> Some s | _ \<Rightarrow> None)"
    if "k \<noteq> ''line''" "k \<noteq> ''kind''" "k \<noteq> ''file_path''" for k
    using strs [OF that(1)] that by (auto simp: jget_or_def label_entry_get typed_opt_str_def)
  have "typed_str (jget_or ''min_severity'' (JStr ''info'') (label_entry (df_path df) d)) = Inr sev"
    using strs [of "''min_severity''"] by (auto simp: jget_or_def label_entry_get typed_str_def sev_def)
  then have "fixture_label i e = Inr ?l"
    unfolding fixture_label_def fields using opt [of "''agent''"] opt [of "''category''"]
    by (simp add: e json_get_def typed_str_def typed_int_def agent_def category_def)
  moreover have "sound_label dfs ?l"
    using df line g label_families_known
    by (auto simp: sound_label_def list_ex_iff known_categories_def category_def json_text_def
        split: option.splits json.splits)
  moreover have "sound_expectation ?l" if "expected"
    using g kind that by (auto simp: sound_expectation_def expect_ok_def has_text_def agent_def sev_def)
  ultimately show ?thesis by blast
qed

lemma entries_labels:
  assumes "list_all (entry_ok expected dfs) es"
  shows "\<exists>ls. fixture_labels n es = Inr ls \<and> list_all (sound_label dfs) ls \<and> (expected \<longrightarrow> list_all sound_expectation ls)"
proof -
  have "\<exists>ls. e_traverse (\<lambda>(i, x). fixture_label i x) (enumerate n es) = Inr ls \<and> list_all (sound_label dfs) ls \<and>
      (expected \<longrightarrow> list_all sound_expectation ls)"
    using assms
  proof (induction es arbitrary: n)
    case (Cons e es)
    then obtain l ls where "fixture_label n e = Inr l" "sound_label dfs l" "expected \<longrightarrow> sound_expectation l"
      "e_traverse (\<lambda>(i, x). fixture_label i x) (enumerate (Suc n) es) = Inr ls" "list_all (sound_label dfs) ls"
      "expected \<longrightarrow> list_all sound_expectation ls"
      using entry_label by (metis list.pred_inject(2))
    then show ?case by simp
  qed simp
  then show ?thesis by (simp only: fixture_labels_def)
qed

lemma context_chunks:
  "\<exists>cs. e_traverse fixture_chunk (map (\<lambda>(p, t). JObj [(''path'', JStr p), (''content'', JStr t)]) ctx) = Inr cs"
  by (induction ctx) (auto simp: fixture_chunk_def json_index_def jget_def typed_str_def)

lemma concerns_read: "e_traverse fixture_concern PERMITTED_CONCERNS = Inr [(''tests'', ''test_coverage''), (''docs'', ''documentation'')]"
  by (simp add: PERMITTED_CONCERNS_def fixture_concern_def json_index_def jget_def typed_str_def)

lemma typed_optional_text: "typed_opt_str (optional_text x) = Inr x"
  by (cases x) (simp_all add: optional_text_def typed_opt_str_def)

text \<open>C29. A fixture the builder writes from sources none of whose markers has an attribute \<^verbatim>\<open>kind=\<close>
  (\<open>plain_source\<close>, for the files of the case and those of its source directory) is read back by the loader, and
  its labels are well formed: each lies on a line that the diff of its file shows, so it can be hit, and names only
  categories that exist, so it cannot match every finding of its line; and an expected label names its agent and a
  severity that exists, so scoring it cannot raise. The condition is needed: the builder accepts a marker with
  \<^verbatim>\<open>kind=\<close>, which moves the label to another list than its keyword says, without the checks of that list.\<close>

theorem built_fixture_loads:
  assumes "build_case differ read_source_dir c = Inr fixture"
    and "\<And>d before after. read_source_dir d = Inr (before, after) \<Longrightarrow> list_all (\<lambda>(p, raw). plain_source raw) after"
    and "list_all (\<lambda>(p, raw). plain_source raw) (cs_after c)"
  shows "\<exists>ec. load_case n fixture = Inr ec \<and> ec_id ec = cs_id c \<and>
    list_all (sound_label (ec_files ec)) (case_labels ec) \<and> list_all sound_expectation (ec_expected ec)"
proof -
  from assms(1) obtain before after files expected forbidden allowed where
    src: "(case cs_source_dir c of Some d \<Rightarrow> read_source_dir d | None \<Rightarrow> Inr (cs_before c, cs_after c)) = Inr (before, after)"
    and b: "build_files differ before [] ([], [], []) after = Inr (files, expected, forbidden, allowed)"
    and fixture: "fixture = JObj
         [(''id'', JStr (cs_id c)), (''title'', JStr (cs_title c)), (''provenance'', optional_text (cs_provenance c)),
          (''summary'', JStr (cs_summary c)), (''body'', JStr (cs_body c)),
          (''expected_decision'', optional_text (cs_expected_decision c)), (''files'', JList files),
          (''context_files'', JList (map (\<lambda>(p, t). JObj [(''path'', JStr p), (''content'', JStr t)]) (cs_context c))),
          (''expected'', JList expected), (''must_not_find'', JList forbidden), (''may_find'', JList allowed),
          (''permitted_concerns'', JList PERMITTED_CONCERNS)]"
    by (auto simp: build_case_def ebind_Inr)
  have "list_all (\<lambda>(p, raw). plain_source raw) after"
    using src assms(2,3) by (cases "cs_source_dir c") auto
  with build_files_ok [OF b, of "[]"] obtain dfs where dfs: "e_traverse line_json files = Inr dfs"
    and ok: "lists_ok dfs (expected, forbidden, allowed)"
    by (auto simp: lists_ok_def)
  from ok have o: "list_all (entry_ok True dfs) expected" "list_all (entry_ok False dfs) forbidden"
    "list_all (entry_ok False dfs) allowed"
    by (simp_all add: lists_ok_def)
  obtain es where es: "fixture_labels n expected = Inr es" "list_all (sound_label dfs) es" "list_all sound_expectation es"
    using entries_labels [OF o(1)] by blast
  obtain fs where fs: "fixture_labels (n + length expected) forbidden = Inr fs" "list_all (sound_label dfs) fs"
    using entries_labels [OF o(2)] by blast
  obtain as where as: "fixture_labels (n + length expected + length forbidden) allowed = Inr as" "list_all (sound_label dfs) as"
    using entries_labels [OF o(3)] by blast
  obtain chunks where chunks: "e_traverse fixture_chunk
      (map (\<lambda>(p, t). JObj [(''path'', JStr p), (''content'', JStr t)]) (cs_context c)) = Inr chunks"
    using context_chunks by blast
  have lj: "(\<lambda>f. ebind (typed_obj f) build_diff_file) = line_json" by (rule ext) (simp add: line_json_def)
  show ?thesis
    unfolding fixture load_case_def lj
    by (simp add: json_index_def json_get_def jget_or_def jget_def typed_str_def typed_list_def typed_optional_text dfs es fs as
        chunks concerns_read case_labels_def)
qed

definition sample_differ :: "string \<Rightarrow> string \<Rightarrow> string list \<Rightarrow> string list \<Rightarrow> string list" where
  "sample_differ a b before after =
     [''--- '' @ a @ NEWLINE, ''+++ '' @ b @ NEWLINE, ''@@ -0,0 +1 @@'' @ NEWLINE, ''+'' @ concat after]"

definition sample_case_source :: case_source where
  "sample_case_source =
     \<lparr>cs_id = ''c'', cs_title = ''t'', cs_provenance = None, cs_summary = [], cs_body = [],
      cs_expected_decision = Some ''escalate'', cs_before = [],
      cs_after = [(''a.py'', ''#! EXPECT agent=tests category=logic :: why'' @ NEWLINE @ ''f(x)'')],
      cs_source_dir = None, cs_context = []\<rparr>"

lemma sample_built_case: "\<exists>fixture. build_case sample_differ (\<lambda>_. Inr ([], [])) sample_case_source = Inr fixture"
proof -
  have "(case build_case sample_differ (\<lambda>_. Inr ([], [])) sample_case_source of Inl _ \<Rightarrow> False | Inr _ \<Rightarrow> True)"
    by code_simp
  then show ?thesis by (auto split: sum.splits)
qed

lemma sample_plain: "list_all (\<lambda>(p, raw). plain_source raw) (cs_after sample_case_source)"
  by code_simp

lemma built_fixture_loads_witness:
  "\<exists>fixture ec. build_case sample_differ (\<lambda>_. Inr ([], [])) sample_case_source = Inr fixture \<and>
     load_case 0 fixture = Inr ec \<and> list_all (sound_label (ec_files ec)) (case_labels ec)"
proof -
  obtain fixture where f: "build_case sample_differ (\<lambda>_. Inr ([], [])) sample_case_source = Inr fixture"
    using sample_built_case by blast
  from built_fixture_loads [OF f _ sample_plain, of 0] f show ?thesis by auto
qed

end
