(* ===== verification/Ledger.thy ===== *)
theory Ledger
  imports Llm Store
begin

section \<open>The cost ledger\<close>

text \<open>
  \<^verbatim>\<open>spend_for_review_usd\<close> of \<^verbatim>\<open>db/repositories/metrics.py\<close>: what the rows of \<^verbatim>\<open>agent_events\<close> say a review has
  spent. The properties: the ledger of a review is what its cost guard was charged, less the costs of the rows
  the database lost and up to the rounding of the column; and a guard that is loaded again knows nothing of it.
\<close>

subsection \<open>Spend\<close>

definition event_cost :: "event \<Rightarrow> real" where
  "event_cost e = (case ev_cost_usd e of JFloat (Fin x) \<Rightarrow> x | _ \<Rightarrow> 0)"

text \<open>\<^verbatim>\<open>SELECT COALESCE(sum(cost_usd), 0) ... WHERE review_id = $1 AND kind = 'llm_call'\<close>\<close>

definition spend_for_review_usd :: "event list \<Rightarrow> uuid \<Rightarrow> real" where
  "spend_for_review_usd rows review_id =
     sum_list (map event_cost (filter (\<lambda>e. ev_review_id e = Some review_id \<and> ev_kind e = ''llm_call'') rows))"

record llm_call_args =
  ca_request :: llm_request
  ca_agent :: "string option"
  ca_version :: string
  ca_name :: string

text \<open>Calls one after another; what a call returns or raises is left to its caller.\<close>

definition call_of :: "settings \<Rightarrow> llm_env \<Rightarrow> llm_call_args \<Rightarrow> llm_world \<Rightarrow> llm_world" where
  "call_of s env c w = snd (call_llm s env (ca_request c) (ca_agent c) (ca_version c) (ca_name c) w)"

definition ledger_of :: "uuid \<Rightarrow> llm_world \<Rightarrow> real" where
  "ledger_of review_id w = spend_for_review_usd (es_rows (lw_spine w)) review_id"

definition guard_of :: "llm_world \<Rightarrow> real" where
  "guard_of w = (case lw_budget w of None \<Rightarrow> 0 | Some b \<Rightarrow> b_review_spent b)"

lemma spend_append: "spend_for_review_usd (rows @ rows') i = spend_for_review_usd rows i + spend_for_review_usd rows' i"
  by (simp add: spend_for_review_usd_def)

lemma call_row_ledger:
  assumes "le_put env = spine_write db_ok" and "es_review_id sp = Some i"
  shows "(es_dropped (call_row env name agent pv r sp) = es_dropped sp \<and>
      length (es_rows (call_row env name agent pv r sp)) = length (es_rows sp) + 1 \<and>
      spend_for_review_usd (es_rows (call_row env name agent pv r sp)) i =
        spend_for_review_usd (es_rows sp) i + numeric6 (cost_usd r) \<or>
    es_dropped (call_row env name agent pv r sp) = es_dropped sp + 1 \<and>
      es_rows (call_row env name agent pv r sp) = es_rows sp) \<and>
    es_review_id (call_row env name agent pv r sp) = Some i"
  using assms
  by (auto simp: call_row_def spine_llm_call_def spine_write_def spend_append)
    (simp_all add: spend_for_review_usd_def stamp_def blank_event_def event_cost_def stored_event_def column_cost_def)

text \<open>What a stretch of calls did to the books of a review: \<open>lost\<close> are the costs of the answers whose rows
  the database refused; the other rows are off by at most half of the last place of the column.\<close>

definition reconciled :: "llm_env \<Rightarrow> uuid \<Rightarrow> llm_world \<Rightarrow> llm_world \<Rightarrow> real list \<Rightarrow> bool" where
  "reconciled env i w w' lost \<longleftrightarrow>
     es_dropped (lw_spine w') = es_dropped (lw_spine w) + length lost \<and>
     (\<forall>x \<in> set lost. \<exists>n rq r. le_complete env n rq = Inr r \<and> x = cost_usd r) \<and>
     \<bar>ledger_of i w' - ledger_of i w + sum_list lost - (guard_of w' - guard_of w)\<bar> \<le>
       (real (length (es_rows (lw_spine w'))) - real (length (es_rows (lw_spine w)))) / 2000000"

lemma reconciled_refl: "reconciled env i w w []"
  by (simp add: reconciled_def)

lemma abs_sum_le: "\<bar>a\<bar> \<le> p \<Longrightarrow> \<bar>b\<bar> \<le> q \<Longrightarrow> \<bar>a + b\<bar> \<le> p + (q :: real)"
  by linarith

lemma reconciled_trans:
  assumes "reconciled env i u v xs" and "reconciled env i v w ys"
  shows "reconciled env i u w (xs @ ys)"
proof -
  from assms abs_sum_le have "\<bar>(ledger_of i v - ledger_of i u + sum_list xs - (guard_of v - guard_of u)) +
      (ledger_of i w - ledger_of i v + sum_list ys - (guard_of w - guard_of v))\<bar> \<le>
    (real (length (es_rows (lw_spine v))) - real (length (es_rows (lw_spine u)))) / 2000000 +
    (real (length (es_rows (lw_spine w))) - real (length (es_rows (lw_spine v)))) / 2000000"
    unfolding reconciled_def by blast
  also have "\<dots> = (real (length (es_rows (lw_spine w))) - real (length (es_rows (lw_spine u)))) / 2000000"
    by (simp add: diff_divide_distrib)
  finally have "\<bar>ledger_of i w - ledger_of i u + sum_list (xs @ ys) - (guard_of w - guard_of u)\<bar> \<le>
    (real (length (es_rows (lw_spine w))) - real (length (es_rows (lw_spine u)))) / 2000000"
    by (simp add: algebra_simps)
  with assms show ?thesis by (auto simp: reconciled_def)
qed

text \<open>The cost of one call lands in the guard and, unless its row is lost, in the ledger.\<close>

lemma call_ledger:
  fixes s :: settings and w :: llm_world and c :: llm_call_args
  assumes "le_put env = spine_write db_ok" and "es_review_id (lw_spine w) = Some i" and "lw_budget w \<noteq> None"
  defines "w' \<equiv> call_of s env c w"
  shows "es_review_id (lw_spine w') = Some i \<and> lw_budget w' \<noteq> None \<and> (\<exists>lost. reconciled env i w w' lost)"
proof -
  obtain r v where call: "call_llm s env (ca_request c) (ca_agent c) (ca_version c) (ca_name c) w = (r, v)"
    by fastforce
  then have v: "w' = v" by (simp add: w'_def call_of_def)
  note e = call_llm_charges [OF call]
  show ?thesis
  proof (cases r)
    case (Inl x)
    with e assms(2,3) have "reconciled env i w v []"
      by (simp add: reconciled_def ledger_of_def guard_of_def)
    with Inl e assms(2,3) show ?thesis unfolding v by auto
  next
    case (Inr x)
    with e obtain n where n: "le_complete env n (ca_request c) = Inr x" by auto
    obtain b where b: "lw_budget w = Some b" using assms(3) by auto
    from Inr e have "lw_budget v = Some (budget_charge b (cost_usd x))"
      and sp: "lw_spine v = call_row env (ca_name c) (ca_agent c) (ca_version c) x (lw_spine w)"
      by (simp_all add: b)
    then have g: "guard_of v = guard_of w + cost_usd x" "lw_budget v \<noteq> None"
      by (simp_all add: guard_of_def b budget_charge_def)
    note row = call_row_ledger [OF assms(1,2), of "ca_name c" "ca_agent c" "ca_version c" x, folded sp]
    from row have "reconciled env i w v [] \<or> reconciled env i w v [cost_usd x]"
      using n numeric6_error [of "cost_usd x"] g
      by (auto simp: reconciled_def ledger_of_def)
    with row g show ?thesis unfolding v by blast
  qed
qed

text \<open>C23. Over any sequence of model calls of a review, whatever fails, the books agree: what the guard was
  charged is what the events table gained for the review plus the costs of the answers whose rows were
  lost, one for each dropped row, up to half a millionth of a dollar for every row that was stored.\<close>

theorem ledger_matches_guard:
  assumes "le_put env = spine_write db_ok" and "es_review_id (lw_spine w) = Some i" and "lw_budget w \<noteq> None"
    and "w' = fold (call_of s env) calls w"
  shows "\<exists>lost. es_dropped (lw_spine w') = es_dropped (lw_spine w) + length lost \<and>
    (\<forall>x \<in> set lost. \<exists>n rq r. le_complete env n rq = Inr r \<and> x = cost_usd r) \<and>
    \<bar>ledger_of i w' - ledger_of i w + sum_list lost - (guard_of w' - guard_of w)\<bar> \<le>
      (real (length (es_rows (lw_spine w'))) - real (length (es_rows (lw_spine w)))) / 2000000"
proof -
  have "\<exists>lost. reconciled env i w (fold (call_of s env) calls w) lost"
    if "es_review_id (lw_spine w) = Some i" "lw_budget w \<noteq> None" for w
    using that
  proof (induction calls arbitrary: w)
    case Nil
    then show ?case using reconciled_refl by auto
  next
    case (Cons c calls)
    from call_ledger [where s = s and c = c, OF assms(1) Cons.prems]
    obtain xs where "es_review_id (lw_spine (call_of s env c w)) = Some i" "lw_budget (call_of s env c w) \<noteq> None"
      and step: "reconciled env i w (call_of s env c w) xs" by auto
    from Cons.IH [OF this(1,2)] obtain ys where
      "reconciled env i (call_of s env c w) (fold (call_of s env) (c # calls) w) ys" by auto
    from reconciled_trans [OF step this] show ?case by blast
  qed
  from this [OF assms(2,3)] show ?thesis unfolding assms(4) reconciled_def .
qed

definition sample_call :: llm_call_args where
  "sample_call = \<lparr>ca_request = sample_request, ca_agent = Some ''security'', ca_version = ''v'', ca_name = ''c''\<rparr>"

definition two_calls :: llm_world where
  "two_calls = fold (call_of default_settings (sample_env\<lparr>le_put := spine_write (\<lambda>e. ev_span_id e = None)\<rparr>))
     [sample_call, sample_call] (sample_world\<lparr>lw_spine := new_spine (Some 7) None None 7\<rparr>)"

lemma ledger_matches_guard_witness:
  "\<exists>lost. es_dropped (lw_spine two_calls) = length lost \<and>
     \<bar>ledger_of 7 two_calls + sum_list lost - (guard_of two_calls - guard_of sample_world)\<bar> \<le>
       real (length (es_rows (lw_spine two_calls))) / 2000000"
proof -
  let ?env = "sample_env\<lparr>le_put := spine_write (\<lambda>e. ev_span_id e = None)\<rparr>"
  let ?w = "sample_world\<lparr>lw_spine := new_spine (Some 7) None None 7\<rparr>"
  have start: "ledger_of 7 ?w = 0" "guard_of ?w = guard_of sample_world" "lw_budget ?w \<noteq> None"
    "es_dropped (lw_spine ?w) = 0" "es_rows (lw_spine ?w) = []" "es_review_id (lw_spine ?w) = Some 7"
    by (simp_all add: ledger_of_def guard_of_def spend_for_review_usd_def sample_world_def new_spine_def)
  have "le_put ?env = spine_write (\<lambda>e. ev_span_id e = None)" by simp
  from ledger_matches_guard [OF this start(6,3) two_calls_def] show ?thesis
    unfolding start by auto
qed

text \<open>A guard that is loaded again starts at 0, whatever the ledger of the review says: \<^verbatim>\<open>load\<close> asks only
  for the day's spend. So a review that is resumed after it has spent its cap passes the check again.\<close>

lemma resume_forgets_spend:
  assumes "budget_load spend i = Inr b" and "est \<le> s_review_cost_cap_usd s"
    and "b_day_spent b + est \<le> s_daily_cost_cap_usd s"
  shows "b_review_spent b = 0 \<and> budget_check s b est = Inr ()"
  using assms by (auto simp: budget_load_def budget_check_def split: sum.splits if_splits)

end
