(* ===== verification/Dashboard.thy ===== *)
theory Dashboard
  imports Store
begin

section \<open>The queue of the humans and its decisions\<close>

text \<open>
  \<^verbatim>\<open>db/repositories/metrics.py\<close> (the open items, the escalation rate) and the decisions of
  \<^verbatim>\<open>dashboard/app.py\<close>. The columns of \<^verbatim>\<open>hitl_items\<close> that a decision writes are a map from items to
  decisions beside the store: an item is open while it has none. The properties: whatever requests come in
  and in whatever order, an item is decided by the first request for it and by no other, and what is recorded
  as feedback are those decisions; the rates lie between 0 and 1.
\<close>

subsection \<open>The open items\<close>

record hitl_decision =
  hd_state :: string
  hd_decided_by :: string
  hd_note :: string

record hitl_queue =
  hq_store :: store
  hq_decided :: "uuid \<rightharpoonup> hitl_decision"

definition is_open :: "hitl_queue \<Rightarrow> uuid \<Rightarrow> bool" where
  "is_open q i \<longleftrightarrow> i \<in> hi_id ` set (st_hitl (hq_store q)) \<and> hq_decided q i = None"

text \<open>\<^verbatim>\<open>ORDER BY h.priority, h.created_at LIMIT $1\<close>; the rows stand in the order of their creation.\<close>

definition open_hitl :: "nat \<Rightarrow> hitl_queue \<Rightarrow> hitl_row list" where
  "open_hitl limit q =
     take limit (sort_key hi_priority (filter (\<lambda>h. hq_decided q (hi_id h) = None) (st_hitl (hq_store q))))"

subsection \<open>Deciding an item\<close>

record decide_form =
  df_item_id :: uuid
  df_verdict :: string
  df_actor :: string
  df_note :: string

definition decision_of :: "decide_form \<Rightarrow> hitl_decision" where
  "decision_of r =
     \<lparr>hd_state = (if df_verdict r = ''accepted'' then ''approved'' else ''rejected''),
      hd_decided_by = df_actor r, hd_note = df_note r\<rparr>"

text \<open>\<^verbatim>\<open>UPDATE hitl_items ... WHERE id = $1 AND state = 'open' RETURNING review_id\<close>; \<open>claim_item\<close> tells
  only whether a row came back.\<close>

definition update_item :: "decide_form \<Rightarrow> hitl_queue \<Rightarrow> uuid option \<times> hitl_queue" where
  "update_item r q =
     (case List.find (\<lambda>h. hi_id h = df_item_id r) (st_hitl (hq_store q)) of
        None \<Rightarrow> (None, q)
      | Some h \<Rightarrow>
          (if hq_decided q (df_item_id r) = None
           then (Some (hi_review_id h), q\<lparr>hq_decided := (hq_decided q)(df_item_id r \<mapsto> decision_of r)\<rparr>)
           else (None, q)))"

definition claim_item :: "decide_form \<Rightarrow> hitl_queue \<Rightarrow> bool \<times> hitl_queue" where
  "claim_item r q = (fst (update_item r q) \<noteq> None, snd (update_item r q))"

text \<open>The \<^verbatim>\<open>CHECK\<close> of the column \<^verbatim>\<open>feedback.verdict\<close>.\<close>

definition FEEDBACK_VERDICTS :: "string list" where
  "FEEDBACK_VERDICTS = [''accepted'', ''disputed'', ''duplicate'', ''wont_fix'']"

text \<open>The answer is the location of the redirect. The two statements run in transactions of their own, so a
  verdict the table of feedback refuses is raised after the item has been decided.\<close>

definition decide :: "decide_form \<Rightarrow> hitl_queue \<Rightarrow> (exc + string) \<times> hitl_queue" where
  "decide r q =
     (case update_item r q of
        (None, q1) \<Rightarrow> (Inr ''/'', q1)
      | (Some review_id, q1) \<Rightarrow>
          (if df_verdict r \<in> set FEEDBACK_VERDICTS
           then (Inr ''/'',
                 q1\<lparr>hq_store := record_feedback (Some review_id) None ''hitl_gate'' (df_verdict r)
                      (Some (df_actor r)) (if df_note r = [] then None else Some (df_note r)) (hq_store q1)\<rparr>)
           else (Inl (OtherError ''CheckViolationError'' ''feedback_verdict_check''), q1)))"

subsection \<open>The escalation rate\<close>

record rate_row =
  rt_reviews :: nat
  rt_escalated :: nat
  rt_auto_posted :: nat
  rt_failed :: nat
  rt_avg_confidence :: real
  rt_cost_usd :: real
  rt_escalation_rate :: real

text \<open>The rows are those of the window; \<^verbatim>\<open>avg\<close> passes over the reviews without a confidence.\<close>

definition escalation_rate :: "review_row list \<Rightarrow> rate_row" where
  "escalation_rate rows =
     (let reviews = length rows;
          escalated = length (filter (\<lambda>r. rv_decision r = Some ESCALATE) rows);
          cs = List.map_filter rv_confidence rows
      in \<lparr>rt_reviews = reviews, rt_escalated = escalated,
          rt_auto_posted = length (filter (\<lambda>r. rv_decision r = Some AUTO_POST) rows),
          rt_failed = length (filter (\<lambda>r. rv_status r = REVIEW_FAILED) rows),
          rt_avg_confidence = (if cs = [] then 0 else sum_list cs / real (length cs)),
          rt_cost_usd = sum_list (map rv_cost_usd rows),
          rt_escalation_rate = (if reviews = 0 then 0 else real escalated / real reviews)\<rparr>)"

subsection \<open>An item is decided once\<close>

lemma find_item_none: "List.find (\<lambda>h. hi_id h = i) hs = None \<longleftrightarrow> i \<notin> hi_id ` set hs"
  by (auto simp: find_None_iff)

lemma claim_item_open: "fst (claim_item r q) \<longleftrightarrow> is_open q (df_item_id r)"
proof (cases "List.find (\<lambda>h. hi_id h = df_item_id r) (st_hitl (hq_store q))")
  case None
  then have "df_item_id r \<notin> hi_id ` set (st_hitl (hq_store q))" using find_item_none [of "df_item_id r" "st_hitl (hq_store q)"] by simp
  with None show ?thesis by (simp add: claim_item_def update_item_def is_open_def)
next
  case (Some h)
  then have "df_item_id r \<in> hi_id ` set (st_hitl (hq_store q))" using find_item_none [of "df_item_id r" "st_hitl (hq_store q)"] by simp
  with Some show ?thesis by (simp add: claim_item_def update_item_def is_open_def)
qed

lemma update_item_state:
  "snd (update_item r q) =
     (if is_open q (df_item_id r) then q\<lparr>hq_decided := (hq_decided q)(df_item_id r \<mapsto> decision_of r)\<rparr> else q)"
  using claim_item_open [of r q]
  by (auto simp: update_item_def claim_item_def split: option.splits if_splits)

lemma is_open_claim: "is_open (snd (claim_item r q)) i \<longleftrightarrow> is_open q i \<and> i \<noteq> df_item_id r"
  by (auto simp: claim_item_def update_item_state) (auto simp: is_open_def split: if_splits)

interpretation hitl_ledger: claim_ledger claim_item df_item_id "\<lambda>q i. \<not> is_open q i"
  by unfold_locales (auto simp: claim_item_open is_open_claim)

text \<open>The requests that decide: the first one for every item that is open.\<close>

fun deciding :: "(uuid \<Rightarrow> bool) \<Rightarrow> decide_form list \<Rightarrow> decide_form list" where
  "deciding opn [] = []"
| "deciding opn (r # rs) =
     (if opn (df_item_id r) then r # deciding (opn(df_item_id r := False)) rs else deciding opn rs)"

definition review_of_item :: "store \<Rightarrow> uuid \<Rightarrow> uuid option" where
  "review_of_item st i = map_option hi_review_id (List.find (\<lambda>h. hi_id h = i) (st_hitl st))"

definition feedback_of :: "store \<Rightarrow> decide_form \<Rightarrow> feedback_row" where
  "feedback_of st r =
     \<lparr>fb_review_id = review_of_item st (df_item_id r), fb_finding_id = None, fb_source = ''hitl_gate'',
      fb_verdict = df_verdict r, fb_actor = Some (df_actor r),
      fb_note = (if df_note r = [] then None else Some (df_note r))\<rparr>"

definition decide_all :: "decide_form list \<Rightarrow> hitl_queue \<Rightarrow> hitl_queue" where
  "decide_all rs = fold (\<lambda>r q. snd (decide r q)) rs"

lemma deciding_once:
  "length (filter (\<lambda>r. df_item_id r = i) (deciding opn rs)) = (if opn i \<and> i \<in> df_item_id ` set rs then 1 else 0)"
  by (induction rs arbitrary: opn) (auto simp del: length_0_conv)

lemma decide_effect:
  "snd (decide r q) =
     (if is_open q (df_item_id r)
      then q\<lparr>hq_decided := (hq_decided q)(df_item_id r \<mapsto> decision_of r),
             hq_store := (hq_store q)\<lparr>st_feedback := st_feedback (hq_store q) @
               (if df_verdict r \<in> set FEEDBACK_VERDICTS then [feedback_of (hq_store q) r] else [])\<rparr>\<rparr>
      else q)"
proof (cases "update_item r q")
  case (Pair a q1)
  show ?thesis
  proof (cases a)
    case None
    with Pair claim_item_open [of r q] update_item_state [of r q] show ?thesis
      by (simp add: decide_def claim_item_def)
  next
    case (Some rid)
    from Pair Some claim_item_open [of r q] have opn: "is_open q (df_item_id r)" by (simp add: claim_item_def)
    from Pair Some have "review_of_item (hq_store q) (df_item_id r) = Some rid"
      by (auto simp: update_item_def review_of_item_def split: option.splits if_splits)
    with Pair Some opn update_item_state [of r q] show ?thesis
      by (simp add: decide_def record_feedback_def feedback_of_def)
  qed
qed

lemma decide_keeps_items: "st_hitl (hq_store (snd (decide r q))) = st_hitl (hq_store q)"
  by (simp add: decide_effect)

lemma is_open_decide: "is_open (snd (decide r q)) i \<longleftrightarrow> is_open q i \<and> i \<noteq> df_item_id r"
  by (auto simp: decide_effect is_open_def)

lemma feedback_of_items: "st_hitl st = st_hitl st' \<Longrightarrow> feedback_of st = feedback_of st'"
  by (auto simp: fun_eq_iff feedback_of_def review_of_item_def)

text \<open>C20. Whatever decisions are sent, and however often the button is pressed, an open item is decided by the
  first request for it and a decided one keeps its decision; at most one request decides an item; and the
  feedback rows added are those of the deciding requests whose verdict the table accepts.\<close>

theorem items_decided_once:
  "hq_decided (decide_all rs q) i =
     (if is_open q i then map_option decision_of (List.find (\<lambda>r. df_item_id r = i) rs) else hq_decided q i) \<and>
   length (filter (\<lambda>r. df_item_id r = i) (deciding (is_open q) rs)) \<le> 1 \<and>
   st_feedback (hq_store (decide_all rs q)) = st_feedback (hq_store q) @
     map (feedback_of (hq_store q)) (filter (\<lambda>r. df_verdict r \<in> set FEEDBACK_VERDICTS) (deciding (is_open q) rs))"
proof -
  have "hq_decided (decide_all rs q) i =
      (if is_open q i then map_option decision_of (List.find (\<lambda>r. df_item_id r = i) rs) else hq_decided q i)"
    unfolding decide_all_def
    by (induction rs arbitrary: q) (auto simp: is_open_decide, auto simp: decide_effect is_open_def)
  moreover have "st_feedback (hq_store (decide_all rs q)) = st_feedback (hq_store q) @
      map (feedback_of (hq_store q)) (filter (\<lambda>r. df_verdict r \<in> set FEEDBACK_VERDICTS) (deciding (is_open q) rs))"
    unfolding decide_all_def
  proof (induction rs arbitrary: q)
    case (Cons r rs)
    have "deciding (is_open (snd (decide r q))) rs = deciding ((is_open q)(df_item_id r := False)) rs"
      by (rule arg_cong [where f = "\<lambda>p. deciding p rs"]) (auto simp: fun_eq_iff is_open_decide)
    moreover have "\<not> is_open q (df_item_id r) \<Longrightarrow> (is_open q)(df_item_id r := False) = is_open q"
      by (simp add: fun_eq_iff)
    ultimately show ?case
      using Cons.IH [of "snd (decide r q)"] feedback_of_items [OF decide_keeps_items [of r q]]
      by (auto simp: decide_effect)
  qed simp
  ultimately show ?thesis by (simp add: deciding_once)
qed

text \<open>The same as a claim on the ledger of items: of any sequence of updates exactly one claims an open
  item.\<close>

lemma item_claimed_once:
  "claim_all claim_item rs q = (bs, q') \<Longrightarrow>
    length (filter (\<lambda>(r, b). df_item_id r = i \<and> b) (zip rs bs)) = (if i \<in> df_item_id ` set rs \<and> is_open q i then 1 else 0)"
  using hitl_ledger.claim_all_once [of rs q bs q' i] by simp

text \<open>A verdict the column refuses: the item is rejected, the request fails and no feedback is recorded.\<close>

theorem unknown_verdict_decides:
  assumes "is_open q (df_item_id r)" and "df_verdict r \<notin> set FEEDBACK_VERDICTS"
  shows "(\<exists>e. fst (decide r q) = Inl e) \<and> \<not> is_open (snd (decide r q)) (df_item_id r) \<and>
    st_feedback (hq_store (snd (decide r q))) = st_feedback (hq_store q) \<and>
    map_option hd_state (hq_decided (snd (decide r q)) (df_item_id r)) = Some ''rejected''"
proof -
  from assms(1) have "fst (update_item r q) \<noteq> None"
    using claim_item_open [of r q] by (simp add: claim_item_def)
  then have "\<exists>e. fst (decide r q) = Inl e"
    using assms(2) by (auto simp: decide_def split: prod.splits option.splits)
  moreover have "df_verdict r \<noteq> ''accepted''" using assms(2) by (auto simp: FEEDBACK_VERDICTS_def)
  ultimately show ?thesis
    using assms by (simp add: decide_effect is_open_def decision_of_def)
qed

definition sample_queue :: hitl_queue where
  "sample_queue =
     \<lparr>hq_store = snd (enqueue_hitl 5 POLICY ''s'' 10 empty_store), hq_decided = Map.empty\<rparr>"

definition sample_form :: decide_form where
  "sample_form = \<lparr>df_item_id = 1, df_verdict = ''maybe'', df_actor = ''operator'', df_note = []\<rparr>"

lemma unknown_verdict_decides_witness:
  "st_feedback (hq_store (snd (decide sample_form sample_queue))) = [] \<and>
   map_option hd_state (hq_decided (snd (decide sample_form sample_queue)) 1) = Some ''rejected''"
  using unknown_verdict_decides [of sample_queue sample_form]
  by (simp add: is_open_def sample_queue_def sample_form_def enqueue_hitl_def empty_store_def FEEDBACK_VERDICTS_def)

subsection \<open>Rates and the list of open items\<close>

lemma decisions_disjoint:
  "length (filter (\<lambda>r. rv_decision r = Some ESCALATE) rows) + length (filter (\<lambda>r. rv_decision r = Some AUTO_POST) rows) \<le>
   length rows"
  by (induction rows) auto

lemma mean_between:
  fixes cs :: "real list"
  assumes "\<forall>c \<in> set cs. 0 \<le> c \<and> c \<le> 1" and "cs \<noteq> []"
  shows "0 \<le> sum_list cs / real (length cs) \<and> sum_list cs / real (length cs) \<le> 1"
proof -
  have "0 \<le> sum_list cs \<and> sum_list cs \<le> real (length cs)" using assms(1) by (induction cs) auto
  with assms(2) show ?thesis by (simp add: divide_le_eq)
qed

theorem escalation_rate_bounds:
  assumes "\<forall>r \<in> set rows. \<forall>c. rv_confidence r = Some c \<longrightarrow> 0 \<le> c \<and> c \<le> 1"
  shows "0 \<le> rt_escalation_rate (escalation_rate rows) \<and> rt_escalation_rate (escalation_rate rows) \<le> 1 \<and>
    rt_escalated (escalation_rate rows) + rt_auto_posted (escalation_rate rows) \<le> rt_reviews (escalation_rate rows) \<and>
    0 \<le> rt_avg_confidence (escalation_rate rows) \<and> rt_avg_confidence (escalation_rate rows) \<le> 1"
proof -
  have "\<forall>c \<in> set (List.map_filter rv_confidence rows). 0 \<le> c \<and> c \<le> 1"
    using assms by (auto simp: List.map_filter_def)
  from mean_between [OF this] decisions_disjoint [of rows] show ?thesis
    by (auto simp: escalation_rate_def Let_def divide_le_eq)
qed

lemma open_hitl_lists:
  "length (open_hitl limit q) \<le> limit \<and> sorted (map hi_priority (open_hitl limit q)) \<and>
   (\<forall>h \<in> set (open_hitl limit q). is_open q (hi_id h))"
  by (auto simp: open_hitl_def is_open_def sorted_wrt_take take_map [symmetric] dest: in_set_takeD)

end
