(* ===== verification/Learning.thy ===== *)
theory Learning
  imports Domain
begin

section \<open>What is learned from feedback\<close>

text \<open>
  \<^verbatim>\<open>feedback/learning.py\<close>. Times are ages in days. The rows of the preference query, one for every
  pair of category and severity, are an argument: the query names a column that no migration creates. The
  properties: a dispute loses weight with its age by a fixed factor a day and counts nothing after a year; a
  preference rests on at least three disputes and on a weight between half that and their number; and
  marking old feedback keeps every row.
\<close>

definition MIN_EVIDENCE_THRESHOLD :: nat where
  "MIN_EVIDENCE_THRESHOLD = 3"

definition DECAY_HALF_LIFE_DAYS :: real where
  "DECAY_HALF_LIFE_DAYS = 90"

definition MAX_FEEDBACK_AGE_DAYS :: real where
  "MAX_FEEDBACK_AGE_DAYS = 365"

record team_preference =
  tp_pattern :: string
  tp_category :: string
  tp_severity :: string
  tp_dispute_count :: nat
  tp_last_seen :: real
  tp_weight :: real

definition decay_weight :: "real \<Rightarrow> real" where
  "decay_weight age_days =
     (if MAX_FEEDBACK_AGE_DAYS < age_days then 0 else exp (- (0.693 * age_days / DECAY_HALF_LIFE_DAYS)))"

record dispute_group =
  dg_category :: string
  dg_severity :: string
  dg_count :: nat
  dg_last_seen :: real
  dg_ages :: "real list"

definition preference_of :: "dispute_group \<Rightarrow> team_preference" where
  "preference_of row =
     \<lparr>tp_pattern = dg_category row @ ''/'' @ dg_severity row, tp_category = dg_category row,
      tp_severity = dg_severity row, tp_dispute_count = dg_count row, tp_last_seen = dg_last_seen row,
      tp_weight = sum_list (map decay_weight (dg_ages row))\<rparr>"

definition extract_preferences :: "dispute_group list \<Rightarrow> team_preference list" where
  "extract_preferences rows =
     map preference_of
       (filter (\<lambda>row. \<not> sum_list (map decay_weight (dg_ages row)) < real MIN_EVIDENCE_THRESHOLD * 0.5) rows)"

definition preference_line :: "team_preference \<Rightarrow> string" where
  "preference_line p =
     ''- This team has disputed '' @ tp_category p @ ''/'' @ tp_severity p @ '' findings '' @
     py_str_nat (tp_dispute_count p) @ '' times. Weight these lower (weight: '' @ py_fixed 1 (tp_weight p) @ '').''"

definition build_convention_context :: "dispute_group list \<Rightarrow> string" where
  "build_convention_context rows =
     (let prefs = extract_preferences rows in
      if prefs = [] then []
      else py_join NEWLINE ((''## Team conventions (learned from feedback)'' @ NEWLINE) # map preference_line prefs))"

text \<open>A row of the table of feedback, as far as \<^verbatim>\<open>decay_old_feedback\<close> looks at it.\<close>

record feedback_age =
  fa_age_days :: real
  fa_decayed :: bool

definition decay_old_feedback :: "real \<Rightarrow> feedback_age list \<Rightarrow> nat \<times> feedback_age list" where
  "decay_old_feedback days_older_than rows =
     (length (filter (\<lambda>r. days_older_than < fa_age_days r \<and> \<not> fa_decayed r) rows),
      map (\<lambda>r. if days_older_than < fa_age_days r \<and> \<not> fa_decayed r then r\<lparr>fa_decayed := True\<rparr> else r) rows)"

subsection \<open>Decay\<close>

lemma decay_weight_bounds: "0 \<le> age \<Longrightarrow> 0 \<le> decay_weight age \<and> decay_weight age \<le> 1"
  by (simp add: decay_weight_def DECAY_HALF_LIFE_DAYS_def)

lemma decay_weight_antitone: "age \<le> age' \<Longrightarrow> decay_weight age' \<le> decay_weight age"
  by (auto simp: decay_weight_def DECAY_HALF_LIFE_DAYS_def)

text \<open>Within the year the loss over a time depends on its length only.\<close>

theorem decay_is_exponential:
  assumes "0 \<le> t" and "0 \<le> age" and "age + t \<le> MAX_FEEDBACK_AGE_DAYS"
  shows "decay_weight (age + t) = decay_weight age * decay_weight t \<and>
    decay_weight (age + t) \<le> decay_weight age \<and> 0 < decay_weight (age + t) \<and> decay_weight age \<le> 1"
proof -
  have "age \<le> MAX_FEEDBACK_AGE_DAYS" "t \<le> MAX_FEEDBACK_AGE_DAYS" using assms by simp_all
  then have "decay_weight (age + t) = decay_weight age * decay_weight t"
    using assms by (simp add: decay_weight_def exp_add [symmetric] DECAY_HALF_LIFE_DAYS_def add_divide_distrib algebra_simps)
  moreover have "0 < decay_weight (age + t)" using assms(3) by (simp add: decay_weight_def)
  ultimately show ?thesis
    using decay_weight_antitone [of age "age + t"] decay_weight_bounds [of age] assms by simp
qed

lemma decay_is_exponential_witness: "decay_weight (90 + 90) = decay_weight 90 * decay_weight 90 \<and> 0 < decay_weight (90 + 90)"
  using decay_is_exponential [of 90 90] by (simp add: MAX_FEEDBACK_AGE_DAYS_def)

subsection \<open>Preferences\<close>

lemma weights_between:
  "\<forall>a \<in> set ages. 0 \<le> a \<Longrightarrow> 0 \<le> sum_list (map decay_weight ages) \<and> sum_list (map decay_weight ages) \<le> real (length ages)"
proof (induction ages)
  case (Cons a ages)
  with decay_weight_bounds [of a] show ?case by auto
qed simp

lemma decay_weight_old: "\<not> age \<le> MAX_FEEDBACK_AGE_DAYS \<Longrightarrow> decay_weight age = 0"
  by (simp add: decay_weight_def)

lemma weights_live:
  assumes "\<forall>a \<in> set ages. 0 \<le> a"
  shows "sum_list (map decay_weight ages) \<le> real (length (filter (\<lambda>a. a \<le> MAX_FEEDBACK_AGE_DAYS) ages))"
  using assms
proof (induction ages)
  case (Cons a ages)
  with decay_weight_bounds [of a] decay_weight_old [of a] show ?case by auto
qed simp

definition having_evidence :: "dispute_group \<Rightarrow> bool" where
  "having_evidence row \<longleftrightarrow>
     dg_count row = length (dg_ages row) \<and> MIN_EVIDENCE_THRESHOLD \<le> dg_count row \<and> (\<forall>a \<in> set (dg_ages row). 0 \<le> a)"

text \<open>The minimum-evidence rule. Over rows that satisfy the query's \<^verbatim>\<open>HAVING\<close> clause, every preference
  stands for a group of at least three disputes, weighs between half the threshold and their number, and at
  least two of its disputes are of the last year; groups that weigh less are left out and no others.\<close>

theorem preferences_need_evidence:
  assumes "\<forall>row \<in> set rows. having_evidence row"
  shows "(\<forall>p \<in> set (extract_preferences rows).
      3 \<le> tp_dispute_count p \<and> 3 / 2 \<le> tp_weight p \<and> tp_weight p \<le> real (tp_dispute_count p) \<and>
      (\<exists>row \<in> set rows. p = preference_of row \<and>
         2 \<le> length (filter (\<lambda>a. a \<le> MAX_FEEDBACK_AGE_DAYS) (dg_ages row)))) \<and>
    (\<forall>row \<in> set rows. preference_of row \<in> set (extract_preferences rows) \<or> tp_weight (preference_of row) < 3 / 2)"
proof -
  have "3 \<le> tp_dispute_count p \<and> 3 / 2 \<le> tp_weight p \<and> tp_weight p \<le> real (tp_dispute_count p) \<and>
      (\<exists>row \<in> set rows. p = preference_of row \<and> 2 \<le> length (filter (\<lambda>a. a \<le> MAX_FEEDBACK_AGE_DAYS) (dg_ages row)))"
    if p: "p \<in> set (extract_preferences rows)" for p
  proof -
    obtain row where row: "row \<in> set rows" "p = preference_of row"
      and heavy: "3 / 2 \<le> sum_list (map decay_weight (dg_ages row))"
      using p by (auto simp: extract_preferences_def MIN_EVIDENCE_THRESHOLD_def)
    from assms row have ev: "having_evidence row" by blast
    then have "\<forall>a \<in> set (dg_ages row). 0 \<le> a" by (simp add: having_evidence_def)
    with weights_between weights_live
    have "sum_list (map decay_weight (dg_ages row)) \<le> real (length (dg_ages row))"
      and "sum_list (map decay_weight (dg_ages row)) \<le> real (length (filter (\<lambda>a. a \<le> MAX_FEEDBACK_AGE_DAYS) (dg_ages row)))"
      by blast+
    with heavy ev row show ?thesis
      by (auto simp: preference_of_def having_evidence_def MIN_EVIDENCE_THRESHOLD_def intro!: bexI [of _ row])
  qed
  moreover have "preference_of row \<in> set (extract_preferences rows) \<or> tp_weight (preference_of row) < 3 / 2"
    if "row \<in> set rows" for row
    using that by (auto simp: extract_preferences_def preference_of_def MIN_EVIDENCE_THRESHOLD_def)
  ultimately show ?thesis by blast
qed

definition grumpy_group :: dispute_group where
  "grumpy_group =
     \<lparr>dg_category = ''style'', dg_severity = ''low'', dg_count = 3, dg_last_seen = 0, dg_ages = [0, 0, 0]\<rparr>"

lemma preferences_need_evidence_witness:
  "list_all (\<lambda>p. 3 \<le> tp_dispute_count p \<and> tp_weight p \<le> real (tp_dispute_count p)) (extract_preferences [grumpy_group])"
proof -
  have "\<forall>row \<in> set [grumpy_group]. having_evidence row"
    by (simp add: having_evidence_def grumpy_group_def MIN_EVIDENCE_THRESHOLD_def)
  from preferences_need_evidence [OF this] show ?thesis by (auto simp: list_all_iff)
qed

text \<open>The threshold counts disputes and not the people or the occasions behind them: three disputes sent at
  once, by whomever, are a preference.\<close>

lemma one_afternoon_is_enough:
  "map tp_pattern (extract_preferences [grumpy_group]) = [''style/low''] \<and>
   map tp_weight (extract_preferences [grumpy_group]) = [3]"
  by (simp add: extract_preferences_def preference_of_def grumpy_group_def decay_weight_def
      MIN_EVIDENCE_THRESHOLD_def MAX_FEEDBACK_AGE_DAYS_def)

subsection \<open>Marking old feedback\<close>

text \<open>Nothing is deleted, the answer is the number of rows that were marked, exactly the old rows are marked
  afterwards beside those that were, and a second run marks nothing.\<close>

theorem decay_keeps_rows:
  assumes "decay_old_feedback days rows = (n, rows')"
  shows "map fa_age_days rows' = map fa_age_days rows \<and>
    map fa_decayed rows' = map (\<lambda>r. fa_decayed r \<or> days < fa_age_days r) rows \<and>
    length (filter fa_decayed rows') = length (filter fa_decayed rows) + n \<and>
    decay_old_feedback days rows' = (0, rows')"
proof -
  from assms have r: "rows' = map (\<lambda>r. if days < fa_age_days r \<and> \<not> fa_decayed r then r\<lparr>fa_decayed := True\<rparr> else r) rows"
    and n: "n = length (filter (\<lambda>r. days < fa_age_days r \<and> \<not> fa_decayed r) rows)"
    by (auto simp: decay_old_feedback_def)
  have "length (filter fa_decayed rows') = length (filter fa_decayed rows) + n"
    unfolding r n by (induction rows) auto
  moreover have "decay_old_feedback days rows' = (0, rows')"
    unfolding r decay_old_feedback_def by (auto simp: filter_empty_conv)
  ultimately show ?thesis by (auto simp: r)
qed

lemma decay_keeps_rows_witness:
  "map fa_decayed (snd (decay_old_feedback 365 [\<lparr>fa_age_days = 400, fa_decayed = False\<rparr>, \<lparr>fa_age_days = 3, fa_decayed = False\<rparr>])) =
   [True, False]"
proof -
  let ?rows = "[\<lparr>fa_age_days = 400, fa_decayed = False\<rparr>, \<lparr>fa_age_days = 3, fa_decayed = False\<rparr>]"
  obtain n rows' where d: "decay_old_feedback 365 ?rows = (n, rows')" by fastforce
  from decay_keeps_rows [OF d] d show ?thesis by simp
qed

end
