(* ===== verification/PoolLife.thy ===== *)
theory PoolLife
  imports Transition
begin

section \<open>The connection pool\<close>

text \<open>
  \<^verbatim>\<open>db/pool.py\<close>: one pool for the process, made on first use by whichever task comes first. A task runs
  undisturbed from one \<^verbatim>\<open>await\<close> to the next, so the operations are cut there: \<^verbatim>\<open>get_pool\<close> waits for the
  lock and for the new pool, \<^verbatim>\<open>close_pool\<close> for the end of the connections. Pools are numbered in the order
  they are made. The properties: without closing, the tasks share one pool however they interleave; closing takes
  no lock, and two tasks that close at once can lose a pool that a third has just opened.
\<close>

datatype pool_task = Idle | Waiting | Creating | Closing nat | Holding nat

record pool_world =
  pl_pool :: "nat option"
  pl_lock :: "nat option"
  pl_tasks :: "nat \<Rightarrow> pool_task"
  pl_created :: nat
  pl_closed :: "nat set"

definition fresh_pool :: pool_world where
  "fresh_pool = \<lparr>pl_pool = None, pl_lock = None, pl_tasks = (\<lambda>t. Idle), pl_created = 0, pl_closed = {}\<rparr>"

definition set_task :: "nat \<Rightarrow> pool_task \<Rightarrow> pool_world \<Rightarrow> pool_world" where
  "set_task t x w = w\<lparr>pl_tasks := (pl_tasks w)(t := x)\<rparr>"

text \<open>\<^verbatim>\<open>get_pool\<close>, from its call to the first \<^verbatim>\<open>await\<close>; with the lock acquired; and when
  \<^verbatim>\<open>create_pool\<close> returns or raises.\<close>

definition get_begin :: "nat \<Rightarrow> pool_world \<Rightarrow> pool_world" where
  "get_begin t w = (case pl_pool w of Some p \<Rightarrow> set_task t (Holding p) w | None \<Rightarrow> set_task t Waiting w)"

definition get_locked :: "nat \<Rightarrow> pool_world \<Rightarrow> pool_world" where
  "get_locked t w =
     (case pl_pool w of
        Some p \<Rightarrow> set_task t (Holding p) w
      | None \<Rightarrow> (set_task t Creating w)\<lparr>pl_lock := Some t\<rparr>)"

definition get_created :: "nat \<Rightarrow> bool \<Rightarrow> pool_world \<Rightarrow> pool_world" where
  "get_created t ok w =
     (if ok
      then (set_task t (Holding (pl_created w)) w)
        \<lparr>pl_pool := Some (pl_created w), pl_created := pl_created w + 1, pl_lock := None\<rparr>
      else (set_task t Idle w)\<lparr>pl_lock := None\<rparr>)"

text \<open>\<^verbatim>\<open>close_pool\<close>, up to and after the wait for the pool to close.\<close>

definition close_begin :: "nat \<Rightarrow> pool_world \<Rightarrow> pool_world" where
  "close_begin t w = (case pl_pool w of None \<Rightarrow> w | Some p \<Rightarrow> set_task t (Closing p) w)"

definition close_end :: "nat \<Rightarrow> nat \<Rightarrow> pool_world \<Rightarrow> pool_world" where
  "close_end t p w = (set_task t Idle w)\<lparr>pl_pool := None, pl_closed := insert p (pl_closed w)\<rparr>"

inductive get_step :: "pool_world \<Rightarrow> pool_world \<Rightarrow> bool" where
  get_call: "pl_tasks w t = Idle \<Longrightarrow> get_step w (get_begin t w)"
| get_lock: "pl_tasks w t = Waiting \<Longrightarrow> pl_lock w = None \<Longrightarrow> get_step w (get_locked t w)"
| get_create: "pl_tasks w t = Creating \<Longrightarrow> get_step w (get_created t ok w)"
| get_done: "pl_tasks w t = Holding p \<Longrightarrow> get_step w (set_task t Idle w)"

inductive pool_step :: "pool_world \<Rightarrow> pool_world \<Rightarrow> bool" where
  pool_get: "get_step w w' \<Longrightarrow> pool_step w w'"
| pool_close: "pl_tasks w t = Idle \<Longrightarrow> pool_step w (close_begin t w)"
| pool_closed: "pl_tasks w t = Closing p \<Longrightarrow> pool_step w (close_end t p w)"

lemmas pool_ops = get_begin_def get_locked_def get_created_def close_begin_def close_end_def set_task_def

subsection \<open>One pool\<close>

definition pool_init :: "pool_world \<Rightarrow> bool" where
  "pool_init w \<longleftrightarrow> w = fresh_pool"

text \<open>The task that creates is the one with the lock, and it has found no pool; every pool a task holds is the
  pool of the process, and that is the only one made.\<close>

definition pool_inv :: "pool_world \<Rightarrow> bool" where
  "pool_inv w \<longleftrightarrow>
     (\<forall>t. pl_tasks w t = Creating \<longleftrightarrow> pl_lock w = Some t) \<and>
     (pl_lock w \<noteq> None \<longrightarrow> pl_pool w = None) \<and>
     (\<forall>t p. pl_tasks w t = Holding p \<longrightarrow> pl_pool w = Some p) \<and>
     pl_created w = (if pl_pool w = None then 0 else 1) \<and> (\<forall>p. pl_pool w = Some p \<longrightarrow> p = 0)"

interpretation one_pool: invariant_system pool_init get_step pool_inv
proof
  fix w assume "pool_init w"
  then show "pool_inv w" by (simp add: pool_init_def pool_inv_def fresh_pool_def)
next
  fix w w' assume inv: "pool_inv w" and step: "get_step w w'"
  have maker: "pl_tasks w t = Creating \<longleftrightarrow> pl_lock w = Some t" for t
    using inv unfolding pool_inv_def by blast
  from step show "pool_inv w'"
  proof cases
    case (get_call t)
    with inv maker [of t] show ?thesis by (auto simp: pool_inv_def pool_ops split: option.splits)
  next
    case (get_lock t)
    with inv show ?thesis by (auto simp: pool_inv_def pool_ops split: option.splits)
  next
    case (get_create t ok)
    then have "pl_lock w = Some t" "pl_pool w = None" using inv by (auto simp: pool_inv_def)
    with get_create inv show ?thesis by (auto simp: pool_inv_def pool_ops)
  next
    case (get_done t p)
    then have same: "pl_lock w' = pl_lock w" "pl_pool w' = pl_pool w" "pl_created w' = pl_created w"
      and making: "\<forall>u. pl_tasks w' u = Creating \<longleftrightarrow> pl_tasks w u = Creating"
      and held: "\<forall>u q. pl_tasks w' u = Holding q \<longrightarrow> pl_tasks w u = Holding q"
      by (simp_all add: pool_ops)
    have "\<forall>u q. pl_tasks w' u = Holding q \<longrightarrow> pl_pool w = Some q"
      using inv held unfolding pool_inv_def by blast
    moreover have "\<forall>u. pl_tasks w' u = Creating \<longleftrightarrow> pl_lock w = Some u" using making maker by blast
    ultimately show ?thesis using inv unfolding pool_inv_def same by blast
  qed
qed

text \<open>However many tasks ask for the pool at once and whichever attempts fail, at most one pool is made, at most
  one task is making it, and all tasks that have a pool have the same one.\<close>

theorem pool_made_once:
  assumes "reachable pool_init get_step w"
  shows "pl_created w \<le> 1 \<and>
    (\<forall>t u. pl_tasks w t = Creating \<and> pl_tasks w u = Creating \<longrightarrow> t = u) \<and>
    (\<forall>t u p q. pl_tasks w t = Holding p \<and> pl_tasks w u = Holding q \<longrightarrow> p = q)"
proof -
  have inv: "pool_inv w" using assms by (rule one_pool.reachable_inv)
  then have "pl_created w \<le> 1" by (simp add: pool_inv_def)
  moreover have "t = u" if "pl_tasks w t = Creating" "pl_tasks w u = Creating" for t u
  proof -
    have "pl_lock w = Some t" "pl_lock w = Some u" using inv that unfolding pool_inv_def by blast+
    then show ?thesis by simp
  qed
  moreover have "p = q" if "pl_tasks w t = Holding p" "pl_tasks w u = Holding q" for t u p q
  proof -
    have "pl_pool w = Some p" "pl_pool w = Some q" using inv that unfolding pool_inv_def by blast+
    then show ?thesis by simp
  qed
  ultimately show ?thesis by blast
qed

definition two_askers :: pool_world where
  "two_askers = get_created 0 True (get_locked 0 (get_begin 1 (get_begin 0 fresh_pool)))"

lemma two_askers_reachable: "reachable pool_init get_step (get_locked 1 two_askers)"
proof -
  have "reachable pool_init get_step fresh_pool" by (rule reach_init) (simp add: pool_init_def)
  then have "reachable pool_init get_step (get_begin 0 fresh_pool)"
    by (rule reach_step) (rule get_call, simp add: fresh_pool_def)
  then have "reachable pool_init get_step (get_begin 1 (get_begin 0 fresh_pool))"
    by (rule reach_step) (rule get_call, auto simp: fresh_pool_def pool_ops)
  then have "reachable pool_init get_step (get_locked 0 (get_begin 1 (get_begin 0 fresh_pool)))"
    by (rule reach_step) (rule get_lock, auto simp: fresh_pool_def pool_ops)
  then have "reachable pool_init get_step two_askers"
    unfolding two_askers_def by (rule reach_step) (rule get_create, auto simp: fresh_pool_def pool_ops)
  then show ?thesis
    by (rule reach_step) (rule get_lock, auto simp: two_askers_def fresh_pool_def pool_ops)
qed

lemma pool_made_once_witness:
  "pl_created (get_locked 1 two_askers) = 1 \<and> pl_tasks (get_locked 1 two_askers) 0 = pl_tasks (get_locked 1 two_askers) 1"
proof -
  have "pl_created (get_locked 1 two_askers) \<le> 1" using pool_made_once [OF two_askers_reachable] by blast
  then show ?thesis by (simp add: two_askers_def fresh_pool_def pool_ops)
qed

subsection \<open>Closing\<close>

text \<open>Closing takes no lock. Two tasks close pool 0, the first is done, a third opens pool 1, and the second,
  still waiting, then clears the global: pool 1 stays open, nothing refers to it, and the next caller makes a
  third pool.\<close>

definition lost_pool :: pool_world where
  "lost_pool =
     (let w1 = get_created 0 True (get_locked 0 (get_begin 0 fresh_pool));
          w2 = close_begin 2 (close_begin 1 w1);
          w3 = get_begin 3 (close_end 1 0 w2)
      in close_end 2 0 (get_created 3 True (get_locked 3 w3)))"

theorem closing_can_lose_a_pool:
  "reachable pool_init pool_step lost_pool \<and> pl_pool lost_pool = None \<and> pl_created lost_pool = 2 \<and>
   1 \<notin> pl_closed lost_pool \<and> pl_tasks lost_pool 3 = Holding 1"
proof -
  let ?w1 = "get_created 0 True (get_locked 0 (get_begin 0 fresh_pool))"
  let ?w2 = "close_begin 2 (close_begin 1 ?w1)"
  let ?w3 = "get_begin 3 (close_end 1 0 ?w2)"
  have get: "reachable pool_init pool_step w'" if "reachable pool_init pool_step w" "get_step w w'" for w w'
    using that by (blast intro: reach_step pool_get)
  have "reachable pool_init pool_step (get_begin 0 fresh_pool)"
    by (rule get [OF reach_init]) (auto simp: pool_init_def fresh_pool_def intro: get_call)
  then have "reachable pool_init pool_step (get_locked 0 (get_begin 0 fresh_pool))"
    by (rule get) (rule get_lock, auto simp: fresh_pool_def pool_ops)
  then have "reachable pool_init pool_step ?w1"
    by (rule get) (rule get_create, auto simp: fresh_pool_def pool_ops)
  then have "reachable pool_init pool_step (close_begin 1 ?w1)"
    by (rule reach_step) (rule pool_close, auto simp: fresh_pool_def pool_ops)
  then have "reachable pool_init pool_step ?w2"
    by (rule reach_step) (rule pool_close, auto simp: fresh_pool_def pool_ops)
  then have "reachable pool_init pool_step (close_end 1 0 ?w2)"
    by (rule reach_step) (rule pool_closed, auto simp: fresh_pool_def pool_ops)
  then have "reachable pool_init pool_step ?w3"
    by (rule get) (rule get_call, auto simp: fresh_pool_def pool_ops)
  then have "reachable pool_init pool_step (get_locked 3 ?w3)"
    by (rule get) (rule get_lock, auto simp: fresh_pool_def pool_ops)
  then have "reachable pool_init pool_step (get_created 3 True (get_locked 3 ?w3))"
    by (rule get) (rule get_create, auto simp: fresh_pool_def pool_ops)
  then have "reachable pool_init pool_step (close_end 2 0 (get_created 3 True (get_locked 3 ?w3)))"
    by (rule reach_step) (rule pool_closed, auto simp: fresh_pool_def pool_ops)
  then show ?thesis by (simp add: lost_pool_def Let_def) (simp add: fresh_pool_def pool_ops)
qed

end
