(* ===== verification/Worker.thy ===== *)
theory Worker
  imports Pipeline
begin

section \<open>The worker\<close>

text \<open>
  \<^verbatim>\<open>queue/worker.py\<close> and the payload of \<^verbatim>\<open>queue/dispatch.py\<close>: ingress writes a job into the queue as
  JSON, the worker validates it back and runs the review. Of the conversions the validator makes for foreign
  payloads (numbers written as text and the like) none is modelled. The property: the worker reviews the job that was enqueued, and
  reports its outcome.
\<close>

definition job_payload :: "webhook_job \<Rightarrow> json" where
  "job_payload job =
     JObj [(''delivery_id'', JStr (j_delivery_id job)), (''event'', JStr (j_event job)), (''action'', JStr (j_action job)),
           (''repo_full_name'', JStr (j_repo_full_name job)), (''repo_github_id'', JInt (j_repo_github_id job)),
           (''is_private'', JBool (j_is_private job)), (''pr_number'', JInt (j_pr_number job)),
           (''head_sha'', JStr (j_head_sha job)), (''base_sha'', JStr (j_base_sha job)), (''title'', JStr (j_title job)),
           (''author'', JStr (j_author job))]"

definition required :: "string \<Rightarrow> json \<Rightarrow> exc + json" where
  "required k payload =
     (case payload of
        JObj kvs \<Rightarrow> (case jget k kvs of None \<Rightarrow> Inl (ValueError ''Field required'') | Some v \<Rightarrow> Inr v)
      | _ \<Rightarrow> Inl (ValueError ''Input should be a valid dictionary''))"

definition optional :: "string \<Rightarrow> json \<Rightarrow> json \<Rightarrow> exc + json" where
  "optional k d payload =
     (case payload of JObj kvs \<Rightarrow> Inr (jget_or k d kvs) | _ \<Rightarrow> Inl (ValueError ''Input should be a valid dictionary''))"

definition int_field :: "json \<Rightarrow> exc + int" where
  "int_field v = (case v of JInt i \<Rightarrow> Inr i | _ \<Rightarrow> Inl (ValueError ''Input should be a valid integer''))"

definition bool_field :: "json \<Rightarrow> exc + bool" where
  "bool_field v = (case v of JBool b \<Rightarrow> Inr b | _ \<Rightarrow> Inl (ValueError ''Input should be a valid boolean''))"

definition validate_job :: "json \<Rightarrow> exc + webhook_job" where
  "validate_job p =
     ebind (ebind (required ''delivery_id'' p) str_field) (\<lambda>delivery.
     ebind (ebind (required ''event'' p) str_field) (\<lambda>event.
     ebind (ebind (required ''action'' p) str_field) (\<lambda>action.
     ebind (ebind (required ''repo_full_name'' p) str_field) (\<lambda>repo.
     ebind (ebind (required ''repo_github_id'' p) int_field) (\<lambda>gid.
     ebind (ebind (optional ''is_private'' (JBool True) p) bool_field) (\<lambda>private.
     ebind (ebind (required ''pr_number'' p) int_field) (\<lambda>number.
     ebind (ebind (required ''head_sha'' p) str_field) (\<lambda>head_sha.
     ebind (ebind (required ''base_sha'' p) str_field) (\<lambda>base_sha.
     ebind (ebind (optional ''title'' (JStr []) p) str_field) (\<lambda>title.
     ebind (ebind (optional ''author'' (JStr []) p) str_field) (\<lambda>author.
       Inr \<lparr>j_delivery_id = delivery, j_event = event, j_action = action, j_repo_full_name = repo,
            j_repo_github_id = gid, j_is_private = private, j_pr_number = number, j_head_sha = head_sha,
            j_base_sha = base_sha, j_title = title, j_author = author\<rparr>)))))))))))"

definition review_result :: "(uuid \<Rightarrow> string) \<Rightarrow> review_outcome \<Rightarrow> (string \<times> json) list" where
  "review_result id_text out =
     [(''review_id'', JStr (id_text (o_review_id out))), (''decision'', JStr (decision_str (o_decision out))),
      (''findings'', JInt (int (length (o_findings out)))),
      (''confidence'', JFloat (Fin (o_overall_confidence out))), (''cost_usd'', JFloat (Fin (o_total_cost_usd out)))]"

definition run_review ::
  "(uuid \<Rightarrow> string) \<Rightarrow> 'v pipe_env \<Rightarrow> json \<Rightarrow> (pipe_world, (string \<times> json) list) effect" where
  "run_review id_text env payload =
     eff_bind (eff_lift (validate_job payload)) (\<lambda>job.
     eff_bind (review_pull_request env job None True) (\<lambda>out. eff_return (review_result id_text out)))"

lemma validate_payload: "validate_job (job_payload job) = Inr job"
  by (cases job) (simp add: validate_job_def job_payload_def required_def optional_def jget_def jget_or_def str_field_def
      int_field_def bool_field_def)

text \<open>A job goes through the queue unchanged: the worker that takes the payload runs the review of that very job,
  with posting on, and ends as the review ends; and a payload that lacks its delivery id changes nothing.\<close>

theorem queued_job_reviewed:
  "run_review id_text env (job_payload job) w =
     (case review_pull_request env job None True w of
        (Inl e, w') \<Rightarrow> (Inl e, w')
      | (Inr out, w') \<Rightarrow> (Inr (review_result id_text out), w')) \<and>
   (jget ''delivery_id'' kvs = None \<longrightarrow>
      run_review id_text env (JObj kvs) w = (Inl (ValueError ''Field required''), w))"
proof -
  have "validate_job (JObj kvs) = Inl (ValueError ''Field required'')" if "jget ''delivery_id'' kvs = None"
    using that by (simp add: validate_job_def required_def)
  then show ?thesis
    by (auto simp: run_review_def validate_payload eff_bind_def split: prod.splits sum.splits)
qed

lemma queued_job_reviewed_witness:
  "run_review (\<lambda>i. []) sample_pipe_env (JObj []) sample_pipe_world = (Inl (ValueError ''Field required''), sample_pipe_world)"
  using queued_job_reviewed [of "\<lambda>i. []" sample_pipe_env sample_job sample_pipe_world "[]"]
  by (simp add: jget_def)

end
