(* ===== verification/CompareArms.thy ===== *)
theory CompareArms
  imports Rescore Gate
begin

section \<open>Two arms of repeated runs\<close>

text \<open>
  \<^verbatim>\<open>scripts/compare_arms.py\<close>: eight numbers are read off every run of two recorded evaluations, and a
  metric counts as changed only if the ranges of its values in the two arms do not meet. The numbers of a
  report are finite. The properties: the verdict is that all runs of one arm beat all runs of the other, so
  its comparison of means decides nothing on its own; and the findings it counts as posted are those the gate's bars let
  through, but for the confidences that the report has rounded up to the bar.
\<close>

subsection \<open>The numbers of one run\<close>

definition NOISE_PHRASES :: "string \<rightharpoonup> string list" where
  "NOISE_PHRASES =
     [''docs'' \<mapsto> [''lacks'', ''missing'', ''no docstring'', ''undocumented'', ''has no'', ''not documented'']]"

definition DOCS_CATEGORIES :: "string list" where
  "DOCS_CATEGORIES = [''documentation'', ''readability'', ''convention'']"

definition LOWER_IS_BETTER :: "string list" where
  "LOWER_IS_BETTER =
     [''findings_total'', ''noise_notes'', ''out_of_lane'', ''posted'', ''calibration_error'', ''cost_per_case'']"

definition finite_number :: "json \<Rightarrow> exc + real" where
  "finite_number v =
     ebind (json_number v) (\<lambda>x. case x of Fin r \<Rightarrow> Inr r | _ \<Rightarrow> Inl (ValueError ''not a finite number''))"

definition str_entry :: "string \<Rightarrow> json \<Rightarrow> exc + string" where
  "str_entry k v = ebind (json_index k v) typed_str"

definition postable :: "json \<Rightarrow> exc + bool" where
  "postable f =
     ebind (ebind (json_index ''confidence'' f) finite_number) (\<lambda>c.
       if 60 / 100 \<le> c then ebind (json_index ''severity'' f) (\<lambda>s. Inr (s \<noteq> JStr ''info'')) else Inr False)"

definition e_count :: "('a \<Rightarrow> exc + bool) \<Rightarrow> 'a list \<Rightarrow> exc + real" where
  "e_count p xs = ebind (e_traverse p xs) (\<lambda>bs. Inr (real (length (filter (\<lambda>b. b) bs))))"

definition case_findings :: "json \<Rightarrow> exc + json list" where
  "case_findings c = ebind (json_get ''findings'' (JList []) c) typed_list"

definition report_findings :: "json \<Rightarrow> exc + json list" where
  "report_findings report =
     ebind (json_index ''per_case'' report) (\<lambda>cases.
     ebind (typed_list cases) (\<lambda>cs.
     ebind (e_traverse case_findings cs) (\<lambda>fss. Inr (concat fss))))"

definition in_scope :: "string option \<Rightarrow> json \<Rightarrow> exc + bool" where
  "in_scope agent f =
     (case agent of None \<Rightarrow> Inr True | Some a \<Rightarrow> ebind (json_index ''agent'' f) (\<lambda>v. Inr (v = JStr a)))"

definition noise_notes :: "string option \<Rightarrow> json list \<Rightarrow> exc + real" where
  "noise_notes agent fs =
     (case Option.bind agent NOISE_PHRASES of
        None \<Rightarrow> Inr (- 1)
      | Some ws \<Rightarrow> e_count (\<lambda>f. ebind (str_entry ''title'' f) (\<lambda>t. Inr (\<exists>w \<in> set ws. py_contains w (py_lower t)))) fs)"

definition out_of_lane :: "string option \<Rightarrow> json list \<Rightarrow> exc + real" where
  "out_of_lane agent fs =
     e_count (\<lambda>f. if agent = Some ''docs''
                  then ebind (json_index ''category'' f) (\<lambda>c. Inr (c \<notin> JStr ` set DOCS_CATEGORIES)) else Inr False) fs"

definition arm_bucket :: "json \<Rightarrow> string option \<Rightarrow> exc + json" where
  "arm_bucket report agent =
     (case agent of
        None \<Rightarrow> json_index ''overall'' report
      | Some a \<Rightarrow> ebind (json_index ''by_agent'' report) (json_get a (JObj [])))"

definition per_run :: "json \<Rightarrow> string option \<Rightarrow> exc + (string \<times> real) list" where
  "per_run report agent =
     ebind (report_findings report) (\<lambda>fs.
     ebind (e_filter (in_scope agent) fs) (\<lambda>scoped.
     ebind (arm_bucket report agent) (\<lambda>bucket.
     ebind (noise_notes agent scoped) (\<lambda>noise.
     ebind (out_of_lane agent scoped) (\<lambda>lane.
     ebind (e_count postable scoped) (\<lambda>posted.
     ebind (ebind (json_get ''precision_strict'' float_zero bucket) finite_number) (\<lambda>precision.
     ebind (ebind (json_get ''recall'' float_zero bucket) finite_number) (\<lambda>rec.
     ebind (ebind (json_index ''calibration'' report) (json_index ''expected_calibration_error'')) (\<lambda>ece_v.
     ebind (finite_number ece_v) (\<lambda>err.
     ebind (ebind (json_index ''cost'' report) (json_index ''per_case_usd'')) (\<lambda>cost_v.
     ebind (finite_number cost_v) (\<lambda>cost.
       Inr [(''findings_total'', real (length scoped)), (''noise_notes'', noise), (''out_of_lane'', lane),
            (''posted'', posted), (''precision'', precision), (''recall'', rec), (''calibration_error'', err),
            (''cost_per_case'', cost)]))))))))))))"

definition load_arm :: "json \<Rightarrow> string option \<Rightarrow> exc + (string \<times> real) list list" where
  "load_arm payload agent =
     ebind (json_get ''runs'' JNull payload) (\<lambda>runs.
       if \<not> truthy runs then Inl SystemExit
       else ebind (typed_list runs) (e_traverse (\<lambda>r. per_run r agent)))"

subsection \<open>The verdict\<close>

definition mean :: "real list \<Rightarrow> real" where
  "mean xs = sum_list xs / real (length xs)"

definition separated :: "real list \<Rightarrow> real list \<Rightarrow> bool" where
  "separated va vb \<longleftrightarrow> Max (set va) < Min (set vb) \<or> Max (set vb) < Min (set va)"

definition arm_verdict :: "string \<Rightarrow> real list \<Rightarrow> real list \<Rightarrow> string" where
  "arm_verdict key va vb =
     (if \<not> separated va vb then ''within noise''
      else if (if key \<in> set LOWER_IS_BETTER then mean vb < mean va else mean va < mean vb)
      then ''separated, better'' else ''separated, WORSE'')"

definition range_text :: "real list \<Rightarrow> string" where
  "range_text xs = py_fixed 2 (Min (set xs)) @ ''-'' @ py_fixed 2 (Max (set xs))"

definition values_of :: "string \<Rightarrow> (string \<times> real) list list \<Rightarrow> real list" where
  "values_of key rows = map (\<lambda>r. the (map_of r key)) rows"

definition metric_row :: "(string \<times> real) list list \<Rightarrow> (string \<times> real) list list \<Rightarrow> string \<Rightarrow> string list" where
  "metric_row a b key =
     (let va = values_of key a; vb = values_of key b in
      if hd va = - 1 \<or> hd vb = - 1 then []
      else [''  '' @ ljust 20 key @ rjust 10 (py_fixed 3 (mean va)) @ rjust 13 (range_text va) @
            rjust 10 (py_fixed 3 (mean vb)) @ rjust 13 (range_text vb) @ ''   '' @ arm_verdict key va vb])"

definition render_arms ::
  "(string \<times> real) list list \<Rightarrow> (string \<times> real) list list \<Rightarrow> string \<Rightarrow> string \<Rightarrow> string \<Rightarrow> string" where
  "render_arms a b label_a label_b scope =
     py_join NEWLINE
       ([[], ''  '' @ scope @ ''   n='' @ py_str_nat (length a) @ '' vs n='' @ py_str_nat (length b),
         ''  '' @ ljust 20 ''metric'' @ rjust 10 label_a @ rjust 13 ''range'' @ rjust 10 label_b @
           rjust 13 ''range'' @ ''   verdict'',
         ''  '' @ replicate 80 CHR ''-''] @
        concat (map (metric_row a b) (map fst (hd a))))"

definition SCOPES :: "(string \<times> string option) list" where
  "SCOPES =
     [(''OVERALL'', None), (''docs agent'', Some ''docs''), (''security agent'', Some ''security''),
      (''correctness agent'', Some ''correctness''), (''tests agent'', Some ''tests'')]"

text \<open>What is printed before the closing remarks, and the arms the note on calibration is printed for.\<close>

definition arms_tables :: "json \<Rightarrow> json \<Rightarrow> string \<Rightarrow> string \<Rightarrow> exc + string list" where
  "arms_tables a b label_a label_b =
     e_traverse (\<lambda>(scope, agent).
       ebind (load_arm a agent) (\<lambda>ra. ebind (load_arm b agent) (\<lambda>rb.
         Inr (render_arms ra rb label_a label_b scope)))) SCOPES"

definition noted_arms :: "json \<Rightarrow> json \<Rightarrow> string \<Rightarrow> string \<Rightarrow> exc + (string \<times> real) list" where
  "noted_arms a b label_a label_b =
     ebind (e_traverse (\<lambda>(label, payload).
        ebind (load_arm payload None) (\<lambda>rows. Inr (label, mean (values_of ''precision'' rows))))
        [(label_a, a), (label_b, b)])
       (\<lambda>ms. Inr (filter (\<lambda>(label, precision). 95 / 100 < precision) ms))"

subsection \<open>What a verdict says\<close>

lemma mean_in_range:
  assumes "xs \<noteq> []"
  shows "Min (set xs) \<le> mean xs \<and> mean xs \<le> Max (set xs)"
proof -
  have "real (length ys) * lo \<le> sum_list ys \<and> sum_list ys \<le> real (length ys) * hi"
    if "\<forall>y \<in> set ys. lo \<le> y \<and> y \<le> hi" for ys and lo hi :: real
    using that by (induction ys) (auto simp: algebra_simps)
  from this [of xs "Min (set xs)" "Max (set xs)"] assms show ?thesis
    by (simp add: mean_def le_divide_eq divide_le_eq mult.commute)
qed

lemma ranges_ordered: "xs \<noteq> [] \<Longrightarrow> ys \<noteq> [] \<Longrightarrow> Max (set xs) < Min (set ys) \<longleftrightarrow> (\<forall>x \<in> set xs. \<forall>y \<in> set ys. x < y)"
  by (auto simp: Max_less_iff Min_gr_iff)

lemma mean_ordered: "xs \<noteq> [] \<Longrightarrow> ys \<noteq> [] \<Longrightarrow> Max (set xs) < Min (set ys) \<Longrightarrow> mean xs < mean ys"
  using mean_in_range [of xs] mean_in_range [of ys] by linarith

definition beats :: "string \<Rightarrow> real \<Rightarrow> real \<Rightarrow> bool" where
  "beats key x y \<longleftrightarrow> (if key \<in> set LOWER_IS_BETTER then x < y else y < x)"

text \<open>The verdict on a metric. A candidate is better exactly if each of its runs beats each run of the
  baseline, worse exactly if each of its runs loses to each, and everything else is noise; so one lucky run
  is never an improvement, and the comparison of the means follows that of the runs.\<close>

theorem arm_verdict_unanimous:
  assumes "va \<noteq> []" and "vb \<noteq> []"
  shows "(arm_verdict key va vb = ''separated, better'' \<longleftrightarrow> (\<forall>y \<in> set vb. \<forall>x \<in> set va. beats key y x)) \<and>
    (arm_verdict key va vb = ''separated, WORSE'' \<longleftrightarrow> (\<forall>y \<in> set vb. \<forall>x \<in> set va. beats key x y)) \<and>
    (arm_verdict key va vb = ''within noise'' \<longleftrightarrow>
       \<not> (\<forall>y \<in> set vb. \<forall>x \<in> set va. beats key y x) \<and> \<not> (\<forall>y \<in> set vb. \<forall>x \<in> set va. beats key x y))"
proof -
  let ?up = "Max (set va) < Min (set vb)" and ?down = "Max (set vb) < Min (set va)"
  have up: "?up \<longleftrightarrow> (\<forall>x \<in> set va. \<forall>y \<in> set vb. x < y)" and down: "?down \<longleftrightarrow> (\<forall>y \<in> set vb. \<forall>x \<in> set va. y < x)"
    by (rule ranges_ordered; simp add: assms)+
  have means: "?up \<Longrightarrow> mean va < mean vb" "?down \<Longrightarrow> mean vb < mean va"
    using assms mean_ordered by blast+
  have better: "(\<forall>y \<in> set vb. \<forall>x \<in> set va. beats key y x) \<longleftrightarrow> (if key \<in> set LOWER_IS_BETTER then ?down else ?up)"
    unfolding up down by (auto simp: beats_def)
  have worse: "(\<forall>y \<in> set vb. \<forall>x \<in> set va. beats key x y) \<longleftrightarrow> (if key \<in> set LOWER_IS_BETTER then ?up else ?down)"
    unfolding up down by (auto simp: beats_def)
  have never_both: "\<not> (?up \<and> ?down)" using means by fastforce
  show ?thesis
    unfolding better worse using means never_both by (auto simp: arm_verdict_def separated_def)
qed

lemma arm_verdict_unanimous_witness:
  "arm_verdict ''recall'' [1 / 2, 6 / 10] [7 / 10, 8 / 10] = ''separated, better'' \<and>
   arm_verdict ''recall'' [1 / 2, 6 / 10] [55 / 100, 9 / 10] = ''within noise''"
proof -
  have "arm_verdict ''recall'' [1 / 2, 6 / 10] [7 / 10, 8 / 10] = ''separated, better''"
    using arm_verdict_unanimous [of "[1 / 2, 6 / 10]" "[7 / 10, 8 / 10]" "''recall''"]
    by (simp add: beats_def LOWER_IS_BETTER_def)
  moreover have "arm_verdict ''recall'' [1 / 2, 6 / 10] [55 / 100, 9 / 10] = ''within noise''"
    using arm_verdict_unanimous [of "[1 / 2, 6 / 10]" "[55 / 100, 9 / 10]" "''recall''"]
    by (simp add: beats_def LOWER_IS_BETTER_def)
  ultimately show ?thesis by simp
qed

subsection \<open>What is counted as posted\<close>

lemma postable_recorded:
  "postable (match_dict m) =
     Inr (60 / 100 \<le> py_round 3 (f_confidence (lm_finding m)) \<and> f_severity (lm_finding m) \<noteq> INFO)"
  by (cases "f_severity (lm_finding m)")
    (simp_all add: postable_def match_dict_def Let_def json_index_def jget_def rounded_def finite_number_def json_number_def)

lemma bars_in_report:
  "clears_bars default_settings f \<Longrightarrow> 60 / 100 \<le> py_round 3 (f_confidence f) \<and> f_severity f \<noteq> INFO"
  "60 / 100 \<le> py_round 3 (f_confidence f) \<Longrightarrow> f_severity f \<noteq> INFO \<Longrightarrow>
     5995 / 10000 \<le> f_confidence f \<and> severity_index MINOR \<le> severity_index (f_severity f)"
proof -
  have "py_round 3 (60 / 100) = 60 / 100" by (simp add: py_round_def round_half_even_def)
  then show "clears_bars default_settings f \<Longrightarrow> 60 / 100 \<le> py_round 3 (f_confidence f) \<and> f_severity f \<noteq> INFO"
    using py_round_mono [of "60 / 100" "f_confidence f" 3]
    by (auto simp: clears_bars_def default_settings_def)
  assume "60 / 100 \<le> py_round 3 (f_confidence f)" "f_severity f \<noteq> INFO"
  moreover have "py_round 3 (f_confidence f) - f_confidence f \<le> 1 / 2000"
    using abs_le_D1 [OF py_round_error [of 3 "f_confidence f"]] by simp
  ultimately show "5995 / 10000 \<le> f_confidence f \<and> severity_index MINOR \<le> severity_index (f_severity f)"
    by (cases "f_severity f") auto
qed

lemma e_count_mapped:
  "(\<And>x. x \<in> set xs \<Longrightarrow> p (g x) = Inr (q x)) \<Longrightarrow> e_count p (map g xs) = Inr (real (length (filter q xs)))"
  by (simp add: e_count_def e_traverse_mapped filter_map comp_def)

lemma e_filter_mapped:
  "(\<And>x. x \<in> set xs \<Longrightarrow> p (g x) = Inr (q x)) \<Longrightarrow> e_filter p (map g xs) = Inr (map g (filter q xs))"
  by (induction xs) simp_all

definition scope_matches :: "string option \<Rightarrow> eval_report \<Rightarrow> label_match list" where
  "scope_matches agent r =
     filter (\<lambda>m. case agent of None \<Rightarrow> True | Some a \<Rightarrow> agent_str (f_agent (lm_finding m)) = a)
       (concat (map cr_matches (er_cases r)))"

lemma report_findings_written:
  "report_findings (JObj (report_dict r)) = Inr (map match_dict (concat (map cr_matches (er_cases r))))"
proof -
  have "case_findings (case_dict c) = Inr (map match_dict (cr_matches c))" for c
    by (simp add: case_findings_def case_dict_def json_get_def jget_or_def jget_def typed_list_def)
  then have "e_traverse case_findings (map case_dict (er_cases r)) = Inr (map (\<lambda>c. map match_dict (cr_matches c)) (er_cases r))"
    by (simp add: e_traverse_mapped)
  then show ?thesis
    by (simp add: report_findings_def report_dict_def json_index_def jget_def typed_list_def map_concat comp_def)
qed

lemma scope_written:
  "e_filter (in_scope agent) (map match_dict ms) =
     Inr (map match_dict (filter (\<lambda>m. case agent of None \<Rightarrow> True | Some a \<Rightarrow> agent_str (f_agent (lm_finding m)) = a) ms))"
  by (rule e_filter_mapped)
    (auto simp: in_scope_def match_dict_def Let_def json_index_def jget_def split: option.splits)

lemma bucket_numbers:
  "ebind (json_get ''precision_strict'' float_zero (bucket_dict b)) finite_number = Inr (py_round 3 (precision_strict b))"
  "ebind (json_get ''recall'' float_zero (bucket_dict b)) finite_number = Inr (py_round 3 (recall b))"
  by (simp_all add: bucket_dict_def json_get_def jget_or_def jget_def finite_number_def json_number_def rounded_def)

lemma map_of_buckets: "map_of (map (\<lambda>(k, b). (k, bucket_dict b)) kbs) k = map_option bucket_dict (map_of kbs k)"
  by (induction kbs) auto

lemma arm_bucket_written:
  "arm_bucket (JObj (report_dict r)) agent =
     Inr (case agent of None \<Rightarrow> bucket_dict (er_overall r)
        | Some a \<Rightarrow> (case map_of (er_by_agent r) a of None \<Rightarrow> JObj [] | Some b \<Rightarrow> bucket_dict b))"
  by (auto simp: arm_bucket_def report_dict_def json_index_def jget_def json_get_def jget_or_def map_of_buckets
      split: option.splits)

lemma e_count_total:
  assumes "\<And>x. \<exists>b. p (g x) = Inr b"
  shows "\<exists>n. e_count p (map g xs) = Inr n"
proof -
  obtain q where "\<And>x. p (g x) = Inr (q x)" using assms by metis
  then show ?thesis using e_count_mapped [of xs p g q] by blast
qed

lemma noise_written: "\<exists>x. noise_notes agent (map match_dict ms) = Inr x"
proof -
  have "\<exists>b. ebind (str_entry ''title'' (match_dict m)) (\<lambda>t. Inr (\<exists>w \<in> set ws. py_contains w (py_lower t))) = Inr b"
    for m and ws :: "string list"
    by (simp add: str_entry_def match_dict_def Let_def json_index_def jget_def typed_str_def)
  then show ?thesis by (auto simp: noise_notes_def e_count_total split: option.splits)
qed

lemma lane_written: "\<exists>x. out_of_lane agent (map match_dict ms) = Inr x"
  unfolding out_of_lane_def
  by (rule e_count_total) (auto simp: match_dict_def Let_def json_index_def jget_def)

lemma arm_bucket_numbers:
  "\<exists>bucket p r'. arm_bucket (JObj (report_dict r)) agent = Inr bucket \<and>
     ebind (json_get ''precision_strict'' float_zero bucket) finite_number = Inr p \<and>
     ebind (json_get ''recall'' float_zero bucket) finite_number = Inr r'"
  unfolding arm_bucket_written
  by (auto simp: bucket_numbers split: option.splits)
    (simp_all add: json_get_def jget_or_def jget_def float_zero_def finite_number_def json_number_def)

lemma filter_weaker: "(\<And>x. p x \<Longrightarrow> q x) \<Longrightarrow> length (filter p xs) \<le> length (filter q xs)"
  by (induction xs) auto

text \<open>What a run gives that the program recorded.\<close>

lemma per_run_written:
  "\<exists>row n. per_run (JObj (report_dict r)) agent = Inr row \<and>
     map_of row ''findings_total'' = Some (real (length (scope_matches agent r))) \<and>
     map_of row ''posted'' = Some (real n) \<and>
     length (filter (\<lambda>m. clears_bars default_settings (lm_finding m)) (scope_matches agent r)) \<le> n \<and>
     n \<le> length (filter (\<lambda>m. 5995 / 10000 \<le> f_confidence (lm_finding m) \<and>
       severity_index MINOR \<le> severity_index (f_severity (lm_finding m))) (scope_matches agent r))"
proof -
  let ?ms = "scope_matches agent r"
  let ?posted = "\<lambda>m. 60 / 100 \<le> py_round 3 (f_confidence (lm_finding m)) \<and> f_severity (lm_finding m) \<noteq> INFO"
  have scoped: "e_filter (in_scope agent) (map match_dict (concat (map cr_matches (er_cases r)))) = Inr (map match_dict ?ms)"
    unfolding scope_matches_def by (rule scope_written)
  have posted: "e_count postable (map match_dict ?ms) = Inr (real (length (filter ?posted ?ms)))"
    by (rule e_count_mapped) (rule postable_recorded)
  obtain bucket p rec where bucket: "arm_bucket (JObj (report_dict r)) agent = Inr bucket"
    "ebind (json_get ''precision_strict'' float_zero bucket) finite_number = Inr p"
    "ebind (json_get ''recall'' float_zero bucket) finite_number = Inr rec"
    using arm_bucket_numbers by blast
  obtain noise lane where marks: "noise_notes agent (map match_dict ?ms) = Inr noise"
    "out_of_lane agent (map match_dict ?ms) = Inr lane"
    using noise_written lane_written by blast
  have nums: "ebind (ebind (json_index ''calibration'' (JObj (report_dict r)))
        (json_index ''expected_calibration_error'')) f = f (rounded 3 (er_ece r))"
    "ebind (ebind (json_index ''cost'' (JObj (report_dict r))) (json_index ''per_case_usd'')) g =
      g (rounded 4 (er_cost_per_case_usd r))" for f :: "json \<Rightarrow> exc + (string \<times> real) list" and g :: "json \<Rightarrow> exc + (string \<times> real) list"
    by (simp_all add: report_dict_def json_index_def jget_def)
  have "finite_number (rounded k x) = Inr (py_round k x)" for k x
    by (simp add: finite_number_def json_number_def rounded_def)
  then have run: "per_run (JObj (report_dict r)) agent = Inr
      [(''findings_total'', real (length ?ms)), (''noise_notes'', noise), (''out_of_lane'', lane),
       (''posted'', real (length (filter ?posted ?ms))), (''precision'', p), (''recall'', rec),
       (''calibration_error'', py_round 3 (er_ece r)), (''cost_per_case'', py_round 4 (er_cost_per_case_usd r))]"
    unfolding per_run_def report_findings_written by (simp add: scoped bucket marks posted nums)
  have "length (filter (\<lambda>m. clears_bars default_settings (lm_finding m)) ?ms) \<le> length (filter ?posted ?ms)"
    by (rule filter_weaker) (rule bars_in_report(1))
  moreover have "length (filter ?posted ?ms) \<le> length (filter (\<lambda>m. 5995 / 10000 \<le> f_confidence (lm_finding m) \<and>
      severity_index MINOR \<le> severity_index (f_severity (lm_finding m))) ?ms)"
    by (rule filter_weaker) (use bars_in_report(2) in blast)
  ultimately show ?thesis unfolding run by auto
qed

text \<open>From a report the program wrote every run gives its numbers, in every scope. The total is the number
  of judged findings of the scope. The posted count is at least the number of those that clear the gate's
  bars under the default settings, and it counts besides them only findings whose confidence the report
  rounded up to the bar from less than half a thousandth below.\<close>

theorem posted_between_bars:
  "\<exists>row n. per_run (JObj (report_dict r)) agent = Inr row \<and>
     map_of row ''findings_total'' = Some (real (length (scope_matches agent r))) \<and>
     map_of row ''posted'' = Some (real n) \<and>
     length (filter (\<lambda>m. clears_bars default_settings (lm_finding m)) (scope_matches agent r)) \<le> n \<and>
     n \<le> length (filter (\<lambda>m. 5995 / 10000 \<le> f_confidence (lm_finding m) \<and>
       severity_index MINOR \<le> severity_index (f_severity (lm_finding m))) (scope_matches agent r))"
  by (rule per_run_written)

end
