(* ===== verification/Cli.thy ===== *)
theory Cli
  imports Pipeline EvalRunner CompareArms
begin

section \<open>The commands of the operator\<close>

text \<open>
  \<^verbatim>\<open>cli.py\<close>: the checks of \<^verbatim>\<open>doctor\<close>, the repository id of \<^verbatim>\<open>index\<close>, the job and the summary of
  \<^verbatim>\<open>replay\<close>, and the report of \<^verbatim>\<open>eval\<close> with its exit code. What the database, Redis and the embedder
  answer are arguments; printing is a list of lines. The properties: doctor leaves the audit trail as it found
  it, whatever the database does, and passes exactly if its checks hold; a replay claims to have posted only if it
  did; the file \<^verbatim>\<open>eval --save\<close> writes is one the comparison scripts read; and the id of a locally indexed
  repository depends on the process.
\<close>

subsection \<open>doctor\<close>

text \<open>A transaction block: what an exception leaves is undone.\<close>

definition in_transaction :: "('e, 'a) effect \<Rightarrow> ('e, 'a) effect" where
  "in_transaction body st = (case body st of (Inl e, st') \<Rightarrow> (Inl e, st) | (Inr x, st') \<Rightarrow> (Inr x, st'))"

definition Rollback :: exc where
  "Rollback = OtherError ''_Rollback'' []"

definition PROBE_INSERT :: string where
  "PROBE_INSERT = ''INSERT INTO agent_events (kind, name, status) VALUES ('decision', 'doctor.probe', 'ok')''"

definition PROBES :: "(string \<times> string) list" where
  "PROBES =
     [(''UPDATE'', ''UPDATE agent_events SET name = 'x' WHERE name = 'doctor.probe'' @ [CHR 0x27]),
      (''DELETE'', ''DELETE FROM agent_events WHERE name = 'doctor.probe'' @ [CHR 0x27]),
      (''TRUNCATE'', ''TRUNCATE agent_events'')]"

text \<open>What the services answer: of the queries, only that for the version, that for the hypertable and the ping have a
  handler. \<open>de_close\<close> is closing the connections at the end.\<close>

record 'e doctor_env =
  de_version :: "exc + string"
  de_extensions :: "exc + (string \<rightharpoonup> string)"
  de_hypertables :: "exc + nat"
  de_execute :: "string \<Rightarrow> ('e, unit) effect"
  de_embedder :: "exc + string \<times> nat"
  de_column_dim :: "exc + int option"
  de_ping :: "exc + unit"
  de_close :: "exc + unit"

record checkup =
  ck_lines :: "string list"
  ck_problems :: "string list"

definition say :: "string \<Rightarrow> checkup \<Rightarrow> checkup" where
  "say l c = c\<lparr>ck_lines := ck_lines c @ [l]\<rparr>"

definition problem :: "string \<Rightarrow> checkup \<Rightarrow> checkup" where
  "problem p c = c\<lparr>ck_problems := ck_problems c @ [p]\<rparr>"

definition check_extension :: "(string \<rightharpoonup> string) \<Rightarrow> string \<Rightarrow> checkup \<Rightarrow> checkup" where
  "check_extension present ext c =
     (case present ext of
        Some v \<Rightarrow> say (''ext '' @ ljust 11 ext @ '': ok '' @ v) c
      | None \<Rightarrow> say (''ext '' @ ljust 11 ext @ '': MISSING'') (problem (''required extension missing: '' @ ext) c))"

definition check_extensions :: "(string \<rightharpoonup> string) \<Rightarrow> checkup \<Rightarrow> checkup" where
  "check_extensions present c =
     say (''ext vectorscale: '' @
          (case present ''vectorscale'' of Some v \<Rightarrow> ''ok '' @ v | None \<Rightarrow> ''absent (HNSW fallback in use)''))
       (fold (check_extension present) [''pgcrypto'', ''vector'', ''timescaledb''] c)"

definition check_hypertable :: "exc + nat \<Rightarrow> checkup \<Rightarrow> exc + checkup" where
  "check_hypertable hyper c =
     (case hyper of
        Inr n \<Rightarrow>
          Inr (if n = 0 then problem ''agent_events is not a hypertable'' (say ''hypertable  : MISSING'' c)
               else say ''hypertable  : ok'' c)
      | Inl e \<Rightarrow>
          (if exc_isinstance e Exception_c
           then Inr (say (''hypertable  : unknown '' @ EM_DASH @ '' '' @ exc_str e) c) else Inl e))"

text \<open>One probe of the audit trail. The block always raises: \<^const>\<open>Rollback\<close> if the statement was accepted.\<close>

definition probe_body :: "(string \<Rightarrow> ('e, unit) effect) \<Rightarrow> string \<Rightarrow> ('e, unit) effect" where
  "probe_body execute statement =
     eff_bind (execute PROBE_INSERT) (\<lambda>_. eff_bind (execute statement) (\<lambda>_. eff_lift (Inl Rollback)))"

definition check_probe ::
  "(string \<Rightarrow> ('e, unit) effect) \<Rightarrow> string \<times> string \<Rightarrow> checkup \<Rightarrow> ('e, checkup) effect" where
  "check_probe execute p c st =
     (case in_transaction (probe_body execute (snd p)) st of
        (Inr _, st') \<Rightarrow> (Inr c, st')
      | (Inl e, st') \<Rightarrow>
          (if \<not> exc_isinstance e Exception_c then (Inl e, st')
           else
             (let rejected = (e \<noteq> Rollback \<and> py_contains ''append-only'' (exc_str e));
                  c1 = (if e = Rollback \<or> rejected then c
                        else problem (''append-only probe for '' @ fst p @ '' failed unexpectedly: '' @ exc_str e) c)
              in (Inr (if rejected
                       then say (''append-only : ok '' @ EM_DASH @ '' '' @ fst p @ '' rejected by the database'') c1
                       else problem (''agent_events accepts '' @ fst p @ ''; the immutability trigger is missing'')
                              (say (''append-only : FAIL '' @ EM_DASH @ '' '' @ fst p @ '' was accepted'') c1)), st'))))"

fun check_probes ::
  "(string \<Rightarrow> ('e, unit) effect) \<Rightarrow> (string \<times> string) list \<Rightarrow> checkup \<Rightarrow> ('e, checkup) effect" where
  "check_probes execute [] c = eff_return c"
| "check_probes execute (p # ps) c = eff_bind (check_probe execute p c) (check_probes execute ps)"

definition dim_mismatch :: "nat \<Rightarrow> int option \<Rightarrow> bool" where
  "dim_mismatch dimension col \<longleftrightarrow> (case col of None \<Rightarrow> False | Some d \<Rightarrow> d \<noteq> 0 \<and> d \<noteq> int dimension)"

definition column_text :: "int option \<Rightarrow> string" where
  "column_text d = (case d of None \<Rightarrow> ''None'' | Some n \<Rightarrow> py_str_int n)"

definition check_dimension :: "string \<Rightarrow> nat \<Rightarrow> int option \<Rightarrow> checkup \<Rightarrow> checkup" where
  "check_dimension name dimension col c =
     (let c1 = say (''vector col  : vector('' @ column_text col @ '')'')
                 (say (''embedder    : '' @ name @ '' dim='' @ py_str_nat dimension) c)
      in if dim_mismatch dimension col
         then say ''dimension   : MISMATCH''
                (problem (''EMBEDDING_DIM='' @ py_str_nat dimension @ '' but code_chunks.embedding is vector('' @
                   column_text col @ ''). Every insert will fail. Fix the env var or re-run a migration '' @
                   ''that widens the column.'') c1)
         else say ''dimension   : ok'' c1)"

definition check_redis :: "exc + unit \<Rightarrow> checkup \<Rightarrow> exc + checkup" where
  "check_redis ping c =
     (case ping of
        Inr _ \<Rightarrow> Inr (say ''redis       : ok'' c)
      | Inl e \<Rightarrow>
          (if exc_isinstance e Exception_c
           then Inr (say (''redis       : FAIL '' @ EM_DASH @ '' '' @ exc_str e) (problem (''redis unreachable: '' @ exc_str e) c))
           else Inl e))"

definition check_config :: "settings \<Rightarrow> string \<Rightarrow> checkup \<Rightarrow> checkup" where
  "check_config s api_key c =
     (let c1 = say (''llm         : '' @ s_llm_provider s @ '' (security='' @ s_model_security s @ '', docs='' @
                 s_model_docs s @ '')'') c;
          c2 = (if s_llm_provider s = ''anthropic'' \<and> api_key = []
                then say ''              no ANTHROPIC_API_KEY set; the SDK will look for a profile'' c1 else c1);
          c3 = (if s_github_webhook_secret s = ''change-me''
                then say ''webhook     : PLACEHOLDER SECRET'' (problem ''GITHUB_WEBHOOK_SECRET is still the placeholder'' c2)
                else c2)
      in if s_github_token s = []
         then say (''github      : no token '' @ EM_DASH @ '' reviews can be computed but not posted'') c3 else c3)"

definition doctor :: "settings \<Rightarrow> string \<Rightarrow> 'e doctor_env \<Rightarrow> ('e, checkup) effect" where
  "doctor s api_key env =
     (let c0 = say (''env         : '' @ s_app_env s) \<lparr>ck_lines = [], ck_problems = []\<rparr> in
      case de_version env of
        Inl e \<Rightarrow>
          (if exc_isinstance e Exception_c
           then eff_return (say (''postgres    : FAIL '' @ EM_DASH @ '' '' @ exc_str e)
                  (problem (''postgres unreachable: '' @ exc_str e) c0))
           else eff_lift (Inl e))
      | Inr version \<Rightarrow>
          eff_bind (eff_lift (de_extensions env)) (\<lambda>present.
          let c1 = check_extensions present
                 (say (''postgres    : ok '' @ EM_DASH @ '' '' @ hd (py_split CHR '','' version)) c0)
          in eff_bind (eff_lift (check_hypertable (de_hypertables env) c1)) (\<lambda>c2.
             eff_bind (check_probes (de_execute env) PROBES c2) (\<lambda>c3.
             eff_bind (eff_lift (de_embedder env)) (\<lambda>(name, dimension).
             eff_bind (eff_lift (de_column_dim env)) (\<lambda>col.
             eff_bind (eff_lift (check_redis (de_ping env) (check_dimension name dimension col c3))) (\<lambda>c4.
             eff_bind (eff_lift (de_close env)) (\<lambda>_.
               eff_return (check_config s api_key c4)))))))))"

text \<open>\<^verbatim>\<open>_report\<close>: the last lines and the exit code.\<close>

definition report_problems :: "string list \<Rightarrow> string list \<times> nat" where
  "report_problems problems =
     (if problems = [] then ([[], ''all checks passed''], 0)
      else ([] # (py_str_nat (length problems) @ '' problem(s):'') # map (\<lambda>p. ''  - '' @ p) problems, 1))"

subsection \<open>What doctor checks and what it leaves\<close>

lemma transaction_undone: "fst (in_transaction body st) = Inl e \<Longrightarrow> snd (in_transaction body st) = st"
  by (auto simp: in_transaction_def split: prod.splits sum.splits)

lemma probe_raises: "\<exists>e. in_transaction (probe_body execute stmt) st = (Inl e, st)"
proof -
  have "\<exists>e. fst (probe_body execute stmt st) = Inl e"
    by (auto simp: probe_body_def eff_bind_def split: prod.splits sum.splits)
  then show ?thesis by (auto simp: in_transaction_def split: prod.splits sum.splits)
qed

definition rejects :: "(string \<Rightarrow> ('e, unit) effect) \<Rightarrow> 'e \<Rightarrow> string \<Rightarrow> bool" where
  "rejects execute st stmt \<longleftrightarrow>
     (\<exists>e. fst (in_transaction (probe_body execute stmt) st) = Inl e \<and> e \<noteq> Rollback \<and>
        py_contains ''append-only'' (exc_str e))"

lemma said [simp]: "ck_problems (say l c) = ck_problems c" "ck_problems (problem p c) = ck_problems c @ [p]"
  by (simp_all add: say_def problem_def)

lemma check_probe_result:
  "snd (check_probe execute p c st) = st \<and>
   (\<forall>c'. fst (check_probe execute p c st) = Inr c' \<longrightarrow>
      (ck_problems c' = [] \<longleftrightarrow> ck_problems c = [] \<and> rejects execute st (snd p)))"
proof -
  obtain e where "in_transaction (probe_body execute (snd p)) st = (Inl e, st)"
    using probe_raises [of execute "snd p" st] by blast
  then show ?thesis by (auto simp: check_probe_def rejects_def Let_def)
qed

lemma check_probes_result:
  "snd (check_probes execute ps c st) = st \<and>
   (\<forall>c'. fst (check_probes execute ps c st) = Inr c' \<longrightarrow>
      (ck_problems c' = [] \<longleftrightarrow> ck_problems c = [] \<and> (\<forall>p \<in> set ps. rejects execute st (snd p))))"
proof (induction ps arbitrary: c)
  case (Cons p ps)
  obtain r st1 where one: "check_probe execute p c st = (r, st1)" by fastforce
  with check_probe_result [of execute p c st] have st1: "st1 = st" by simp
  show ?case
  proof (cases r)
    case (Inl e)
    with one st1 show ?thesis by (simp add: eff_bind_def)
  next
    case (Inr c1)
    with one st1 check_probe_result [of execute p c st] Cons.IH [of c1] show ?thesis
      by (simp add: eff_bind_def)
  qed
qed simp

lemma check_extensions_problems:
  "ck_problems (check_extensions present c) = [] \<longleftrightarrow>
     ck_problems c = [] \<and> present ''pgcrypto'' \<noteq> None \<and> present ''vector'' \<noteq> None \<and> present ''timescaledb'' \<noteq> None"
  by (auto simp: check_extensions_def check_extension_def split: option.splits)

lemma check_hypertable_problems:
  "check_hypertable hyper c = Inr c' \<Longrightarrow> ck_problems c' = [] \<longleftrightarrow> ck_problems c = [] \<and> hyper \<noteq> Inr 0"
  by (auto simp: check_hypertable_def split: sum.splits if_splits)

lemma check_dimension_problems:
  "ck_problems (check_dimension name dimension col c) = [] \<longleftrightarrow> ck_problems c = [] \<and> \<not> dim_mismatch dimension col"
  by (simp add: check_dimension_def Let_def)

lemma check_redis_problems:
  "check_redis ping c = Inr c' \<Longrightarrow> ck_problems c' = [] \<longleftrightarrow> ck_problems c = [] \<and> ping = Inr ()"
  by (auto simp: check_redis_def split: sum.splits if_splits)

lemma check_config_problems:
  "ck_problems (check_config s api_key c) = [] \<longleftrightarrow> ck_problems c = [] \<and> s_github_webhook_secret s \<noteq> ''change-me''"
  by (simp add: check_config_def Let_def)

text \<open>C27. The promises of doctor. Whatever the database does with the probes, the audit trail is afterwards what it
  was. If the checkup completes, the command ends with exit code 0 exactly if the database answers, the three
  extensions are there, the events are in a hypertable as far as can be told, an update, a deletion and a truncation of the
  trail are each refused for being append-only, the dimensions agree, Redis answers and the webhook secret is not
  the placeholder. It does not complete when a query without a handler raises, that for the extensions or for the
  vector column, the embedder cannot be made, or the connections cannot be closed; the command then ends with that
  exception.\<close>

theorem doctor_checks:
  "snd (doctor s api_key env st) = st \<and>
   (\<forall>c. fst (doctor s api_key env st) = Inr c \<longrightarrow>
      (snd (report_problems (ck_problems c)) = 0 \<longleftrightarrow>
         (\<exists>v. de_version env = Inr v) \<and>
         (\<exists>present. de_extensions env = Inr present \<and> present ''pgcrypto'' \<noteq> None \<and> present ''vector'' \<noteq> None \<and>
            present ''timescaledb'' \<noteq> None) \<and> de_hypertables env \<noteq> Inr 0 \<and>
         (\<forall>p \<in> set PROBES. rejects (de_execute env) st (snd p)) \<and>
         (\<exists>name dimension col. de_embedder env = Inr (name, dimension) \<and> de_column_dim env = Inr col \<and>
            \<not> dim_mismatch dimension col) \<and> de_ping env = Inr () \<and>
         s_github_webhook_secret s \<noteq> ''change-me''))"
proof (cases "de_version env")
  case (Inl e)
  then show ?thesis by (simp add: doctor_def Let_def report_problems_def)
next
  case (Inr v)
  note version = this
  let ?c0 = "say (''postgres    : ok '' @ EM_DASH @ '' '' @ hd (py_split CHR '','' v))
    (say (''env         : '' @ s_app_env s) \<lparr>ck_lines = [], ck_problems = []\<rparr>)"
  show ?thesis
  proof (cases "de_extensions env")
    case (Inl e)
    with version show ?thesis by (simp add: doctor_def Let_def eff_bind_def)
  next
    case (Inr present)
    note exts = this
    let ?c1 = "check_extensions present ?c0"
    show ?thesis
    proof (cases "check_hypertable (de_hypertables env) ?c1")
      case (Inl e)
      with version exts show ?thesis by (simp add: doctor_def Let_def eff_bind_def)
    next
      case hyper: (Inr c2)
      obtain r st1 where probes: "check_probes (de_execute env) PROBES c2 st = (r, st1)" by fastforce
      note pr = check_probes_result [of "de_execute env" PROBES c2 st]
      have st1: "st1 = st" using probes pr by simp
      show ?thesis
      proof (cases r)
        case (Inl e)
        with version exts hyper probes st1 show ?thesis by (simp add: doctor_def Let_def eff_bind_def)
      next
        case c3: (Inr c3)
        have p3: "ck_problems c3 = [] \<longleftrightarrow> ck_problems c2 = [] \<and> (\<forall>p \<in> set PROBES. rejects (de_execute env) st (snd p))"
          using pr probes c3 by simp
        note steps = version exts hyper probes st1 c3
        show ?thesis
        proof (cases "de_embedder env"; cases "de_column_dim env")
          fix emb col assume services: "de_embedder env = Inr emb" "de_column_dim env = Inr col"
          obtain name dimension where emb: "emb = (name, dimension)" by fastforce
          show ?thesis
            using steps services emb p3 check_hypertable_problems [OF hyper] check_redis_problems [of "de_ping env"]
            by (cases "check_redis (de_ping env) (check_dimension name dimension col c3)"; cases "de_close env")
              (auto simp: doctor_def Let_def eff_bind_def report_problems_def check_extensions_problems
                check_dimension_problems check_config_problems)
        qed (use steps in \<open>auto simp: doctor_def Let_def eff_bind_def split: prod.splits\<close>)
      qed
    qed
  qed
qed

definition trigger :: "string \<Rightarrow> (nat list, unit) effect" where
  "trigger stmt rows =
     (if startswith stmt ''INSERT'' then (Inr (), rows @ [0])
      else (Inl (OtherError ''InsufficientPrivilegeError'' ''agent_events is append-only''), rows))"

definition healthy_env :: "nat list doctor_env" where
  "healthy_env =
     \<lparr>de_version = Inr ''PostgreSQL 16'', de_extensions = Inr [''pgcrypto'' \<mapsto> ''1'', ''vector'' \<mapsto> ''1'', ''timescaledb'' \<mapsto> ''1''],
      de_hypertables = Inr 1, de_execute = trigger, de_embedder = Inr (''hash'', 1024),
      de_column_dim = Inr (Some 1024), de_ping = Inr (), de_close = Inr ()\<rparr>"

lemma trigger_rejects: "\<not> startswith stmt ''INSERT'' \<Longrightarrow> rejects trigger rows stmt"
proof -
  assume "\<not> startswith stmt ''INSERT''"
  moreover have "py_contains ''append-only'' ''agent_events is append-only''" by code_simp
  ultimately show ?thesis
    by (simp add: rejects_def in_transaction_def probe_body_def eff_bind_def trigger_def PROBE_INSERT_def Rollback_def)
qed

lemma doctor_checks_witness:
  "map_sum (\<lambda>e. ()) (\<lambda>c. snd (report_problems (ck_problems c)))
     (fst (doctor (default_settings\<lparr>s_github_webhook_secret := ''s3cret''\<rparr>) [] healthy_env [7, 8])) = Inr 0 \<and>
   snd (doctor (default_settings\<lparr>s_github_webhook_secret := ''s3cret''\<rparr>) [] healthy_env [7, 8]) = [7, 8]"
proof -
  let ?s = "default_settings\<lparr>s_github_webhook_secret := ''s3cret''\<rparr>"
  note checks = doctor_checks [of ?s "[]" healthy_env "[7, 8]"]
  have "\<forall>p \<in> set PROBES. rejects (de_execute healthy_env) [7, 8] (snd p)"
    by (auto simp: PROBES_def healthy_env_def intro!: trigger_rejects)
  moreover obtain c where c: "fst (doctor ?s [] healthy_env [7, 8]) = Inr c"
  proof -
    have "\<exists>c'. check_probes trigger PROBES c0 [7, 8] = (Inr c', [7, 8])" for c0
    proof -
      have "in_transaction (probe_body trigger stmt) st =
          (Inl (OtherError ''InsufficientPrivilegeError'' ''agent_events is append-only''), st)"
        if "\<not> startswith stmt ''INSERT''" for stmt st
        using that by (simp add: in_transaction_def probe_body_def eff_bind_def trigger_def PROBE_INSERT_def)
      then show ?thesis
        by (simp add: PROBES_def check_probe_def eff_bind_def isinstance_Exception Let_def)
    qed
    then have "\<exists>c. fst (doctor ?s [] healthy_env [7, 8]) = Inr c"
      by (auto simp: doctor_def Let_def eff_bind_def healthy_env_def check_hypertable_def check_redis_def
          split: prod.splits sum.splits)
        (metis Pair_inject sum.distinct(1))
    then show thesis using that by blast
  qed
  ultimately show ?thesis using checks by (simp add: healthy_env_def dim_mismatch_def)
qed

subsection \<open>index\<close>

text \<open>The id an indexed checkout is stored under; \<open>h\<close> is Python's hash of strings.\<close>

definition index_repo_id :: "(string \<Rightarrow> int) \<Rightarrow> string \<Rightarrow> int \<Rightarrow> int" where
  "index_repo_id h repo github_id = (if github_id \<noteq> 0 then github_id else \<bar>h repo\<bar> mod 10 ^ 9)"

definition cli_index_repo :: "(string \<Rightarrow> int) \<Rightarrow> string \<Rightarrow> int \<Rightarrow> store \<Rightarrow> int \<times> store" where
  "cli_index_repo h repo github_id = upsert_repository repo (index_repo_id h repo github_id) ''main''"

text \<open>The hash of a string differs from one Python process to the next. Two runs of \<^verbatim>\<open>index\<close> with the default
  id then make two repositories of one name, so the second run does not replace the index of the first, and a review that arrives
  with GitHub's id finds neither; with the id given the two runs share the repository.\<close>

theorem index_id_not_stable:
  assumes "index_repo_id h repo 0 \<noteq> index_repo_id h' repo 0"
    and "st_repos st (index_repo_id h repo 0) = None" and "st_repos st (index_repo_id h' repo 0) = None"
    and "gid \<noteq> 0"
  shows "fst (cli_index_repo h' repo 0 (snd (cli_index_repo h repo 0 st))) \<noteq> fst (cli_index_repo h repo 0 st) \<and>
    fst (cli_index_repo h' repo gid (snd (cli_index_repo h repo gid st))) = fst (cli_index_repo h repo gid st)"
  using assms
  by (auto simp: cli_index_repo_def index_repo_id_def upsert_repository_def split: option.splits)

lemma index_id_not_stable_witness:
  "fst (cli_index_repo (\<lambda>s. -8) ''o/r'' 0 (snd (cli_index_repo (\<lambda>s. 5) ''o/r'' 0 empty_store))) \<noteq>
   fst (cli_index_repo (\<lambda>s. 5) ''o/r'' 0 empty_store)"
  using index_id_not_stable [of "\<lambda>s. 5" "''o/r''" "\<lambda>s. -8" empty_store 7]
  by (simp add: index_repo_id_def empty_store_def)

subsection \<open>replay\<close>

definition replay_job :: "string \<Rightarrow> string \<Rightarrow> int \<Rightarrow> json \<Rightarrow> exc + webhook_job" where
  "replay_job nonce repo number pr =
     ebind (ebind (json_index ''base'' pr) (json_index ''repo'')) (\<lambda>meta.
     ebind (ebind (json_index ''id'' meta) py_int) (\<lambda>gid.
     ebind (json_get ''private'' (JBool True) meta) (\<lambda>private_v.
     ebind (ebind (ebind (json_index ''head'' pr) (json_index ''sha'')) str_field) (\<lambda>head_sha.
     ebind (ebind (ebind (json_index ''base'' pr) (json_index ''sha'')) str_field) (\<lambda>base_sha.
     ebind (json_get ''title'' JNull pr) (\<lambda>title_v.
     ebind (str_field (json_or title_v (JStr []))) (\<lambda>title.
     ebind (json_get ''user'' JNull pr) (\<lambda>user_v.
     ebind (json_get ''login'' JNull (json_or user_v (JObj []))) (\<lambda>login_v.
     ebind (str_field (json_or login_v (JStr []))) (\<lambda>author.
       Inr \<lparr>j_delivery_id = ''replay-'' @ nonce, j_event = ''pull_request'', j_action = ''synchronize'',
            j_repo_full_name = repo, j_repo_github_id = gid, j_is_private = truthy private_v,
            j_pr_number = number, j_head_sha = head_sha, j_base_sha = base_sha, j_title = title,
            j_author = author\<rparr>))))))))))"

definition replay_finding :: "finding \<Rightarrow> json" where
  "replay_finding f =
     JObj [(''severity'', JStr (severity_str (f_severity f))), (''category'', JStr (category_str (f_category f))),
           (''confidence'', rounded 3 (f_confidence f)),
           (''where'', JStr (f_file_path f @ '':'' @ py_str_int (f_line_start f))), (''title'', JStr (f_title f)),
           (''raised_by'', str_list (if f_agreeing f = [] then [agent_str (f_agent f)] else f_agreeing f))]"

fun status_str :: "verdict_status \<Rightarrow> string" where
  "status_str OK = ''ok''"
| "status_str FAILED = ''failed''"
| "status_str TIMEOUT = ''timeout''"
| "status_str SKIPPED = ''skipped''"
| "status_str BUDGET_DENIED = ''budget_denied''"

definition replay_output :: "(uuid \<Rightarrow> string) \<Rightarrow> bool \<Rightarrow> review_outcome \<Rightarrow> (string \<times> json) list" where
  "replay_output id_text post out =
     [(''review_id'', JStr (id_text (o_review_id out))),
      (''posted_to_github'', JBool (post \<and> decision_str (o_decision out) = ''auto_post'')),
      (''decision'', JStr (decision_str (o_decision out))),
      (''reason'', case o_reason out of None \<Rightarrow> JNull | Some r \<Rightarrow> JStr (reason_str r)),
      (''confidence'', JFloat (Fin (o_overall_confidence out))), (''cost_usd'', rounded 4 (o_total_cost_usd out)),
      (''agents'', JObj (map (\<lambda>v. (agent_str (v_agent v),
         JObj [(''status'', JStr (status_str (v_status v))), (''findings'', count_json (length (v_findings v))),
               (''model'', JStr (v_model v)), (''ms'', JInt (v_duration_ms v))])) (o_verdicts out))),
      (''findings'', JList (map replay_finding (o_findings out)))]"

text \<open>A replay that claims to have posted was asked to post, its review was decided to be posted, and the step
  that posts it came to its end.\<close>

theorem replay_posted_flag:
  assumes "pipeline_act env pr review_id out0 post w = (Inr out, w')"
    and "jget ''posted_to_github'' (replay_output id_text post out) = Some (JBool True)"
  shows "post \<and> o_decision out0 = AUTO_POST \<and> out = out0 \<and> post_step env pr review_id out0 w = (Inr (), w')"
proof -
  have post: "post" and dec: "o_decision out = AUTO_POST"
    using assms(2) by (cases "o_decision out"; simp add: replay_output_def jget_def)+
  show ?thesis
  proof (cases "o_decision out0 = AUTO_POST")
    case True
    with post assms(1) dec show ?thesis
      by (auto simp: pipeline_act_def escalate_step_def Let_def eff_bind_Inr split: prod.splits sum.splits if_splits)
  next
    case False
    with assms(1) dec show ?thesis
      by (cases "o_decision out0") (auto simp: pipeline_act_def escalate_step_def Let_def eff_bind_Inr)
  qed
qed

subsection \<open>eval\<close>

datatype shown = ShownText string | ShownJson json

definition stability_dict :: "eval_report list \<Rightarrow> json" where
  "stability_dict reports =
     JObj [(''runs'', count_json (length reports)),
           (''precision_strict'', JList (map (\<lambda>r. rounded 3 (precision_strict (er_overall r))) reports)),
           (''recall'', JList (map (\<lambda>r. rounded 3 (recall (er_overall r))) reports)),
           (''calibration_error'', JList (map (\<lambda>r. rounded 3 (er_ece r)) reports)),
           (''cost_per_case_usd'', JList (map (\<lambda>r. rounded 4 (er_cost_per_case_usd r)) reports))]"

definition eval_payload :: "eval_report list \<Rightarrow> (string \<times> json) list" where
  "eval_payload reports =
     report_dict (last reports) @
     (if 1 < length reports
      then [(''stability'', stability_dict reports), (''runs'', JList (map (\<lambda>r. JObj (report_dict r)) reports))]
      else [])"

definition eval_shown :: "eval_report list \<Rightarrow> bool \<Rightarrow> bool \<Rightarrow> shown list" where
  "eval_shown reports as_json verbose =
     (if as_json then [ShownJson (JObj (eval_payload reports))]
      else [ShownText (render (last reports) verbose)] @
           (if verbose then [ShownText (unlabelled_union reports)] else []) @ [ShownText (stability reports)])"

text \<open>What is printed and the exit code, and what is saved.\<close>

definition eval_command ::
  "eval_report list \<Rightarrow> bool \<Rightarrow> bool \<Rightarrow> string option \<Rightarrow> json option \<Rightarrow> (exc + shown list \<times> nat) \<times> (string \<times> json) option" where
  "eval_command reports as_json verbose save baseline =
     (let saved = map_option (\<lambda>path. (path, JObj (eval_payload reports))) save;
          out = eval_shown reports as_json verbose @
                (case save of None \<Rightarrow> [] | Some path \<Rightarrow> [ShownText (''saved: '' @ path)])
      in (case baseline of
            None \<Rightarrow> Inr (out, 0)
          | Some b \<Rightarrow>
              ebind (typed_obj b) (\<lambda>kvs.
              ebind (compare_runs (last reports) kvs) (\<lambda>(rendered, regressed).
                Inr (if regressed then (out @ [ShownText rendered, ShownText ''REGRESSION against baseline''], 1)
                     else (out @ [ShownText rendered], 0)))), saved))"

lemma per_run_total: "\<exists>row. per_run (JObj (report_dict r)) agent = Inr row"
  using per_run_written by blast

lemma load_arm_payload:
  assumes "1 < length reports"
  shows "\<exists>rows. load_arm (JObj (eval_payload reports)) agent = Inr rows \<and> length rows = length reports"
proof -
  have "\<forall>r. \<exists>row. per_run (JObj (report_dict r)) agent = Inr row" using per_run_total by blast
  then obtain row where row: "per_run (JObj (report_dict r)) agent = Inr (row r)" for r
    by (auto dest: choice)
  have "json_get ''runs'' JNull (JObj (eval_payload reports)) = Inr (JList (map (\<lambda>r. JObj (report_dict r)) reports))"
    using assms by (simp add: json_get_def jget_or_def jget_def eval_payload_def report_dict_def)
  moreover have "e_traverse (\<lambda>v. per_run v agent) (map (\<lambda>r. JObj (report_dict r)) reports) = Inr (map row reports)"
    by (rule e_traverse_mapped) (rule row)
  ultimately show ?thesis using assms by (auto simp: load_arm_def typed_list_def)
qed

text \<open>The file \<^verbatim>\<open>--save\<close> writes is one the other tools read. Of a repeated evaluation it gives the comparison
  of arms one row of numbers for every run, in every scope; of a single run it is refused there; and as a
  baseline it stands for its last run.\<close>

theorem saved_evaluation_reads:
  assumes "reports \<noteq> []"
  shows "snd (eval_command reports as_json verbose (Some path) baseline) = Some (path, JObj (eval_payload reports)) \<and>
    (if 1 < length reports
     then \<exists>rows. load_arm (JObj (eval_payload reports)) agent = Inr rows \<and> length rows = length reports
     else load_arm (JObj (eval_payload reports)) agent = Inl SystemExit) \<and>
    compare_runs cur (eval_payload reports) = compare_runs cur (report_dict (last reports))"
proof -
  have "load_arm (JObj (eval_payload reports)) agent = Inl SystemExit" if "\<not> 1 < length reports"
    using that by (simp add: load_arm_def json_get_def jget_or_def jget_def eval_payload_def report_dict_def)
  moreover have "jget_or k d (eval_payload reports) = jget_or k d (report_dict (last reports))"
    if "k \<in> {''overall'', ''calibration'', ''cost''}" for k d
    using that by (auto simp: jget_or_def jget_def eval_payload_def report_dict_def)
  then have "compare_runs cur (eval_payload reports) = compare_runs cur (report_dict (last reports))"
    by (simp add: compare_runs_def compare_rows_def sub_dict_def)
  ultimately show ?thesis using load_arm_payload by (simp add: eval_command_def Let_def)
qed

lemma saved_evaluation_reads_witness:
  "\<exists>rows. load_arm (JObj (eval_payload [sample_report 0, sample_report 1])) None = Inr rows \<and> length rows = 2"
  using saved_evaluation_reads [of "[sample_report 0, sample_report 1]" False False "''x.json''" None None "sample_report 0"]
  by (simp add: numeral_2_eq_2)

text \<open>The exit code reports a regression and nothing else: without a baseline the command succeeds, against one it
  fails exactly if the comparison finds a metric worse.\<close>

lemma eval_exit_code:
  "fst (eval_command reports as_json verbose save None) = Inr (out, n) \<Longrightarrow> n = 0"
  "fst (eval_command reports as_json verbose save (Some (JObj kvs))) = Inr (out, n) \<Longrightarrow>
     (\<exists>body. compare_runs (last reports) kvs = Inr (body, n = 1)) \<and> n \<le> 1"
  by (auto simp: eval_command_def Let_def typed_obj_def ebind_Inr split: if_splits)

end
