(* ===== verification/RetrievalEval.thy ===== *)
theory RetrievalEval
  imports Diff
begin

section \<open>Measuring retrieval\<close>

text \<open>
  \<^verbatim>\<open>scripts/eval_retrieval.py\<close> and the classification of \<^verbatim>\<open>scripts/diagnose_retrieval.py\<close>. The truth
  set of a commit are the files that define what its added lines call; the row of the commit compares it
  with the files retrieval returned. \<^verbatim>\<open>git\<close>, the files of a checkout and the retrieval under measurement
  are arguments. The properties: the measures of a row are consistent and lie between 0 and 1; the sample of
  commits has the size asked for and is the newest part of a short history; every needed file is counted under one
  cause.
\<close>

subsection \<open>Calls and definitions\<close>

definition ident_start :: "char \<Rightarrow> bool" where
  "ident_start c \<longleftrightarrow> is_upper c \<or> is_lower c \<or> c = CHR ''_''"

definition ident_char :: "char \<Rightarrow> bool" where
  "ident_char c \<longleftrightarrow> ident_start c \<or> is_digit c"

definition CALL :: rx where
  "CALL = rx_seq [WordB, Grp ''1'' (Seq (Chr ident_start) (Rep ident_char 3 None True)), rx_star is_space, Lit ''('']"

definition DEFINES :: rx where
  "DEFINES =
     rx_seq [BolM, rx_star is_space, Alt (Lit ''def'') (Lit ''class''), rx_plus is_space,
       Grp ''1'' (Seq (Chr ident_start) (rx_star ident_char))]"

text \<open>\<^verbatim>\<open>findall\<close> of a pattern with one group.\<close>

definition findall_group :: "rx \<Rightarrow> string \<Rightarrow> string list" where
  "findall_group r s = List.map_filter (\<lambda>(t, st). group_of ''1'' st) (rx_finditer r s)"

definition EXTRA_BUILTINS :: "string list" where
  "EXTRA_BUILTINS =
     [''print'', ''len'', ''str'', ''int'', ''dict'', ''list'', ''set'', ''tuple'', ''super'', ''isinstance'',
      ''getattr'', ''setattr'', ''hasattr'', ''range'', ''open'', ''format'', ''type'', ''bool'', ''float'', ''bytes'',
      ''sorted'', ''enumerate'', ''zip'', ''min'', ''max'']"

definition called_but_not_defined :: "string set \<Rightarrow> string \<Rightarrow> string set" where
  "called_but_not_defined dir_builtins added =
     {c \<in> set (findall_group CALL added) - set (findall_group DEFINES added) - (dir_builtins \<union> set EXTRA_BUILTINS).
        \<not> startswith c ''_test''}"

text \<open>The dictionary from names to the files that define them, as its pairs. A file that cannot be read has no
  text.\<close>

definition definitions_in :: "(string \<times> string option) list \<Rightarrow> string set \<Rightarrow> string set \<Rightarrow> (string \<times> string) list" where
  "definitions_in files names skip =
     concat (map (\<lambda>(rel, content).
       if rel \<in> skip \<or> py_contains ''/test'' rel \<or> startswith rel ''test'' then []
       else (case content of
               None \<Rightarrow> []
             | Some t \<Rightarrow> map (\<lambda>name. (name, rel)) (filter (\<lambda>name. name \<in> names) (findall_group DEFINES t)))) files)"

definition added_text :: "string \<Rightarrow> string" where
  "added_text diff =
     py_join [CHR 0x0A]
       (map (drop 1) (filter (\<lambda>l. startswith l ''+'' \<and> \<not> startswith l ''+++'') (py_splitlines diff)))"

subsection \<open>The row of a commit\<close>

record commit_row =
  ro_sha :: string
  ro_needed :: nat
  ro_found :: nat
  ro_recall :: real
  ro_rr :: real
  ro_precision :: real
  ro_names :: "string list"

fun reciprocal_rank :: "nat \<Rightarrow> string set \<Rightarrow> string list \<Rightarrow> real" where
  "reciprocal_rank i relevant [] = 0"
| "reciprocal_rank i relevant (p # ps) =
     (if p \<in> relevant then 1 / real i else reciprocal_rank (i + 1) relevant ps)"

definition row_of :: "string \<Rightarrow> string set \<Rightarrow> string list \<Rightarrow> string set \<Rightarrow> commit_row" where
  "row_of sha relevant got names =
     (let seen = dict_fromkeys got; hit_set = set seen \<inter> relevant in
      \<lparr>ro_sha = take 8 sha, ro_needed = card relevant, ro_found = card hit_set,
       ro_recall = real (card hit_set) / real (card relevant), ro_rr = reciprocal_rank 1 relevant seen,
       ro_precision = real (card hit_set) / real (max (length seen) 1),
       ro_names = take 4 (sorted_list_of_set names)\<rparr>)"

record repo_view =
  vw_git :: "string list \<Rightarrow> string"
  vw_files :: "string \<Rightarrow> (string \<times> string option) list"
  vw_context :: "string \<Rightarrow> diff_file list \<Rightarrow> exc + string list"

definition changed_file :: "repo_view \<Rightarrow> string \<Rightarrow> string \<Rightarrow> string \<Rightarrow> exc + diff_file" where
  "changed_file vw parent sha path =
     build_diff_file
       [(''filename'', JStr path), (''status'', JStr ''modified''),
        (''patch'', JStr (py_join [CHR 0x0A]
           (drop 4 (py_splitlines (vw_git vw [''diff'', parent, sha, ''--'', path])))))]"

definition measure_sha :: "string set \<Rightarrow> repo_view \<Rightarrow> string \<Rightarrow> exc + commit_row option" where
  "measure_sha dir_builtins vw sha =
     (let parent = sha @ ''^1'';
          changed = filter (\<lambda>p. endswith p ''.py'') (py_split_ws (vw_git vw [''diff'', ''--name-only'', parent, sha]));
          names = called_but_not_defined dir_builtins (added_text (vw_git vw [''diff'', parent, sha]));
          truth = definitions_in (vw_files vw parent) names (set changed)
      in if changed = [] \<or> truth = [] then Inr None
         else ebind (e_traverse (changed_file vw parent sha) changed) (\<lambda>files.
              ebind (vw_context vw sha files) (\<lambda>got.
                Inr (Some (row_of sha (snd ` set truth) got names)))))"

record retrieval_summary =
  rs_cases :: nat
  rs_recall :: real
  rs_mrr :: real
  rs_precision :: real

definition measure_all :: "string set \<Rightarrow> repo_view \<Rightarrow> string list \<Rightarrow> exc + retrieval_summary option" where
  "measure_all dir_builtins vw shas =
     ebind (e_traverse (measure_sha dir_builtins vw) shas) (\<lambda>found.
       let rows = List.map_filter (\<lambda>x. x) found; n = real (length rows) in
       Inr (if rows = [] then None
            else Some \<lparr>rs_cases = length rows, rs_recall = sum_list (map ro_recall rows) / n,
                       rs_mrr = sum_list (map ro_rr rows) / n,
                       rs_precision = sum_list (map ro_precision rows) / n\<rparr>))"

subsection \<open>Sampling\<close>

text \<open>\<^verbatim>\<open>xs[::step]\<close>\<close>

definition stride :: "nat \<Rightarrow> 'a list \<Rightarrow> 'a list" where
  "stride step xs = map (\<lambda>i. xs ! (i * step)) [0..<(length xs + step - 1) div step]"

definition sample_step :: "nat \<Rightarrow> nat \<Rightarrow> nat" where
  "sample_step len n = max (len div max n 1) 1"

definition sample_commits :: "(string list \<Rightarrow> string) \<Rightarrow> nat \<Rightarrow> string list" where
  "sample_commits git n =
     (let ref0 = py_strip (git [''symbolic-ref'', ''--short'', ''refs/remotes/origin/HEAD'']);
          ref = (if ref0 = [] then ''origin/HEAD'' else ref0);
          shas = py_split_ws (git [''log'', ''--format=%H'', ref, ''--'', ''*.py''])
      in if shas = [] then [] else take n (stride (sample_step (length shas) n) shas))"

subsection \<open>Causes of a miss\<close>

definition rank_hits ::
  "string set \<Rightarrow> nat \<Rightarrow> string list \<Rightarrow> (string \<rightharpoonup> nat) \<times> string set \<Rightarrow> (string \<rightharpoonup> nat) \<times> string set" where
  "rank_hits relevant per_file hits =
     fold (\<lambda>(rank, p) (best, quota).
       if p \<in> relevant
       then (best(p \<mapsto> min (case best p of None \<Rightarrow> 10 ^ 6 | Some b \<Rightarrow> b) rank),
             if rank \<le> per_file then insert p quota else quota)
       else (best, quota)) (enumerate 1 hits)"

definition acc_get :: "string \<Rightarrow> (string \<times> nat) list \<Rightarrow> nat" where
  "acc_get k acc = (case map_of acc k of None \<Rightarrow> 0 | Some n \<Rightarrow> n)"

definition diagnose_path ::
  "nat \<Rightarrow> string set \<Rightarrow> (string \<rightharpoonup> nat) \<Rightarrow> string set \<Rightarrow> string \<Rightarrow> (string \<times> nat) list \<Rightarrow> (string \<times> nat) list" where
  "diagnose_path top_k indexed best within_quota path acc =
     (let acc1 = bump ''needed'' 1 acc in
      if path \<notin> indexed then bump ''never_indexed'' 1 acc1
      else
        (let acc2 = (case best path of
                       None \<Rightarrow> bump ''far_outside'' 1 acc1
                     | Some rank \<Rightarrow>
                         (if 50 < rank then bump ''far_outside'' 1 acc1
                          else if rank \<le> top_k then bump ''in_top_k'' 1 acc1
                          else bump ''just_outside'' 1 acc1))
         in case best path of
              None \<Rightarrow> acc2
            | Some rank \<Rightarrow>
                (if rank \<le> top_k \<and> path \<notin> within_quota then bump ''cut_by_split'' 1 acc2 else acc2)))"

definition diagnose_paths ::
  "nat \<Rightarrow> string set \<Rightarrow> (string \<rightharpoonup> nat) \<Rightarrow> string set \<Rightarrow> string list \<Rightarrow> (string \<times> nat) list \<Rightarrow> (string \<times> nat) list" where
  "diagnose_paths top_k indexed best within_quota = fold (diagnose_path top_k indexed best within_quota)"

subsection \<open>The measures of a row\<close>

lemma reciprocal_rank_cases:
  assumes "0 < i"
  shows "0 \<le> reciprocal_rank i relevant ps \<and> reciprocal_rank i relevant ps \<le> 1 / real i \<and>
    (reciprocal_rank i relevant ps = 0 \<longleftrightarrow> set ps \<inter> relevant = {})"
  using assms
proof (induction ps arbitrary: i)
  case (Cons p ps)
  have "1 / real (i + 1) \<le> 1 / real i" using Cons.prems by (simp add: frac_le)
  with Cons.IH [of "i + 1"] Cons.prems show ?case by auto
qed simp

lemma reciprocal_rank_first:
  "j < length ps \<Longrightarrow> ps ! j \<in> relevant \<Longrightarrow> \<forall>k < j. ps ! k \<notin> relevant \<Longrightarrow> reciprocal_rank i relevant ps = 1 / real (i + j)"
proof (induction j arbitrary: i ps)
  case 0
  then show ?case by (cases ps) auto
next
  case (Suc j)
  then obtain p qs where ps: "ps = p # qs" by (cases ps) auto
  have "p \<notin> relevant" using Suc.prems(3) by (auto simp: ps)
  moreover have "\<forall>k < j. qs ! k \<notin> relevant" using Suc.prems(3) by (auto simp: ps)
  ultimately show ?case using Suc.IH [of qs "i + 1"] Suc.prems by (simp add: ps)
qed

text \<open>A row is consistent. Recall and precision count the same files, all measures lie between 0 and 1, the
  reciprocal rank is that of the first useful file, and one of the measures is 0 exactly if all are.\<close>

theorem row_measures:
  assumes "finite relevant" and "relevant \<noteq> {}"
  shows "let r = row_of sha relevant got names in
    0 \<le> ro_recall r \<and> ro_recall r \<le> 1 \<and> 0 \<le> ro_precision r \<and> ro_precision r \<le> 1 \<and> 0 \<le> ro_rr r \<and> ro_rr r \<le> 1 \<and>
    ro_found r \<le> ro_needed r \<and> ro_recall r * real (ro_needed r) = real (ro_found r) \<and>
    ro_precision r * real (max (length (dict_fromkeys got)) 1) = real (ro_found r) \<and>
    (ro_rr r = 0 \<longleftrightarrow> ro_found r = 0) \<and> (ro_recall r = 0 \<longleftrightarrow> ro_found r = 0) \<and> (ro_precision r = 0 \<longleftrightarrow> ro_found r = 0)"
proof -
  let ?hits = "set got \<inter> relevant"
  have needed: "0 < card relevant" using assms by (simp add: card_gt_0_iff)
  have "card ?hits \<le> card relevant" using assms(1) by (simp add: card_mono)
  moreover have "card ?hits \<le> length (dict_fromkeys got)"
    using card_mono [of "set (dict_fromkeys got)" ?hits] distinct_card [OF distinct_dict_fromkeys [of got]] by simp
  moreover have "reciprocal_rank 1 relevant (dict_fromkeys got) = 0 \<longleftrightarrow> card ?hits = 0"
    using reciprocal_rank_cases [of 1 relevant "dict_fromkeys got"] by (simp add: card_eq_0_iff)
  ultimately show ?thesis
    using needed reciprocal_rank_cases [of 1 relevant "dict_fromkeys got"]
    by (simp add: row_of_def Let_def divide_le_eq le_max_iff_disj)
qed

lemma row_measures_witness:
  "ro_recall (row_of ''abc'' {''x.py'', ''y.py''} [''z.py'', ''x.py'', ''z.py''] {}) * 2 = 1 \<and>
   ro_rr (row_of ''abc'' {''x.py'', ''y.py''} [''z.py'', ''x.py'', ''z.py''] {}) = 1 / 2"
proof -
  have "ro_found (row_of ''abc'' {''x.py'', ''y.py''} [''z.py'', ''x.py'', ''z.py''] {}) = 1"
    by (simp add: row_of_def Let_def Int_insert_left)
  moreover have "ro_needed (row_of ''abc'' {''x.py'', ''y.py''} [''z.py'', ''x.py'', ''z.py''] {}) = 2"
    by (simp add: row_of_def Let_def)
  moreover have "ro_rr (row_of ''abc'' {''x.py'', ''y.py''} [''z.py'', ''x.py'', ''z.py''] {}) = 1 / 2"
    by (simp add: row_of_def Let_def dict_fromkeys_def)
  ultimately show ?thesis
    using row_measures [of "{''x.py'', ''y.py''}" "''abc''" "[''z.py'', ''x.py'', ''z.py'']" "{}"]
    by (simp add: Let_def)
qed

text \<open>A definition with \<^verbatim>\<open>async\<close> before it is not seen: what the added lines define that way counts as
  called and not defined, and no file counts as defining it.\<close>

lemma async_definitions_unseen:
  "findall_group DEFINES ''async def fetch_all(x):'' = [] \<and> findall_group DEFINES ''def fetch_all(x):'' = [''fetch_all''] \<and>
   ''fetch_all'' \<in> called_but_not_defined {} ''async def fetch_all(x):'' \<and>
   ''fetch_all'' \<notin> called_but_not_defined {} ''def fetch_all(x):''"
proof -
  have "findall_group DEFINES ''async def fetch_all(x):'' = []" "findall_group DEFINES ''def fetch_all(x):'' = [''fetch_all'']"
    "findall_group CALL ''async def fetch_all(x):'' = [''fetch_all'']" "findall_group CALL ''def fetch_all(x):'' = [''fetch_all'']"
    by code_simp+
  then show ?thesis by (simp add: called_but_not_defined_def EXTRA_BUILTINS_def)
qed

subsection \<open>What is sampled\<close>

lemma stride_facts:
  assumes "0 < step"
  shows "length (stride step xs) = (length xs + step - 1) div step"
    and "i < (length xs + step - 1) div step \<Longrightarrow> stride step xs ! i = xs ! (i * step) \<and> i * step < length xs"
proof -
  show "length (stride step xs) = (length xs + step - 1) div step" by (simp add: stride_def)
  assume i: "i < (length xs + step - 1) div step"
  then have "Suc i * step \<le> length xs + step - 1"
    using assms by (simp add: less_eq_div_iff_mult_less_eq Suc_le_eq [symmetric] del: mult_Suc)
  with i assms show "stride step xs ! i = xs ! (i * step) \<and> i * step < length xs" by (simp add: stride_def)
qed

lemma sample_step_none: "sample_step 0 n = 1"
  by (simp add: sample_step_def)

lemma sample_size:
  assumes "0 < n"
  shows "min n len \<le> (len + sample_step len n - 1) div sample_step len n"
proof (cases "n \<le> len")
  case True
  then have "0 < len div n" using assms by (simp add: div_greater_zero_iff)
  moreover have "max n 1 = n" using assms by simp
  ultimately have step: "sample_step len n = len div n" "0 < len div n" by (simp_all add: sample_step_def)
  have "n * (len div n) \<le> len + len div n - 1" using step(2) times_div_less_eq_dividend [of n len] by linarith
  with True step show ?thesis by (simp add: less_eq_div_iff_mult_less_eq min_absorb1)
next
  case False
  then have "sample_step len n = 1" by (simp add: sample_step_def)
  with False show ?thesis by simp
qed

text \<open>Every Nth commit. The sample of a history has the size asked for, or is the whole history if that is
  shorter, and takes its commits at equal steps from the newest on; but the steps are whole, so of a history
  of less than twice that size it takes the newest commits only and none of the older ones.\<close>

theorem sample_commits_spread:
  assumes "0 < n" and "py_split_ws (git [''log'', ''--format=%H'', ref, ''--'', ''*.py'']) = shas"
    and "git [''symbolic-ref'', ''--short'', ''refs/remotes/origin/HEAD''] = ref" and "py_strip ref = ref" and "ref \<noteq> []"
  shows "length (sample_commits git n) = min n (length shas) \<and>
    (\<forall>i < length (sample_commits git n). i * sample_step (length shas) n < length shas \<and>
       sample_commits git n ! i = shas ! (i * sample_step (length shas) n)) \<and>
    (length shas < 2 * n \<longrightarrow> sample_commits git n = take n shas)"
proof -
  let ?step = "sample_step (length shas) n"
  have pos: "0 < ?step" by (simp add: sample_step_def)
  have sample: "sample_commits git n = take n (stride ?step shas)"
    using assms by (simp add: sample_commits_def Let_def stride_def sample_step_none)
  have enough: "min n (length shas) \<le> length (stride ?step shas)"
    using sample_size [OF assms(1), of "length shas"] stride_facts(1) [OF pos, of shas] by simp
  have at: "i < length (stride ?step shas) \<Longrightarrow> stride ?step shas ! i = shas ! (i * ?step) \<and> i * ?step < length shas" for i
    using stride_facts(1) [OF pos, of shas] stride_facts(2) [OF pos, of i shas] by simp
  have "length (stride ?step shas) \<le> length shas"
  proof (rule ccontr)
    assume "\<not> ?thesis"
    then have "length shas * ?step < length shas" using at [of "length shas"] by simp
    then show False using pos by (metis mult.right_neutral mult_le_mono2 Suc_leI One_nat_def linorder_not_le)
  qed
  with enough have size: "length (sample_commits git n) = min n (length shas)" by (simp add: sample)
  moreover have each: "i * ?step < length shas \<and> sample_commits git n ! i = shas ! (i * ?step)"
    if "i < length (sample_commits git n)" for i
    using that at [of i] by (simp add: sample)
  moreover have "sample_commits git n = take n shas" if "length shas < 2 * n"
  proof (rule nth_equalityI)
    have "length shas div n \<le> 1" using that by (metis Suc_1 less_Suc_eq_le less_mult_imp_div_less)
    moreover have "max n 1 = n" using assms(1) by simp
    ultimately have one: "?step = 1" by (simp add: sample_step_def)
    show "length (sample_commits git n) = length (take n shas)" by (simp add: size min.commute)
    show "i < length (sample_commits git n) \<Longrightarrow> sample_commits git n ! i = take n shas ! i" for i
      using each [of i] by (simp add: one size)
  qed
  ultimately show ?thesis by blast
qed

definition sample_git :: "string list \<Rightarrow> string" where
  "sample_git args = (if hd args = ''log'' then ''c5 c4 c3 c2 c1'' else ''origin/main'')"

lemma sample_commits_spread_witness: "sample_commits sample_git 3 = [''c5'', ''c4'', ''c3'']"
proof -
  have "py_split_ws ''c5 c4 c3 c2 c1'' = [''c5'', ''c4'', ''c3'', ''c2'', ''c1'']" "py_strip ''origin/main'' = ''origin/main''"
    by code_simp+
  with sample_commits_spread [of 3 sample_git "''origin/main''" "[''c5'', ''c4'', ''c3'', ''c2'', ''c1'']"] show ?thesis
    by (simp add: sample_git_def)
qed

subsection \<open>Every miss has a cause\<close>

lemma acc_get_bump: "acc_get k (bump k' n acc) = acc_get k acc + (if k = k' then n else 0)"
  by (induction acc) (auto simp: acc_get_def)

lemma diagnose_path_counts:
  "acc_get ''needed'' (diagnose_path k indexed best quota p acc) = acc_get ''needed'' acc + 1"
  "acc_get ''never_indexed'' (diagnose_path k indexed best quota p acc) + acc_get ''in_top_k'' (diagnose_path k indexed best quota p acc) +
     acc_get ''just_outside'' (diagnose_path k indexed best quota p acc) + acc_get ''far_outside'' (diagnose_path k indexed best quota p acc) =
   acc_get ''never_indexed'' acc + acc_get ''in_top_k'' acc + acc_get ''just_outside'' acc + acc_get ''far_outside'' acc + 1"
  "k \<le> 50 \<Longrightarrow> acc_get ''cut_by_split'' acc \<le> acc_get ''in_top_k'' acc \<Longrightarrow>
     acc_get ''cut_by_split'' (diagnose_path k indexed best quota p acc) \<le> acc_get ''in_top_k'' (diagnose_path k indexed best quota p acc)"
  by (auto simp: diagnose_path_def Let_def acc_get_bump split: option.splits)

text \<open>Every needed file is counted under exactly one of the four causes; and with a window of at most fifty, as
  the script has, the files the split cut are among those within reach of the window.\<close>

theorem diagnosis_partitions:
  "acc_get ''needed'' (diagnose_paths k indexed best quota ps []) = length ps \<and>
   acc_get ''never_indexed'' (diagnose_paths k indexed best quota ps []) + acc_get ''in_top_k'' (diagnose_paths k indexed best quota ps []) +
     acc_get ''just_outside'' (diagnose_paths k indexed best quota ps []) + acc_get ''far_outside'' (diagnose_paths k indexed best quota ps []) =
   length ps \<and>
   acc_get ''cut_by_split'' (diagnose_paths (min k 50) indexed best quota ps []) \<le>
     acc_get ''in_top_k'' (diagnose_paths (min k 50) indexed best quota ps [])"
proof -
  have count: "acc_get ''needed'' (diagnose_paths k indexed best quota ps acc) = acc_get ''needed'' acc + length ps" for acc
    unfolding diagnose_paths_def by (induction ps arbitrary: acc) (simp_all add: diagnose_path_counts(1))
  have parts: "acc_get ''never_indexed'' (diagnose_paths k indexed best quota ps acc) +
      acc_get ''in_top_k'' (diagnose_paths k indexed best quota ps acc) +
      acc_get ''just_outside'' (diagnose_paths k indexed best quota ps acc) +
      acc_get ''far_outside'' (diagnose_paths k indexed best quota ps acc) =
    acc_get ''never_indexed'' acc + acc_get ''in_top_k'' acc + acc_get ''just_outside'' acc + acc_get ''far_outside'' acc +
      length ps" for acc
    unfolding diagnose_paths_def by (induction ps arbitrary: acc) (simp_all add: diagnose_path_counts(2))
  have "acc_get ''cut_by_split'' (diagnose_paths m indexed best quota ps acc) \<le>
      acc_get ''in_top_k'' (diagnose_paths m indexed best quota ps acc)"
    if "m \<le> 50" "acc_get ''cut_by_split'' acc \<le> acc_get ''in_top_k'' acc" for m acc
    using that unfolding diagnose_paths_def by (induction ps arbitrary: acc) (simp_all add: diagnose_path_counts(3))
  with count [of "[]"] parts [of "[]"] show ?thesis by (simp add: acc_get_def)
qed

end
