(* ===== verification/Mining.thy ===== *)
theory Mining
  imports Matching Effects
begin

section \<open>Mining cases\<close>

text \<open>
  \<^verbatim>\<open>scripts/mine_cases.py\<close>, \<^verbatim>\<open>mine_advisories.py\<close> and \<^verbatim>\<open>mine_introducers.py\<close>: the search for
  merged fixes, published advisories and the commits that introduced a defect. The answers of the \<^verbatim>\<open>gh\<close> and
  \<^verbatim>\<open>git\<close> programs are arguments; an answer that failed or is no JSON is \<^const>\<open>JNull\<close>. The properties: a
  candidate is a small change to one file of code under a title that speaks of a fix; an advisory's candidate is
  small, and its licence is one of the permissive ones; a licence is asked for once.
\<close>

subsection \<open>Merged fixes\<close>

definition FIX_WORDS :: "string list" where
  "FIX_WORDS =
     [''fix'', ''bug'', ''regression'', ''incorrect'', ''wrong'', ''crash'', ''leak'', ''race'', ''off-by-one'', ''None'',
      ''null'', ''broken'', ''fail'', ''error'', ''typo-free'']"

definition SKIP_WORDS :: "string list" where
  "SKIP_WORDS =
     [''bump'', ''release'', ''changelog'', ''typo'', ''docs:'', ''readme'', ''lint'', ''pre-commit'', ''dependabot'',
      ''version'', ''translat'']"

definition MAX_FILES :: int where "MAX_FILES = 2"

definition MAX_CHANGED_LINES :: int where "MAX_CHANGED_LINES = 24"

definition CODE_SUFFIXES :: "string list" where
  "CODE_SUFFIXES = [''.py'', ''.ts'', ''.go'']"

definition looks_like_a_fix :: "string \<Rightarrow> bool" where
  "looks_like_a_fix title =
     (let low = py_lower title in
      \<not> list_ex (\<lambda>w. py_contains w low) SKIP_WORDS \<and> list_ex (\<lambda>w. py_contains w low) FIX_WORDS)"

text \<open>\<^verbatim>\<open>d.get(k) or n\<close> and \<^verbatim>\<open>d[k]\<close> for a number.\<close>

definition int_or :: "string \<Rightarrow> int \<Rightarrow> json \<Rightarrow> exc + int" where
  "int_or k n d = ebind (json_get k JNull d) (\<lambda>v. typed_int (json_or v (JInt n)))"

definition int_at :: "string \<Rightarrow> json \<Rightarrow> exc + int" where
  "int_at k d = ebind (json_index k d) typed_int"

definition str_at :: "string \<Rightarrow> json \<Rightarrow> exc + string" where
  "str_at k d = ebind (json_index k d) typed_str"

definition has_suffix :: "string list \<Rightarrow> string \<Rightarrow> bool" where
  "has_suffix sfx s = list_ex (\<lambda>x. endswith s x) sfx"

definition is_code :: "json \<Rightarrow> exc + bool" where
  "is_code f =
     ebind (str_at ''filename'' f) (\<lambda>name. Inr (has_suffix CODE_SUFFIXES name \<and> \<not> py_contains ''test'' name))"

text \<open>The file of a candidate: the only one that is code, with a patch.\<close>

definition only_code :: "json \<Rightarrow> exc + json option" where
  "only_code files =
     (case files of
        JList fs \<Rightarrow>
          ebind (e_filter is_code fs) (\<lambda>code.
            case code of
              [f] \<Rightarrow> ebind (json_get ''patch'' JNull f) (\<lambda>p. Inr (if truthy p then Some f else None))
            | _ \<Rightarrow> Inr None)
      | _ \<Rightarrow> Inr None)"

definition candidate_row :: "string \<Rightarrow> string \<Rightarrow> json \<Rightarrow> json \<Rightarrow> json \<Rightarrow> exc + json" where
  "candidate_row repo licence pr detail f =
     ebind (json_index ''number'' pr) (\<lambda>number.
     ebind (json_index ''title'' pr) (\<lambda>title.
     ebind (json_index ''html_url'' pr) (\<lambda>url.
     ebind (ebind (json_get ''merge_commit_sha'' (JStr []) detail) typed_str) (\<lambda>sha.
     ebind (json_index ''additions'' detail) (\<lambda>additions.
     ebind (json_index ''deletions'' detail) (\<lambda>deletions.
     ebind (json_index ''filename'' f) (\<lambda>name.
     ebind (json_index ''patch'' f) (\<lambda>patch.
     ebind (json_get ''body'' JNull pr) (\<lambda>body_v.
     ebind (typed_str (json_or body_v (JStr []))) (\<lambda>body.
       Inr (JObj [(''repo'', JStr repo), (''licence'', JStr licence), (''number'', number), (''title'', title),
                  (''url'', url), (''merge_commit'', JStr (take 12 sha)), (''additions'', additions),
                  (''deletions'', deletions), (''file'', name), (''patch'', patch),
                  (''body'', JStr (take 600 body))])))))))))))"

definition candidate_of :: "(string list \<Rightarrow> json) \<Rightarrow> string \<Rightarrow> string \<Rightarrow> json \<Rightarrow> exc + json option" where
  "candidate_of gh repo licence pr =
     ebind (json_get ''merged_at'' JNull pr) (\<lambda>merged.
       if \<not> truthy merged then Inr None
       else ebind (ebind (json_get ''title'' (JStr []) pr) typed_str) (\<lambda>title.
         if \<not> looks_like_a_fix title then Inr None
         else ebind (int_at ''number'' pr) (\<lambda>number.
           let path = ''repos/'' @ repo @ ''/pulls/'' @ py_str_int number; detail = gh [''api'', path] in
           case detail of
             JObj _ \<Rightarrow>
               ebind (int_or ''changed_files'' 99 detail) (\<lambda>changed.
                 if MAX_FILES < changed then Inr None
                 else ebind (int_or ''additions'' 0 detail) (\<lambda>adds. ebind (int_or ''deletions'' 0 detail) (\<lambda>dels.
                   if \<not> (2 \<le> adds + dels \<and> adds + dels \<le> MAX_CHANGED_LINES) then Inr None
                   else ebind (only_code (gh [''api'', path @ ''/files''])) (\<lambda>code.
                     case code of
                       None \<Rightarrow> Inr None
                     | Some f \<Rightarrow> ebind (candidate_row repo licence pr detail f) (\<lambda>row. Inr (Some row))))))
           | _ \<Rightarrow> Inr None)))"

definition candidates_for :: "(string list \<Rightarrow> json) \<Rightarrow> string \<Rightarrow> string \<Rightarrow> nat \<Rightarrow> exc + json list" where
  "candidates_for gh repo licence per_repo =
     (case gh [''api'', ''repos/'' @ repo @ ''/pulls?state=closed&per_page='' @ py_str_nat per_repo @ ''&sort=updated''] of
        JList prs \<Rightarrow> ebind (e_traverse (candidate_of gh repo licence) prs) (\<lambda>cs. Inr (List.map_filter (\<lambda>c. c) cs))
      | _ \<Rightarrow> Inr [])"

subsection \<open>Published advisories\<close>

definition PERMISSIVE :: "string list" where
  "PERMISSIVE = [''mit'', ''apache-2.0'', ''bsd-2-clause'', ''bsd-3-clause'', ''isc'', ''0bsd'']"

definition ADVISORY_SUFFIXES :: "string list" where
  "ADVISORY_SUFFIXES = [''.py'', ''.ts'', ''.js'', ''.go'']"

definition ADVISORY_MAX_FILES :: nat where "ADVISORY_MAX_FILES = 3"

definition ADVISORY_MAX_CHANGED_LINES :: int where "ADVISORY_MAX_CHANGED_LINES = 30"

text \<open>The program with its memory: the licences looked up so far, and the calls made. \<open>gh\<close> may answer
  differently every time it is called.\<close>

record mining =
  mn_licences :: "string \<rightharpoonup> string option"
  mn_calls :: "string list list"

type_synonym gh_program = "string list list \<Rightarrow> string list \<Rightarrow> json"

definition call_gh :: "gh_program \<Rightarrow> string list \<Rightarrow> (mining, json) effect" where
  "call_gh gh args w = (Inr (gh (mn_calls w) args), w\<lparr>mn_calls := mn_calls w @ [args]\<rparr>)"

definition spdx_of :: "json \<Rightarrow> exc + string option" where
  "spdx_of meta =
     (case meta of
        JObj kvs \<Rightarrow>
          (case jget_or ''license'' JNull kvs of
             JObj lic \<Rightarrow>
               ebind (typed_str (json_or (jget_or ''spdx_id'' JNull lic) (JStr []))) (\<lambda>s.
                 Inr (if s = [] then None else Some (py_lower s)))
           | _ \<Rightarrow> Inr None)
      | _ \<Rightarrow> Inr None)"

definition licence_call :: "string \<Rightarrow> string list" where
  "licence_call repo = [''api'', ''repos/'' @ repo]"

definition licence_of :: "gh_program \<Rightarrow> string \<Rightarrow> (mining, string option) effect" where
  "licence_of gh repo w =
     (case mn_licences w repo of
        Some l \<Rightarrow> (Inr l, w)
      | None \<Rightarrow>
          eff_bind (call_gh gh (licence_call repo)) (\<lambda>meta. eff_bind (eff_lift (spdx_of meta)) (\<lambda>l w'.
            (Inr l, w'\<lparr>mn_licences := (mn_licences w')(repo \<mapsto> l)\<rparr>))) w)"

definition COMMIT_REF :: rx where
  "COMMIT_REF =
     rx_seq [Lit ''https://github.com/'', Grp ''1'' (Rep (\<lambda>c. c \<noteq> CHR ''/'') 1 None True), Lit ''/'',
       Grp ''2'' (Rep (\<lambda>c. c \<noteq> CHR ''/'') 1 None True), Lit ''/commit/'',
       Grp ''3'' (Rep (\<lambda>c. is_digit c \<or> c \<in> set ''abcdef'') 7 (Some 40) True)]"

definition commit_ref :: "string \<Rightarrow> (string \<times> string) option" where
  "commit_ref ref =
     (case rx_match COMMIT_REF ref of
        None \<Rightarrow> None
      | Some st \<Rightarrow>
          (case (group_of ''1'' st, group_of ''2'' st, group_of ''3'' st) of
             (Some owner, Some name, Some sha) \<Rightarrow> Some (owner @ ''/'' @ name, sha)
           | _ \<Rightarrow> None))"

definition fixing_commit :: "json \<Rightarrow> exc + (string \<times> string) option" where
  "fixing_commit advisory =
     ebind (json_get ''references'' JNull advisory) (\<lambda>v.
     ebind (typed_list (json_or v (JList []))) (\<lambda>refs.
     ebind (e_traverse typed_str refs) (\<lambda>rs.
       Inr (List.find (\<lambda>_. True) (List.map_filter commit_ref rs)))))"

definition advisory_file :: "json \<Rightarrow> exc + bool" where
  "advisory_file f =
     ebind (str_at ''filename'' f) (\<lambda>name.
       if has_suffix ADVISORY_SUFFIXES name \<and> \<not> py_contains ''test'' (py_lower name)
       then ebind (json_get ''patch'' JNull f) (\<lambda>p. Inr (truthy p)) else Inr False)"

definition file_churn :: "json \<Rightarrow> exc + int" where
  "file_churn f = ebind (int_at ''additions'' f) (\<lambda>a. ebind (int_at ''deletions'' f) (\<lambda>d. Inr (a + d)))"

definition found_file :: "json \<Rightarrow> exc + json" where
  "found_file f =
     ebind (json_index ''filename'' f) (\<lambda>n. ebind (json_index ''patch'' f) (\<lambda>p.
       Inr (JObj [(''filename'', n), (''patch'', p)])))"

definition advisory_row :: "json \<Rightarrow> string \<Rightarrow> string option \<Rightarrow> string \<Rightarrow> json list \<Rightarrow> exc + json" where
  "advisory_row adv repo licence sha fs =
     ebind (json_index ''ghsa_id'' adv) (\<lambda>ghsa.
     ebind (json_index ''severity'' adv) (\<lambda>severity.
     ebind (ebind (json_get ''cwes'' (JList []) adv) typed_list) (\<lambda>cs.
     ebind (e_traverse (json_index ''cwe_id'') cs) (\<lambda>cwes.
     ebind (json_get ''summary'' (JStr []) adv) (\<lambda>summary.
     ebind (json_get ''description'' JNull adv) (\<lambda>d_v.
     ebind (typed_str (json_or d_v (JStr []))) (\<lambda>description.
     ebind (e_traverse found_file fs) (\<lambda>rows.
       Inr (JObj [(''ghsa'', ghsa), (''severity'', severity), (''cwes'', JList cwes), (''summary'', summary),
                  (''description'', JStr (take 700 description)), (''repo'', JStr repo),
                  (''licence'', case licence of None \<Rightarrow> JNull | Some l \<Rightarrow> JStr l), (''sha'', JStr (take 12 sha)),
                  (''commit_url'', JStr (''https://github.com/'' @ repo @ ''/commit/'' @ sha)),
                  (''files'', JList rows)])))))))))"

definition commit_files :: "json \<Rightarrow> exc + json list option" where
  "commit_files commit =
     (case commit of
        JObj _ \<Rightarrow>
          ebind (ebind (json_get ''files'' (JList []) commit) typed_list) (\<lambda>all_files.
          ebind (e_filter advisory_file all_files) (\<lambda>fs.
            if fs = [] \<or> ADVISORY_MAX_FILES < length fs then Inr None
            else ebind (e_traverse file_churn fs) (\<lambda>churns.
              Inr (if 2 \<le> sum_list churns \<and> sum_list churns \<le> ADVISORY_MAX_CHANGED_LINES then Some fs else None))))
      | _ \<Rightarrow> Inr None)"

definition advisory_candidate :: "gh_program \<Rightarrow> json \<Rightarrow> (mining, json option) effect" where
  "advisory_candidate gh adv =
     eff_bind (eff_lift (json_get ''severity'' JNull adv)) (\<lambda>severity.
       if severity \<notin> JStr ` {''high'', ''critical'', ''moderate''} then eff_return None
       else eff_bind (eff_lift (fixing_commit adv)) (\<lambda>found.
         case found of
           None \<Rightarrow> eff_return None
         | Some (repo, sha) \<Rightarrow>
             eff_bind (licence_of gh repo) (\<lambda>licence.
               if licence \<notin> Some ` set PERMISSIVE then eff_return None
               else eff_bind (call_gh gh [''api'', ''repos/'' @ repo @ ''/commits/'' @ sha]) (\<lambda>commit.
                    eff_bind (eff_lift (commit_files commit)) (\<lambda>files.
                      case files of
                        None \<Rightarrow> eff_return None
                      | Some fs \<Rightarrow> eff_bind (eff_lift (advisory_row adv repo licence sha fs)) (\<lambda>row.
                          eff_return (Some row)))))))"

fun advisory_batch :: "gh_program \<Rightarrow> json list \<Rightarrow> (mining, json list) effect" where
  "advisory_batch gh [] = eff_return []"
| "advisory_batch gh (adv # advs) =
     eff_bind (advisory_candidate gh adv) (\<lambda>c. eff_bind (advisory_batch gh advs) (\<lambda>cs.
       eff_return (case c of None \<Rightarrow> cs | Some r \<Rightarrow> r # cs)))"

fun advisory_pages :: "gh_program \<Rightarrow> string \<Rightarrow> nat list \<Rightarrow> (mining, json list) effect" where
  "advisory_pages gh ecosystem [] = eff_return []"
| "advisory_pages gh ecosystem (page # pages) =
     eff_bind (call_gh gh [''api'', ''/advisories?ecosystem='' @ ecosystem @ ''&type=reviewed&per_page=100&page='' @
         py_str_nat page]) (\<lambda>batch.
       case batch of
         JList advs \<Rightarrow>
           (if advs = [] then eff_return []
            else eff_bind (advisory_batch gh advs) (\<lambda>cs. eff_bind (advisory_pages gh ecosystem pages) (\<lambda>ds.
              eff_return (cs @ ds))))
       | _ \<Rightarrow> eff_return [])"

definition advisory_candidates :: "gh_program \<Rightarrow> string \<Rightarrow> nat \<Rightarrow> (mining, json list) effect" where
  "advisory_candidates gh ecosystem pages = advisory_pages gh ecosystem [1..<pages + 1]"

subsection \<open>Introducing commits\<close>

definition removed_lines :: "string \<Rightarrow> string list" where
  "removed_lines diff =
     filter (\<lambda>body. 12 < length body)
       (map (\<lambda>l. py_strip (drop 1 l))
         (filter (\<lambda>l. startswith l ''-'' \<and> \<not> startswith l ''---'') (py_splitlines diff)))"

definition cut_at :: "char \<Rightarrow> string \<Rightarrow> string \<times> string" where
  "cut_at c s = (takeWhile (\<lambda>x. x \<noteq> c) s, drop 1 (dropWhile (\<lambda>x. x \<noteq> c) s))"

record introducing =
  in_sha :: string
  in_date :: string
  in_subject :: string
  in_files :: nat

definition introducer :: "(string list \<Rightarrow> string) \<Rightarrow> string \<Rightarrow> string \<Rightarrow> string \<Rightarrow> introducing option" where
  "introducer run fix_sha path content =
     (case py_splitlines (run [''git'', ''log'', ''-S'', content, ''--reverse'', ''--format=%H%x00%ad%x00%s'',
          ''--date=short'', fix_sha @ ''^1'', ''--'', path]) of
        [] \<Rightarrow> None
      | row # _ \<Rightarrow>
          (case cut_at (CHR 0x00) row of (sha, rest) \<Rightarrow>
           case cut_at (CHR 0x00) rest of (date, subject) \<Rightarrow>
             Some \<lparr>in_sha = take 8 sha, in_date = date, in_subject = subject,
                   in_files = length (filter (\<lambda>l. CHR ''|'' \<in> set l)
                     (py_splitlines (run [''git'', ''show'', ''--stat'', ''--format='', sha])))\<rparr>))"

text \<open>The commits printed for a fix: every introducing commit once, with the first line that led to it.\<close>

fun introducers ::
  "(string list \<Rightarrow> string) \<Rightarrow> string \<Rightarrow> string \<Rightarrow> string set \<Rightarrow> string list \<Rightarrow> (introducing \<times> string) list" where
  "introducers run fix_sha path seen [] = []"
| "introducers run fix_sha path seen (content # contents) =
     (case introducer run fix_sha path content of
        None \<Rightarrow> introducers run fix_sha path seen contents
      | Some hit \<Rightarrow>
          (if in_sha hit \<in> seen then introducers run fix_sha path seen contents
           else (hit, take 80 content) # introducers run fix_sha path (insert (in_sha hit) seen) contents))"

subsection \<open>What is mined\<close>

text \<open>The title is lowered before the words are looked for, so the word \<^verbatim>\<open>None\<close> is never found.\<close>

lemma py_contains_set: "py_contains w s \<Longrightarrow> set w \<subseteq> set s"
  by (induction s) (auto dest!: set_mono_prefix)

lemma lowered_no_capital: "CHR ''N'' \<notin> set (py_lower s)"
proof -
  have "code (lower_char c) \<noteq> 78" for c
    by (cases "is_upper c") (auto simp: lower_char_def is_upper_def code_def)
  moreover have "code (CHR ''N'') = 78" by (simp add: code_def)
  ultimately have "CHR ''N'' \<noteq> lower_char c" for c by metis
  then show ?thesis by (simp add: py_lower_def image_iff)
qed

lemma none_never_found: "\<not> py_contains ''None'' (py_lower title)"
  using py_contains_set [of "''None''" "py_lower title"] lowered_no_capital [of title] by auto

lemma e_filter_member: "e_filter p xs = Inr ys \<Longrightarrow> y \<in> set ys \<Longrightarrow> y \<in> set xs \<and> p y = Inr True"
  using e_filter_set [of p xs ys] by auto

lemma only_code_sound:
  assumes "only_code files = Inr (Some f)"
  shows "\<exists>name. str_at ''filename'' f = Inr name \<and> has_suffix CODE_SUFFIXES name \<and> \<not> py_contains ''test'' name"
proof -
  obtain fs where files: "files = JList fs" using assms by (cases files) (simp_all add: only_code_def)
  obtain code where code: "e_filter is_code fs = Inr code"
    using assms by (auto simp: only_code_def files ebind_Inr)
  have "code = [f]"
    using assms by (auto simp: only_code_def files code ebind_Inr split: list.splits if_splits)
  with code have "is_code f = Inr True" using e_filter_member [of is_code fs code f] by simp
  then show ?thesis by (auto simp: is_code_def ebind_Inr)
qed

definition small_fix :: "json \<Rightarrow> bool" where
  "small_fix c \<longleftrightarrow>
     (\<exists>title name adds dels. str_at ''title'' c = Inr title \<and> looks_like_a_fix title \<and>
        str_at ''file'' c = Inr name \<and> has_suffix CODE_SUFFIXES name \<and> \<not> py_contains ''test'' name \<and>
        int_or ''additions'' 0 c = Inr adds \<and> int_or ''deletions'' 0 c = Inr dels \<and>
        2 \<le> adds + dels \<and> adds + dels \<le> MAX_CHANGED_LINES)"

lemma int_or_entry: "json_index k d = Inr v \<Longrightarrow> int_or k n d = typed_int (json_or v (JInt n))"
  by (cases d) (auto simp: int_or_def json_index_def json_get_def jget_or_def split: option.splits)

lemma str_entry_default: "json_index k d = Inr v \<Longrightarrow> ebind (json_get k x d) typed_str = typed_str v"
  by (cases d) (auto simp: json_index_def json_get_def jget_or_def split: option.splits)

lemma candidate_row_small:
  assumes "candidate_row repo licence pr detail f = Inr c"
    and "ebind (json_get ''title'' (JStr []) pr) typed_str = Inr title" and "looks_like_a_fix title"
    and "str_at ''filename'' f = Inr name" and "has_suffix CODE_SUFFIXES name" and "\<not> py_contains ''test'' name"
    and "int_or ''additions'' 0 detail = Inr adds" and "int_or ''deletions'' 0 detail = Inr dels"
    and "2 \<le> adds + dels" and "adds + dels \<le> MAX_CHANGED_LINES"
  shows "small_fix c"
proof -
  obtain title_v name_v adds_v dels_v where entries: "json_index ''title'' pr = Inr title_v"
      "json_index ''filename'' f = Inr name_v" "json_index ''additions'' detail = Inr adds_v"
      "json_index ''deletions'' detail = Inr dels_v"
    and row: "json_index ''title'' c = Inr title_v" "json_index ''file'' c = Inr name_v"
      "json_index ''additions'' c = Inr adds_v" "json_index ''deletions'' c = Inr dels_v"
    using assms(1) by (auto simp: candidate_row_def ebind_Inr json_index_def [of _ "JObj _"] jget_def)
  have "str_at ''title'' c = Inr title" "str_at ''file'' c = Inr name"
    using assms(2,4) str_entry_default [OF entries(1)] by (simp_all add: str_at_def row entries)
  moreover have "int_or ''additions'' 0 c = Inr adds" "int_or ''deletions'' 0 c = Inr dels"
    using assms(7,8) int_or_entry [OF entries(3)] int_or_entry [OF entries(4)]
      int_or_entry [OF row(3)] int_or_entry [OF row(4)] by simp_all
  ultimately show ?thesis using assms(3,5,6,9,10) by (auto simp: small_fix_def)
qed

lemma candidate_of_small:
  assumes "candidate_of gh repo licence pr = Inr (Some c)"
  shows "small_fix c"
proof -
  obtain title number where title: "ebind (json_get ''title'' (JStr []) pr) typed_str = Inr title" "looks_like_a_fix title"
    and number: "int_at ''number'' pr = Inr number"
    using assms by (auto simp: candidate_of_def ebind_Inr split: if_splits)
  let ?path = "''repos/'' @ repo @ ''/pulls/'' @ py_str_int number"
  obtain kvs where detail: "gh [''api'', ?path] = JObj kvs"
    using assms title number
    by (auto simp: candidate_of_def ebind_Inr Let_def split: if_splits json.splits)
  obtain adds dels f where churn: "int_or ''additions'' 0 (JObj kvs) = Inr adds" "int_or ''deletions'' 0 (JObj kvs) = Inr dels"
      "2 \<le> adds + dels" "adds + dels \<le> MAX_CHANGED_LINES"
    and f: "only_code (gh [''api'', ?path @ ''/files'']) = Inr (Some f)"
    and row: "candidate_row repo licence pr (JObj kvs) f = Inr c"
    using assms title number detail
    by (auto simp: candidate_of_def ebind_Inr Let_def split: if_splits option.splits)
  obtain name where "str_at ''filename'' f = Inr name" "has_suffix CODE_SUFFIXES name" "\<not> py_contains ''test'' name"
    using only_code_sound [OF f] by blast
  with candidate_row_small [OF row title] churn show ?thesis by blast
qed

text \<open>Whatever GitHub answers, a candidate is a change of two to twenty-four lines whose title speaks of a fix
  and of none of the words that mean routine, and its file is code and no test.\<close>

theorem mined_candidates_small:
  assumes "candidates_for gh repo licence per_repo = Inr cs"
  shows "\<forall>c \<in> set cs. small_fix c"
proof
  fix c assume c: "c \<in> set cs"
  let ?page = "gh [''api'', ''repos/'' @ repo @ ''/pulls?state=closed&per_page='' @ py_str_nat per_repo @ ''&sort=updated'']"
  obtain prs where page: "?page = JList prs"
    using assms c by (cases ?page) (simp_all add: candidates_for_def)
  obtain found where found: "e_traverse (candidate_of gh repo licence) prs = Inr found"
    and cs: "cs = List.map_filter (\<lambda>c. c) found"
    using assms unfolding candidates_for_def page json.case(6) ebind_Inr by blast
  have "Some c \<in> set found" using c unfolding cs List.map_filter_def by auto
  from e_traverse_member [OF found this] obtain pr where "candidate_of gh repo licence pr = Inr (Some c)" by blast
  then show "small_fix c" by (rule candidate_of_small)
qed

definition sample_gh :: "string list \<Rightarrow> json" where
  "sample_gh args =
     (if args = [''api'', ''repos/o/r/pulls/7'']
      then JObj [(''changed_files'', JInt 1), (''additions'', JInt 3), (''deletions'', JInt 0)]
      else if args = [''api'', ''repos/o/r/pulls/7/files'']
      then JList [JObj [(''filename'', JStr ''a.py''), (''patch'', JStr ''p'')]]
      else JList [JObj [(''merged_at'', JStr ''t''), (''title'', JStr ''Fix a leak''), (''number'', JInt 7),
                        (''html_url'', JStr ''u'')]])"

lemma mined_candidates_small_witness:
  "\<exists>c. candidates_for sample_gh ''o/r'' ''MIT'' 60 = Inr [c] \<and> small_fix c"
proof -
  have "looks_like_a_fix ''Fix a leak''" by code_simp
  moreover have "py_str_int 7 = ''7''" "has_suffix CODE_SUFFIXES ''a.py''" by code_simp+
  ultimately have "\<exists>c. candidates_for sample_gh ''o/r'' ''MIT'' 60 = Inr [c]"
    by (simp add: candidates_for_def sample_gh_def candidate_of_def json_get_def jget_or_def jget_def typed_str_def
        int_at_def json_index_def typed_int_def int_or_def json_or_def MAX_FILES_def MAX_CHANGED_LINES_def only_code_def
        is_code_def str_at_def candidate_row_def List.map_filter_def)
  then obtain c where c: "candidates_for sample_gh ''o/r'' ''MIT'' 60 = Inr [c]" by blast
  from mined_candidates_small [OF c] c show ?thesis by auto
qed

text \<open>An advisory's files: one to three files of code that are no tests, with two to thirty changed lines.\<close>

lemma commit_files_small:
  assumes "commit_files commit = Inr (Some fs)"
  shows "fs \<noteq> [] \<and> length fs \<le> 3 \<and> (\<forall>f \<in> set fs. advisory_file f = Inr True) \<and>
    (\<exists>churns. e_traverse file_churn fs = Inr churns \<and> 2 \<le> sum_list churns \<and> sum_list churns \<le> 30)"
proof -
  obtain kvs where commit: "commit = JObj kvs" using assms by (cases commit) (simp_all add: commit_files_def)
  obtain all_files gs where gs: "e_filter advisory_file all_files = Inr gs"
    and rest: "(if gs = [] \<or> ADVISORY_MAX_FILES < length gs then Inr None
      else ebind (e_traverse file_churn gs) (\<lambda>churns.
        Inr (if 2 \<le> sum_list churns \<and> sum_list churns \<le> ADVISORY_MAX_CHANGED_LINES then Some gs else None))) =
      Inr (Some fs)"
    using assms by (auto simp: commit_files_def commit ebind_Inr)
  have "gs = fs" "gs \<noteq> []" "length gs \<le> 3"
    and "\<exists>churns. e_traverse file_churn gs = Inr churns \<and> 2 \<le> sum_list churns \<and> sum_list churns \<le> 30"
    using rest by (auto simp: ebind_Inr ADVISORY_MAX_FILES_def ADVISORY_MAX_CHANGED_LINES_def split: if_splits)
  then show ?thesis using e_filter_member [OF gs] by auto
qed

text \<open>A licence that has been looked up is remembered: asking again makes no call.\<close>

lemma licence_remembered:
  assumes "licence_of gh repo w = (Inr l, w')"
  shows "licence_of gh repo w' = (Inr l, w')"
  using assms by (auto simp: licence_of_def call_gh_def eff_bind_def split: option.splits sum.splits)

text \<open>Every introducing commit is printed once.\<close>

lemma introducers_distinct:
  "distinct (map (\<lambda>(h, c). in_sha h) (introducers run fix_sha path seen contents)) \<and>
   in_sha ` fst ` set (introducers run fix_sha path seen contents) \<inter> seen = {}"
  by (induction contents arbitrary: seen) (auto split: option.splits, fastforce+)

end
