(* ===== verification/Labels.thy ===== *)
theory Labels
  imports Fixtures
begin

section \<open>Guarding the labels\<close>

text \<open>
  \<^verbatim>\<open>scripts/holdout_manifest.py\<close> and \<^verbatim>\<open>scripts/blind_label_audit.py\<close>: the digests of the held-out
  cases, and the choice of the labels a model audits without knowing any verdict. The digest of a text and the
  encoding of JSON are arguments. The properties: a digest does not depend on the notes or on the order of the
  labels; the check passes exactly if no held-out case has changed, come or gone; the audit covers every label key that is new,
  once, and no other.
\<close>

subsection \<open>The digest of a case\<close>

definition label_row :: "string \<Rightarrow> json \<Rightarrow> exc + json list" where
  "label_row kind label =
     ebind (e_traverse (\<lambda>k. json_get k JNull label) [''file_path'', ''line'', ''agent'', ''category'', ''min_severity''])
       (\<lambda>vs. Inr (JStr kind # vs))"

definition kind_rows :: "json \<Rightarrow> string \<Rightarrow> exc + json list list" where
  "kind_rows c kind =
     ebind (json_get kind JNull c) (\<lambda>v.
     ebind (typed_list (json_or v (JList []))) (e_traverse (label_row kind)))"

definition LABEL_KINDS :: "string list" where
  "LABEL_KINDS = [''expected'', ''may_find'', ''must_not_find'']"

definition label_rows :: "json \<Rightarrow> exc + json list list" where
  "label_rows c = ebind (e_traverse (kind_rows c) LABEL_KINDS) (\<lambda>rows. Inr (concat rows))"

text \<open>\<open>text_of\<close> is \<^verbatim>\<open>str\<close>, \<open>dumps\<close> the encoder and \<open>sha\<close> the hexadecimal digest.\<close>

definition label_digest :: "(json \<Rightarrow> string) \<Rightarrow> (json \<Rightarrow> string) \<Rightarrow> (string \<Rightarrow> string) \<Rightarrow> json \<Rightarrow> exc + string" where
  "label_digest text_of dumps sha c =
     ebind (label_rows c) (\<lambda>rows.
       Inr (take 16 (sha (dumps (JList (map JList (sort_key (map text_of) rows)))))))"

text \<open>The held-out cases, those with a provenance, and their digests: a dictionary by id, where a later case
  replaces an earlier one.\<close>

definition current_digests :: "(json \<Rightarrow> exc + string) \<Rightarrow> json list \<Rightarrow> exc + (string \<rightharpoonup> string)" where
  "current_digests digest cases =
     ebind (e_traverse (\<lambda>c. ebind (json_get ''provenance'' JNull c) (\<lambda>p.
        if truthy p
        then ebind (ebind (json_index ''id'' c) typed_str) (\<lambda>i. ebind (digest c) (\<lambda>d. Inr [(i, d)]))
        else Inr [])) cases)
       (\<lambda>found. Inr (map_of (rev (concat found))))"

definition drifted :: "(string \<rightharpoonup> string) \<Rightarrow> (string \<rightharpoonup> string) \<Rightarrow> string set" where
  "drifted now saved = {k \<in> dom now. saved k \<noteq> now k}"

definition gone :: "(string \<rightharpoonup> string) \<Rightarrow> (string \<rightharpoonup> string) \<Rightarrow> string set" where
  "gone now saved = dom saved - dom now"

definition holdout_exit :: "(string \<rightharpoonup> string) \<Rightarrow> (string \<rightharpoonup> string) option \<Rightarrow> nat" where
  "holdout_exit now manifest =
     (case manifest of
        None \<Rightarrow> 1
      | Some saved \<Rightarrow> if drifted now saved \<noteq> {} \<or> gone now saved \<noteq> {} then 1 else 0)"

subsection \<open>The labels to audit\<close>

type_synonym label_key = "string \<times> json \<times> json \<times> json \<times> json"

definition permitted_entries :: "json \<Rightarrow> exc + (label_key \<times> json \<times> json) list" where
  "permitted_entries doc =
     ebind (json_get ''may_find'' JNull doc) (\<lambda>v.
     ebind (typed_list (json_or v (JList []))) (e_traverse (\<lambda>m.
       ebind (ebind (json_index ''id'' doc) typed_str) (\<lambda>i.
       ebind (e_traverse (\<lambda>k. json_get k JNull m) [''file_path'', ''line'', ''agent'', ''category'']) (\<lambda>vs.
       ebind (json_get ''note'' (JStr []) m) (\<lambda>n.
         Inr ((i, vs ! 0, vs ! 1, vs ! 2, vs ! 3), n, doc)))))))"

text \<open>The dictionary of a revision: a key keeps its first place and its last value.\<close>

fun put_label :: "'k \<Rightarrow> 'v \<Rightarrow> ('k \<times> 'v) list \<Rightarrow> ('k \<times> 'v) list" where
  "put_label k v [] = [(k, v)]"
| "put_label k v ((k', v') # rest) = (if k = k' then (k, v) # rest else (k', v') # put_label k v rest)"

definition load_revision :: "json list \<Rightarrow> exc + (label_key \<times> json \<times> json) list" where
  "load_revision docs =
     ebind (e_traverse permitted_entries docs) (\<lambda>es. Inr (fold (\<lambda>(k, v). put_label k v) (concat es) []))"

definition fresh_labels :: "json list \<Rightarrow> json list \<Rightarrow> exc + (label_key \<times> json \<times> json) list" where
  "fresh_labels base_docs rev_docs =
     ebind (load_revision base_docs) (\<lambda>old.
     ebind (load_revision rev_docs) (\<lambda>new.
       Inr (filter (\<lambda>(k, v). k \<notin> fst ` set old) new)))"

subsection \<open>The verdict of the model\<close>

text \<open>\<^verbatim>\<open>text[text.find("{") : text.rfind("}") + 1]\<close>; a brace that is not there is at position -1, the
  last one.\<close>

definition braces_of :: "string \<Rightarrow> string" where
  "braces_of s =
     (let start = (if CHR ''{'' \<in> set s then length (takeWhile (\<lambda>c. c \<noteq> CHR ''{'') s) else length s - 1);
          end1 = (if CHR ''}'' \<in> set s then length s - length (takeWhile (\<lambda>c. c \<noteq> CHR ''}'') (rev s)) else 0)
      in drop start (take end1 s))"

text \<open>What is read there is an object or no JSON.\<close>

definition parsed_verdict :: "(string \<Rightarrow> json option) \<Rightarrow> string \<Rightarrow> (string \<times> json) list" where
  "parsed_verdict loads s =
     (let t = py_strip s in
      case loads (braces_of t) of
        Some (JObj kvs) \<Rightarrow> kvs
      | _ \<Rightarrow> [(''verdict'', JStr ''UNPARSED''), (''reason'', JStr (take 200 t))])"

subsection \<open>What the guards promise\<close>

lemma label_row_note: "label_row kind (JObj ((''note'', n) # kvs)) = label_row kind (JObj kvs)"
  by (simp add: label_row_def json_get_def jget_or_def jget_def)

text \<open>The digest of a case depends on what its labels demand and on nothing else: cases whose labels give the same
  rows have the same digest, in whatever order and under whatever notes the labels stand.\<close>

theorem label_digest_order:
  assumes "label_rows c = Inr rows" and "label_rows c' = Inr rows'" and "mset rows = mset rows'"
    and "inj_on (map text_of) (set rows)"
  shows "label_digest text_of dumps sha c = label_digest text_of dumps sha c'"
proof -
  have "mset rows = mset (sort_key (map text_of) rows')" using assms(3) by simp
  then have "sort_key (map text_of) rows = sort_key (map text_of) rows'"
    by (rule sort_key_inj_key_eq) (simp_all add: assms(4))
  then show ?thesis by (simp add: label_digest_def assms(1,2))
qed

definition two_labels :: "json list \<Rightarrow> json" where
  "two_labels notes =
     JObj [(''expected'', JList (map (\<lambda>(n, l). JObj [(''note'', n), (''line'', l)]) (zip notes [JStr ''1'', JStr ''2''])))]"

definition swapped_labels :: json where
  "swapped_labels = JObj [(''expected'', JList [JObj [(''line'', JStr ''2'')], JObj [(''line'', JStr ''1'')]])]"

lemma label_digest_order_witness:
  "label_digest (\<lambda>v. case v of JStr s \<Rightarrow> s | _ \<Rightarrow> []) dumps sha (two_labels [JStr ''a'', JStr ''b'']) =
   label_digest (\<lambda>v. case v of JStr s \<Rightarrow> s | _ \<Rightarrow> []) dumps sha swapped_labels"
proof -
  let ?row = "\<lambda>s. [JStr ''expected'', JNull, JStr s, JNull, JNull, JNull]"
  have "label_rows (two_labels [JStr ''a'', JStr ''b'']) = Inr [?row ''1'', ?row ''2'']"
    "label_rows swapped_labels = Inr [?row ''2'', ?row ''1'']"
    by (simp_all add: label_rows_def LABEL_KINDS_def kind_rows_def label_row_def two_labels_def swapped_labels_def
        json_get_def jget_or_def jget_def json_or_def typed_list_def)
  from label_digest_order [OF this] show ?thesis by (simp add: inj_on_def)
qed

text \<open>The check of the manifest succeeds exactly if every held-out case has the digest the manifest has for it
  and the manifest has no other case.\<close>

theorem holdout_exact:
  "holdout_exit now manifest = 0 \<longleftrightarrow> manifest = Some now"
proof -
  have "now = saved" if "drifted now saved = {}" "gone now saved = {}" for saved
  proof (rule ext)
    fix k
    show "now k = saved k" using that by (cases "now k"; cases "saved k") (auto simp: drifted_def gone_def)
  qed
  then show ?thesis by (auto simp: holdout_exit_def drifted_def gone_def split: option.splits if_splits)
qed

lemma put_label_keys:
  "map fst (put_label k v d) = (if k \<in> set (map fst d) then map fst d else map fst d @ [k])"
  by (induction d) (auto, force)

lemma filter_keys:
  fixes d :: "('k \<times> 'v) list"
  shows "set (map fst (filter (\<lambda>(k, v). k \<notin> ks) d)) = set (map fst d) - ks \<and>
    (distinct (map fst d) \<longrightarrow> distinct (map fst (filter (\<lambda>(k, v). k \<notin> ks) d)))"
  by (induction d) auto

lemma dict_fold_keys:
  "distinct (map fst d) \<Longrightarrow>
     distinct (map fst (fold (\<lambda>(k, v). put_label k v) es d)) \<and>
     set (map fst (fold (\<lambda>(k, v). put_label k v) es d)) = set (map fst es) \<union> set (map fst d)"
proof (induction es arbitrary: d)
  case (Cons e es)
  obtain k v where e: "e = (k, v)" by (cases e)
  have "distinct (map fst (put_label k v d))" using Cons.prems unfolding put_label_keys by auto
  from Cons.IH [OF this] put_label_keys [of k v d] show ?case by (auto simp: e)
qed simp

definition revision_keys :: "json list \<Rightarrow> label_key set" where
  "revision_keys docs =
     (\<Union>doc \<in> set docs. case permitted_entries doc of Inl _ \<Rightarrow> {} | Inr es \<Rightarrow> set (map fst es))"

lemma traverse_keys:
  fixes f :: "'a \<Rightarrow> exc + ('k \<times> 'v) list"
  shows "e_traverse f xs = Inr yss \<Longrightarrow>
    set (map fst (concat yss)) = (\<Union>x \<in> set xs. case f x of Inl _ \<Rightarrow> {} | Inr es \<Rightarrow> set (map fst es))"
proof (induction xs arbitrary: yss)
  case (Cons x xs)
  then obtain ys zss where "f x = Inr ys" "e_traverse f xs = Inr zss" "yss = ys # zss" by (auto simp: ebind_Inr)
  with Cons.IH [of zss] show ?case by (simp add: image_Un)
qed simp

lemma load_revision_keys:
  assumes "load_revision docs = Inr d"
  shows "distinct (map fst d) \<and> set (map fst d) = revision_keys docs"
proof -
  obtain ess where ess: "e_traverse permitted_entries docs = Inr ess" and d: "d = fold (\<lambda>(k, v). put_label k v) (concat ess) []"
    using assms by (auto simp: load_revision_def ebind_Inr)
  have "set (map fst (concat ess)) = revision_keys docs"
    unfolding revision_keys_def by (rule traverse_keys [OF ess])
  with dict_fold_keys [of "[]" "concat ess"] show ?thesis by (simp add: d)
qed

text \<open>The audit asks about every permitted label that the revision has and the baseline had not, about each once,
  and about no other; labels that share case, place, agent and category count as one.\<close>

theorem audit_covers_new_labels:
  assumes "fresh_labels base_docs rev_docs = Inr rows"
  shows "distinct (map fst rows) \<and> set (map fst rows) = revision_keys rev_docs - revision_keys base_docs"
proof -
  obtain old new where old: "load_revision base_docs = Inr old" and new: "load_revision rev_docs = Inr new"
    and rows: "rows = filter (\<lambda>(k, v). k \<notin> fst ` set old) new"
    using assms by (auto simp: fresh_labels_def ebind_Inr)
  show ?thesis
    using filter_keys [of "fst ` set old" new] load_revision_keys [OF old] load_revision_keys [OF new] by (simp add: rows)
qed

lemma audit_covers_new_labels_witness:
  "\<exists>rows. fresh_labels [] [JObj [(''id'', JStr ''c''), (''may_find'', JList [JObj [(''line'', JInt 3)]])]] = Inr rows \<and>
     distinct (map fst rows) \<and> length rows = 1"
proof -
  have "\<exists>rows. fresh_labels [] [JObj [(''id'', JStr ''c''), (''may_find'', JList [JObj [(''line'', JInt 3)]])]] = Inr rows \<and>
      length rows = 1"
    by (simp add: fresh_labels_def load_revision_def permitted_entries_def json_get_def jget_or_def jget_def json_or_def
        typed_list_def json_index_def typed_str_def)
  then obtain rows where rows: "fresh_labels [] [JObj [(''id'', JStr ''c''), (''may_find'', JList [JObj [(''line'', JInt 3)]])]] =
      Inr rows" "length rows = 1"
    by blast
  from audit_covers_new_labels [OF rows(1)] rows show ?thesis by blast
qed

end
