(* ===== verification/Costs.thy ===== *)
theory Costs
  imports Ledger Metrics
begin

section \<open>The roll-ups of the events table\<close>

text \<open>
  \<^verbatim>\<open>db/repositories/metrics.py\<close> over the views of \<^verbatim>\<open>migrations/003_timeseries.sql\<close>: the spend of a day, the spend by
  agent and model, the latency of the agents and the trace of a review. A row of \<^verbatim>\<open>agent_events\<close> comes with
  its time in microseconds. The properties: the spend by agent and model is a partition of the calls of its hours, so
  nothing is lost or counted twice; the spend of the day is that of the calls since it began, if it begins on a
  full hour; the percentiles are durations that occurred, in order.
\<close>

type_synonym dated = "int \<times> event"

subsection \<open>Groups\<close>

definition grouped :: "('a \<Rightarrow> 'k) \<Rightarrow> 'a list \<Rightarrow> ('k \<times> 'a nelist) list" where
  "grouped key xs = fold (\<lambda>x. group_add (key x) x) xs []"

definition total_over :: "('a \<Rightarrow> 'b::comm_monoid_add) \<Rightarrow> ('k \<times> 'a nelist) list \<Rightarrow> 'b" where
  "total_over f gs = sum_list (map (\<lambda>g. sum_list (map f (ne_list (snd g)))) gs)"

lemma total_over_add: "total_over f (group_add k x gs) = f x + total_over f gs"
  by (induction k x gs rule: group_add.induct) (auto simp: total_over_def ac_simps)

lemma total_over_grouped: "total_over f (grouped key xs) = sum_list (map f xs)"
proof -
  have "total_over f (fold (\<lambda>x. group_add (key x) x) xs gs) = sum_list (map f xs) + total_over f gs" for gs
    by (induction xs arbitrary: gs) (simp_all add: total_over_add ac_simps)
  from this [of "[]"] show ?thesis by (simp add: grouped_def total_over_def)
qed

lemma grouped_keys: "distinct (map fst (grouped key xs)) \<and> fst ` set (grouped key xs) = key ` set xs"
proof -
  have "distinct (map fst (fold (\<lambda>x. group_add (key x) x) xs gs)) \<and>
      fst ` set (fold (\<lambda>x. group_add (key x) x) xs gs) = key ` set xs \<union> fst ` set gs"
    if "distinct (map fst gs)" for gs
    using that by (induction xs arbitrary: gs) (simp_all add: group_add_distinct group_add_dom)
  from this [of "[]"] show ?thesis by (simp add: grouped_def)
qed

lemma grouped_keyed: "groups_keyed key (grouped key xs)"
proof -
  have "groups_keyed key gs \<Longrightarrow> groups_keyed key (fold (\<lambda>x. group_add (key x) x) xs gs)" for gs
    by (induction xs arbitrary: gs) simp_all
  then show ?thesis by (simp add: grouped_def)
qed

lemma grouped_values: "mset (group_values (grouped key xs)) = mset xs"
proof -
  have "mset (group_values (fold (\<lambda>x. group_add (key x) x) xs gs)) = mset xs + mset (group_values gs)" for gs
    by (induction xs arbitrary: gs) (simp_all add: group_values_add)
  from this [of "[]"] show ?thesis by (simp add: grouped_def group_values_def)
qed

lemma grouped_member: "g \<in> set (grouped key xs) \<Longrightarrow> y \<in> set (ne_list (snd g)) \<Longrightarrow> y \<in> set xs"
proof -
  assume "g \<in> set (grouped key xs)" "y \<in> set (ne_list (snd g))"
  then have "y \<in> set (group_values (grouped key xs))" by (auto simp: group_values_def)
  then show "y \<in> set xs" using mset_eq_setD [OF grouped_values [of key xs]] by simp
qed

subsection \<open>The cost of every hour\<close>

definition HOUR :: int where
  "HOUR = 3600 * 10 ^ 6"

text \<open>\<^verbatim>\<open>time_bucket('1 hour', ts)\<close>\<close>

definition hour_bucket :: "int \<Rightarrow> int" where
  "hour_bucket t = t - t mod HOUR"

text \<open>A column of numbers; \<^verbatim>\<open>sum\<close> passes over a null.\<close>

definition event_number :: "json \<Rightarrow> int" where
  "event_number v = (case v of JInt n \<Rightarrow> n | _ \<Rightarrow> 0)"

record hourly_row =
  hc_bucket :: int
  hc_agent :: json
  hc_model :: json
  hc_calls :: nat
  hc_cost_usd :: real
  hc_input_tokens :: int
  hc_output_tokens :: int
  hc_cached_tokens :: int

definition hourly_row_of :: "(int \<times> json \<times> json) \<times> dated nelist \<Rightarrow> hourly_row" where
  "hourly_row_of g =
     (case fst g of (bucket, agent, model) \<Rightarrow>
        let es = map snd (ne_list (snd g)) in
        \<lparr>hc_bucket = bucket, hc_agent = agent, hc_model = model, hc_calls = length es,
         hc_cost_usd = sum_list (map event_cost es),
         hc_input_tokens = sum_list (map (\<lambda>e. event_number (ev_input_tokens e)) es),
         hc_output_tokens = sum_list (map (\<lambda>e. event_number (ev_output_tokens e)) es),
         hc_cached_tokens = sum_list (map (\<lambda>e. event_number (ev_cached_tokens e)) es)\<rparr>)"

definition is_llm_call :: "dated \<Rightarrow> bool" where
  "is_llm_call d \<longleftrightarrow> ev_kind (snd d) = ''llm_call''"

definition bucket_key :: "dated \<Rightarrow> int \<times> json \<times> json" where
  "bucket_key d = (hour_bucket (fst d), ev_agent (snd d), ev_model (snd d))"

definition agent_cost_hourly :: "dated list \<Rightarrow> hourly_row list" where
  "agent_cost_hourly ds = map hourly_row_of (grouped bucket_key (filter is_llm_call ds))"

subsection \<open>The spend of the day and the spend by agent\<close>

text \<open>\<open>day\<close> is \<^verbatim>\<open>date_trunc('day', now())\<close>, in the time zone of the session.\<close>

definition spend_today_usd :: "int \<Rightarrow> dated list \<Rightarrow> real" where
  "spend_today_usd day ds = sum_list (map hc_cost_usd (filter (\<lambda>r. day \<le> hc_bucket r) (agent_cost_hourly ds)))"

record agent_cost_row =
  ac_agent :: json
  ac_model :: json
  ac_calls :: nat
  ac_cost_usd :: real
  ac_input_tokens :: int
  ac_output_tokens :: int
  ac_cached_tokens :: int

definition agent_cost_row_of :: "(json \<times> json) \<times> hourly_row nelist \<Rightarrow> agent_cost_row" where
  "agent_cost_row_of g =
     (case fst g of (agent, model) \<Rightarrow>
        let rs = ne_list (snd g) in
        \<lparr>ac_agent = agent, ac_model = model, ac_calls = sum_list (map hc_calls rs),
         ac_cost_usd = sum_list (map hc_cost_usd rs), ac_input_tokens = sum_list (map hc_input_tokens rs),
         ac_output_tokens = sum_list (map hc_output_tokens rs), ac_cached_tokens = sum_list (map hc_cached_tokens rs)\<rparr>)"

definition cost_by_agent :: "int \<Rightarrow> nat \<Rightarrow> dated list \<Rightarrow> agent_cost_row list" where
  "cost_by_agent now hours ds =
     (let rows = filter (\<lambda>r. now - int hours * HOUR < hc_bucket r) (agent_cost_hourly ds)
      in sort_key (\<lambda>r. - ac_cost_usd r) (map agent_cost_row_of (grouped (\<lambda>r. (hc_agent r, hc_model r)) rows)))"

subsection \<open>Latencies and the trace\<close>

text \<open>\<^verbatim>\<open>percentile_disc(p) WITHIN GROUP (ORDER BY x)\<close>: the first value in order that the share \<open>p\<close> of the
  rows does not exceed.\<close>

definition percentile_disc :: "real \<Rightarrow> int list \<Rightarrow> int" where
  "percentile_disc p xs = sort xs ! (nat \<lceil>p * real (length xs)\<rceil> - 1)"

record latency_row =
  lt_agent :: json
  lt_spans :: nat
  lt_p50_ms :: int
  lt_p95_ms :: int
  lt_max_ms :: int

definition latency_row_of :: "json \<times> int nelist \<Rightarrow> latency_row" where
  "latency_row_of g =
     (let xs = ne_list (snd g) in
      \<lparr>lt_agent = fst g, lt_spans = length xs, lt_p50_ms = percentile_disc (1 / 2) xs,
       lt_p95_ms = percentile_disc (19 / 20) xs, lt_max_ms = Max (set xs)\<rparr>)"

definition span_duration :: "dated \<Rightarrow> (json \<times> int) option" where
  "span_duration d =
     (case ev_duration (snd d) of
        JInt ms \<Rightarrow> if ev_kind (snd d) = ''span_end'' then Some (ev_agent (snd d), ms) else None
      | _ \<Rightarrow> None)"

text \<open>A null comes last in the order of the agents.\<close>

definition agent_order :: "json \<Rightarrow> bool \<times> string" where
  "agent_order a = (case a of JStr s \<Rightarrow> (False, s) | _ \<Rightarrow> (True, []))"

definition latency_snapshot :: "int \<Rightarrow> dated list \<Rightarrow> latency_row list" where
  "latency_snapshot now ds =
     (let timed = List.map_filter span_duration (filter (\<lambda>d. now - 24 * HOUR < fst d) ds)
      in sort_key (\<lambda>r. agent_order (lt_agent r))
           (map (\<lambda>g. latency_row_of (fst g, (snd (fst (snd g)), map snd (snd (snd g))))) (grouped fst timed)))"

definition trace_rows :: "uuid \<Rightarrow> dated list \<Rightarrow> dated list" where
  "trace_rows review_id ds = sort_key fst (filter (\<lambda>d. ev_review_id (snd d) = Some review_id) ds)"

subsection \<open>Nothing is lost or counted twice\<close>

lemma sum_over_kept_groups:
  fixes f :: "'a \<Rightarrow> 'b::comm_monoid_add"
  assumes "groups_keyed key gs"
  shows "sum_list (map (\<lambda>g. sum_list (map f (ne_list (snd g)))) (filter (\<lambda>g. Q (fst g)) gs)) =
    total_over (\<lambda>y. if Q (key y) then f y else 0) gs"
  using assms
proof (induction gs)
  case (Cons g gs)
  have "map (\<lambda>y. if Q (key y) then f y else 0) (ne_list (snd g)) =
      (if Q (fst g) then map f (ne_list (snd g)) else map (\<lambda>y. 0) (ne_list (snd g)))"
    using Cons.prems by (auto simp: groups_keyed_def list_all_iff)
  then have "sum_list (map (\<lambda>y. if Q (key y) then f y else 0) (ne_list (snd g))) =
      (if Q (fst g) then sum_list (map f (ne_list (snd g))) else 0)"
    by simp
  with Cons show ?case by (simp add: total_over_def groups_keyed_def)
qed (simp add: total_over_def)

lemma sum_list_if: "sum_list (map (\<lambda>y. if Q y then f y else (0::'b::comm_monoid_add)) ys) = sum_list (map f (filter Q ys))"
  by (induction ys) simp_all

lemma sum_list_sort_key: "sum_list (map f (sort_key k xs)) = (sum_list (map f xs) :: 'b::comm_monoid_add)"
  by (metis mset_map mset_sort sum_mset_sum_list)

text \<open>A sum over the hours that are kept is a sum over the calls of those hours.\<close>

lemma hourly_sum:
  fixes val :: "hourly_row \<Rightarrow> 'b::comm_monoid_add"
  assumes "\<And>g. val (hourly_row_of g) = sum_list (map (\<lambda>d. f (snd d)) (ne_list (snd g)))"
  shows "sum_list (map val (filter (\<lambda>r. Q (hc_bucket r)) (agent_cost_hourly ds))) =
    sum_list (map (\<lambda>d. f (snd d)) (filter (\<lambda>d. is_llm_call d \<and> Q (hour_bucket (fst d))) ds))"
proof -
  let ?gs = "grouped bucket_key (filter is_llm_call ds)"
  have "hc_bucket (hourly_row_of g) = fst (fst g)" for g
    by (cases g) (auto simp: hourly_row_of_def Let_def split: prod.splits)
  then have "map val (filter (\<lambda>r. Q (hc_bucket r)) (agent_cost_hourly ds)) =
      map (\<lambda>g. sum_list (map (\<lambda>d. f (snd d)) (ne_list (snd g)))) (filter (\<lambda>g. Q (fst (fst g))) ?gs)"
    by (simp add: agent_cost_hourly_def filter_map comp_def assms)
  also have "sum_list \<dots> = total_over (\<lambda>d. if Q (fst (bucket_key d)) then f (snd d) else 0) ?gs"
    by (rule sum_over_kept_groups [where Q = "\<lambda>k. Q (fst k)", OF grouped_keyed])
  finally show ?thesis
    by (simp add: total_over_grouped sum_list_if bucket_key_def conj_commute)
qed

lemma hourly_cost: "hc_cost_usd (hourly_row_of g) = sum_list (map (\<lambda>d. event_cost (snd d)) (ne_list (snd g)))"
  and hourly_calls: "hc_calls (hourly_row_of g) = sum_list (map (\<lambda>d. (\<lambda>e. 1) (snd d)) (ne_list (snd g)))"
  by (auto simp: hourly_row_of_def Let_def comp_def sum_list_triv split: prod.splits)

definition calls_since :: "(int \<Rightarrow> bool) \<Rightarrow> dated list \<Rightarrow> dated list" where
  "calls_since Q ds = filter (\<lambda>d. is_llm_call d \<and> Q (hour_bucket (fst d))) ds"

text \<open>The spend by agent and model is a partition of the calls whose hour began in the window: every pair stands in
  one row, the rows come with the dearest first, and costs and numbers of calls add up to those of the calls.\<close>

theorem cost_by_agent_partition:
  "distinct (map (\<lambda>r. (ac_agent r, ac_model r)) (cost_by_agent now hours ds)) \<and>
   sorted (map (\<lambda>r. - ac_cost_usd r) (cost_by_agent now hours ds)) \<and>
   sum_list (map ac_cost_usd (cost_by_agent now hours ds)) =
     sum_list (map (\<lambda>d. event_cost (snd d)) (calls_since (\<lambda>b. now - int hours * HOUR < b) ds)) \<and>
   sum_list (map ac_calls (cost_by_agent now hours ds)) = length (calls_since (\<lambda>b. now - int hours * HOUR < b) ds)"
proof -
  let ?Q = "\<lambda>b. now - int hours * HOUR < b"
  let ?rows = "filter (\<lambda>r. ?Q (hc_bucket r)) (agent_cost_hourly ds)"
  let ?gs = "grouped (\<lambda>r. (hc_agent r, hc_model r)) ?rows"
  have rows: "cost_by_agent now hours ds = sort_key (\<lambda>r. - ac_cost_usd r) (map agent_cost_row_of ?gs)"
    by (simp add: cost_by_agent_def Let_def)
  have keys: "map (\<lambda>r. (ac_agent r, ac_model r)) (map agent_cost_row_of ?gs) = map fst ?gs"
    by (auto simp: agent_cost_row_of_def Let_def split: prod.splits)
  have "distinct (map (\<lambda>r. (ac_agent r, ac_model r)) (cost_by_agent now hours ds)) =
      distinct (map (\<lambda>r. (ac_agent r, ac_model r)) (map agent_cost_row_of ?gs))"
    unfolding rows by (rule mset_eq_imp_distinct_iff) (simp only: mset_map mset_sort)
  with keys grouped_keys have "distinct (map (\<lambda>r. (ac_agent r, ac_model r)) (cost_by_agent now hours ds))"
    by metis
  moreover have "sum_list (map ac_cost_usd (map agent_cost_row_of ?gs)) = total_over hc_cost_usd ?gs"
    "sum_list (map ac_calls (map agent_cost_row_of ?gs)) = total_over hc_calls ?gs"
    by (auto simp: total_over_def agent_cost_row_of_def Let_def comp_def split: prod.splits intro!: arg_cong [where f = sum_list])
  then have "sum_list (map ac_cost_usd (cost_by_agent now hours ds)) = sum_list (map hc_cost_usd ?rows)"
    "sum_list (map ac_calls (cost_by_agent now hours ds)) = sum_list (map hc_calls ?rows)"
    unfolding rows by (simp_all only: sum_list_sort_key total_over_grouped)
  ultimately show ?thesis
    using hourly_sum [of hc_cost_usd event_cost ?Q ds, OF hourly_cost]
      hourly_sum [of hc_calls "\<lambda>e. 1" ?Q ds, OF hourly_calls]
    by (simp add: calls_since_def rows sum_list_triv)
qed

lemma hour_bucket_le: "hour_bucket t \<le> t" "t - HOUR < hour_bucket t"
  by (simp_all add: hour_bucket_def HOUR_def)

text \<open>On a full hour the hour of a call is past a time exactly if the call is.\<close>

lemma full_hour_bucket: "day mod HOUR = 0 \<Longrightarrow> day \<le> hour_bucket t \<longleftrightarrow> day \<le> t"
proof
  assume full: "day mod HOUR = 0" and "day \<le> t"
  have pos: "0 < HOUR" by (simp add: HOUR_def)
  have "day = (day div HOUR) * HOUR" using full by (metis add.right_neutral div_mult_mod_eq)
  moreover have "day div HOUR \<le> t div HOUR" using \<open>day \<le> t\<close> pos by (rule zdiv_mono1)
  moreover have "hour_bucket t = (t div HOUR) * HOUR" by (simp add: hour_bucket_def minus_mod_eq_div_mult)
  ultimately show "day \<le> hour_bucket t" using pos by (metis mult_right_mono less_imp_le)
qed (use hour_bucket_le(1) in \<open>meson order_trans\<close>)

text \<open>The spend of the day is what the calls since its beginning cost, if it begins on a full hour; the guard of a new
  review is then loaded with it. In general the calls between its beginning and the next full hour are left
  out.\<close>

theorem spend_today_exact:
  assumes "day mod HOUR = 0"
  shows "spend_today_usd day ds = sum_list (map (\<lambda>d. event_cost (snd d)) (filter (\<lambda>d. is_llm_call d \<and> day \<le> fst d) ds))"
  using hourly_sum [of hc_cost_usd event_cost "\<lambda>b. day \<le> b" ds, OF hourly_cost] full_hour_bucket [OF assms]
  by (simp add: spend_today_usd_def)

definition sample_call_at :: "int \<Rightarrow> real \<Rightarrow> dated" where
  "sample_call_at t c = (t, (blank_event ''llm_call'' ''security'')\<lparr>ev_cost_usd := JFloat (Fin c)\<rparr>)"

lemma spend_today_exact_witness:
  "spend_today_usd 0 [sample_call_at 5 2, sample_call_at (HOUR + 7) 3, sample_call_at (-1) 9] = 5"
  using spend_today_exact [of 0 "[sample_call_at 5 2, sample_call_at (HOUR + 7) 3, sample_call_at (-1) 9]"]
  by (simp add: sample_call_at_def blank_event_def is_llm_call_def event_cost_def HOUR_def)

lemma half_hour_zone_misses:
  "spend_today_usd (HOUR div 2) [sample_call_at (HOUR div 2 + 1) 2] = 0"
  using hourly_sum [of hc_cost_usd event_cost "\<lambda>b. HOUR div 2 \<le> b" "[sample_call_at (HOUR div 2 + 1) 2]", OF hourly_cost]
  by (simp add: spend_today_usd_def sample_call_at_def hour_bucket_def HOUR_def)

subsection \<open>Percentiles\<close>

lemma percentile_index:
  assumes "xs \<noteq> []" and "0 < p" and "p \<le> 1"
  shows "nat \<lceil>p * real (length xs)\<rceil> - 1 < length xs"
proof -
  have "p * real (length xs) \<le> real (length xs)" using mult_right_mono [OF assms(3), of "real (length xs)"] by simp
  then have "\<lceil>p * real (length xs)\<rceil> \<le> int (length xs)" by (simp add: ceiling_le_iff)
  moreover have "0 < length xs" using assms(1) by simp
  ultimately show ?thesis by linarith
qed

lemma percentile_in: "xs \<noteq> [] \<Longrightarrow> 0 < p \<Longrightarrow> p \<le> 1 \<Longrightarrow> percentile_disc p xs \<in> set xs"
  using percentile_index [of xs p] nth_mem [of "nat \<lceil>p * real (length xs)\<rceil> - 1" "sort xs"]
  by (simp add: percentile_disc_def)

lemma percentile_mono:
  assumes "xs \<noteq> []" and "0 < p" and "p \<le> q" and "q \<le> 1"
  shows "percentile_disc p xs \<le> percentile_disc q xs"
proof -
  have "p * real (length xs) \<le> q * real (length xs)" using assms(3) by (simp add: mult_right_mono)
  then have "nat \<lceil>p * real (length xs)\<rceil> - 1 \<le> nat \<lceil>q * real (length xs)\<rceil> - 1"
    by (intro diff_le_mono nat_mono ceiling_mono)
  with percentile_index [of xs q] assms show ?thesis
    by (simp add: percentile_disc_def sorted_nth_mono)
qed

lemma latency_row_bounds:
  "lt_p50_ms (latency_row_of g) \<le> lt_p95_ms (latency_row_of g) \<and>
   lt_p95_ms (latency_row_of g) \<le> lt_max_ms (latency_row_of g) \<and>
   lt_p50_ms (latency_row_of g) \<in> set (ne_list (snd g)) \<and> 0 < lt_spans (latency_row_of g)"
  using percentile_mono [of "ne_list (snd g)" "1 / 2" "19 / 20"] percentile_in [of "ne_list (snd g)" "19 / 20"]
    percentile_in [of "ne_list (snd g)" "1 / 2"]
  by (simp add: latency_row_of_def Let_def)

text \<open>Every row of the latencies shows durations that occurred, in order.\<close>

theorem latency_snapshot_ordered:
  "list_all (\<lambda>r. lt_p50_ms r \<le> lt_p95_ms r \<and> lt_p95_ms r \<le> lt_max_ms r \<and> 0 < lt_spans r) (latency_snapshot now ds) \<and>
   sorted (map (\<lambda>r. agent_order (lt_agent r)) (latency_snapshot now ds))"
  using latency_row_bounds by (auto simp: latency_snapshot_def Let_def list_all_iff)

end
