(* ===== verification/Console.thy ===== *)
theory Console
  imports Costs Dashboard Cli
begin

section \<open>What the operator sees\<close>

text \<open>
  The commands \<^verbatim>\<open>migrate\<close>, \<^verbatim>\<open>trace\<close>, \<^verbatim>\<open>costs\<close>, \<^verbatim>\<open>queue\<close> and the options of \<^verbatim>\<open>eval\<close>
  of \<^verbatim>\<open>cli.py\<close>, and the data the pages of \<^verbatim>\<open>dashboard/app.py\<close> are rendered from. A line is text, a page the record
  of its template's context. The properties: the queue shows the most urgent of the open items, a critical security
  finding before all others; a trace has every row of its review in the order of time; an evaluation that is
  saved comes from healthy runs; the page of a review does not list its findings by severity.
\<close>

subsection \<open>trace\<close>

definition zero_padded :: "nat \<Rightarrow> int \<Rightarrow> string" where
  "zero_padded k n = (let s = py_str_int n in replicate (k - length s) CHR ''0'' @ s)"

text \<open>\<^verbatim>\<open>%H:%M:%S.%f\<close> of a time in UTC.\<close>

definition clock_text :: "int \<Rightarrow> string" where
  "clock_text t =
     (let s = t div 10 ^ 6 in
      zero_padded 2 (s div 3600 mod 24) @ '':'' @ zero_padded 2 (s div 60 mod 60) @ '':'' @ zero_padded 2 (s mod 60) @
      ''.'' @ zero_padded 6 (t mod 10 ^ 6))"

definition shown_or_empty :: "json \<Rightarrow> string" where
  "shown_or_empty v = (case v of JStr s \<Rightarrow> s | _ \<Rightarrow> [])"

definition cost_column :: "event \<Rightarrow> string" where
  "cost_column e = (if event_cost e \<noteq> 0 then '' $'' @ py_fixed 4 (event_cost e) else [])"

definition duration_column :: "event \<Rightarrow> string" where
  "duration_column e = (if event_number (ev_duration e) \<noteq> 0 then '' '' @ py_str_int (event_number (ev_duration e)) @ ''ms'' else [])"

definition trace_line :: "dated \<Rightarrow> string" where
  "trace_line d =
     (case d of (t, e) \<Rightarrow>
        clock_text t @ '' '' @ ljust 11 (ev_kind e) @ '' '' @ ljust 24 (ev_name e) @ '' '' @
        ljust 12 (shown_or_empty (ev_agent e)) @ duration_column e @ cost_column e @ '' '' @ shown_or_empty (ev_status e))"

definition trace_command :: "uuid \<Rightarrow> dated list \<Rightarrow> string list" where
  "trace_command review_id ds = map trace_line (trace_rows review_id ds)"

subsection \<open>costs\<close>

definition agent_cost_json :: "agent_cost_row \<Rightarrow> json" where
  "agent_cost_json r =
     JObj [(''agent'', ac_agent r), (''model'', ac_model r), (''calls'', count_json (ac_calls r)),
           (''cost_usd'', JFloat (Fin (ac_cost_usd r))), (''input_tokens'', JInt (ac_input_tokens r)),
           (''output_tokens'', JInt (ac_output_tokens r)), (''cached_tokens'', JInt (ac_cached_tokens r))]"

definition rate_json :: "rate_row \<Rightarrow> json" where
  "rate_json r =
     JObj [(''reviews'', count_json (rt_reviews r)), (''escalated'', count_json (rt_escalated r)),
           (''auto_posted'', count_json (rt_auto_posted r)), (''failed'', count_json (rt_failed r)),
           (''avg_confidence'', JFloat (Fin (rt_avg_confidence r))), (''cost_usd'', JFloat (Fin (rt_cost_usd r))),
           (''escalation_rate'', JFloat (Fin (rt_escalation_rate r)))]"

text \<open>\<open>reviews\<close> are the rows of the reviews that started in the window.\<close>

definition costs_command :: "int \<Rightarrow> int \<Rightarrow> nat \<Rightarrow> dated list \<Rightarrow> review_row list \<Rightarrow> json" where
  "costs_command day now hours ds reviews =
     JObj [(''spend_today_usd'', rounded 4 (spend_today_usd day ds)),
           (''by_agent'', JList (map agent_cost_json (cost_by_agent now hours ds))),
           (''reviews'', rate_json (escalation_rate reviews))]"

subsection \<open>queue\<close>

text \<open>\<open>locate\<close> is the join: the repository and the number of the pull request of a review.\<close>

definition queue_line :: "(uuid \<Rightarrow> string \<times> int) \<Rightarrow> hitl_row \<Rightarrow> string" where
  "queue_line locate h =
     (case locate (hi_review_id h) of (full_name, number) \<Rightarrow>
        ''[p'' @ rjust 3 (py_str_int (hi_priority h)) @ ''] '' @ ljust 18 (reason_str (hi_reason h)) @ '' '' @ full_name @
        ''#'' @ py_str_int number @ ''  '' @ hi_summary h)"

definition queue_command :: "(uuid \<Rightarrow> string \<times> int) \<Rightarrow> nat \<Rightarrow> hitl_queue \<Rightarrow> string list" where
  "queue_command locate limit q = map (queue_line locate) (open_hitl limit q)"

subsection \<open>migrate and the options of eval\<close>

definition migrate_line :: "string list \<Rightarrow> string" where
  "migrate_line applied = ''applied: '' @ (if applied = [] then ''(nothing pending)'' else py_join '', '' applied)"

text \<open>The overrides go through the environment, and the settings are read and validated again.\<close>

definition eval_settings :: "string \<Rightarrow> real \<Rightarrow> settings \<Rightarrow> settings" where
  "eval_settings provider cap s =
     (let s1 = (if provider = [] then s else s\<lparr>s_llm_provider := provider\<rparr>)
      in if cap = 0 then s1 else s1\<lparr>s_review_cost_cap_usd := cap\<rparr>)"

definition LLM_PROVIDERS :: "string list" where
  "LLM_PROVIDERS = [''anthropic'', ''echo'']"

definition reload_settings :: "settings \<Rightarrow> exc + settings" where
  "reload_settings s =
     (if valid_settings s \<and> s_llm_provider s \<in> set LLM_PROVIDERS then Inr s
      else Inl (ValueError ''validation error for Settings''))"

text \<open>The command: the runs, of which \<open>gather\<close> is one, and then the report. An evaluation of no run at all has no last
  report.\<close>

definition eval_main ::
  "settings \<Rightarrow> string \<Rightarrow> real \<Rightarrow> (settings \<Rightarrow> nat \<Rightarrow> ('s, case_result list) effect) \<Rightarrow> nat \<Rightarrow> bool \<Rightarrow> bool \<Rightarrow>
     string option \<Rightarrow> json option \<Rightarrow> ('s, (exc + shown list \<times> nat) \<times> (string \<times> json) option) effect" where
  "eval_main s provider cap gather repeat as_json verbose save baseline =
     eff_bind (eff_lift (reload_settings (eval_settings provider cap s))) (\<lambda>s'.
     eff_bind (run_eval s' (s_llm_provider s') (gather s') repeat) (\<lambda>reports.
       if reports = [] then eff_lift (Inl (OtherError ''IndexError'' ''list index out of range''))
       else eff_return (eval_command reports as_json verbose save baseline)))"

subsection \<open>The pages of the dashboard\<close>

record home_page =
  hp_queue :: "hitl_row list"
  hp_costs :: "agent_cost_row list"
  hp_spend_today :: real
  hp_stats :: rate_row
  hp_latency :: "latency_row list"

definition home :: "int \<Rightarrow> int \<Rightarrow> dated list \<Rightarrow> review_row list \<Rightarrow> hitl_queue \<Rightarrow> home_page" where
  "home day now ds reviews q =
     \<lparr>hp_queue = open_hitl 50 q, hp_costs = cost_by_agent now 24 ds, hp_spend_today = spend_today_usd day ds,
      hp_stats = escalation_rate reviews, hp_latency = latency_snapshot now ds\<rparr>"

text \<open>\<^verbatim>\<open>ORDER BY severity, confidence DESC\<close>; the severity is a column of text.\<close>

definition page_findings :: "uuid \<Rightarrow> store \<Rightarrow> finding list" where
  "page_findings review_id st =
     sort_key (\<lambda>f. (severity_str (f_severity f), - f_confidence f))
       (map fr_finding (filter (\<lambda>r. fr_review_id r = review_id \<and> fr_merged_into r = None) (st_findings st)))"

record review_page =
  rp_review :: "review_row option"
  rp_findings :: "finding list"
  rp_trace :: "dated list"
  rp_review_id :: uuid

text \<open>\<open>row\<close> is the row of the review, if there is one; a page of an unknown review is rendered as well.\<close>

definition review_detail :: "uuid \<Rightarrow> review_row option \<Rightarrow> store \<Rightarrow> dated list \<Rightarrow> review_page" where
  "review_detail review_id row st ds =
     \<lparr>rp_review = row, rp_findings = page_findings review_id st, rp_trace = trace_rows review_id ds,
      rp_review_id = review_id\<rparr>"

record trace_page =
  tp_review :: "review_row option"
  tp_trace :: "dated list"
  tp_review_id :: uuid

definition trace_viewer :: "uuid \<Rightarrow> review_row option \<Rightarrow> dated list \<Rightarrow> trace_page" where
  "trace_viewer review_id row ds = \<lparr>tp_review = row, tp_trace = trace_rows review_id ds, tp_review_id = review_id\<rparr>"

definition health :: "(string \<times> json) list" where
  "health = [(''status'', JStr ''ok''), (''service'', JStr ''dashboard'')]"

subsection \<open>The most urgent first\<close>

definition open_items :: "hitl_queue \<Rightarrow> hitl_row list" where
  "open_items q = filter (\<lambda>h. hq_decided q (hi_id h) = None) (st_hitl (hq_store q))"

lemma queue_split:
  "\<exists>rest. mset (open_hitl limit q @ rest) = mset (open_items q) \<and> sorted (map hi_priority (open_hitl limit q @ rest))"
proof (intro exI conjI)
  let ?all = "sort_key hi_priority (open_items q)"
  have split: "open_hitl limit q @ drop limit ?all = ?all" by (simp add: open_hitl_def open_items_def)
  show "mset (open_hitl limit q @ drop limit ?all) = mset (open_items q)" unfolding split by simp
  show "sorted (map hi_priority (open_hitl limit q @ drop limit ?all))" unfolding split by simp
qed

lemma open_hitl_length: "length (open_hitl limit q) = min limit (length (open_items q))"
  by (simp add: open_hitl_def open_items_def min.commute)

lemma priority_critical: "escalation_priority r \<le> escalation_priority CRITICAL_SECURITY \<Longrightarrow> r = CRITICAL_SECURITY"
  by (cases r) simp_all

text \<open>The queue command shows as many of the open items as asked for, none of them less urgent than one it leaves out;
  and as items get the priority of their reason, an open item for a critical security finding stands in its first
  line.\<close>

theorem queue_urgent_first:
  assumes "list_all (\<lambda>h. hi_priority h = escalation_priority (hi_reason h)) (st_hitl (hq_store q))"
    and "list_ex (\<lambda>h. hi_reason h = CRITICAL_SECURITY) (open_items q)" and "0 < limit"
  shows "length (queue_command locate limit q) = min limit (length (open_items q)) \<and>
    (\<exists>h rest. open_hitl limit q = h # rest \<and> hi_reason h = CRITICAL_SECURITY \<and>
       hd (queue_command locate limit q) = queue_line locate h \<and>
       (\<forall>h' \<in> set (open_items q). hi_priority h \<le> hi_priority h'))"
proof -
  obtain others where others: "mset (open_hitl limit q @ others) = mset (open_items q)"
    "sorted (map hi_priority (open_hitl limit q @ others))"
    using queue_split by blast
  have "open_items q \<noteq> []" using assms(2) by auto
  with assms(3) have "0 < length (open_hitl limit q)" by (simp add: open_hitl_length)
  then have "open_hitl limit q \<noteq> []" by simp
  then obtain h rest where h: "open_hitl limit q = h # rest" by (cases "open_hitl limit q") auto
  have members: "set (h # rest @ others) = set (open_items q)"
    using mset_eq_setD [OF others(1)] by (simp add: h)
  have least: "hi_priority h \<le> hi_priority h'" if "h' \<in> set (open_items q)" for h'
    using others(2) members that by (auto simp: h)
  obtain c where c: "c \<in> set (open_items q)" "hi_reason c = CRITICAL_SECURITY"
    using assms(2) by (auto simp: list_ex_iff)
  have prio: "hi_priority x = escalation_priority (hi_reason x)" if "x \<in> set (open_items q)" for x
    using assms(1) that by (simp add: list_all_iff open_items_def)
  have "h \<in> set (open_items q)" using members by auto
  with prio [OF this] prio [OF c(1)] least [OF c(1)] c(2) have "hi_reason h = CRITICAL_SECURITY"
    by (metis priority_critical)
  moreover have "length (queue_command locate limit q) = min limit (length (open_items q))"
    by (simp add: queue_command_def open_hitl_length)
  ultimately show ?thesis using h least by (auto simp: queue_command_def)
qed

definition two_items :: hitl_queue where
  "two_items =
     \<lparr>hq_store = snd (enqueue_hitl 6 CRITICAL_SECURITY ''leak'' 1 (snd (enqueue_hitl 5 POLICY ''post'' 30 empty_store))),
      hq_decided = Map.empty\<rparr>"

lemma queue_urgent_first_witness:
  "list_ex (\<lambda>h. hi_reason h = CRITICAL_SECURITY) (open_hitl 1 two_items) \<and>
   length (queue_command (\<lambda>r. (''o/r'', 7)) 1 two_items) = 1"
proof -
  have items: "st_hitl (hq_store two_items) =
      [\<lparr>hi_id = 1, hi_review_id = 5, hi_reason = POLICY, hi_summary = ''post'', hi_priority = 30\<rparr>,
       \<lparr>hi_id = 2, hi_review_id = 6, hi_reason = CRITICAL_SECURITY, hi_summary = ''leak'', hi_priority = 1\<rparr>]"
    by (simp add: two_items_def enqueue_hitl_def empty_store_def)
  moreover have "hq_decided two_items = Map.empty" by (simp add: two_items_def)
  ultimately obtain h rest where "open_hitl 1 two_items = h # rest" "hi_reason h = CRITICAL_SECURITY"
    and "length (queue_command (\<lambda>r. (''o/r'', 7)) 1 two_items) = min 1 (length (open_items two_items))"
    using queue_urgent_first [of two_items 1 "\<lambda>r. (''o/r'', 7)"] by (auto simp: open_items_def)
  moreover have "length (open_items two_items) = 2"
    using items by (simp add: open_items_def two_items_def)
  ultimately show ?thesis by simp
qed

subsection \<open>Traces and evaluations\<close>

text \<open>A trace has one line for every row of its review, in the order of time, and shows a cost exactly for the rows
  that have one.\<close>

theorem trace_complete:
  "mset (trace_rows i ds) = mset (filter (\<lambda>d. ev_review_id (snd d) = Some i) ds) \<and> sorted (map fst (trace_rows i ds)) \<and>
   length (trace_command i ds) = length (filter (\<lambda>d. ev_review_id (snd d) = Some i) ds) \<and>
   (cost_column e = [] \<longleftrightarrow> event_cost e = 0)"
  by (simp add: trace_rows_def trace_command_def cost_column_def)

text \<open>An evaluation that ends has run under valid settings with the overrides in force, and every report behind what is
  printed, compared or saved is the score of a healthy run; asked for no run at all it fails.\<close>

theorem eval_main_healthy:
  assumes "eval_main s provider cap gather repeat as_json verbose save baseline w = (Inr out, w')"
  shows "\<exists>runs. runs \<noteq> [] \<and> list_all healthy_run runs \<and> length runs \<le> repeat \<and>
    valid_settings (eval_settings provider cap s) \<and> (cap \<noteq> 0 \<longrightarrow> s_review_cost_cap_usd (eval_settings provider cap s) = cap) \<and>
    out = eval_command (map (\<lambda>rs. score rs (s_llm_provider (eval_settings provider cap s))
            (agent_models (eval_settings provider cap s))) runs) as_json verbose save baseline"
proof -
  let ?s = "eval_settings provider cap s"
  from assms have valid: "valid_settings ?s"
    and rest: "eff_bind (run_eval ?s (s_llm_provider ?s) (gather ?s) repeat) (\<lambda>reports.
       if reports = [] then eff_lift (Inl (OtherError ''IndexError'' ''list index out of range''))
       else eff_return (eval_command reports as_json verbose save baseline)) w = (Inr out, w')"
    by (auto simp: eval_main_def eff_bind_Inr reload_settings_def split: if_splits)
  from rest obtain reports w1 where run: "run_eval ?s (s_llm_provider ?s) (gather ?s) repeat w = (Inr reports, w1)"
    and "reports \<noteq> []" and out: "out = eval_command reports as_json verbose save baseline"
    by (auto simp: eff_bind_Inr split: if_splits)
  moreover have "cap \<noteq> 0 \<longrightarrow> s_review_cost_cap_usd ?s = cap" by (simp add: eval_settings_def)
  ultimately show ?thesis
    using run_eval_reports [OF run] valid by auto
qed

lemma eval_main_healthy_witness:
  "\<exists>runs. runs \<noteq> [] \<and> list_all healthy_run runs \<and>
     fst (eval_main default_settings ''echo'' 0 (\<lambda>s n w. (Inr [], w)) 2 True False None None ()) =
       Inr (eval_command (map (\<lambda>rs. score rs ''echo'' (agent_models (default_settings\<lparr>s_llm_provider := ''echo''\<rparr>))) runs)
         True False None None)"
proof -
  obtain out where out: "eval_main default_settings ''echo'' 0 (\<lambda>s n w. (Inr [], w)) 2 True False None None () = (Inr out, ())"
    by (auto simp: eval_main_def eff_bind_Inr eval_settings_def reload_settings_def LLM_PROVIDERS_def valid_settings_def
        check_gate_ordering_def default_settings_def run_eval_def numeral_2_eq_2 refuse_if_everything_failed_def eff_bind_def)
  from eval_main_healthy [OF out] show ?thesis unfolding out by (auto simp: eval_settings_def)
qed

lemma eval_of_no_run: "\<exists>e. fst (eval_main s provider cap gather 0 as_json verbose save baseline w) = Inl e"
  by (simp add: eval_main_def eff_bind_def run_eval_def reload_settings_def)

subsection \<open>The order of a review's findings\<close>

fun page_rank :: "severity \<Rightarrow> nat" where
  "page_rank CRITICAL = 0"
| "page_rank INFO = 1"
| "page_rank MAJOR = 2"
| "page_rank MINOR = 3"

lemma severity_text_order: "severity_str a \<le> severity_str b \<longleftrightarrow> page_rank a \<le> page_rank b"
  by (cases a; cases b; hypsubst; code_simp)

text \<open>The page sorts by the text of the severity and not by its rank: it shows the critical findings first, then
  those that are mere information, and the major and minor ones only after them.\<close>

theorem page_information_before_major:
  "sorted (map (\<lambda>f. page_rank (f_severity f)) (page_findings i st)) \<and>
   sorted_wrt (\<lambda>f g. \<not> (f_severity f \<in> {MAJOR, MINOR} \<and> f_severity g = INFO)) (page_findings i st)"
proof -
  have "sorted (map (\<lambda>f. (severity_str (f_severity f), - f_confidence f)) (page_findings i st))"
    by (simp add: page_findings_def)
  then have "sorted_wrt (\<lambda>f g. (severity_str (f_severity f), - f_confidence f) \<le> (severity_str (f_severity g), - f_confidence g))
      (page_findings i st)"
    by (simp only: sorted_map)
  then have ranks: "sorted_wrt (\<lambda>f g. page_rank (f_severity f) \<le> page_rank (f_severity g)) (page_findings i st)"
    by (rule sorted_wrt_mono_rel [rotated]) (auto simp: severity_text_order [symmetric])
  moreover have "sorted_wrt (\<lambda>f g. \<not> (f_severity f \<in> {MAJOR, MINOR} \<and> f_severity g = INFO)) (page_findings i st)"
    by (rule sorted_wrt_mono_rel [OF _ ranks]) auto
  ultimately show ?thesis by (simp add: sorted_map)
qed

end
