(* ===== verification/Readiness.thy ===== *)
theory Readiness
  imports Exceptions
begin

section \<open>Waiting for the services\<close>

text \<open>
  \<^verbatim>\<open>scripts/wait_for_services.py\<close>: the polling loop, the reading of the environment file and of the two addresses, and the exit
  code. A connection attempt, the clock and the sleep are functions on a world. The loop of the source ends
  only because time passes, so it is a partial function here and that it returns is proved from a clock that the sleep
  advances. The properties: the wait ends after at most one attempt per second of its timeout, with the
  truth about the last attempts; and the address of a URL is read back from it.
\<close>

subsection \<open>The loop\<close>

record 'w host_env =
  he_clock :: "'w \<Rightarrow> real"
  he_connect :: "string \<Rightarrow> int \<Rightarrow> 'w \<Rightarrow> (exc + unit) \<times> 'w"
  he_sleep :: "'w \<Rightarrow> 'w"

definition OS_ERRORS :: "string list" where
  "OS_ERRORS =
     [''OSError'', ''ConnectionError'', ''ConnectionRefusedError'', ''ConnectionResetError'', ''ConnectionAbortedError'',
      ''BrokenPipeError'', ''InterruptedError'', ''PermissionError'', ''gaierror'', ''herror'']"

definition is_os_error :: "exc \<Rightarrow> bool" where
  "is_os_error e =
     (case e of PyTimeoutError \<Rightarrow> True | FileNotFoundError _ \<Rightarrow> True | OtherError n _ \<Rightarrow> n \<in> set OS_ERRORS | _ \<Rightarrow> False)"

partial_function (option) wait_loop ::
  "'w host_env \<Rightarrow> string \<Rightarrow> int \<Rightarrow> real \<Rightarrow> 'w \<Rightarrow> ((exc + bool) \<times> 'w) option" where
  "wait_loop env host port deadline w =
     (if he_clock env w < deadline
      then (case he_connect env host port w of
              (Inr _, w1) \<Rightarrow> Some (Inr True, w1)
            | (Inl e, w1) \<Rightarrow>
                if is_os_error e then wait_loop env host port deadline (he_sleep env w1) else Some (Inl e, w1))
      else Some (Inr False, w))"

definition wait_for :: "'w host_env \<Rightarrow> string \<Rightarrow> int \<Rightarrow> real \<Rightarrow> 'w \<Rightarrow> ((exc + bool) \<times> 'w) option" where
  "wait_for env host port timeout w = wait_loop env host port (he_clock env w + timeout) w"

text \<open>The line that is printed.\<close>

definition wait_line :: "string \<Rightarrow> string \<Rightarrow> int \<Rightarrow> real \<Rightarrow> bool \<Rightarrow> string" where
  "wait_line name host port timeout ok =
     ljust 9 name @
     (if ok then '' ready on '' @ host @ '':'' @ py_str_int port
      else '' NOT ready on '' @ host @ '':'' @ py_str_int port @ '' after '' @ py_fixed 0 timeout @ ''s'')"

subsection \<open>Addresses\<close>

text \<open>\<^verbatim>\<open>urlparse\<close>: white space around and line breaks inside are removed, a scheme is cut off, and the network
  location is what follows two slashes.\<close>

definition is_letter :: "char \<Rightarrow> bool" where
  "is_letter c \<longleftrightarrow> is_upper c \<or> is_lower c"

definition is_scheme_char :: "char \<Rightarrow> bool" where
  "is_scheme_char c \<longleftrightarrow> is_letter c \<or> is_digit c \<or> c \<in> set ''+-.''"

definition without_scheme :: "string \<Rightarrow> string" where
  "without_scheme url =
     (case py_partition CHR '':'' url of (scheme, rest) \<Rightarrow>
        if CHR '':'' \<in> set url \<and> scheme \<noteq> [] \<and> is_letter (hd scheme) \<and> list_all is_scheme_char scheme then rest else url)"

definition clean_url :: "string \<Rightarrow> string" where
  "clean_url url = filter (\<lambda>c. code c \<notin> {9, 10, 13}) (dropWhile (\<lambda>c. code c \<le> 32) url)"

definition netloc :: "string \<Rightarrow> string" where
  "netloc url =
     (let rest = without_scheme (clean_url url) in
      if startswith rest ''//'' then takeWhile (\<lambda>c. c \<notin> set ''/?#'') (drop 2 rest) else [])"

text \<open>Host and port of a network location; an address in brackets is taken whole.\<close>

definition hostinfo :: "string \<Rightarrow> string \<times> string" where
  "hostinfo loc =
     (let info = snd (py_rpartition CHR ''@'' loc) in
      if CHR ''['' \<in> set info
      then (case py_partition CHR '']'' (snd (py_partition CHR ''['' info)) of (name, rest) \<Rightarrow>
              (name, snd (py_partition CHR '':'' rest)))
      else py_partition CHR '':'' info)"

definition lower_host :: "string \<Rightarrow> string" where
  "lower_host h = (case py_partition CHR ''%'' h of (name, zone) \<Rightarrow>
     py_lower name @ (if CHR ''%'' \<in> set h then CHR ''%'' # zone else []))"

definition url_port :: "string \<Rightarrow> exc + int" where
  "url_port port =
     (if port = [] then Inr 0
      else if \<not> list_all is_digit port then Inl (ValueError ''Port could not be cast to integer value'')
      else if digits_value port \<le> 65535 then Inr (int (digits_value port))
      else Inl (ValueError ''Port out of range 0-65535''))"

definition hostport :: "string \<Rightarrow> int \<Rightarrow> exc + string \<times> int" where
  "hostport url default_port =
     (let loc = netloc url in
      if (CHR ''['' \<in> set loc) \<noteq> (CHR '']'' \<in> set loc) then Inl (ValueError ''Invalid IPv6 URL'')
      else (case hostinfo loc of (host, port) \<Rightarrow>
              ebind (url_port port) (\<lambda>n.
                Inr (if host = [] then ''localhost'' else lower_host host, if n = 0 then default_port else n))))"

subsection \<open>The environment and the exit code\<close>

definition env_entry :: "string \<Rightarrow> (string \<times> string) option" where
  "env_entry line =
     (if CHR ''='' \<in> set line \<and> \<not> startswith (py_strip line) ''#''
      then (case py_partition CHR ''='' line of (k, v) \<Rightarrow> Some (py_strip k, py_strip v)) else None)"

definition read_env :: "string \<Rightarrow> string \<rightharpoonup> string" where
  "read_env content = map_of (rev (List.map_filter env_entry (py_splitlines content)))"

definition env_value :: "(string \<rightharpoonup> string) \<Rightarrow> (string \<rightharpoonup> string) \<Rightarrow> string \<Rightarrow> string \<Rightarrow> string" where
  "env_value environ env k default_value =
     (case environ k of Some v \<Rightarrow> v | None \<Rightarrow> (case env k of Some v \<Rightarrow> v | None \<Rightarrow> default_value))"

text \<open>\<open>envfile\<close> is the content of \<^verbatim>\<open>.env\<close>, or of \<^verbatim>\<open>.env.example\<close>, or nothing. The value is the exit code;
  both services are waited for, whatever becomes of the first.\<close>

definition wait_main ::
  "'w host_env \<Rightarrow> (string \<rightharpoonup> string) \<Rightarrow> string option \<Rightarrow> 'w \<Rightarrow> ((exc + nat) \<times> 'w) option" where
  "wait_main env environ envfile w =
     (let file_env = (case envfile of None \<Rightarrow> Map.empty | Some content \<Rightarrow> read_env content);
          db = env_value environ file_env ''DATABASE_URL'' ''postgresql://x@localhost:5433/x'';
          rd = env_value environ file_env ''REDIS_URL'' ''redis://localhost:6380/0''
      in (case hostport db 5432 of
            Inl e \<Rightarrow> Some (Inl e, w)
          | Inr (h1, p1) \<Rightarrow>
              Option.bind (wait_for env h1 p1 60 w) (\<lambda>(r1, w1).
                case r1 of
                  Inl e \<Rightarrow> Some (Inl e, w1)
                | Inr ok1 \<Rightarrow>
                    (case hostport rd 6379 of
                       Inl e \<Rightarrow> Some (Inl e, w1)
                     | Inr (h2, p2) \<Rightarrow>
                         Option.bind (wait_for env h2 p2 60 w1) (\<lambda>(r2, w2).
                           case r2 of
                             Inl e \<Rightarrow> Some (Inl e, w2)
                           | Inr ok2 \<Rightarrow> Some (Inr (if ok2 \<and> ok1 then 0 else 1), w2))))))"

subsection \<open>The wait ends\<close>

text \<open>The world after \<open>n\<close> attempts that failed, each followed by a sleep.\<close>

fun after_failures :: "'w host_env \<Rightarrow> string \<Rightarrow> int \<Rightarrow> nat \<Rightarrow> 'w \<Rightarrow> 'w" where
  "after_failures env host port 0 w = w"
| "after_failures env host port (Suc n) w =
     after_failures env host port n (he_sleep env (snd (he_connect env host port w)))"

definition refused :: "'w host_env \<Rightarrow> string \<Rightarrow> int \<Rightarrow> 'w \<Rightarrow> bool" where
  "refused env host port w \<longleftrightarrow> (\<exists>e. fst (he_connect env host port w) = Inl e \<and> is_os_error e)"

definition wait_verdict :: "'w host_env \<Rightarrow> string \<Rightarrow> int \<Rightarrow> real \<Rightarrow> 'w \<Rightarrow> (exc + bool) \<times> 'w" where
  "wait_verdict env host port deadline w =
     (if deadline \<le> he_clock env w then (Inr False, w)
      else (case he_connect env host port w of (Inr _, w1) \<Rightarrow> (Inr True, w1) | (Inl e, w1) \<Rightarrow> (Inl e, w1)))"

lemma wait_loop_step:
  "wait_loop env host port deadline w =
     (if he_clock env w < deadline \<and> refused env host port w
      then wait_loop env host port deadline (he_sleep env (snd (he_connect env host port w)))
      else Some (wait_verdict env host port deadline w))"
  by (subst wait_loop.simps) (auto simp: refused_def wait_verdict_def split: prod.splits sum.splits)

lemma wait_loop_returns:
  fixes env :: "'w host_env"
  assumes "\<And>v. he_clock env v + 1 \<le> he_clock env (he_sleep env (snd (he_connect env host port v)))"
    and "deadline \<le> he_clock env w + real k"
  shows "\<exists>n \<le> k. (\<forall>m < n. refused env host port (after_failures env host port m w)) \<and>
    \<not> (he_clock env (after_failures env host port n w) < deadline \<and> refused env host port (after_failures env host port n w)) \<and>
    wait_loop env host port deadline w = Some (wait_verdict env host port deadline (after_failures env host port n w))"
  using assms(2)
proof (induction k arbitrary: w)
  case 0
  then show ?case by (simp add: wait_loop_step)
next
  case (Suc k)
  let ?v = "he_sleep env (snd (he_connect env host port w))"
  show ?case
  proof (cases "he_clock env w < deadline \<and> refused env host port w")
    case True
    have "deadline \<le> he_clock env ?v + real k" using Suc.prems assms(1) [of w] by simp
    from Suc.IH [OF this] obtain n where n: "n \<le> k"
      "\<forall>m < n. refused env host port (after_failures env host port m ?v)"
      "\<not> (he_clock env (after_failures env host port n ?v) < deadline \<and> refused env host port (after_failures env host port n ?v))"
      "wait_loop env host port deadline ?v = Some (wait_verdict env host port deadline (after_failures env host port n ?v))"
      by blast
    have "refused env host port (after_failures env host port m w)" if "m < Suc n" for m
      using that True n(2) by (cases m) auto
    moreover have "wait_loop env host port deadline w = wait_loop env host port deadline ?v"
      using True by (subst wait_loop_step) simp
    ultimately show ?thesis using n by (intro exI [of _ "Suc n"]) auto
  next
    case False
    then have "wait_loop env host port deadline w = Some (wait_verdict env host port deadline w)"
      by (subst wait_loop_step) auto
    with False show ?thesis by (intro exI [of _ 0]) simp
  qed
qed

text \<open>If a sleep takes a second on the clock, waiting ends: after \<open>n\<close> refused attempts, at most one for every second of
  the timeout, the next one succeeds or fails for a reason that is no refusal, or the time is over; and the
  answer says which. A wait of no time at all makes no attempt.\<close>

theorem wait_returns:
  fixes env :: "'w host_env"
  assumes "\<And>v. he_clock env v + 1 \<le> he_clock env (he_sleep env (snd (he_connect env host port v)))"
    and "timeout \<le> real k"
  shows "\<exists>n \<le> k. list_all (\<lambda>m. refused env host port (after_failures env host port m w)) [0..<n] \<and>
    wait_for env host port timeout w =
      Some (wait_verdict env host port (he_clock env w + timeout) (after_failures env host port n w)) \<and>
    (fst (wait_verdict env host port (he_clock env w + timeout) (after_failures env host port n w)) = Inr False \<longleftrightarrow>
       he_clock env w + timeout \<le> he_clock env (after_failures env host port n w)) \<and>
    \<not> (he_clock env (after_failures env host port n w) < he_clock env w + timeout \<and>
       refused env host port (after_failures env host port n w))"
proof -
  have "he_clock env w + timeout \<le> he_clock env w + real k" using assms(2) by simp
  from wait_loop_returns [OF assms(1) this] obtain n where "n \<le> k"
    "\<forall>m < n. refused env host port (after_failures env host port m w)"
    "wait_loop env host port (he_clock env w + timeout) w =
       Some (wait_verdict env host port (he_clock env w + timeout) (after_failures env host port n w))"
    "\<not> (he_clock env (after_failures env host port n w) < he_clock env w + timeout \<and>
       refused env host port (after_failures env host port n w))"
    by blast
  then show ?thesis
    by (intro exI [of _ n]) (auto simp: wait_for_def list_all_iff wait_verdict_def split: prod.splits sum.splits)
qed

text \<open>A host that counts seconds and answers from the third on.\<close>

definition slow_host :: "nat host_env" where
  "slow_host =
     \<lparr>he_clock = real, he_connect = (\<lambda>h p t. (if 2 < t then Inr () else Inl (OtherError ''ConnectionRefusedError'' []), t)),
      he_sleep = Suc\<rparr>"

lemma wait_returns_witness: "wait_for slow_host ''localhost'' 5433 60 0 = Some (Inr True, 3)"
proof -
  have states: "after_failures slow_host ''localhost'' 5433 n w = w + n" for n w
    by (induction n arbitrary: w) (simp_all add: slow_host_def)
  have refused: "refused slow_host ''localhost'' 5433 t \<longleftrightarrow> t \<le> 2" for t
    by (auto simp: refused_def slow_host_def is_os_error_def OS_ERRORS_def)
  have "he_clock slow_host v + 1 \<le> he_clock slow_host (he_sleep slow_host (snd (he_connect slow_host ''localhost'' 5433 v)))"
    for v by (simp add: slow_host_def)
  from wait_returns [OF this, of 60 60 0] obtain n where n: "list_all (\<lambda>m. m \<le> 2) [0..<n]"
    "wait_for slow_host ''localhost'' 5433 60 0 = Some (wait_verdict slow_host ''localhost'' 5433 60 n)"
    "\<not> (real n < 60 \<and> n \<le> 2)"
    by (auto simp: states refused) (auto simp: slow_host_def)
  have "n \<le> 3"
  proof (rule ccontr)
    assume "\<not> n \<le> 3"
    then have "3 \<in> set [0..<n]" by simp
    with n(1) have "(3::nat) \<le> 2" unfolding list_all_iff by blast
    then show False by simp
  qed
  with n(3) have "n = 3" by linarith
  with n(2) show ?thesis by (simp add: wait_verdict_def slow_host_def)
qed

subsection \<open>Reading an address back\<close>

definition plain_part :: "string \<Rightarrow> string \<Rightarrow> bool" where
  "plain_part special s \<longleftrightarrow> list_all (\<lambda>c. 32 < code c \<and> c \<notin> set special) s"

lemma filter_plain: "plain_part special s \<Longrightarrow> filter (\<lambda>c. code c \<notin> {9, 10, 13}) s = s"
  by (induction s) (auto simp: plain_part_def)

lemma scheme_char_plain: "is_scheme_char c \<Longrightarrow> 32 < code c \<and> c \<notin> set '':/?#[]@%''"
  by (auto simp: is_scheme_char_def is_letter_def is_upper_def is_lower_def is_digit_def code_def)

lemma digits_plain: "list_all is_digit s \<Longrightarrow> plain_part '':/?#[]@%'' s"
  using scheme_char_plain by (auto simp: plain_part_def list_all_iff is_scheme_char_def)

lemma without_scheme_cut:
  assumes "scheme \<noteq> []" and "is_letter (hd scheme)" and "list_all is_scheme_char scheme" and "CHR '':'' \<notin> set scheme"
  shows "without_scheme (scheme @ CHR '':'' # rest) = rest"
  using assms(1,2,3) py_partition_text [OF assms(4), of rest] by (simp add: without_scheme_def)

lemma plain_free: "plain_part special s \<Longrightarrow> c \<in> set special \<Longrightarrow> c \<notin> set s"
  by (auto simp: plain_part_def list_all_iff)

lemma hostport_text:
  assumes "scheme \<noteq> []" and "is_letter (hd scheme)" and "list_all is_scheme_char scheme"
    and "plain_part ''/?#[]'' user" and "plain_part '':/?#[]@%'' host" and "host \<noteq> []"
    and "0 < port" and "port \<le> 65535"
  shows "hostport (scheme @ ''://'' @ user @ ''@'' @ host @ '':'' @ py_str_nat port @ ''/'' @ path) d =
    Inr (py_lower host, int port)"
proof -
  let ?url = "scheme @ ''://'' @ user @ ''@'' @ host @ '':'' @ py_str_nat port @ ''/'' @ path"
  let ?loc = "user @ ''@'' @ host @ '':'' @ py_str_nat port"
  have digits: "plain_part '':/?#[]@%'' (py_str_nat port)" by (rule digits_plain [OF py_str_nat_digits])
  have scheme: "plain_part '':/?#[]@%'' scheme" using assms(3) scheme_char_plain by (auto simp: plain_part_def list_all_iff)
  note free = plain_free [OF assms(4)] plain_free [OF assms(5)] plain_free [OF digits] plain_free [OF scheme]
  have "\<not> code (hd scheme) \<le> 32" using scheme assms(1) by (cases scheme) (auto simp: plain_part_def)
  then have "dropWhile (\<lambda>c. code c \<le> 32) ?url = ?url" using assms(1) by (cases scheme) auto
  moreover have "filter (\<lambda>c. code c \<notin> {9, 10, 13}) ''://'' = ''://''" "filter (\<lambda>c. code c \<notin> {9, 10, 13}) ''@'' = ''@''"
    "filter (\<lambda>c. code c \<notin> {9, 10, 13}) '':'' = '':''" "filter (\<lambda>c. code c \<notin> {9, 10, 13}) ''/'' = ''/''"
    by code_simp+
  ultimately have "clean_url ?url =
      scheme @ ''://'' @ user @ ''@'' @ host @ '':'' @ py_str_nat port @ ''/'' @ filter (\<lambda>c. code c \<notin> {9, 10, 13}) path"
    using filter_plain [OF scheme] filter_plain [OF assms(4)] filter_plain [OF assms(5)] filter_plain [OF digits]
    by (simp only: clean_url_def filter_append)
  then have clean: "clean_url ?url = scheme @ CHR '':'' # ''//'' @ ?loc @ ''/'' @ filter (\<lambda>c. code c \<notin> {9, 10, 13}) path"
    by (simp only: append_Cons append_Nil append_assoc)
  have colon: "CHR '':'' \<notin> set scheme" by (simp add: free)
  have without: "without_scheme (clean_url ?url) = ''//'' @ ?loc @ ''/'' @ filter (\<lambda>c. code c \<notin> {9, 10, 13}) path"
    unfolding clean without_scheme_cut [OF assms(1,2,3) colon] ..
  have "takeWhile (\<lambda>c. c \<notin> set ''/?#'') (?loc @ ''/'' @ rest) = ?loc" for rest
  proof -
    have "list_all (\<lambda>c. c \<notin> set ''/?#'') user" "list_all (\<lambda>c. c \<notin> set ''/?#'') host"
      "list_all (\<lambda>c. c \<notin> set ''/?#'') (py_str_nat port)"
      using assms(4,5) digits unfolding plain_part_def by (simp_all add: list_all_iff)
    then have "list_all (\<lambda>c. c \<notin> set ''/?#'') ?loc" by simp
    then have "takeWhile (\<lambda>c. c \<notin> set ''/?#'') (?loc @ ''/'' @ rest) = ?loc @ takeWhile (\<lambda>c. c \<notin> set ''/?#'') (''/'' @ rest)"
      unfolding list_all_iff by (intro takeWhile_append2) blast
    then show ?thesis by simp
  qed
  from this [of "filter (\<lambda>c. code c \<notin> {9, 10, 13}) path"] have loc: "netloc ?url = ?loc"
    unfolding netloc_def Let_def without by simp
  have at: "CHR ''@'' \<notin> set (host @ '':'' @ py_str_nat port)"
    by (simp add: free)
  have brackets: "CHR ''['' \<notin> set ?loc" "CHR '']'' \<notin> set ?loc"
    by (simp_all add: free)
  have "py_rpartition CHR ''@'' ?loc = (user, host @ '':'' @ py_str_nat port)"
    using py_rpartition_text [OF at, of user] by simp
  moreover have "CHR '':'' \<notin> set host" by (simp add: free)
  then have "py_partition CHR '':'' (host @ '':'' @ py_str_nat port) = (host, py_str_nat port)"
    using py_partition_text [of "CHR '':''" host "py_str_nat port"] by simp
  moreover have "CHR ''['' \<notin> set (host @ '':'' @ py_str_nat port)" by (simp add: free)
  ultimately have info: "hostinfo ?loc = (host, py_str_nat port)" by (simp only: hostinfo_def Let_def snd_conv if_False)
  have "CHR ''%'' \<notin> set host" by (simp add: free)
  then have lower: "lower_host host = py_lower host" by (simp add: lower_host_def py_partition_absent)
  have "url_port (py_str_nat port) = Inr (int port)"
    using py_str_nat_digits [of port] assms(8) by (simp add: url_port_def)
  then show ?thesis
    using brackets assms(6,7) by (simp only: hostport_def Let_def loc info) (simp add: lower)
qed

text \<open>An address that is written as scheme, user, host and port is read back, the host in lower case.\<close>

theorem hostport_reads:
  assumes "scheme \<noteq> []" and "is_letter (hd scheme)" and "list_all is_scheme_char scheme"
    and "plain_part ''/?#[]'' user" and "plain_part '':/?#[]@%'' host" and "host \<noteq> []"
    and "0 < port" and "port \<le> 65535"
  shows "hostport (scheme @ ''://'' @ user @ ''@'' @ host @ '':'' @ py_str_nat port @ ''/'' @ path) d =
    Inr (py_lower host, int port)"
  using assms by (rule hostport_text)

lemma hostport_reads_witness:
  "hostport ''postgresql://sentinel:s@DB.example:5433/sentinel'' 5432 = Inr (''db.example'', 5433)"
proof -
  have "list_all is_scheme_char ''postgresql''" "plain_part ''/?#[]'' ''sentinel:s''" "plain_part '':/?#[]@%'' ''DB.example''"
    "digit_char 5 = CHR ''5''" "digit_char 4 = CHR ''4''" "digit_char 3 = CHR ''3''" "py_lower ''DB.example'' = ''db.example''" "is_letter (hd ''postgresql'')"
    by code_simp+
  with hostport_reads [of "''postgresql''" "''sentinel:s''" "''DB.example''" 5433 "''sentinel''" 5432]
  show ?thesis by (simp add: py_str_nat.simps)
qed

text \<open>The command succeeds exactly if both services answered.\<close>

theorem wait_main_exit:
  assumes "hostport (env_value environ file_env ''DATABASE_URL'' ''postgresql://x@localhost:5433/x'') 5432 = Inr (h1, p1)"
    and "hostport (env_value environ file_env ''REDIS_URL'' ''redis://localhost:6380/0'') 6379 = Inr (h2, p2)"
    and "wait_for env h1 p1 60 w = Some (Inr ok1, w1)" and "wait_for env h2 p2 60 w1 = Some (Inr ok2, w2)"
    and "file_env = (case envfile of None \<Rightarrow> Map.empty | Some content \<Rightarrow> read_env content)"
  shows "wait_main env environ envfile w = Some (Inr (if ok1 \<and> ok2 then 0 else 1), w2)"
  using assms by (auto simp: wait_main_def Let_def)

lemma wait_main_exit_witness:
  "\<exists>w. wait_main slow_host [''DATABASE_URL'' \<mapsto> ''p://u@h:1/'', ''REDIS_URL'' \<mapsto> ''p://u@h:2/''] None 3 = Some (Inr 0, w)"
proof -
  have parts: "list_all is_scheme_char ''p''" "is_letter (hd ''p'')" "plain_part ''/?#[]'' ''u''" "plain_part '':/?#[]@%'' ''h''"
    "digit_char 1 = CHR ''1''" "digit_char 2 = CHR ''2''" "py_lower ''h'' = ''h''"
    by code_simp+
  have "hostport ''p://u@h:1/'' 5432 = Inr (''h'', 1)" "hostport ''p://u@h:2/'' 6379 = Inr (''h'', 2)"
    using parts hostport_text [of "''p''" "''u''" "''h''" 1 "[]" 5432] hostport_text [of "''p''" "''u''" "''h''" 2 "[]" 6379]
    by (simp_all add: py_str_nat.simps)
  moreover have "wait_for slow_host h p 60 3 = Some (Inr True, 3)" for h p
    by (simp add: wait_for_def wait_loop_step refused_def wait_verdict_def slow_host_def)
  ultimately show ?thesis
    using wait_main_exit [of "[''DATABASE_URL'' \<mapsto> ''p://u@h:1/'', ''REDIS_URL'' \<mapsto> ''p://u@h:2/'']" Map.empty
        "''h''" 1 "''h''" 2 slow_host 3 True 3 True 3 None]
    by (simp add: env_value_def)
qed

end
