(* ===== verification/BlindAudit.thy ===== *)
theory BlindAudit
  imports Labels Readiness
begin

section \<open>The blind audit of the labels\<close>

text \<open>
  \<^verbatim>\<open>scripts/blind_label_audit.py\<close> from the rows it audits to the file it saves, and the environment file the
  scripts read. A row is a dictionary; the texts the model answers with are a function of the prompt, and what may stop
  a call is its error. The properties: the rows come in order of case and line; the audit prints and
  saves every row once, in order, and counts as flagged those it marks; an answer that is an
  object without a verdict loses the whole audit; an answer can rename the case it is about.
\<close>

subsection \<open>The environment file\<close>

definition strip_char :: "char \<Rightarrow> string \<Rightarrow> string" where
  "strip_char c s = rev (dropWhile ((=) c) (rev (dropWhile ((=) c) s)))"

definition dotenv_entry :: "string \<Rightarrow> (string \<times> string) option" where
  "dotenv_entry line =
     (if py_strip line \<noteq> [] \<and> \<not> startswith line ''#'' \<and> CHR ''='' \<in> set line
      then (case py_partition CHR ''='' line of (k, v) \<Rightarrow>
              Some (py_strip k, strip_char CHR 0x27 (strip_char CHR 0x22 (py_strip v))))
      else None)"

text \<open>\<^verbatim>\<open>os.environ.setdefault\<close> for every line: what is set stays, and the first of two lines counts.\<close>

definition load_dotenv :: "string \<Rightarrow> (string \<rightharpoonup> string) \<Rightarrow> string \<rightharpoonup> string" where
  "load_dotenv content environ =
     fold (\<lambda>(k, v) e. if e k = None then e(k \<mapsto> v) else e) (List.map_filter dotenv_entry (py_splitlines content)) environ"

subsection \<open>The rows\<close>

type_synonym audit_row = "(string \<times> json) list"

definition diff_block :: "(json \<Rightarrow> string) \<Rightarrow> json \<Rightarrow> exc + string" where
  "diff_block repr_of f =
     ebind (json_index ''filename'' f) (\<lambda>name.
     ebind (json_get ''patch'' JNull f) (\<lambda>patch.
       Inr (''--- '' @ py_str repr_of name @ '' ---'' @ [CHR 0x0A] @ py_str repr_of (json_or patch (JStr [])))))"

definition context_block :: "(json \<Rightarrow> string) \<Rightarrow> json \<Rightarrow> exc + string" where
  "context_block repr_of cf =
     ebind (json_index ''path'' cf) (\<lambda>path.
     ebind (json_index ''content'' cf) (\<lambda>content.
       Inr ([CHR 0x0A] @ ''UNCHANGED CONTEXT FILE '' @ py_str repr_of path @ '':'' @ [CHR 0x0A] @
            py_str repr_of content @ [CHR 0x0A])))"

definition audit_row_of :: "(json \<Rightarrow> string) \<Rightarrow> label_key \<times> json \<times> json \<Rightarrow> exc + audit_row" where
  "audit_row_of repr_of entry =
     (case entry of ((cid, path, line, agent, cat), note', doc) \<Rightarrow>
        ebind (ebind (ebind (json_index ''files'' doc) typed_list) (e_traverse (diff_block repr_of))) (\<lambda>blocks.
        ebind (json_get ''title'' (JStr []) doc) (\<lambda>title.
        ebind (json_get ''summary'' (JStr []) doc) (\<lambda>summary.
        ebind (json_get ''context_files'' JNull doc) (\<lambda>cfs.
        ebind (ebind (typed_list (json_or cfs (JList []))) (e_traverse (context_block repr_of))) (\<lambda>context'.
          Inr [(''case_id'', JStr cid), (''path'', path), (''line'', line), (''agent'', agent), (''category'', cat),
               (''note'', note'), (''diff'', JStr (py_join [CHR 0x0A] blocks)), (''title'', title),
               (''summary'', summary), (''context'', JStr (concat context'))]))))))"

text \<open>The key of the order: a line that is missing counts as 0. A line of another type than a number is an error of the
  model; Python fails when it compares it with a number.\<close>

definition row_order :: "label_key \<Rightarrow> exc + string \<times> int" where
  "row_order k = (case k of (cid, path, line, agent, cat) \<Rightarrow> ebind (typed_int (json_or line (JInt 0))) (\<lambda>n. Inr (cid, n)))"

definition labels_at ::
  "(json \<Rightarrow> string) \<Rightarrow> json list \<Rightarrow> json list \<Rightarrow> exc + ((string \<times> int) \<times> audit_row) list" where
  "labels_at repr_of base_docs rev_docs =
     ebind (fresh_labels base_docs rev_docs) (\<lambda>entries.
     ebind (e_traverse (\<lambda>en. ebind (audit_row_of repr_of en) (\<lambda>row. ebind (row_order (fst en)) (\<lambda>k. Inr (k, row)))) entries)
       (\<lambda>rows. Inr (sort_key fst rows)))"

subsection \<open>The question\<close>

definition LINE :: string where
  "LINE = [CHR 0x0A]"

definition audit_prompt :: "(json \<Rightarrow> string) \<Rightarrow> audit_row \<Rightarrow> string" where
  "audit_prompt repr_of row =
     (let field = (\<lambda>k. py_str repr_of (jget_or k JNull row)) in
      ''You are checking whether a note attached to a code-review test fixture is accurate. '' @
      ''The note explains why a particular observation about a diff is considered legitimate.'' @ LINE @ LINE @
      ''Your only question: **does the diff actually support every factual claim the note makes?**'' @ LINE @ LINE @
      ''A note is SUPPORTED when every claim in it can be verified from the diff shown.'' @ LINE @
      ''A note is OVERSTATED when it asserts something the diff does not show '' @ EM_DASH @ '' for example '' @
      ''claiming a behaviour changed when the diff shows it behaving the same way before and '' @
      ''after, or asserting how callers elsewhere use a symbol when no caller or signature is '' @
      ''visible anywhere in the material below. Judge against everything you are given '' @ EM_DASH @ '' the '' @
      ''title, the summary, the unchanged context files and the diff '' @ EM_DASH @ '' not the diff alone. '' @
      ''Widely known behaviour of the language, standard library or platform counts as '' @
      ''established and does not need to appear in the diff.'' @ LINE @
      ''A note is CONTRADICTED when the diff shows the opposite of what it claims.'' @ LINE @ LINE @
      ''Judge only the note'' @ [CHR 0x27] @ ''s factual accuracy. Do not judge whether the observation is worth '' @
      ''making, whether it is severe, or whether it is correctly categorised.'' @ LINE @ LINE @
      ''PULL REQUEST TITLE: '' @ field ''title'' @ LINE @ ''SUMMARY: '' @ field ''summary'' @ LINE @ LINE @
      ''The observation is attributed to the '' @ field ''agent'' @ '' agent, category '' @ field ''category'' @ '', at '' @
      field ''path'' @ '':'' @ field ''line'' @ ''.'' @ LINE @ take 6000 (field ''context'') @ LINE @
      ''DIFF UNDER REVIEW:'' @ LINE @ take 12000 (field ''diff'') @ LINE @ LINE @
      ''THE NOTE TO CHECK:'' @ LINE @ field ''note'' @ LINE @ LINE @
      ''Reply with JSON only: {'' @ [CHR 0x22] @ ''verdict'' @ [CHR 0x22] @ '': '' @ [CHR 0x22] @ ''SUPPORTED'' @ [CHR 0x22] @
      '' | '' @ [CHR 0x22] @ ''OVERSTATED'' @ [CHR 0x22] @ '' | '' @ [CHR 0x22] @ ''CONTRADICTED'' @ [CHR 0x22] @ '', '' @
      [CHR 0x22] @ ''reason'' @ [CHR 0x22] @ '': '' @ [CHR 0x22] @ ''<one or two sentences citing the diff>'' @
      [CHR 0x22] @ ''}'')"

text \<open>\<^verbatim>\<open>{**row, **parsed}\<close>: what the model answers replaces what the row has. \<open>ask\<close> is the joined text of the
  answer to a prompt.\<close>

definition merged_row :: "audit_row \<Rightarrow> (string \<times> json) list \<Rightarrow> audit_row" where
  "merged_row row answer = fold (\<lambda>(k, v). put_label k v) answer row"

definition judge ::
  "(json \<Rightarrow> string) \<Rightarrow> (string \<Rightarrow> json option) \<Rightarrow> (string \<Rightarrow> exc + string) \<Rightarrow> audit_row \<Rightarrow> exc + audit_row" where
  "judge repr_of loads ask row =
     ebind (ask (audit_prompt repr_of row)) (\<lambda>s. Inr (merged_row row (parsed_verdict loads s)))"

subsection \<open>The report\<close>

definition row_value :: "string \<Rightarrow> audit_row \<Rightarrow> exc + json" where
  "row_value k row = (case jget k row of None \<Rightarrow> Inl (KeyError k) | Some v \<Rightarrow> Inr v)"

definition supported :: "audit_row \<Rightarrow> exc + bool" where
  "supported row = ebind (row_value ''verdict'' row) (\<lambda>v. Inr (v = JStr ''SUPPORTED''))"

text \<open>The lines of one row. A verdict that is null, a list or an object cannot be padded; a number or a boolean could, but is
  an error of the model like them.\<close>

definition audit_lines :: "(json \<Rightarrow> string) \<Rightarrow> audit_row \<Rightarrow> exc + string list" where
  "audit_lines repr_of row =
     ebind (supported row) (\<lambda>ok.
     ebind (ebind (row_value ''verdict'' row) typed_str) (\<lambda>verdict.
     ebind (row_value ''case_id'' row) (\<lambda>cid.
     ebind (row_value ''line'' row) (\<lambda>line.
     ebind (row_value ''agent'' row) (\<lambda>agent.
     ebind (row_value ''category'' row) (\<lambda>cat.
     ebind (if ok then Inr [] else ebind (row_value ''reason'' row) (\<lambda>r. Inr [''      '' @ py_str repr_of r])) (\<lambda>why.
       Inr (((if ok then ''  ok '' else ''>>> '') @ ljust 13 verdict @ '' '' @ py_str repr_of cid @ '':'' @
             py_str repr_of line @ '' ['' @ py_str repr_of agent @ ''/'' @ py_str repr_of cat @ '']'') # why))))))))"

definition saved_row :: "audit_row \<Rightarrow> json" where
  "saved_row row = JObj (filter (\<lambda>(k, v). k \<notin> {''diff'', ''context''}) row)"

definition audit_main ::
  "(json \<Rightarrow> string) \<Rightarrow> (string \<Rightarrow> json option) \<Rightarrow> (string \<Rightarrow> exc + string) \<Rightarrow> nat \<Rightarrow> json list \<Rightarrow> json list \<Rightarrow>
     exc + string list \<times> json" where
  "audit_main repr_of loads ask limit base_docs rev_docs =
     ebind (labels_at repr_of base_docs rev_docs) (\<lambda>keyed.
     let all_rows = map snd keyed; rows = (if limit = 0 then all_rows else take limit all_rows) in
     ebind (e_traverse (judge repr_of loads ask) rows) (\<lambda>results.
     ebind (e_traverse supported results) (\<lambda>oks.
     ebind (e_traverse (audit_lines repr_of) results) (\<lambda>blocks.
       Inr (concat blocks @ [[], py_str_nat (length (filter Not oks)) @ '' of '' @ py_str_nat (length results) @ '' notes flagged''],
            JList (map saved_row results))))))"

subsection \<open>What the audit reports\<close>

lemma jget_put_label: "jget k' (put_label k v d) = (if k' = k then Some v else jget k' d)"
  by (induction d) (auto simp: jget_def)

lemma jget_merged: "jget k (merged_row row answer) = (case jget k (rev answer) of None \<Rightarrow> jget k row | Some v \<Rightarrow> Some v)"
proof (induction answer arbitrary: row)
  case (Cons e answer)
  obtain k' v where e: "e = (k', v)" by (cases e)
  have "merged_row row (e # answer) = merged_row (put_label k' v row) answer" by (simp add: merged_row_def e)
  moreover have "jget k (rev (e # answer)) = (case jget k (rev answer) of None \<Rightarrow> if k = k' then Some v else None | Some x \<Rightarrow> Some x)"
    by (auto simp: jget_def map_add_def e split: option.splits)
  ultimately show ?case using Cons.IH [of "put_label k' v row"] by (auto simp: jget_put_label split: option.splits)
qed (simp add: merged_row_def jget_def)

lemma supported_Inr: "supported row = Inr b \<longleftrightarrow> (\<exists>v. jget ''verdict'' row = Some v \<and> b = (v = JStr ''SUPPORTED''))"
  by (auto simp: supported_def row_value_def ebind_Inr split: option.splits)

lemma audit_row_no_verdict: "audit_row_of repr_of entry = Inr row \<Longrightarrow> jget ''verdict'' row = None"
  by (auto simp: audit_row_of_def ebind_Inr jget_def split: prod.splits)

lemma labels_at_rows:
  assumes "labels_at repr_of base_docs rev_docs = Inr keyed"
  shows "sorted (map fst keyed) \<and> list_all (\<lambda>r. jget ''verdict'' (snd r) = None) keyed"
proof -
  obtain entries rows where "e_traverse (\<lambda>en. ebind (audit_row_of repr_of en) (\<lambda>row. ebind (row_order (fst en)) (\<lambda>k. Inr (k, row))))
      entries = Inr rows" and keyed: "keyed = sort_key fst rows"
    using assms by (auto simp: labels_at_def ebind_Inr)
  from traverse_members [OF this(1)] have "\<forall>r \<in> set rows. jget ''verdict'' (snd r) = None"
    by (auto simp: list_all2_conv_all_nth in_set_conv_nth ebind_Inr dest!: audit_row_no_verdict)
       (metis audit_row_no_verdict snd_conv)
  then show ?thesis by (simp add: keyed list_all_iff)
qed

definition lines_of_row :: "audit_row \<Rightarrow> string list \<Rightarrow> bool" where
  "lines_of_row row ls \<longleftrightarrow>
     (if supported row = Inr True then length ls = 1 \<and> startswith (hd ls) ''  ok ''
      else length ls = 2 \<and> startswith (hd ls) ''>>> '')"

lemma audit_lines_of_row: "audit_lines repr_of row = Inr ls \<Longrightarrow> lines_of_row row ls"
  by (auto simp: audit_lines_def lines_of_row_def ebind_Inr split: if_splits)

text \<open>An audit that ends has judged the rows, in order of case and line; it prints for each of them one line that says ok
  or two that do not, counts as flagged those without a verdict of being supported, and saves all of them
  without the material they were judged by.\<close>

theorem audit_reports:
  assumes "audit_main repr_of loads ask 0 base_docs rev_docs = Inr (out, saved)"
  shows "\<exists>keyed results blocks. labels_at repr_of base_docs rev_docs = Inr keyed \<and> sorted (map fst keyed) \<and>
    e_traverse (judge repr_of loads ask) (map snd keyed) = Inr results \<and> list_all2 lines_of_row results blocks \<and>
    out = concat blocks @ [[], py_str_nat (length (filter (\<lambda>r. supported r \<noteq> Inr True) results)) @ '' of '' @
      py_str_nat (length keyed) @ '' notes flagged''] \<and>
    saved = JList (map saved_row results)"
proof -
  obtain keyed results oks blocks where keyed: "labels_at repr_of base_docs rev_docs = Inr keyed"
    and results: "e_traverse (judge repr_of loads ask) (map snd keyed) = Inr results"
    and oks: "e_traverse supported results = Inr oks" and blocks: "e_traverse (audit_lines repr_of) results = Inr blocks"
    and out: "out = concat blocks @ [[], py_str_nat (length (filter Not oks)) @ '' of '' @ py_str_nat (length results) @
      '' notes flagged'']" "saved = JList (map saved_row results)"
    using assms by (auto simp: audit_main_def Let_def ebind_Inr)
  have "list_all2 lines_of_row results blocks"
    using traverse_members [OF blocks] by (rule list_all2_mono) (rule audit_lines_of_row)
  moreover have "length results = length keyed" using e_traverse_length [OF results] by simp
  moreover have "length (filter Not oks) = length (filter (\<lambda>r. supported r \<noteq> Inr True) results)"
    using traverse_members [OF oks] by (induction rule: list_all2_induct) auto
  ultimately show ?thesis using keyed results out labels_at_rows [OF keyed]
    by (intro exI [of _ keyed] exI [of _ results] exI [of _ blocks]) simp
qed

definition audited_doc :: json where
  "audited_doc =
     JObj [(''id'', JStr ''c''), (''files'', JList [JObj [(''filename'', JStr ''a.py'')]]),
           (''may_find'', JList [JObj [(''line'', JInt 3), (''note'', JStr ''n'')]])]"

definition audited_row :: audit_row where
  "audited_row =
     [(''case_id'', JStr ''c''), (''path'', JNull), (''line'', JInt 3), (''agent'', JNull), (''category'', JNull),
      (''note'', JStr ''n''), (''diff'', JStr (''--- a.py ---'' @ [CHR 0x0A])), (''title'', JStr []), (''summary'', JStr []),
      (''context'', JStr [])]"

lemma audited_labels: "labels_at repr_of [] [audited_doc] = Inr [((''c'', 3), audited_row)]"
  by (simp add: labels_at_def fresh_labels_def load_revision_def permitted_entries_def audited_doc_def audited_row_def
      audit_row_of_def diff_block_def row_order_def json_get_def jget_or_def jget_def json_or_def json_index_def typed_list_def
      typed_str_def typed_int_def)

lemma audit_reports_witness:
  "\<exists>line saved. audit_main (\<lambda>_. []) (\<lambda>_. Some (JObj [(''verdict'', JStr ''SUPPORTED'')])) (\<lambda>_. Inr []) 0 [] [audited_doc] =
     Inr ([line, [], ''0 of 1 notes flagged''], saved) \<and> startswith line ''  ok ''"
proof -
  let ?loads = "\<lambda>_. Some (JObj [(''verdict'', JStr ''SUPPORTED'')])"
  have digits: "digit_char 0 = CHR ''0''" "digit_char 1 = CHR ''1''" by code_simp+
  obtain out saved where main: "audit_main (\<lambda>_. []) ?loads (\<lambda>_. Inr []) 0 [] [audited_doc] = Inr (out, saved)"
    by (simp add: audit_main_def audited_labels judge_def parsed_verdict_def merged_row_def audited_row_def Let_def supported_def
        row_value_def jget_def audit_lines_def typed_str_def)
  from audit_reports [OF main] obtain keyed results blocks where
    keyed: "labels_at (\<lambda>_. []) [] [audited_doc] = Inr keyed"
    and all_judged: "e_traverse (judge (\<lambda>_. []) ?loads (\<lambda>_. Inr [])) (map snd keyed) = Inr results"
    and lines: "list_all2 lines_of_row results blocks"
    and out: "out = concat blocks @ [[], py_str_nat (length (filter (\<lambda>r. supported r \<noteq> Inr True) results)) @ '' of '' @
      py_str_nat (length keyed) @ '' notes flagged'']"
    by blast
  have keyed1: "keyed = [((''c'', 3), audited_row)]" using keyed by (simp add: audited_labels)
  with all_judged have judged: "judge (\<lambda>_. []) ?loads (\<lambda>_. Inr []) audited_row = Inr (hd results)" "length results = 1"
    by (auto simp: ebind_Inr)
  have "jget ''verdict'' (merged_row audited_row [(''verdict'', JStr ''SUPPORTED'')]) = Some (JStr ''SUPPORTED'')"
    by (simp add: jget_merged) (simp add: jget_def)
  with judged(1) have ok: "supported (hd results) = Inr True"
    by (simp add: judge_def parsed_verdict_def supported_Inr)
  from judged(2) lines obtain r b where rb: "results = [r]" "blocks = [b]" "lines_of_row r b"
    by (auto simp: length_Suc_conv list_all2_Cons1)
  with ok have "length b = 1" "startswith (hd b) ''  ok ''" by (simp_all add: lines_of_row_def)
  then obtain l where "b = [l]" "startswith l ''  ok ''" by (auto simp: length_Suc_conv)
  with rb ok out main digits keyed1 show ?thesis by (simp add: py_str_nat.simps)
qed

text \<open>One answer that is an object without a verdict loses the audit: it ends with an error after all the calls,
  and nothing is printed or saved.\<close>

theorem audit_lost_by_one_answer:
  assumes "labels_at repr_of base_docs rev_docs = Inr keyed" and "row \<in> set (map snd keyed)"
    and "ask (audit_prompt repr_of row) = Inr s" and "jget ''verdict'' (rev (parsed_verdict loads s)) = None"
  shows "\<exists>e. audit_main repr_of loads ask 0 base_docs rev_docs = Inl e"
proof (cases "e_traverse (judge repr_of loads ask) (map snd keyed)")
  case (Inr results)
  have judged: "judge repr_of loads ask row = Inr (merged_row row (parsed_verdict loads s))"
    by (simp add: judge_def assms(3))
  have "jget ''verdict'' row = None" using labels_at_rows [OF assms(1)] assms(2) by (auto simp: list_all_iff)
  then have none: "jget ''verdict'' (merged_row row (parsed_verdict loads s)) = None"
    by (simp add: jget_merged assms(4))
  have "merged_row row (parsed_verdict loads s) \<in> set results"
    by (rule traverse_result [OF Inr assms(2) judged])
  moreover have "supported (merged_row row (parsed_verdict loads s)) = Inl (KeyError ''verdict'')"
    by (simp add: supported_def row_value_def none)
  ultimately obtain e where "e_traverse supported results = Inl e" using traverse_fails by metis
  then show ?thesis by (simp add: audit_main_def Let_def assms(1) Inr)
qed (simp add: audit_main_def Let_def assms(1))

lemma audit_lost_by_one_answer_witness:
  "\<exists>e. audit_main (\<lambda>_. []) (\<lambda>_. Some (JObj [(''answer'', JStr ''SUPPORTED'')])) (\<lambda>_. Inr []) 0 [] [audited_doc] = Inl e"
  using audit_lost_by_one_answer [of "\<lambda>_. []" "[]" "[audited_doc]" "[((''c'', 3), audited_row)]" audited_row "\<lambda>_. Inr []" "[]"]
  by (simp add: audited_labels parsed_verdict_def jget_def)

text \<open>What the model answers stands before what the audit knows: an answer with another case id moves its verdict to
  that case.\<close>

lemma answer_renames_case:
  "jget ''case_id'' (merged_row audited_row [(''verdict'', v), (''case_id'', JStr ''other'')]) = Some (JStr ''other'')"
  by (simp add: jget_merged) (simp add: jget_def)

text \<open>Of two lines for one name the scripts that set defaults take the first, the one that waits the last.\<close>

lemma env_readers_disagree:
  "load_dotenv (''A=1'' @ LINE @ ''A=2'') Map.empty ''A'' = Some ''1'' \<and> read_env (''A=1'' @ LINE @ ''A=2'') ''A'' = Some ''2''"
  by code_simp

end
