(* ===== verification/Diagnose.thy ===== *)
theory Diagnose
  imports RetrievalEval
begin

section \<open>Why a definition is not retrieved\<close>

text \<open>
  \<^verbatim>\<open>scripts/diagnose_retrieval.py\<close>: the diagnosis of a commit, of the sampled commits of every repository, and the printed
  shares. git, the checkout, the embedder, the hybrid search and the index are fields of a view. The properties:
  the rank a cause is read off is the best rank of the file over the searches of all changed files, and a file is within
  the quota exactly if one search ranks it there; the shares that are printed add up.
\<close>

record 'v diag_view =
  dv_repo :: repo_view
  dv_embed :: "string list \<Rightarrow> exc + 'v list"
  dv_search :: "string \<Rightarrow> 'v \<Rightarrow> string \<Rightarrow> nat \<Rightarrow> string list \<Rightarrow> exc + string list"
  dv_indexed :: "string \<Rightarrow> string set"

definition REPOS :: "string list" where
  "REPOS = [''tornadoweb/tornado'', ''urllib3/urllib3'', ''psf/requests'', ''scrapy/scrapy'']"

text \<open>\<^verbatim>\<open>zip(files, vectors, strict=True)\<close> fails if the lengths differ.\<close>

definition zip_strict :: "'a list \<Rightarrow> 'b list \<Rightarrow> exc + ('a \<times> 'b) list" where
  "zip_strict xs ys =
     (if length xs = length ys then Inr (zip xs ys) else Inl (ValueError ''zip() arguments differ in length''))"

definition rank_all :: "string set \<Rightarrow> nat \<Rightarrow> string list list \<Rightarrow> (string \<rightharpoonup> nat) \<times> string set" where
  "rank_all relevant per_file hss = fold (rank_hits relevant per_file) hss (Map.empty, {})"

definition split_quota :: "nat \<Rightarrow> nat \<Rightarrow> nat" where
  "split_quota top_k files = max 2 (top_k div max files 1)"

text \<open>One commit: nothing is counted if it changes no Python file or calls nothing that is defined elsewhere.\<close>

definition diagnose_sha ::
  "string set \<Rightarrow> 'v diag_view \<Rightarrow> nat \<Rightarrow> string \<Rightarrow> (string \<times> nat) list \<Rightarrow> exc + (string \<times> nat) list" where
  "diagnose_sha dir_builtins dv top_k sha acc =
     (let vw = dv_repo dv; parent = sha @ ''^1'';
          changed = filter (\<lambda>p. endswith p ''.py'') (py_split_ws (vw_git vw [''diff'', ''--name-only'', parent, sha]));
          names = called_but_not_defined dir_builtins (added_text (vw_git vw [''diff'', parent, sha]));
          truth = definitions_in (vw_files vw parent) names (set changed);
          relevant = snd ` set truth
      in if changed = [] \<or> truth = [] then Inr acc
         else ebind (e_traverse (changed_file vw parent sha) changed) (\<lambda>files.
              ebind (dv_embed dv (map (\<lambda>f. diff_query_text [f] 1200) files)) (\<lambda>vectors.
              ebind (zip_strict files vectors) (\<lambda>pairs.
              ebind (e_traverse (\<lambda>(f, v). dv_search dv sha v (fts_query [f] 24) 200 changed) pairs) (\<lambda>hss.
                let ranks = rank_all relevant (split_quota top_k (length files)) hss in
                Inr (diagnose_paths top_k (dv_indexed dv sha) (fst ranks) (snd ranks) (sorted_list_of_set relevant) acc))))))"

fun diagnose_shas ::
  "string set \<Rightarrow> 'v diag_view \<Rightarrow> nat \<Rightarrow> string list \<Rightarrow> (string \<times> nat) list \<Rightarrow> exc + (string \<times> nat) list" where
  "diagnose_shas dir_builtins dv top_k [] acc = Inr acc"
| "diagnose_shas dir_builtins dv top_k (sha # shas) acc =
     ebind (diagnose_sha dir_builtins dv top_k sha acc) (diagnose_shas dir_builtins dv top_k shas)"

definition diagnose_repo ::
  "string set \<Rightarrow> 'v diag_view \<Rightarrow> nat \<Rightarrow> nat \<Rightarrow> (string \<times> nat) list \<Rightarrow> exc + (string \<times> nat) list" where
  "diagnose_repo dir_builtins dv n top_k acc =
     diagnose_shas dir_builtins dv top_k (sample_commits (vw_git (dv_repo dv)) n) acc"

fun diagnose_all ::
  "string set \<Rightarrow> (string \<Rightarrow> 'v diag_view) \<Rightarrow> nat \<Rightarrow> nat \<Rightarrow> string list \<Rightarrow> (string \<times> nat) list \<Rightarrow> exc + (string \<times> nat) list" where
  "diagnose_all dir_builtins views n top_k [] acc = Inr acc"
| "diagnose_all dir_builtins views n top_k (repo # repos) acc =
     ebind (diagnose_repo dir_builtins (views repo) n top_k acc) (diagnose_all dir_builtins views n top_k repos)"

definition CAUSES :: "string list" where
  "CAUSES = [''never_indexed'', ''in_top_k'', ''just_outside'', ''far_outside'', ''cut_by_split'']"

definition cause_share :: "(string \<times> nat) list \<Rightarrow> string \<Rightarrow> real" where
  "cause_share acc k = real (acc_get k acc) / real (if acc_get ''needed'' acc = 0 then 1 else acc_get ''needed'' acc)"

definition cause_line :: "(string \<times> nat) list \<Rightarrow> string \<Rightarrow> string" where
  "cause_line acc k =
     ''    '' @ ljust 14 k @ '' '' @ rjust 4 (py_str_nat (acc_get k acc)) @ ''  ('' @ py_fixed 1 (100 * cause_share acc k) @ ''%)''"

definition diagnose_main :: "string set \<Rightarrow> (string \<Rightarrow> 'v diag_view) \<Rightarrow> nat \<Rightarrow> nat \<Rightarrow> exc + string list" where
  "diagnose_main dir_builtins views n top_k =
     ebind (diagnose_all dir_builtins views n top_k REPOS []) (\<lambda>acc.
       Inr ([[], ''  needed definitions: '' @ py_str_nat (acc_get ''needed'' acc) @ ''   (top_k='' @ py_str_nat top_k @ '')''] @
            map (cause_line acc) CAUSES))"

subsection \<open>The best rank\<close>

definition ranks_of :: "string \<Rightarrow> string list list \<Rightarrow> nat set" where
  "ranks_of p hss = {r. \<exists>hs \<in> set hss. (r, p) \<in> set (enumerate 1 hs)}"

definition rank_step :: "string set \<Rightarrow> nat \<Rightarrow> nat \<times> string \<Rightarrow> (string \<rightharpoonup> nat) \<times> string set \<Rightarrow> (string \<rightharpoonup> nat) \<times> string set" where
  "rank_step relevant per_file e s =
     (if snd e \<in> relevant
      then ((fst s)(snd e \<mapsto> min (case fst s (snd e) of None \<Rightarrow> 10 ^ 6 | Some b \<Rightarrow> b) (fst e)),
            if fst e \<le> per_file then insert (snd e) (snd s) else snd s)
      else s)"

lemma rank_all_steps:
  "rank_all relevant per_file hss = fold (rank_step relevant per_file) (concat (map (enumerate 1) hss)) (Map.empty, {})"
proof -
  have "rank_hits relevant per_file hs s = fold (rank_step relevant per_file) (enumerate 1 hs) s" for hs s
    unfolding rank_hits_def by (rule fold_cong) (auto simp: rank_step_def fun_eq_iff split: prod.splits)
  then have "fold (rank_hits relevant per_file) hss s =
      fold (rank_step relevant per_file) (concat (map (enumerate 1) hss)) s" for s
    by (induction hss arbitrary: s) simp_all
  then show ?thesis by (simp add: rank_all_def)
qed

definition best_of :: "nat set \<Rightarrow> nat option" where
  "best_of R = (if R = {} then None else Some (Min R))"

lemma rank_steps:
  assumes "\<forall>e \<in> set es. fst e \<le> 10 ^ 6" and "finite (R p)" and "\<forall>r \<in> R p. r \<le> 10 ^ 6"
    and "p \<in> relevant" and "fst s p = best_of (R p)"
  shows "fst (fold (rank_step relevant k) es s) p = best_of (R p \<union> {r. (r, p) \<in> set es}) \<and>
    (p \<in> snd (fold (rank_step relevant k) es s) \<longleftrightarrow> p \<in> snd s \<or> (\<exists>r \<le> k. (r, p) \<in> set es))"
  using assms
proof (induction es arbitrary: s R)
  case (Cons e es)
  obtain r q where e: "e = (r, q)" by (cases e)
  show ?case
  proof (cases "q = p")
    case False
    then have "fst (rank_step relevant k e s) p = best_of (R p)" "p \<in> snd (rank_step relevant k e s) \<longleftrightarrow> p \<in> snd s"
      using Cons.prems(5) by (auto simp: rank_step_def e)
    with Cons.IH [of R "rank_step relevant k e s"] Cons.prems False show ?thesis by (auto simp: e)
  next
    case True
    let ?R = "R(p := insert r (R p))"
    have "r \<le> 10 ^ 6" using Cons.prems(1) by (simp add: e)
    then have "fst (rank_step relevant k e s) p = best_of (insert r (R p))"
      using Cons.prems(2,3,4,5) True by (auto simp: rank_step_def e best_of_def min.commute)
    moreover have "p \<in> snd (rank_step relevant k e s) \<longleftrightarrow> p \<in> snd s \<or> r \<le> k"
      using Cons.prems(4) True by (auto simp: rank_step_def e)
    moreover have "insert r (R p) \<union> {x. (x, p) \<in> set es} = R p \<union> {x. (x, p) \<in> set (e # es)}" using True by (auto simp: e)
    ultimately show ?thesis
      using Cons.IH [of ?R "rank_step relevant k e s"] Cons.prems True \<open>r \<le> 10 ^ 6\<close> by (auto simp: e)
  qed
qed simp

text \<open>The rank a file is judged by is its best rank over the searches of all changed files, and it is within the quota exactly if
  one of them ranks it there.\<close>

theorem diagnosis_ranks:
  assumes "list_all (\<lambda>hs. length hs \<le> 10 ^ 6) hss" and "p \<in> relevant"
  shows "fst (rank_all relevant k hss) p = best_of (ranks_of p hss) \<and>
    (p \<in> snd (rank_all relevant k hss) \<longleftrightarrow> (\<exists>r \<le> k. r \<in> ranks_of p hss))"
proof -
  let ?es = "concat (map (enumerate 1) hss)"
  have "\<forall>e \<in> set ?es. fst e \<le> 10 ^ 6" using assms(1) by (force simp: list_all_iff in_set_enumerate_eq)
  from rank_steps [OF this, of "\<lambda>_. {}" p relevant "(Map.empty, {})" k] assms(2)
  have "fst (rank_all relevant k hss) p = best_of {r. (r, p) \<in> set ?es}"
    "p \<in> snd (rank_all relevant k hss) \<longleftrightarrow> (\<exists>r \<le> k. (r, p) \<in> set ?es)"
    by (simp_all add: rank_all_steps best_of_def)
  moreover have "(r, p) \<in> set ?es \<longleftrightarrow> r \<in> ranks_of p hss" for r by (auto simp: ranks_of_def)
  ultimately show ?thesis by simp
qed

lemma diagnosis_ranks_witness:
  "fst (rank_all {''a.py''} 2 [[''b.py'', ''c.py'', ''a.py''], [''a.py'']]) ''a.py'' = Some 1"
proof -
  have "ranks_of ''a.py'' [[''b.py'', ''c.py'', ''a.py''], [''a.py'']] = {1, 3}"
    by (auto simp: ranks_of_def)
  with diagnosis_ranks [of "[[''b.py'', ''c.py'', ''a.py''], [''a.py'']]" "''a.py''" "{''a.py''}" 2]
  show ?thesis by (simp add: best_of_def)
qed

subsection \<open>The shares\<close>

definition accounted :: "(string \<times> nat) list \<Rightarrow> bool" where
  "accounted acc \<longleftrightarrow>
     acc_get ''needed'' acc = acc_get ''never_indexed'' acc + acc_get ''in_top_k'' acc + acc_get ''just_outside'' acc +
       acc_get ''far_outside'' acc"

lemma diagnose_paths_accounted: "accounted acc \<Longrightarrow> accounted (diagnose_paths k indexed best quota ps acc)"
  unfolding diagnose_paths_def
  by (induction ps arbitrary: acc) (simp_all add: accounted_def diagnose_path_counts(1,2))

lemma diagnose_sha_accounted: "accounted acc \<Longrightarrow> diagnose_sha b dv k sha acc = Inr acc' \<Longrightarrow> accounted acc'"
  by (auto simp: diagnose_sha_def Let_def ebind_Inr diagnose_paths_accounted split: if_splits prod.splits)

lemma diagnose_shas_accounted: "accounted acc \<Longrightarrow> diagnose_shas b dv k shas acc = Inr acc' \<Longrightarrow> accounted acc'"
  by (induction shas arbitrary: acc) (auto simp: ebind_Inr dest: diagnose_sha_accounted)

text \<open>Over all repositories every needed file has exactly one of the four causes, so their shares add up to one, unless
  nothing was needed.\<close>

theorem diagnosis_shares:
  assumes "diagnose_all dir_builtins views n top_k repos [] = Inr acc"
  shows "accounted acc \<and>
    cause_share acc ''never_indexed'' + cause_share acc ''in_top_k'' + cause_share acc ''just_outside'' + cause_share acc ''far_outside'' =
      (if acc_get ''needed'' acc = 0 then 0 else 1)"
proof -
  have "accounted acc'" if "diagnose_all dir_builtins views n top_k repos acc0 = Inr acc'" "accounted acc0" for acc0 acc'
    using that by (induction repos arbitrary: acc0) (auto simp: ebind_Inr diagnose_repo_def dest: diagnose_shas_accounted)
  moreover have "accounted []" by (simp add: accounted_def acc_get_def)
  ultimately have acc: "accounted acc" using assms by blast
  then show ?thesis
    by (auto simp: accounted_def cause_share_def add_divide_distrib [symmetric])
qed

end
