(* ===== verification/Demo.thy ===== *)
theory Demo
  imports Gate Engines Ingress Cli
begin

section \<open>The demonstration\<close>

text \<open>
  \<^verbatim>\<open>scripts/demo_end_to_end.py\<close>: the signature checks, the synthetic pull request, the panel, the merge and the gate, and
  what is printed. How the agents are gathered, the HMAC and the version of the prompts are arguments, and the colours
  of the banners are part of the text. The properties: the four checks of the first section all come out true if the
  HMAC separates the texts they use; what the demonstration claims of the diff; when the agents say what they are
  meant to, nothing is posted, and the text that says so is printed in other cases as well.
\<close>

subsection \<open>The synthetic pull request\<close>

definition QUOTE :: string where
  "QUOTE = [CHR 0x22]"

definition PATCH_LINES :: "string list" where
  "PATCH_LINES =
     [''@@ -10,6 +10,17 @@ class BillingHandler:'',
      ''     def __init__(self, db):'',
      ''         self.db = db'',
      '' '',
      ''+    ACMEPAY_SECRET = '' @ QUOTE @ ''acme_live_7f3c9d2e8b1a45061f2d8c9e3b7a'' @ QUOTE,
      ''+'',
      ''+    def charge_customer(self, customer_id, amount):'',
      ''+        row = self.db.execute(f'' @ QUOTE @ ''SELECT * FROM customers WHERE id = {customer_id}'' @ QUOTE @ '')'',
      ''+        try:'',
      ''+            return self._charge(row, amount)'',
      ''+        except:'',
      ''+            return None'',
      ''+'',
      ''     def refund(self, charge_id):'',
      ''         return self.db.refunds.create(charge_id)'']"

definition PATCH :: string where
  "PATCH = py_join NEWLINE PATCH_LINES @ NEWLINE"

definition demo_payload :: "(string \<times> json) list" where
  "demo_payload =
     [(''filename'', JStr ''billing/handler.py''), (''status'', JStr ''modified''), (''additions'', JInt 11),
      (''deletions'', JInt 0), (''patch'', JStr PATCH)]"

definition demo_pr :: "diff_file \<Rightarrow> pull_request" where
  "demo_pr f =
     \<lparr>pr_repo_full_name = ''acme/payments'', pr_repo_github_id = 1, pr_is_private = True, pr_number = 42,
      pr_title = ''Add charge_customer'', pr_body = [], pr_author = ''dev'', pr_head_sha = ''abc123'',
      pr_base_sha = ''def456'', pr_base_ref = ''main'', pr_files = [f], pr_truncated = False\<rparr>"

definition demo_context :: "diff_file \<Rightarrow> review_context" where
  "demo_context f =
     \<lparr>rc_pr = demo_pr f, rc_diff_text = fst (render_for_prompt (pr_files (demo_pr f)) 400000), rc_chunks = [],
      rc_conventions = [''Never interpolate values into SQL.'', ''Secrets come from the environment, never the repo.''],
      rc_truncated = False, rc_index_drift = None, rc_indexed_sha = None\<rparr>"

subsection \<open>What is printed\<close>

definition demo_banner :: "string \<Rightarrow> string list" where
  "demo_banner title =
     [NEWLINE @ [CHR 0x1B] @ ''[1m'' @ title @ [CHR 0x1B] @ ''[0m'',
      concat (replicate 68 [CHR 0xE2, CHR 0x94, CHR 0x80])]"

definition bool_text :: "bool \<Rightarrow> string" where
  "bool_text b = (if b then ''True'' else ''False'')"

definition DEMO_BODY :: string where
  "DEMO_BODY = ''{'' @ QUOTE @ ''action'' @ QUOTE @ '':'' @ QUOTE @ ''opened'' @ QUOTE @ '','' @ QUOTE @ ''pull_request'' @ QUOTE @
     '':{'' @ QUOTE @ ''number'' @ QUOTE @ '':42}}''"

text \<open>The four checks of the first section, each true if it went as it should.\<close>

definition signature_checks :: "(string \<Rightarrow> string \<Rightarrow> string) \<Rightarrow> string \<Rightarrow> (exc + bool) list" where
  "signature_checks hmac secret =
     (let good = compute_signature hmac secret DEMO_BODY in
      [verify_signature hmac secret DEMO_BODY (Some good),
       map_sum id Not (verify_signature hmac secret (DEMO_BODY @ ''x'') (Some good)),
       map_sum id Not (verify_signature hmac ''nope'' DEMO_BODY (Some good)),
       map_sum id Not (verify_signature hmac secret DEMO_BODY None)])"

definition signature_section :: "bool list \<Rightarrow> string list" where
  "signature_section oks =
     demo_banner (''1. webhook signature '' @ EM_DASH @ '' INVARIANT-1'') @
     map2 (\<lambda>label ok. ''  '' @ label @ '': '' @ bool_text ok)
       [''valid signature accepted   '', ''tampered body rejected     '', ''wrong secret rejected      '',
        ''missing header rejected    ''] oks"

definition diff_section :: "diff_file \<Rightarrow> string list" where
  "diff_section f =
     (let addressable = sorted_list_of_set (addressable_lines f) in
      demo_banner ''2. diff parsing and grounding'' @
      [''  hunks parsed               : '' @ py_str_nat (length (df_hunks f)),
       ''  addressable new-file lines : '' @ py_str_int (hd addressable) @ ''-'' @ py_str_int (last addressable) @ '' ('' @
         py_str_nat (length addressable) @ '' lines)'',
       ''  a finding citing line 9999 is discarded before a human ever sees it.''])"

definition verdict_line :: "agent_verdict \<Rightarrow> string" where
  "verdict_line v =
     ''  '' @ ljust 12 (agent_str (v_agent v)) @ '' '' @ ljust 8 (status_str (v_status v)) @ '' '' @
     py_str_nat (length (v_findings v)) @ '' finding(s)  '' @ v_summary v"

definition demo_finding_line :: "finding \<Rightarrow> string" where
  "demo_finding_line f =
     (let who = (if f_agreeing f = [] then agent_str (f_agent f) else py_join '' + '' (f_agreeing f)) in
      ''  ['' @ ljust 8 (severity_str (f_severity f)) @ ''] '' @ f_file_path f @ '':'' @ ljust 4 (py_str_int (f_line_start f)) @
      '' '' @ py_fixed 2 (f_confidence f) @ ''  '' @ f_title f @ ''  ('' @ who @ '')'')"

definition gate_section :: "gate_result \<Rightarrow> string list" where
  "gate_section r =
     demo_banner ''5. the confidence gate'' @
     [''  decision                   : '' @ decision_str (g_decision r),
      ''  reason                     : '' @ (case g_reason r of None \<Rightarrow> EM_DASH | Some x \<Rightarrow> reason_str x),
      ''  postable to the PR         : '' @ py_str_nat (length (g_postable r)),
      ''  why                        : '' @ g_explanation r]"

definition NOTHING_POSTED :: "string list" where
  "NOTHING_POSTED =
     demo_banner ''6. nothing is posted'' @
     [''  A critical security finding on a pull request is a disclosure, so it goes'',
      ''  to a private human queue instead. That is the gate working, not failing.'']"

definition post_section :: "string \<Rightarrow> finding list \<Rightarrow> agent_verdict list \<Rightarrow> gate_result \<Rightarrow> string list" where
  "post_section bundle fs vs r =
     (if g_postable r \<noteq> []
      then demo_banner ''6. what GitHub would receive'' @
           [render_review_body (g_postable r) (summarise fs vs) (int (length fs) - int (length (g_postable r))) bundle]
      else NOTHING_POSTED)"

definition demo_summary :: "string \<Rightarrow> finding list \<Rightarrow> real \<Rightarrow> agent_verdict list \<Rightarrow> gate_result \<Rightarrow> (string \<times> json) list" where
  "demo_summary bundle fs confidence vs r =
     [(''agents_run'', count_json (length vs)), (''findings'', count_json (length fs)),
      (''confidence'', JFloat (Fin confidence)), (''decision'', JStr (decision_str (g_decision r))),
      (''escalation_reason'', case g_reason r of None \<Rightarrow> JNull | Some x \<Rightarrow> JStr (reason_str x)),
      (''prompt_bundle'', JStr bundle)]"

text \<open>The sections after the panel.\<close>

definition after_panel :: "settings \<Rightarrow> string \<Rightarrow> agent_verdict list \<Rightarrow> string list \<times> (string \<times> json) list" where
  "after_panel s bundle vs =
     (case aggregate s vs of (fs, confidence) \<Rightarrow>
        let r = evaluate s fs vs confidence False False in
        (demo_banner ''3. four specialists, in parallel'' @ map verdict_line vs @
         demo_banner ''4. aggregation'' @ map demo_finding_line fs @
         [NEWLINE @ ''  overall confidence         : '' @ py_fixed 3 confidence] @
         gate_section r @ post_section bundle fs vs r @ demo_banner ''summary'',
         demo_summary bundle fs confidence vs r))"

definition demo_main ::
  "settings \<Rightarrow> (string \<Rightarrow> string \<Rightarrow> string) \<Rightarrow> string \<Rightarrow> string \<Rightarrow>
     (review_context \<Rightarrow> agent_type list \<Rightarrow> llm_world \<Rightarrow> (exc + agent_verdict) list \<times> llm_world) \<Rightarrow>
     (llm_world, string list \<times> (string \<times> json) list) effect" where
  "demo_main s hmac secret bundle gather =
     eff_bind (eff_lift (e_traverse id (signature_checks hmac secret))) (\<lambda>oks.
     eff_bind (eff_lift (build_diff_file demo_payload)) (\<lambda>f.
     eff_bind (local_run_panel null_write 0 (gather (demo_context f)) ALL_AGENTS) (\<lambda>vs.
       case after_panel s bundle vs of (ls, summary) \<Rightarrow>
         eff_return (signature_section oks @ diff_section f @ ls, summary))))"

subsection \<open>What it shows\<close>

lemma signature_checks_hold:
  assumes "secret \<noteq> []" and "is_ascii (hmac secret DEMO_BODY)" and "is_ascii (hmac secret (DEMO_BODY @ ''x''))"
    and "is_ascii (hmac ''nope'' DEMO_BODY)"
    and "hmac secret (DEMO_BODY @ ''x'') \<noteq> hmac secret DEMO_BODY" and "hmac ''nope'' DEMO_BODY \<noteq> hmac secret DEMO_BODY"
  shows "e_traverse id (signature_checks hmac secret) = Inr [True, True, True, True]"
proof -
  have ascii: "is_ascii (''sha256='' @ x) = is_ascii x" for x by (simp add: is_ascii_def code_def)
  have tag: "startswith (''sha256='' @ x) ''sha256=''" for x by simp
  show ?thesis
    using assms
    by (simp add: signature_checks_def Let_def verify_signature_def compare_digest_def compute_signature_def
        ascii [unfolded append_Cons append_Nil])
qed

text \<open>The four lines of the first section say True, whatever the HMAC, if it tells the body from the body with a letter added and
  the secret from another; with an empty secret nothing is accepted.\<close>

theorem signature_checks_pass:
  assumes "secret \<noteq> []" and "is_ascii (hmac secret DEMO_BODY)" and "is_ascii (hmac secret (DEMO_BODY @ ''x''))"
    and "is_ascii (hmac ''nope'' DEMO_BODY)"
    and "hmac secret (DEMO_BODY @ ''x'') \<noteq> hmac secret DEMO_BODY" and "hmac ''nope'' DEMO_BODY \<noteq> hmac secret DEMO_BODY"
  shows "e_traverse id (signature_checks hmac secret) = Inr [True, True, True, True]"
  using assms by (rule signature_checks_hold)

lemma signature_checks_pass_witness:
  "e_traverse id (signature_checks (\<lambda>k b. [CHR ''0'', if length b = length DEMO_BODY \<and> k = ''s3cret'' then CHR ''1'' else CHR ''2'']) ''s3cret'') =
   Inr [True, True, True, True]"
  by (rule signature_checks_pass) (simp_all add: is_ascii_def code_def)

lemma patch_shape:
  "map (\<lambda>h. (h_new_start h, h_new_lines h, h_added_lines h, h_context_lines h)) (parse_patch PATCH) =
     [(10, 17, [13, 14, 15, 16, 17, 18, 19, 20, 21], [10, 11, 12, 22, 23])]"
  by code_simp

definition demo_file :: diff_file where
  "demo_file =
     \<lparr>df_path = ''billing/handler.py'', df_previous_path = None, df_status = ''modified'', df_additions = 11, df_deletions = 0,
      df_hunks = parse_patch PATCH, df_patch = PATCH, df_binary = False\<rparr>"

lemma demo_built: "build_diff_file demo_payload = Inr demo_file"
  by (simp add: build_diff_file_def demo_payload_def demo_file_def jget_or_def jget_def str_field_def PATCH_def
      PATCH_LINES_def NEWLINE_def)

text \<open>The patch has one hunk and its 14 lines of the new file, nine of them added, can be commented on; the header of
  the hunk and the counts of the payload say 17 and 11, which nothing reads.\<close>

theorem demo_diff:
  "build_diff_file demo_payload = Inr demo_file \<and> length (df_hunks demo_file) = 1 \<and>
   addressable_lines demo_file = {10..23} \<and> sum_list (map (\<lambda>h. length (h_added_lines h)) (df_hunks demo_file)) = 9"
proof -
  obtain h where h: "parse_patch PATCH = [h]" "h_added_lines h = [13, 14, 15, 16, 17, 18, 19, 20, 21]"
    "h_context_lines h = [10, 11, 12, 22, 23]"
    using patch_shape by (auto simp: map_eq_Cons_conv)
  then have "addressable_lines demo_file = {10, 11, 12, 13, 14, 15, 16, 17, 18, 19, 20, 21, 22, 23}"
    by (auto simp: addressable_lines_def demo_file_def)
  also have "\<dots> = set [10..23]" by (simp add: upto_rec_numeral)
  also have "\<dots> = {10..23}" by (rule set_upto)
  finally show ?thesis using h demo_built by (simp add: demo_file_def)
qed

text \<open>When a specialist finds the planted credential, and no folding of test requests can take it away, nothing of the
  review is shown as posted: the gate escalates and the text about the private queue is printed.\<close>

theorem demo_withholds:
  assumes "s_escalate_critical_security s"
    and "v \<in> set vs" "v_ok v" "f \<in> set (v_findings v)"
    and "f_severity f = CRITICAL" "f_category f \<in> set SECURITY_CATEGORIES"
    and "(\<forall>g \<in> set (ok_findings vs).
        \<not> (f_severity g = CRITICAL \<and> f_category g = TEST_COVERAGE \<and> f_agent g \<noteq> SECURITY)) \<or>
      int (length (filter (\<lambda>g. f_category g = TEST_COVERAGE) (ok_findings vs))) < s_collapse_repeated_after s"
  shows "\<exists>before after. fst (after_panel s bundle vs) = before @ NOTHING_POSTED @ after \<and>
    jget ''decision'' (snd (after_panel s bundle vs)) = Some (JStr ''escalate'')"
proof -
  obtain fs confidence where agg: "aggregate s vs = (fs, confidence)" by fastforce
  have "f \<in> set (ok_findings vs)" using assms(2-4) by (auto simp: ok_findings_iff)
  from aggregate_keeps_critical_security [OF this assms(5-7)]
  have "critical_security fs \<noteq> []" unfolding critical_security_empty_iff by (simp add: agg)
  then have "g_postable (evaluate s fs vs confidence False False) = []"
    "g_decision (evaluate s fs vs confidence False False) = ESCALATE"
    using assms(1) by (simp_all add: evaluate_def Let_def)
  then show ?thesis
    by (simp add: after_panel_def agg Let_def post_section_def demo_summary_def jget_def) (metis append_assoc append_Cons)
qed

lemma demo_withholds_witness:
  "jget ''decision'' (snd (after_panel default_settings ''b'' (sample_panel sample_injection sample_logic))) = Some (JStr ''escalate'')"
  using demo_withholds [of default_settings "(default_verdict SECURITY)\<lparr>v_findings := [sample_injection]\<rparr>"
      "sample_panel sample_injection sample_logic" sample_injection "''b''"]
  by (simp add: sample_defs SECURITY_CATEGORIES_def ok_findings_def)

text \<open>The same text is printed when there is nothing to say: a panel without findings is explained as a critical
  security finding.\<close>

lemma demo_explains_silence:
  "\<exists>before after. fst (after_panel s bundle (map default_verdict ALL_AGENTS)) = before @ NOTHING_POSTED @ after"
proof -
  have none: "ok_findings (map default_verdict ALL_AGENTS) = []"
    by (simp add: ok_findings_def ALL_AGENTS_def default_verdict_def v_ok_def)
  obtain confidence where agg: "aggregate s (map default_verdict ALL_AGENTS) = ([], confidence)"
    by (simp add: aggregate_def none merge_findings_def clusters_def collapse_repeated_def repeat_groups_def Let_def)
  have "g_postable (evaluate s [] (map default_verdict ALL_AGENTS) confidence False False) = []"
    by (auto simp: evaluate_def Let_def)
  then show ?thesis
    by (simp add: after_panel_def agg Let_def post_section_def) (metis append_assoc append_Cons)
qed

text \<open>The demonstration runs to its end whatever the agents do: a crash of one is a failed verdict of the panel.\<close>

theorem demo_runs:
  assumes "e_traverse id (signature_checks hmac secret) = Inr oks" and "length results = length ALL_AGENTS"
    and "\<And>v. fst (gather (demo_context demo_file) ALL_AGENTS v) = results"
  shows "fst (demo_main s hmac secret bundle gather w) =
    Inr (signature_section oks @ diff_section demo_file @ fst (after_panel s bundle (local_collect results ALL_AGENTS)),
         snd (after_panel s bundle (local_collect results ALL_AGENTS)))"
proof -
  have panel: "\<exists>w'. local_run_panel null_write 0 (gather (demo_context demo_file)) ALL_AGENTS w =
      (Inr (local_collect results ALL_AGENTS), w')"
  proof -
    obtain r w1 where span: "llm_span null_write 0 ''panel.fan_out'' (panel_fields ''local'' ALL_AGENTS)
        (\<lambda>sp w1. case gather (demo_context demo_file) ALL_AGENTS w1 of (rs, w2) \<Rightarrow> (Inr rs, sp, w2)) w = (r, w1)"
      by fastforce
    then have "r = Inr results"
      using assms(3) llm_span_result [of null_write 0 "''panel.fan_out''" "panel_fields ''local'' ALL_AGENTS"
          "\<lambda>sp w1. case gather (demo_context demo_file) ALL_AGENTS w1 of (rs, w2) \<Rightarrow> (Inr rs, sp, w2)" w]
      by (auto split: prod.splits) (metis fst_conv)
    with span assms(2) show ?thesis by (simp add: local_run_panel_def)
  qed
  then obtain w' where "local_run_panel null_write 0 (gather (demo_context demo_file)) ALL_AGENTS w =
      (Inr (local_collect results ALL_AGENTS), w')" by blast
  with assms(1) show ?thesis by (simp add: demo_main_def eff_bind_def demo_built split: prod.splits)
qed

lemma demo_runs_witness:
  "\<exists>ls summary. fst (demo_main default_settings (\<lambda>k b. [CHR ''0'', if length b = length DEMO_BODY \<and> k = ''s3cret'' then CHR ''1'' else CHR ''2''])
     ''s3cret'' ''b'' (\<lambda>ctx as w. (map (\<lambda>a. Inl PyTimeoutError) as, w)) w) = Inr (ls, summary)"
proof -
  let ?hmac = "\<lambda>k b. [CHR ''0'', if length b = length DEMO_BODY \<and> k = ''s3cret'' then CHR ''1'' else CHR ''2'']"
  have "e_traverse id (signature_checks ?hmac ''s3cret'') = Inr [True, True, True, True]"
    by (rule signature_checks_hold) (simp_all add: is_ascii_def code_def)
  from demo_runs [OF this, of "map (\<lambda>a. Inl PyTimeoutError) ALL_AGENTS" "\<lambda>ctx as w. (map (\<lambda>a. Inl PyTimeoutError) as, w)"]
  show ?thesis by simp
qed

end
