(* ===== verification/QueueLife.thy ===== *)
theory QueueLife
  imports Transition
begin

section \<open>The connections of the queue\<close>

text \<open>
  The two clients of \<^verbatim>\<open>queue/dispatch.py\<close>, Redis and arq, each made on first use under one lock. As for the
  connection pool, the operations are cut at their \<^verbatim>\<open>await\<close>s: the lock, the making of the arq pool, and the two
  closings. Making the Redis client waits for nothing. Clients are numbered in the order they are made. The
  properties: without closing, each of the two is made at most once and every task gets the same; a
  client that is being closed is still handed out.
\<close>

datatype client = RedisClient | ArqPool

datatype queue_task = Resting | Wanting client | Making | ClosingOf client nat | Having client nat

record queue_world =
  qw_slot :: "client \<Rightarrow> nat option"
  qw_lock :: "nat option"
  qw_tasks :: "nat \<Rightarrow> queue_task"
  qw_made :: "client \<Rightarrow> nat"
  qw_closed :: "(client \<times> nat) set"

definition fresh_queue :: queue_world where
  "fresh_queue = \<lparr>qw_slot = (\<lambda>c. None), qw_lock = None, qw_tasks = (\<lambda>t. Resting), qw_made = (\<lambda>c. 0), qw_closed = {}\<rparr>"

definition put_task :: "nat \<Rightarrow> queue_task \<Rightarrow> queue_world \<Rightarrow> queue_world" where
  "put_task t x w = w\<lparr>qw_tasks := (qw_tasks w)(t := x)\<rparr>"

definition make_client :: "nat \<Rightarrow> client \<Rightarrow> queue_world \<Rightarrow> queue_world" where
  "make_client t c w =
     (put_task t (Having c (qw_made w c)) w)
       \<lparr>qw_slot := (qw_slot w)(c := Some (qw_made w c)), qw_made := (qw_made w)(c := qw_made w c + 1)\<rparr>"

text \<open>\<^verbatim>\<open>get_redis\<close> and \<^verbatim>\<open>get_arq\<close>, from the call to the lock, and with the lock.\<close>

definition want_client :: "client \<Rightarrow> nat \<Rightarrow> queue_world \<Rightarrow> queue_world" where
  "want_client c t w = (case qw_slot w c of Some n \<Rightarrow> put_task t (Having c n) w | None \<Rightarrow> put_task t (Wanting c) w)"

definition client_locked :: "client \<Rightarrow> nat \<Rightarrow> queue_world \<Rightarrow> queue_world" where
  "client_locked c t w =
     (case qw_slot w c of
        Some n \<Rightarrow> put_task t (Having c n) w
      | None \<Rightarrow> (case c of RedisClient \<Rightarrow> make_client t c w | ArqPool \<Rightarrow> (put_task t Making w)\<lparr>qw_lock := Some t\<rparr>))"

text \<open>\<^verbatim>\<open>create_pool\<close> of arq returns or raises.\<close>

definition arq_made :: "nat \<Rightarrow> bool \<Rightarrow> queue_world \<Rightarrow> queue_world" where
  "arq_made t ok w = (if ok then make_client t ArqPool w else put_task t Resting w)\<lparr>qw_lock := None\<rparr>"

text \<open>\<^verbatim>\<open>close_redis\<close>: first the Redis client, then the arq pool, each waited for and then forgotten.\<close>

definition close_arq :: "nat \<Rightarrow> queue_world \<Rightarrow> queue_world" where
  "close_arq t w = (case qw_slot w ArqPool of None \<Rightarrow> put_task t Resting w | Some n \<Rightarrow> put_task t (ClosingOf ArqPool n) w)"

definition close_clients :: "nat \<Rightarrow> queue_world \<Rightarrow> queue_world" where
  "close_clients t w = (case qw_slot w RedisClient of None \<Rightarrow> close_arq t w | Some n \<Rightarrow> put_task t (ClosingOf RedisClient n) w)"

definition client_closed :: "nat \<Rightarrow> client \<Rightarrow> nat \<Rightarrow> queue_world \<Rightarrow> queue_world" where
  "client_closed t c n w =
     (let w1 = w\<lparr>qw_slot := (qw_slot w)(c := None), qw_closed := insert (c, n) (qw_closed w)\<rparr>
      in (case c of RedisClient \<Rightarrow> close_arq t w1 | ArqPool \<Rightarrow> put_task t Resting w1))"

inductive client_step :: "queue_world \<Rightarrow> queue_world \<Rightarrow> bool" where
  client_call: "qw_tasks w t = Resting \<Longrightarrow> client_step w (want_client c t w)"
| client_lock: "qw_tasks w t = Wanting c \<Longrightarrow> qw_lock w = None \<Longrightarrow> client_step w (client_locked c t w)"
| client_make: "qw_tasks w t = Making \<Longrightarrow> client_step w (arq_made t ok w)"
| client_done: "qw_tasks w t = Having c n \<Longrightarrow> client_step w (put_task t Resting w)"

inductive queue_step :: "queue_world \<Rightarrow> queue_world \<Rightarrow> bool" where
  queue_get: "client_step w w' \<Longrightarrow> queue_step w w'"
| queue_close: "qw_tasks w t = Resting \<Longrightarrow> queue_step w (close_clients t w)"
| queue_closed: "qw_tasks w t = ClosingOf c n \<Longrightarrow> queue_step w (client_closed t c n w)"

lemmas queue_ops = want_client_def client_locked_def arq_made_def close_arq_def close_clients_def client_closed_def
  make_client_def put_task_def

subsection \<open>Each client is made once\<close>

definition queue_init :: "queue_world \<Rightarrow> bool" where
  "queue_init w \<longleftrightarrow> w = fresh_queue"

definition queue_inv :: "queue_world \<Rightarrow> bool" where
  "queue_inv w \<longleftrightarrow>
     (\<forall>t. qw_tasks w t = Making \<longleftrightarrow> qw_lock w = Some t) \<and>
     (qw_lock w \<noteq> None \<longrightarrow> qw_slot w ArqPool = None) \<and>
     (\<forall>t c n. qw_tasks w t = Having c n \<longrightarrow> qw_slot w c = Some n) \<and>
     (\<forall>c. qw_made w c = (if qw_slot w c = None then 0 else 1) \<and> (\<forall>n. qw_slot w c = Some n \<longrightarrow> n = 0))"

lemma queue_invD:
  assumes "queue_inv w"
  shows "qw_tasks w t = Making \<longleftrightarrow> qw_lock w = Some t" "qw_lock w \<noteq> None \<Longrightarrow> qw_slot w ArqPool = None"
    "qw_tasks w t = Having c n \<Longrightarrow> qw_slot w c = Some n" "qw_made w c = (if qw_slot w c = None then 0 else 1)"
    "qw_slot w c = Some n \<Longrightarrow> n = 0"
  using assms unfolding queue_inv_def by blast+

interpretation queue_clients: invariant_system queue_init client_step queue_inv
proof
  fix w assume "queue_init w"
  then show "queue_inv w" by (simp add: queue_init_def queue_inv_def fresh_queue_def)
next
  fix w w' assume inv: "queue_inv w" and step: "client_step w w'"
  note facts = queue_invD [OF inv]
  from step show "queue_inv w'"
  proof cases
    case (client_call t c)
    moreover from this have "qw_lock w \<noteq> Some t" using facts(1) [of t] by simp
    ultimately show ?thesis using facts
      by (cases "qw_slot w c") (auto simp: queue_inv_def queue_ops dest: facts(3,5))
  next
    case (client_lock t c)
    moreover from this have "qw_tasks w u \<noteq> Making" for u using facts(1) [of u] by simp
    ultimately show ?thesis using facts
      by (cases "qw_slot w c"; cases c) (auto simp: queue_inv_def queue_ops dest: facts(3,5))
  next
    case (client_make t ok)
    then have "qw_lock w = Some t" "qw_slot w ArqPool = None" using facts(1,2) by auto
    with client_make facts show ?thesis
      by (cases ok) (auto simp: queue_inv_def queue_ops dest: facts(3,5))
  next
    case (client_done t c n)
    moreover from this have "qw_lock w \<noteq> Some t" using facts(1) [of t] by simp
    ultimately show ?thesis using facts by (auto simp: queue_inv_def queue_ops dest: facts(3,5))
  qed
qed

text \<open>However many tasks ask for either client, in whatever order and whichever attempts fail, there is never a second Redis
  client or arq pool, and the tasks that have one have the same.\<close>

theorem clients_made_once:
  assumes "reachable queue_init client_step w"
  shows "qw_made w c \<le> 1 \<and> (\<forall>t u n m. qw_tasks w t = Having c n \<and> qw_tasks w u = Having c m \<longrightarrow> n = m)"
proof -
  note facts = queue_invD [OF queue_clients.reachable_inv [OF assms]]
  have "n = m" if "qw_tasks w t = Having c n" "qw_tasks w u = Having c m" for t u n m
    using facts(3) [OF that(1)] facts(3) [OF that(2)] by simp
  with facts(4) [of c] show ?thesis by auto
qed

text \<open>Two tasks ask for Redis: the second waits for the lock and then finds the client of the first.\<close>

definition two_wanting :: queue_world where
  "two_wanting = want_client RedisClient 1 (want_client RedisClient 0 fresh_queue)"

lemma clients_made_once_witness:
  "qw_made (client_locked RedisClient 1 (client_locked RedisClient 0 two_wanting)) RedisClient \<le> 1 \<and>
   qw_tasks (client_locked RedisClient 1 (client_locked RedisClient 0 two_wanting)) 1 = Having RedisClient 0"
proof -
  note tasks = two_wanting_def fresh_queue_def queue_ops
  have "reachable queue_init client_step fresh_queue" by (rule reach_init) (simp add: queue_init_def)
  then have "reachable queue_init client_step (want_client RedisClient 0 fresh_queue)"
    by (rule reach_step) (rule client_call, simp add: fresh_queue_def)
  then have "reachable queue_init client_step two_wanting"
    unfolding two_wanting_def by (rule reach_step) (rule client_call, simp add: tasks)
  then have "reachable queue_init client_step (client_locked RedisClient 0 two_wanting)"
    by (rule reach_step) (rule client_lock, simp_all add: tasks)
  then have "reachable queue_init client_step (client_locked RedisClient 1 (client_locked RedisClient 0 two_wanting))"
    by (rule reach_step) (rule client_lock, simp_all add: tasks)
  from clients_made_once [OF this, of RedisClient] show ?thesis by (simp add: tasks)
qed

subsection \<open>Closing\<close>

text \<open>While one task closes the Redis client another still gets it, and keeps a closed client.\<close>

definition closing_queue :: queue_world where
  "closing_queue = want_client RedisClient 1 (close_clients 0 (put_task 0 Resting (client_locked RedisClient 0
     (want_client RedisClient 0 fresh_queue))))"

theorem closing_client_handed_out:
  "steps queue_step fresh_queue (client_closed 0 RedisClient 0 closing_queue) \<and>
   qw_tasks (client_closed 0 RedisClient 0 closing_queue) 1 = Having RedisClient 0 \<and>
   (RedisClient, 0) \<in> qw_closed (client_closed 0 RedisClient 0 closing_queue)"
proof -
  note tasks = closing_queue_def fresh_queue_def queue_ops
  have "queue_step fresh_queue (want_client RedisClient 0 fresh_queue)" (is "queue_step _ ?a")
    by (rule queue_get, rule client_call) (simp add: fresh_queue_def)
  moreover have "queue_step ?a (client_locked RedisClient 0 ?a)" (is "queue_step _ ?b")
    by (rule queue_get, rule client_lock) (simp_all add: tasks)
  moreover have "queue_step ?b (put_task 0 Resting ?b)" (is "queue_step _ ?c")
    by (rule queue_get, rule client_done [where c = RedisClient and n = 0]) (simp add: tasks)
  moreover have "queue_step ?c (close_clients 0 ?c)" (is "queue_step _ ?d")
    by (rule queue_close) (simp add: tasks)
  moreover have "queue_step ?d closing_queue"
    unfolding closing_queue_def by (rule queue_get, rule client_call) (simp add: tasks)
  moreover have "queue_step closing_queue (client_closed 0 RedisClient 0 closing_queue)"
    by (rule queue_closed) (simp add: tasks)
  ultimately have "steps queue_step fresh_queue (client_closed 0 RedisClient 0 closing_queue)"
    by (meson steps.intros)
  then show ?thesis by (simp add: tasks Let_def)
qed

end
