(* ===== verification/Services.thy ===== *)
theory Services
  imports Ingress Worker
begin

section \<open>The services\<close>

text \<open>
  What the ingress, the worker and the dashboard do when they start and stop (\<^verbatim>\<open>ingress/app.py\<close>,
  \<^verbatim>\<open>queue/worker.py\<close>, \<^verbatim>\<open>dashboard/app.py\<close>), and the configuration of the log they begin with
  (\<^verbatim>\<open>logging.py\<close>). What opening the pool and closing the two resources results in are arguments; the steps
  inside them are those of \<open>PoolLife\<close> and \<open>QueueLife\<close>. The properties: outside development an ingress that has
  started refuses every request signed with the placeholder secret, while in development it takes it; a resource whose
  predecessor cannot be closed stays open.
\<close>

subsection \<open>The log\<close>

definition upper_char :: "char \<Rightarrow> char" where
  "upper_char c = (if is_lower c then char_of (code c - 32) else c)"

text \<open>The attributes of the module \<^verbatim>\<open>logging\<close> whose names have no lower case letter: the levels, a format and a
  table. Neither of the last two is a level.\<close>

definition LOG_LEVELS :: "(string \<times> int) list" where
  "LOG_LEVELS =
     [(''CRITICAL'', 50), (''FATAL'', 50), (''ERROR'', 40), (''WARNING'', 30), (''WARN'', 30), (''INFO'', 20), (''DEBUG'', 10),
      (''NOTSET'', 0)]"

definition log_level_of :: "string \<Rightarrow> exc + int" where
  "log_level_of level =
     (let name = map upper_char level in
      if name = ''BASIC_FORMAT'' then Inl (ValueError ''Unknown level'')
      else if name = ''_STYLES'' then Inl (TypeError ''Level not an integer or a valid string'')
      else Inr (case map_of LOG_LEVELS name of None \<Rightarrow> 20 | Some n \<Rightarrow> n))"

record log_config =
  lc_level :: int
  lc_processors :: "string list"

definition configure_logging :: "string \<Rightarrow> bool \<Rightarrow> exc + log_config" where
  "configure_logging level json_logs =
     ebind (log_level_of level) (\<lambda>n.
       Inr \<lparr>lc_level = n,
            lc_processors =
              [''merge_contextvars'', ''add_log_level'', ''TimeStamper'', ''StackInfoRenderer'', ''format_exc_info''] @
              [if json_logs then ''JSONRenderer'' else ''ConsoleRenderer'']\<rparr>)"

subsection \<open>Start and stop\<close>

record service =
  sv_log :: "log_config option"
  sv_pool :: bool
  sv_clients :: bool

definition set_logging :: "string \<Rightarrow> bool \<Rightarrow> (service, unit) effect" where
  "set_logging level json_logs sv =
     (case configure_logging level json_logs of Inl e \<Rightarrow> (Inl e, sv) | Inr c \<Rightarrow> (Inr (), sv\<lparr>sv_log := Some c\<rparr>))"

definition open_pool :: "exc + unit \<Rightarrow> (service, unit) effect" where
  "open_pool r sv = (case r of Inl e \<Rightarrow> (Inl e, sv) | Inr _ \<Rightarrow> (Inr (), sv\<lparr>sv_pool := True\<rparr>))"

definition shut_pool :: "exc + unit \<Rightarrow> (service, unit) effect" where
  "shut_pool r sv = (case r of Inl e \<Rightarrow> (Inl e, sv) | Inr _ \<Rightarrow> (Inr (), sv\<lparr>sv_pool := False\<rparr>))"

definition shut_clients :: "exc + unit \<Rightarrow> (service, unit) effect" where
  "shut_clients r sv = (case r of Inl e \<Rightarrow> (Inl e, sv) | Inr _ \<Rightarrow> (Inr (), sv\<lparr>sv_clients := False\<rparr>))"

text \<open>\<^verbatim>\<open>lifespan\<close> of the ingress, before and after the service.\<close>

definition check_secret :: "settings \<Rightarrow> (service, unit) effect" where
  "check_secret s =
     (if s_github_webhook_secret s = ''change-me'' \<and> s_app_env s \<noteq> ''dev''
      then eff_raise (OtherError ''RuntimeError'' ''GITHUB_WEBHOOK_SECRET is still the placeholder; refusing to start'')
      else eff_return ())"

definition ingress_start :: "settings \<Rightarrow> exc + unit \<Rightarrow> (service, unit) effect" where
  "ingress_start s pool =
     eff_bind (set_logging (s_log_level s) (s_app_env s \<noteq> ''dev'')) (\<lambda>_.
     eff_bind (check_secret s) (\<lambda>_. open_pool pool))"

definition ingress_stop :: "exc + unit \<Rightarrow> exc + unit \<Rightarrow> (service, unit) effect" where
  "ingress_stop clients pool = eff_bind (shut_clients clients) (\<lambda>_. shut_pool pool)"

text \<open>\<^verbatim>\<open>startup\<close> and \<^verbatim>\<open>shutdown\<close> of the worker, and what it asks of its queue.\<close>

definition worker_startup :: "settings \<Rightarrow> exc + unit \<Rightarrow> (service, unit) effect" where
  "worker_startup s pool =
     eff_bind (set_logging (s_log_level s) (s_app_env s \<noteq> ''dev'')) (\<lambda>_. open_pool pool)"

definition worker_shutdown :: "exc + unit \<Rightarrow> (service, unit) effect" where
  "worker_shutdown pool = shut_pool pool"

record worker_settings =
  ws_functions :: "string list"
  ws_max_jobs :: nat
  ws_job_timeout :: nat
  ws_max_tries :: nat
  ws_keep_result :: nat

definition WORKER_SETTINGS :: worker_settings where
  "WORKER_SETTINGS =
     \<lparr>ws_functions = [''run_review''], ws_max_jobs = 4, ws_job_timeout = 900, ws_max_tries = 3, ws_keep_result = 3600\<rparr>"

text \<open>\<^verbatim>\<open>lifespan\<close> of the dashboard. Its log is never JSON.\<close>

definition dashboard_start :: "settings \<Rightarrow> exc + unit \<Rightarrow> (service, unit) effect" where
  "dashboard_start s pool = eff_bind (set_logging (s_log_level s) False) (\<lambda>_. open_pool pool)"

definition dashboard_stop :: "exc + unit \<Rightarrow> (service, unit) effect" where
  "dashboard_stop pool = shut_pool pool"

lemmas service_defs = ingress_start_def ingress_stop_def worker_startup_def worker_shutdown_def dashboard_start_def
  dashboard_stop_def check_secret_def set_logging_def open_pool_def shut_pool_def shut_clients_def

subsection \<open>The level of the log\<close>

text \<open>A text that is not the name of a level means INFO, but for two texts, which stop the service.\<close>

lemma unknown_level_is_info:
  "map upper_char level \<notin> fst ` set LOG_LEVELS \<union> {''BASIC_FORMAT'', ''_STYLES''} \<Longrightarrow> log_level_of level = Inr 20"
  by (auto simp: log_level_of_def Let_def dest: map_of_SomeD split: option.split) (metis fst_conv image_iff map_of_SomeD)

lemma format_is_no_level: "\<exists>e. fst (worker_startup (default_settings\<lparr>s_log_level := ''basic_format''\<rparr>) (Inr ()) sv) = Inl e"
proof -
  have "map upper_char ''basic_format'' = ''BASIC_FORMAT''" by code_simp
  then show ?thesis
    by (simp add: service_defs configure_logging_def log_level_of_def eff_bind_def default_settings_def Let_def)
qed

subsection \<open>The placeholder secret\<close>

lemma started_secret:
  "fst (ingress_start s pool sv) = Inr () \<Longrightarrow> s_app_env s \<noteq> ''dev'' \<Longrightarrow> s_github_webhook_secret s \<noteq> ''change-me''"
  by (auto simp: ingress_start_def check_secret_def eff_bind_def split: prod.splits sum.splits if_splits)

lemma unsigned_refused:
  "verify_signature (ie_hmac env) (ie_secret env) (q_body rq) (q_signature rq) = Inr False \<Longrightarrow>
     github_webhook env rq w = (Inr (detail 401 ''invalid signature''), w)"
  by (simp add: github_webhook_def)

text \<open>Outside development an ingress that has started answers 401 to a request that is signed with the placeholder and changes
  nothing, if the HMAC of the body tells the two secrets apart (and its text is ASCII, as a hexadecimal digest is).\<close>

theorem placeholder_not_served:
  assumes "fst (ingress_start s pool sv) = Inr ()" and "s_app_env s \<noteq> ''dev''"
    and "ie_secret env = s_github_webhook_secret s"
    and "q_signature rq = Some (compute_signature (ie_hmac env) ''change-me'' (q_body rq))"
    and "is_ascii (ie_hmac env ''change-me'' (q_body rq))"
    and "s_github_webhook_secret s \<noteq> ''change-me'' \<longrightarrow>
      ie_hmac env ''change-me'' (q_body rq) \<noteq> ie_hmac env (s_github_webhook_secret s) (q_body rq)"
    and "is_ascii (ie_hmac env (s_github_webhook_secret s) (q_body rq))"
  shows "github_webhook env rq w = (Inr (detail 401 ''invalid signature''), w)"
proof (rule unsigned_refused)
  have "ie_hmac env ''change-me'' (q_body rq) \<noteq> ie_hmac env (ie_secret env) (q_body rq)"
    using started_secret [OF assms(1,2)] assms(3,6) by simp
  moreover have "is_ascii (''sha256='' @ x) = is_ascii x" for x by (simp add: is_ascii_def code_def)
  ultimately show "verify_signature (ie_hmac env) (ie_secret env) (q_body rq) (q_signature rq) = Inr False"
    using assms(3,5,7) by (auto simp: verify_signature_def compare_digest_def compute_signature_def assms(4))
qed

definition prod_settings :: settings where
  "prod_settings = default_settings\<lparr>s_app_env := ''prod'', s_github_webhook_secret := ''s3cret''\<rparr>"

definition keyed_env :: "(string \<times> webhook_job) list ingress_env" where
  "keyed_env = log_env\<lparr>ie_hmac := (\<lambda>k b. if k = ''s3cret'' then ''01'' else ''02'')\<rparr>"

definition forged :: request where
  "forged = \<lparr>q_event = Some ''ping'', q_delivery = Some ''d'', q_signature = Some ''sha256=02'', q_body = []\<rparr>"

definition stopped :: service where
  "stopped = \<lparr>sv_log = None, sv_pool = False, sv_clients = False\<rparr>"

lemma placeholder_not_served_witness:
  "github_webhook keyed_env forged empty_world = (Inr (detail 401 ''invalid signature''), empty_world)"
proof (rule placeholder_not_served [of prod_settings "Inr ()" stopped])
  have level: "log_level_of ''INFO'' = Inr 20" by code_simp
  show "fst (ingress_start prod_settings (Inr ()) stopped) = Inr ()"
    by (simp add: service_defs configure_logging_def level eff_bind_def prod_settings_def default_settings_def)
qed (simp_all add: prod_settings_def default_settings_def keyed_env_def log_env_def forged_def compute_signature_def
    is_ascii_def code_def)

text \<open>In development the defaults start an ingress that takes what is signed with the placeholder. Nothing but
  the ingress looks at the secret: a worker starts with any.\<close>

lemma placeholder_served_in_development:
  "fst (ingress_start default_settings (Inr ()) stopped) = Inr () \<and>
   fst (github_webhook (keyed_env\<lparr>ie_secret := s_github_webhook_secret default_settings\<rparr>) forged empty_world) =
     Inr (detail 200 ''pong'')"
proof -
  have level: "log_level_of ''INFO'' = Inr 20" by code_simp
  show ?thesis
    by (simp add: service_defs configure_logging_def level eff_bind_def default_settings_def keyed_env_def log_env_def forged_def
        github_webhook_def verify_signature_def compare_digest_def compute_signature_def is_ascii_def code_def)
qed

lemma worker_starts_anyway:
  "fst (worker_startup (s\<lparr>s_github_webhook_secret := x\<rparr>) pool sv) = fst (worker_startup s pool sv)"
  by (simp add: worker_startup_def)

subsection \<open>What stays open\<close>

text \<open>The ingress closes its clients and then its pool: after a stop without an error both are closed, and when the clients
  cannot be closed the pool is not closed either.\<close>

theorem ingress_stop_closes:
  "(fst (ingress_stop clients pool sv) = Inr () \<longrightarrow>
      \<not> sv_clients (snd (ingress_stop clients pool sv)) \<and> \<not> sv_pool (snd (ingress_stop clients pool sv))) \<and>
   (\<forall>e. clients = Inl e \<longrightarrow> ingress_stop clients pool sv = (Inl e, sv))"
  by (auto simp: service_defs eff_bind_def split: sum.splits)

end
