(* ===== verification/Schema.thy ===== *)
theory Schema
  imports Dashboard Cli
begin

section \<open>The schema of the database and the statements\<close>

text \<open>
  The tables and views the migrations create, with their columns, their unique keys and the texts their
  \<^verbatim>\<open>CHECK\<close>s admit, and of every statement of the program the relations, columns and conflict keys it names.
  \<open>prepare\<close> is the analysis of a statement by the database before it runs: an unknown relation, an unknown column or a
  conflict key without a unique constraint is an error. The properties: all statements of the repositories can be
  prepared, those of two pages of the dashboard and of the learned preferences never; every text of an enumeration that
  the program writes is admitted by the column it goes to; and no row of the event spine is refused for its kind.
\<close>

subsection \<open>Relations\<close>

record relation =
  rl_columns :: "string list"
  rl_keys :: "string list list"
  rl_checks :: "(string \<times> string list) list"

type_synonym schema = "(string \<times> relation) list"

definition CORE :: schema where
  "CORE =
     [(''repositories'',
       \<lparr>rl_columns = [''id'', ''github_repo_id'', ''full_name'', ''default_branch'', ''indexed_sha'', ''indexed_at'', ''created_at''],
        rl_keys = [[''id''], [''github_repo_id'']], rl_checks = []\<rparr>),
      (''pull_requests'',
       \<lparr>rl_columns = [''id'', ''repo_id'', ''number'', ''head_sha'', ''base_sha'', ''title'', ''author'', ''is_private'', ''created_at''],
        rl_keys = [[''id''], [''repo_id'', ''number'', ''head_sha'']], rl_checks = []\<rparr>),
      (''deliveries'',
       \<lparr>rl_columns = [''delivery_id'', ''event'', ''action'', ''repo_full_name'', ''pr_number'', ''received_at'', ''status''],
        rl_keys = [[''delivery_id'']], rl_checks = [(''status'', [''accepted'', ''ignored'', ''duplicate'', ''failed''])]\<rparr>),
      (''reviews'',
       \<lparr>rl_columns = [''id'', ''pr_id'', ''delivery_id'', ''status'', ''decision'', ''decision_reason'', ''overall_confidence'',
          ''prompt_bundle'', ''github_review_id'', ''total_cost_usd'', ''started_at'', ''finished_at'', ''error''],
        rl_keys = [[''id''], [''pr_id'', ''delivery_id'']],
        rl_checks =
          [(''status'', [''pending'', ''running'', ''awaiting_human'', ''posted'', ''suppressed'', ''failed'']),
           (''decision'', [''auto_post'', ''escalate'', ''suppress''])]\<rparr>),
      (''agent_verdicts'',
       \<lparr>rl_columns = [''review_id'', ''agent'', ''status'', ''model'', ''prompt_version'', ''raw'', ''input_tokens'',
          ''output_tokens'', ''cached_tokens'', ''cost_usd'', ''duration_ms'', ''error'', ''created_at''],
        rl_keys = [[''review_id'', ''agent'']],
        rl_checks = [(''status'', [''ok'', ''failed'', ''timeout'', ''skipped'', ''budget_denied''])]\<rparr>),
      (''findings'',
       \<lparr>rl_columns = [''id'', ''review_id'', ''agent'', ''category'', ''severity'', ''file_path'', ''line_start'', ''line_end'',
          ''title'', ''body'', ''rationale'', ''confidence'', ''evidence'', ''agreeing'', ''merged_into'', ''posted'', ''created_at''],
        rl_keys = [[''id'']], rl_checks = [(''severity'', [''critical'', ''major'', ''minor'', ''info''])]\<rparr>),
      (''hitl_items'',
       \<lparr>rl_columns = [''id'', ''review_id'', ''reason'', ''priority'', ''state'', ''summary'', ''decided_by'', ''decided_at'',
          ''note'', ''created_at''],
        rl_keys = [[''id'']],
        rl_checks =
          [(''reason'', [''low_confidence'', ''critical_security'', ''agent_failure'', ''budget_exceeded'', ''policy'']),
           (''state'', [''open'', ''approved'', ''rejected'', ''expired''])]\<rparr>),
      (''feedback'',
       \<lparr>rl_columns = [''id'', ''review_id'', ''finding_id'', ''source'', ''verdict'', ''actor'', ''note'', ''created_at''],
        rl_keys = [[''id'']],
        rl_checks =
          [(''source'', [''hitl_gate'', ''pr_reply'', ''resolved_thread'', ''manual'']),
           (''verdict'', [''accepted'', ''disputed'', ''duplicate'', ''wont_fix''])]\<rparr>)]"

definition SEMANTIC :: schema where
  "SEMANTIC =
     [(''code_chunks'',
       \<lparr>rl_columns = [''id'', ''repo_id'', ''commit_sha'', ''file_path'', ''language'', ''symbol'', ''start_line'', ''end_line'',
          ''content'', ''content_hash'', ''embedding'', ''fts'', ''created_at''],
        rl_keys = [[''id''], [''repo_id'', ''commit_sha'', ''file_path'', ''start_line'', ''content_hash'']], rl_checks = []\<rparr>),
      (''conventions'',
       \<lparr>rl_columns = [''id'', ''repo_id'', ''scope'', ''rule'', ''source'', ''active'', ''created_at''],
        rl_keys = [[''id'']], rl_checks = []\<rparr>)]"

definition TIMESERIES :: schema where
  "TIMESERIES =
     [(''agent_events'',
       \<lparr>rl_columns = [''ts'', ''event_id'', ''review_id'', ''delivery_id'', ''repo_full_name'', ''span_id'', ''parent_span_id'',
          ''kind'', ''name'', ''agent'', ''model'', ''prompt_version'', ''status'', ''duration_ms'', ''input_tokens'',
          ''output_tokens'', ''cached_tokens'', ''cost_usd'', ''attributes''],
        rl_keys = [[''ts'', ''event_id'']],
        rl_checks =
          [(''kind'', [''span_start'', ''span_end'', ''llm_call'', ''tool_call'', ''retrieval'', ''decision'', ''error''])]\<rparr>),
      (''agent_cost_hourly'',
       \<lparr>rl_columns = [''bucket'', ''agent'', ''model'', ''calls'', ''cost_usd'', ''input_tokens'', ''output_tokens'', ''cached_tokens''],
        rl_keys = [], rl_checks = []\<rparr>),
      (''agent_latency_hourly'',
       \<lparr>rl_columns = [''bucket'', ''agent'', ''spans'', ''errors'', ''avg_ms'', ''max_ms''], rl_keys = [], rl_checks = []\<rparr>),
      (''agent_latency_recent'',
       \<lparr>rl_columns = [''agent'', ''spans'', ''p50_ms'', ''p95_ms'', ''max_ms''], rl_keys = [], rl_checks = []\<rparr>)]"

definition add_column :: "string \<Rightarrow> string \<Rightarrow> schema \<Rightarrow> schema" where
  "add_column t c = map (\<lambda>(n, r). (n, if n = t then r\<lparr>rl_columns := rl_columns r @ [c]\<rparr> else r))"

definition SCHEMA :: schema where
  "SCHEMA = add_column ''feedback'' ''decayed'' (CORE @ SEMANTIC @ TIMESERIES)"

subsection \<open>Statements\<close>

text \<open>A statement names relations under an alias, columns under the alias they are taken from, and perhaps the key of an
  \<^verbatim>\<open>ON CONFLICT\<close>. A column written without an alias stands under that of its relation.\<close>

record statement =
  sm_from :: "(string \<times> string) list"
  sm_columns :: "(string \<times> string) list"
  sm_conflict :: "string list"

definition over :: "string \<Rightarrow> string list \<Rightarrow> statement" where
  "over t cs = \<lparr>sm_from = [(t, t)], sm_columns = map (Pair t) cs, sm_conflict = []\<rparr>"

definition upsert :: "string \<Rightarrow> string list \<Rightarrow> string list \<Rightarrow> statement" where
  "upsert t cs key = (over t cs)\<lparr>sm_conflict := key\<rparr>"

definition known_column :: "schema \<Rightarrow> statement \<Rightarrow> string \<times> string \<Rightarrow> bool" where
  "known_column sch q ac =
     (case map_of (sm_from q) (fst ac) of
        None \<Rightarrow> False
      | Some t \<Rightarrow> (case map_of sch t of None \<Rightarrow> False | Some r \<Rightarrow> snd ac \<in> set (rl_columns r)))"

definition conflict_key :: "schema \<Rightarrow> statement \<Rightarrow> bool" where
  "conflict_key sch q =
     (sm_conflict q = [] \<or>
      (case sm_from q of
         [] \<Rightarrow> False
       | (a, t) # _ \<Rightarrow>
           (case map_of sch t of None \<Rightarrow> False | Some r \<Rightarrow> list_ex (\<lambda>k. set k = set (sm_conflict q)) (rl_keys r))))"

definition prepare :: "schema \<Rightarrow> statement \<Rightarrow> exc + unit" where
  "prepare sch q =
     (case List.find (\<lambda>(a, t). map_of sch t = None) (sm_from q) of
        Some (a, t) \<Rightarrow> Inl (OtherError ''UndefinedTableError'' t)
      | None \<Rightarrow>
          (case List.find (\<lambda>ac. \<not> known_column sch q ac) (sm_columns q) of
             Some (a, c) \<Rightarrow> Inl (OtherError ''UndefinedColumnError'' c)
           | None \<Rightarrow> if conflict_key sch q then Inr () else Inl (OtherError ''InvalidColumnReferenceError'' [])))"

text \<open>The statements of \<^verbatim>\<open>db/repositories/reviews.py\<close>.\<close>

definition q_record_delivery :: statement where
  "q_record_delivery = upsert ''deliveries'' [''delivery_id'', ''event'', ''action'', ''repo_full_name'',
     ''pr_number'', ''status''] [''delivery_id'']"

definition q_upsert_repository :: statement where
  "q_upsert_repository = upsert ''repositories'' [''github_repo_id'', ''full_name'', ''default_branch'',
     ''id''] [''github_repo_id'']"

definition q_upsert_pull_request :: statement where
  "q_upsert_pull_request = upsert ''pull_requests'' [''repo_id'', ''number'', ''head_sha'', ''base_sha'', ''title'',
     ''author'', ''is_private'', ''id''] [''repo_id'', ''number'', ''head_sha'']"

definition q_open_review :: statement where
  "q_open_review = upsert ''reviews'' [''pr_id'', ''delivery_id'', ''status'', ''prompt_bundle'', ''id''] [''pr_id'',
     ''delivery_id'']"

definition q_existing_review :: statement where
  "q_existing_review = over ''reviews'' [''id'', ''pr_id'', ''delivery_id'']"

definition q_completed_agents :: statement where
  "q_completed_agents = over ''agent_verdicts'' [''agent'', ''review_id'', ''status'']"

definition q_load_verdicts :: statement where
  "q_load_verdicts = over ''agent_verdicts'' [''review_id'', ''agent'']"

definition q_save_verdict :: statement where
  "q_save_verdict = upsert ''agent_verdicts'' [''review_id'', ''agent'', ''status'', ''model'', ''prompt_version'',
     ''raw'', ''input_tokens'', ''output_tokens'', ''cached_tokens'', ''cost_usd'', ''duration_ms'',
     ''error''] [''review_id'', ''agent'']"

definition q_delete_findings :: statement where
  "q_delete_findings = over ''findings'' [''review_id'']"

definition q_save_findings :: statement where
  "q_save_findings = over ''findings'' [''id'', ''review_id'', ''agent'', ''category'', ''severity'', ''file_path'',
     ''line_start'', ''line_end'', ''title'', ''body'', ''rationale'', ''confidence'', ''evidence'', ''agreeing'',
     ''merged_into'']"

definition q_link_merged :: statement where
  "q_link_merged = over ''findings'' [''merged_into'', ''id'']"

definition q_mark_posted :: statement where
  "q_mark_posted = over ''findings'' [''posted'', ''id'']"

definition q_finish_review :: statement where
  "q_finish_review = over ''reviews'' [''status'', ''decision'', ''decision_reason'', ''overall_confidence'',
     ''total_cost_usd'', ''github_review_id'', ''error'', ''finished_at'', ''id'']"

definition q_enqueue_hitl :: statement where
  "q_enqueue_hitl = over ''hitl_items'' [''review_id'', ''reason'', ''summary'', ''priority'', ''id'']"

definition q_record_feedback :: statement where
  "q_record_feedback = over ''feedback'' [''review_id'', ''finding_id'', ''source'', ''verdict'', ''actor'', ''note'']"

text \<open>Of \<^verbatim>\<open>chunks.py\<close>; the relations \<^verbatim>\<open>hybrid_search\<close> defines for itself are left out.\<close>

definition q_delete_chunks :: statement where
  "q_delete_chunks = over ''code_chunks'' [''repo_id'']"

definition q_insert_chunks :: statement where
  "q_insert_chunks = over ''code_chunks'' [''repo_id'', ''commit_sha'', ''file_path'', ''language'', ''symbol'',
     ''start_line'', ''end_line'', ''content'', ''content_hash'', ''embedding'']"

definition q_mark_indexed :: statement where
  "q_mark_indexed = over ''repositories'' [''indexed_sha'', ''indexed_at'', ''id'']"

definition q_hybrid_search :: statement where
  "q_hybrid_search = over ''code_chunks'' [''id'', ''embedding'', ''repo_id'', ''fts'', ''file_path'',
     ''start_line'', ''end_line'', ''content'', ''symbol'', ''language'']"

definition q_conventions_for :: statement where
  "q_conventions_for = over ''conventions'' [''rule'', ''active'', ''repo_id'', ''id'']"

definition q_indexed_sha :: statement where
  "q_indexed_sha = over ''repositories'' [''indexed_sha'', ''id'']"

text \<open>Of \<^verbatim>\<open>metrics.py\<close> and the event spine.\<close>

definition q_spend_today :: statement where
  "q_spend_today = over ''agent_cost_hourly'' [''cost_usd'', ''bucket'']"

definition q_spend_for_review :: statement where
  "q_spend_for_review = over ''agent_events'' [''cost_usd'', ''review_id'', ''kind'']"

definition q_cost_by_agent :: statement where
  "q_cost_by_agent = over ''agent_cost_hourly'' [''agent'', ''model'', ''calls'', ''cost_usd'', ''input_tokens'',
     ''output_tokens'', ''cached_tokens'', ''bucket'']"

definition q_latency_snapshot :: statement where
  "q_latency_snapshot = over ''agent_latency_recent'' [''agent'']"

definition q_escalation_rate :: statement where
  "q_escalation_rate = over ''reviews'' [''decision'', ''status'', ''overall_confidence'', ''total_cost_usd'',
     ''started_at'']"

definition q_trace :: statement where
  "q_trace = over ''agent_events'' [''ts'', ''kind'', ''name'', ''agent'', ''model'', ''status'', ''duration_ms'',
     ''input_tokens'', ''output_tokens'', ''cost_usd'', ''attributes'', ''review_id'']"

definition q_open_hitl :: statement where
  "q_open_hitl =
     \<lparr>sm_from = [(''h'', ''hitl_items''), (''r'', ''reviews''), (''pr'', ''pull_requests''), (''repo'', ''repositories'')],
      sm_columns =
         [(''h'', ''id''), (''h'', ''review_id''), (''h'', ''reason''), (''h'', ''priority''),
          (''h'', ''summary''), (''h'', ''created_at''), (''r'', ''overall_confidence''),
          (''pr'', ''number''), (''repo'', ''full_name''), (''r'', ''id''), (''pr'', ''id''),
          (''r'', ''pr_id''), (''repo'', ''id''), (''pr'', ''repo_id''), (''h'', ''state'')],
      sm_conflict = []\<rparr>"

definition q_write_event :: statement where
  "q_write_event = over ''agent_events'' [''review_id'', ''delivery_id'', ''repo_full_name'', ''span_id'',
     ''parent_span_id'', ''kind'', ''name'', ''agent'', ''model'', ''prompt_version'', ''status'', ''duration_ms'',
     ''input_tokens'', ''output_tokens'', ''cached_tokens'', ''cost_usd'', ''attributes'']"

text \<open>Of the dashboard, and of \<^verbatim>\<open>feedback/learning.py\<close>.\<close>

definition q_review_findings :: statement where
  "q_review_findings = over ''findings'' [''review_id'', ''merged_into'', ''severity'', ''confidence'']"

definition q_review :: statement where
  "q_review = over ''reviews'' [''id'']"

definition q_decide :: statement where
  "q_decide = over ''hitl_items'' [''state'', ''decided_by'', ''decided_at'', ''note'', ''id'', ''review_id'']"

definition q_decay_feedback :: statement where
  "q_decay_feedback = over ''feedback'' [''decayed'', ''created_at'']"

definition q_costs_hourly :: statement where
  "q_costs_hourly = over ''agent_costs_hourly'' [''bucket'', ''agent'', ''total_cost_usd'', ''total_calls'',
     ''total_input_tokens'', ''total_output_tokens'']"

definition q_costs_daily :: statement where
  "q_costs_daily = over ''agent_costs_hourly'' [''bucket'', ''total_cost_usd'']"

definition q_feedback_view :: statement where
  "q_feedback_view =
     \<lparr>sm_from = [(''fb'', ''feedback''), (''f'', ''findings''), (''r'', ''reviews'')],
      sm_columns =
         [(''f'', ''title''), (''f'', ''category''), (''f'', ''severity''), (''r'', ''repo''),
          (''r'', ''pr_number''), (''f'', ''id''), (''fb'', ''finding_id''), (''r'', ''id''),
          (''fb'', ''review_id''), (''fb'', ''created_at'')],
      sm_conflict = []\<rparr>"

definition q_preferences :: statement where
  "q_preferences =
     \<lparr>sm_from = [(''fb'', ''feedback''), (''f'', ''findings''), (''r'', ''reviews'')],
      sm_columns =
         [(''f'', ''category''), (''f'', ''severity''), (''fb'', ''created_at''), (''f'', ''id''),
          (''fb'', ''finding_id''), (''r'', ''id''), (''fb'', ''review_id''), (''fb'', ''verdict''),
          (''r'', ''repo'')],
      sm_conflict = []\<rparr>"

definition STATEMENTS :: "statement list" where
  "STATEMENTS =
     [q_record_delivery, q_upsert_repository, q_upsert_pull_request, q_open_review, q_existing_review,
      q_completed_agents, q_load_verdicts, q_save_verdict, q_delete_findings, q_save_findings, q_link_merged,
      q_mark_posted, q_finish_review, q_enqueue_hitl, q_record_feedback, q_delete_chunks, q_insert_chunks,
      q_mark_indexed, q_hybrid_search, q_conventions_for, q_indexed_sha, q_spend_today, q_spend_for_review,
      q_cost_by_agent, q_latency_snapshot, q_escalation_rate, q_trace, q_open_hitl, q_write_event,
      q_review_findings, q_review, q_decide, q_decay_feedback]"

subsection \<open>The pages that run statements of their own\<close>

record 'r cost_page =
  cp_hourly :: "'r list"
  cp_daily :: "'r list"

definition run_statement :: "schema \<Rightarrow> (statement \<Rightarrow> 'r list) \<Rightarrow> statement \<Rightarrow> exc + 'r list" where
  "run_statement sch rows q = ebind (prepare sch q) (\<lambda>_. Inr (rows q))"

definition cost_dashboard :: "schema \<Rightarrow> (statement \<Rightarrow> 'r list) \<Rightarrow> exc + 'r cost_page" where
  "cost_dashboard sch rows =
     ebind (run_statement sch rows q_costs_hourly) (\<lambda>hourly.
     ebind (run_statement sch rows q_costs_daily) (\<lambda>daily. Inr \<lparr>cp_hourly = hourly, cp_daily = daily\<rparr>))"

definition feedback_view :: "schema \<Rightarrow> (statement \<Rightarrow> 'r list) \<Rightarrow> exc + 'r list" where
  "feedback_view sch rows = run_statement sch rows q_feedback_view"

subsection \<open>What can be prepared\<close>

text \<open>Every statement of the repositories, the event spine and the decisions names relations, columns and unique keys that
  the migrations create.\<close>

theorem statements_prepare: "list_all (\<lambda>q. prepare SCHEMA q = Inr ()) STATEMENTS"
  by code_simp

text \<open>The pages /costs and /feedback fail on every request, whatever the tables hold, and so does the query of the learned
  preferences; the first would succeed if the migrations made the view it reads.\<close>

definition costs_view :: "string \<times> relation" where
  "costs_view =
     (''agent_costs_hourly'',
      \<lparr>rl_columns = [''bucket'', ''agent'', ''total_cost_usd'', ''total_calls'', ''total_input_tokens'', ''total_output_tokens''],
       rl_keys = [], rl_checks = []\<rparr>)"

lemma prepare_broken:
  "prepare SCHEMA q_costs_hourly = Inl (OtherError ''UndefinedTableError'' ''agent_costs_hourly'')"
  "prepare SCHEMA q_feedback_view = Inl (OtherError ''UndefinedColumnError'' ''repo'')"
  "prepare SCHEMA q_preferences = Inl (OtherError ''UndefinedColumnError'' ''repo'')"
  "prepare (costs_view # SCHEMA) q_costs_hourly = Inr ()" "prepare (costs_view # SCHEMA) q_costs_daily = Inr ()"
  by code_simp+

theorem pages_fail:
  "cost_dashboard SCHEMA rows = Inl (OtherError ''UndefinedTableError'' ''agent_costs_hourly'') \<and>
   feedback_view SCHEMA rows = Inl (OtherError ''UndefinedColumnError'' ''repo'') \<and>
   run_statement SCHEMA rows q_preferences = Inl (OtherError ''UndefinedColumnError'' ''repo'') \<and>
   cost_dashboard (costs_view # SCHEMA) rows = Inr \<lparr>cp_hourly = rows q_costs_hourly, cp_daily = rows q_costs_daily\<rparr>"
  by (simp add: cost_dashboard_def feedback_view_def run_statement_def prepare_broken)

subsection \<open>What is admitted\<close>

definition admits :: "schema \<Rightarrow> string \<Rightarrow> string \<Rightarrow> string \<Rightarrow> bool" where
  "admits sch t c x \<longleftrightarrow>
     (case map_of sch t of
        None \<Rightarrow> False
      | Some r \<Rightarrow> c \<in> set (rl_columns r) \<and> (case map_of (rl_checks r) c of None \<Rightarrow> True | Some xs \<Rightarrow> x \<in> set xs))"

lemma admitted:
  "admits SCHEMA ''reviews'' ''status'' (review_status_str st)" "admits SCHEMA ''reviews'' ''decision'' (decision_str d)"
  "admits SCHEMA ''agent_verdicts'' ''status'' (status_str vs)" "admits SCHEMA ''findings'' ''severity'' (severity_str sev)"
  "admits SCHEMA ''hitl_items'' ''reason'' (reason_str r)"
proof -
  note defs = admits_def SCHEMA_def add_column_def CORE_def
  show "admits SCHEMA ''reviews'' ''status'' (review_status_str st)" by (cases st) (simp_all add: defs)
  show "admits SCHEMA ''reviews'' ''decision'' (decision_str d)" by (cases d) (simp_all add: defs)
  show "admits SCHEMA ''agent_verdicts'' ''status'' (status_str vs)" by (cases vs) (simp_all add: defs)
  show "admits SCHEMA ''findings'' ''severity'' (severity_str sev)" by (cases sev) (simp_all add: defs)
  show "admits SCHEMA ''hitl_items'' ''reason'' (reason_str r)" by (cases r) (simp_all add: defs)
qed

lemma admitted_constants:
  "admits SCHEMA ''hitl_items'' ''state'' ''approved''" "admits SCHEMA ''hitl_items'' ''state'' ''rejected''"
  "admits SCHEMA ''deliveries'' ''status'' ''accepted''" "admits SCHEMA ''feedback'' ''source'' ''hitl_gate''"
  by code_simp+

lemma admitted_verdict: "admits SCHEMA ''feedback'' ''verdict'' v \<longleftrightarrow> v \<in> set FEEDBACK_VERDICTS"
  by (simp add: admits_def SCHEMA_def add_column_def CORE_def FEEDBACK_VERDICTS_def)

text \<open>The texts of the enumerations are admitted by the columns they are written to: the states and decisions
  of reviews, the states of verdicts, severities, reasons to escalate, the states of decided items. Of the verdicts of a
  form, which are free text, exactly four are admitted.\<close>

theorem enumerations_admitted:
  "admits SCHEMA ''reviews'' ''status'' (review_status_str st) \<and> admits SCHEMA ''reviews'' ''decision'' (decision_str d) \<and>
   admits SCHEMA ''agent_verdicts'' ''status'' (status_str vs) \<and> admits SCHEMA ''findings'' ''severity'' (severity_str sev) \<and>
   admits SCHEMA ''hitl_items'' ''reason'' (reason_str r) \<and>
   admits SCHEMA ''hitl_items'' ''state'' (hd_state (decision_of form)) \<and>
   admits SCHEMA ''feedback'' ''source'' ''hitl_gate'' \<and>
   admits SCHEMA ''feedback'' ''verdict'' v = (v \<in> {''accepted'', ''disputed'', ''duplicate'', ''wont_fix''})"
  using admitted admitted_constants by (simp add: decision_of_def admitted_verdict FEEDBACK_VERDICTS_def)

text \<open>A database that refuses a row of the event spine only for its kind refuses none: nothing is counted as dropped.\<close>

definition kind_ok :: "event \<Rightarrow> bool" where
  "kind_ok e \<longleftrightarrow> admits SCHEMA ''agent_events'' ''kind'' (ev_kind e)"

lemma kinds_admitted:
  "list_all (admits SCHEMA ''agent_events'' ''kind'') [''span_start'', ''span_end'', ''llm_call'', ''decision'', ''retrieval'', ''error'']"
  by code_simp

lemma kind_ok_blank:
  "ev_kind e \<in> {''span_start'', ''span_end'', ''llm_call'', ''decision'', ''retrieval'', ''error''} \<Longrightarrow> kind_ok (stamp s e)"
  using kinds_admitted by (auto simp: kind_ok_def stamp_def)

lemma write_keeps_dropped:
  "ev_kind e \<in> {''span_start'', ''span_end'', ''llm_call'', ''decision'', ''retrieval'', ''error''} \<Longrightarrow>
     es_dropped (spine_write kind_ok e s) = es_dropped s"
  by (simp add: spine_write_def kind_ok_blank)

theorem no_kind_refused:
  "es_dropped (spine_llm_call (spine_write kind_ok) name agent model pv inp out cached cost duration attrs s) = es_dropped s \<and>
   es_dropped (spine_decision (spine_write kind_ok) name attrs s) = es_dropped s \<and>
   es_dropped (spine_retrieval (spine_write kind_ok) name duration attrs s) = es_dropped s \<and>
   es_dropped (spine_error (spine_write kind_ok) name e attrs s) = es_dropped s \<and>
   es_dropped (snd (snd (span_enter (spine_write kind_ok) name attrs s))) = es_dropped s \<and>
   es_dropped (span_exit (spine_write kind_ok) duration parent sp s) = es_dropped s"
  by (simp add: spine_llm_call_def spine_decision_def spine_retrieval_def spine_error_def span_enter_def span_exit_def Let_def
      write_keeps_dropped blank_event_def)

end
