(* ===== verification/EvalRetrieval.thy ===== *)
theory EvalRetrieval
  imports EvalRunner Index
begin

section \<open>Retrieval within an evaluation\<close>

text \<open>
  \<^verbatim>\<open>_retrieve_for\<close> of \<^verbatim>\<open>evaluation/runner.py\<close>: the context files of a case are written to a
  temporary directory, indexed under a repository of their own, and retrieved from the index as a review would. The salted
  hash of Python, the directory \<^verbatim>\<open>os.walk\<close> lists for the files, the embedder and the database are parameters. The
  property: what is retrieved for a case comes from the context files of that case, although the index holds those of
  other cases and earlier runs.
\<close>

record 'v retrieve_env =
  rv_hash :: "string \<Rightarrow> int"
  rv_row_id :: "int \<Rightarrow> int"
  rv_tree :: "string list \<Rightarrow> dir_tree"
  rv_index :: index_env
  rv_retrieval :: "index_store \<Rightarrow> int \<Rightarrow> 'v retrieval_env"

text \<open>The id the repository of a case has instead of one of GitHub: a negative number below -999.\<close>

definition eval_github_id :: "int \<Rightarrow> int" where
  "eval_github_id h = - (\<bar>h\<bar> mod 1000000) - 1000"

text \<open>The insert that does nothing but name a repository that is there.\<close>

definition register_repo :: "int \<Rightarrow> index_store \<Rightarrow> index_store" where
  "register_repo repo st = (if ix_repos st repo = None then st\<lparr>ix_repos := (ix_repos st)(repo \<mapsto> None)\<rparr> else st)"

text \<open>\<^verbatim>\<open>dest.write_text(chunk.content)\<close> for every chunk: of two chunks of one path the last one stays.\<close>

definition written :: "code_chunk list \<Rightarrow> string \<rightharpoonup> string" where
  "written chunks = fold (\<lambda>c m. m(ck_file_path c \<mapsto> ck_content c)) chunks Map.empty"

definition retrieve_for ::
  "settings \<Rightarrow> 'v retrieve_env \<Rightarrow> eval_case \<Rightarrow> pull_request \<Rightarrow> uuid \<Rightarrow> (index_store, code_chunk list) effect" where
  "retrieve_for s rv c pr review_id st =
     (if ec_context_chunks c = [] then (Inr [], st)
      else
        let repo = rv_row_id rv (eval_github_id (rv_hash rv (ec_id c)));
            env = (rv_index rv)\<lparr>in_read := written (ec_context_chunks c)\<rparr>;
            tree = rv_tree rv (map ck_file_path (ec_context_chunks c))
        in case index_repository env repo tree (take 40 (ec_id c)) 64 (register_repo repo st) of
             (Inl e, st') \<Rightarrow> (Inl e, st')
           | (Inr _, st') \<Rightarrow>
               (map_sum id rc_chunks (fst (build_context s null_write (rv_retrieval rv st' repo) pr (Some repo)
                  (new_spine (Some review_id) None None (review_id + 1)))), st'))"

subsection \<open>Where an indexed row comes from\<close>

lemma insert_rows_subset: "set (foldl insert_row old rows) \<subseteq> set old \<union> set rows"
  by (induction rows arbitrary: old) (force simp: insert_row_def split: if_splits)+

lemma embed_batch_rows:
  assumes "embed_batch env repo commit cs = Inr rows" and "r \<in> set rows"
  shows "\<exists>c \<in> set cs. \<exists>v. r = chunk_as_row (in_sha env) repo commit c v"
  using assms by (auto simp: embed_batch_def ebind_Inr split: if_splits) (blast dest: set_zip_leftD)

lemma file_chunk_piece:
  assumes "c \<in> set (file_chunks env path)"
  shows "\<exists>body. in_read env path = Some body \<and> is_piece path (py_splitlines body) c"
proof (cases "in_read env path")
  case (Some body)
  have "list_all (is_piece path (py_splitlines body))
      (if py_splitlines body = [] then [] else uncapped path (py_splitlines body) (file_language path None))"
    by (simp add: uncapped_pieces)
  from capped_pieces [OF this] assms Some show ?thesis
    by (auto simp: file_chunks_def chunk_file_uncapped list_all_iff)
qed (use assms in \<open>simp add: file_chunks_def\<close>)

text \<open>After indexing, a row of the repository is a piece of a file that was read.\<close>

lemma indexed_row_piece:
  assumes "index_repository env repo tree commit n st = (Inr x, st')" and "r \<in> set (ix_chunks st')" and "cr_repo r = repo"
  shows "\<exists>body c v. in_read env (cr_path r) = Some body \<and> is_piece (cr_path r) (py_splitlines body) c \<and>
    r = chunk_as_row (in_sha env) repo commit c v"
proof -
  let ?chunks = "concat (map (file_chunks env) (walk [] tree))"
  obtain bs rows where bs: "range_batches n ?chunks = Inr bs" and rows: "e_traverse (embed_batch env repo commit) bs = Inr rows"
    and st': "ix_chunks st' = foldl insert_row (filter (\<lambda>r. cr_repo r \<noteq> repo) (ix_chunks st)) (concat rows)"
    using assms(1) by (auto simp: index_repository_def Let_def eff_bind_Inr ebind_Inr replace_repo_chunks_def
        split: option.splits if_splits)
  then have "r \<in> set (concat rows)"
    using assms(2,3) insert_rows_subset [of "filter (\<lambda>r. cr_repo r \<noteq> repo) (ix_chunks st)" "concat rows"] by auto
  then obtain rs where "rs \<in> set rows" "r \<in> set rs" by auto
  moreover from this(1) obtain b where "b \<in> set bs" "embed_batch env repo commit b = Inr rs"
    using e_traverse_member [OF rows] by blast
  moreover from calculation obtain c v where c: "c \<in> set b" "r = chunk_as_row (in_sha env) repo commit c v"
    using embed_batch_rows by blast
  ultimately have "c \<in> set (concat bs)" by auto
  moreover have "concat bs = [] \<or> concat bs = ?chunks"
    using bs by (simp add: range_batches_def split: if_splits) (use batches_concat in blast)
  ultimately have "c \<in> set ?chunks" by (metis empty_iff list.set(1))
  then obtain p where "c \<in> set (file_chunks env p)" by auto
  then obtain body where "in_read env p = Some body" "is_piece p (py_splitlines body) c" using file_chunk_piece by blast
  moreover from this(2) c(2) have "cr_path r = p" by (simp add: is_piece_def chunk_as_row_def)
  ultimately show ?thesis using c(2) by blast
qed

subsection \<open>Where a retrieved chunk comes from\<close>

text \<open>The lines of a text a retrieved chunk shows.\<close>

definition shows_lines :: "string \<Rightarrow> code_chunk \<Rightarrow> bool" where
  "shows_lines body ck \<longleftrightarrow>
     1 \<le> ck_start_line ck \<and> ck_start_line ck \<le> ck_end_line ck \<and> ck_end_line ck \<le> int (length (py_splitlines body)) \<and>
     ck_content ck = py_join [CHR 0x0A] (line_range (py_splitlines body) (nat (ck_start_line ck)) (nat (ck_end_line ck)))"

lemma row_shows_lines:
  "is_piece p (py_splitlines body) c \<Longrightarrow> shows_lines body (row_chunk (chunk_as_row sha repo commit c v) rank)"
  by (simp add: is_piece_def shows_lines_def row_chunk_def chunk_as_row_def)

text \<open>C28. If a search returns rows of its repository only, as its condition says, then every chunk retrieved for a case shows
  lines of the file its path names among the context files of that case, whatever the index held before; no place is
  retrieved twice, and there are no more chunks than the settings allow.\<close>

theorem retrieved_from_case:
  assumes "fst (retrieve_for s rv c pr review_id st) = Inr chunks"
    and "\<And>st' repo p v t k ex hits ck. re_search (rv_retrieval rv st' repo) p v t k ex = Inr hits \<Longrightarrow> ck \<in> set hits \<Longrightarrow>
      \<exists>r rank. r \<in> set (ix_chunks st') \<and> cr_repo r = repo \<and> ck = row_chunk r rank"
  shows "list_all (\<lambda>ck. \<exists>body. written (ec_context_chunks c) (ck_file_path ck) = Some body \<and> shows_lines body ck) chunks \<and>
    distinct (map chunk_key chunks) \<and> length chunks \<le> s_retrieval_top_k s"
proof (cases "ec_context_chunks c = []")
  case True
  with assms(1) show ?thesis by (simp add: retrieve_for_def)
next
  case False
  let ?repo = "rv_row_id rv (eval_github_id (rv_hash rv (ec_id c)))"
  let ?env = "(rv_index rv)\<lparr>in_read := written (ec_context_chunks c)\<rparr>"
  obtain x st' ctx s' where ix: "index_repository ?env ?repo (rv_tree rv (map ck_file_path (ec_context_chunks c)))
      (take 40 (ec_id c)) 64 (register_repo ?repo st) = (Inr x, st')"
    and ctx: "build_context s null_write (rv_retrieval rv st' ?repo) pr (Some ?repo)
      (new_spine (Some review_id) None None (review_id + 1)) = (Inr ctx, s')" and chunks: "chunks = rc_chunks ctx"
  proof -
    obtain r st' where ix: "index_repository ?env ?repo (rv_tree rv (map ck_file_path (ec_context_chunks c)))
        (take 40 (ec_id c)) 64 (register_repo ?repo st) = (r, st')" by fastforce
    moreover obtain q s' where "build_context s null_write (rv_retrieval rv st' ?repo) pr (Some ?repo)
        (new_spine (Some review_id) None None (review_id + 1)) = (q, s')" by fastforce
    ultimately show thesis
      using that assms(1) False by (cases r; cases q) (auto simp: retrieve_for_def Let_def)
  qed
  have piece: "\<exists>body. written (ec_context_chunks c) (ck_file_path ck) = Some body \<and> shows_lines body ck"
    if hit: "re_search (rv_retrieval rv st' ?repo) p v t k ex = Inr hits" "ck \<in> set hits" for p v t k ex hits ck
  proof -
    obtain r rank where r: "r \<in> set (ix_chunks st')" "cr_repo r = ?repo" "ck = row_chunk r rank"
      using assms(2) [OF hit] by blast
    from indexed_row_piece [OF ix r(1,2)] obtain body d v where
      "written (ec_context_chunks c) (cr_path r) = Some body" "is_piece (cr_path r) (py_splitlines body) d"
      "r = chunk_as_row (in_sha ?env) ?repo (take 40 (ec_id c)) d v" by auto
    with row_shows_lines [OF this(2), of "in_sha ?env" ?repo "take 40 (ec_id c)" v rank] r(3)
    show ?thesis by (auto simp: row_chunk_def)
  qed
  from build_context_sound [OF ctx] show ?thesis
  proof (elim disjE exE conjE)
    fix per_file seen
    assume chunks': "rc_chunks ctx = take (s_retrieval_top_k s) (interleave (map snd per_file))"
      and "hits_inv (\<lambda>c. \<exists>p v t hits. re_search (rv_retrieval rv st' ?repo) p v t (s_retrieval_top_k s)
        (map df_path (pr_files pr)) = Inr hits \<and> c \<in> set hits) seen per_file"
    from hits_inv_take [OF this(2), of "s_retrieval_top_k s"] piece show ?thesis
      unfolding chunks chunks' list_all_iff by (metis (no_types, lifting) length_take min.cobounded2)
  qed (simp add: chunks)
qed

text \<open>A search that returns every row of its repository, and a case with one context file; the index holds a row of another
  repository.\<close>

definition plain_env :: "unit retrieve_env" where
  "plain_env =
     \<lparr>rv_hash = (\<lambda>s. int (length s)), rv_row_id = (\<lambda>g. - g), rv_tree = (\<lambda>ps. Dir (map (\<lambda>p. (p, Some 5)) ps) []),
      rv_index = sample_index_env,
      rv_retrieval = (\<lambda>st repo.
        \<lparr>re_indexed_sha = Inr None, re_embed = (\<lambda>qs. Inr (map (\<lambda>_. ()) qs)),
         re_search = (\<lambda>p v t k ex. Inr (map (\<lambda>r. row_chunk r 1) (filter (\<lambda>r. cr_repo r = repo) (ix_chunks st)))),
         re_conventions = Inr [], re_embedder_name = ''plain'', re_elapsed_ms = 0\<rparr>)\<rparr>"

definition plain_case :: eval_case where
  "plain_case =
     \<lparr>ec_id = ''c'', ec_title = [], ec_summary = [], ec_expected_decision = None,
      ec_files = [\<lparr>df_path = ''a.py'', df_previous_path = None, df_status = ''modified'', df_additions = 0, df_deletions = 0,
        df_hunks = [], df_patch = [], df_binary = False\<rparr>],
      ec_context_chunks = [sample_chunk], ec_expected = [], ec_body = [], ec_provenance = None, ec_must_not_find = [],
      ec_may_find = [], ec_permitted_concerns = []\<rparr>"

definition other_row :: chunk_row where
  "other_row =
     \<lparr>cr_repo = 5, cr_sha = [], cr_path = ''lib.py'', cr_language = None, cr_symbol = None, cr_start = 1, cr_end = 1,
      cr_content = ''y'', cr_hash = [], cr_embedding = []\<rparr>"

lemma plain_retrieves:
  "\<exists>chunks. fst (retrieve_for default_settings plain_env plain_case (case_pull_request plain_case) 1 st) = Inr chunks"
proof -
  have embeds: "in_embed (sample_index_env\<lparr>in_read := read\<rparr>) ts = Inr (map (\<lambda>t. [real (length t)]) ts)" for read ts
    by (simp add: sample_index_env_def)
  have "\<exists>x st'. index_repository (sample_index_env\<lparr>in_read := read\<rparr>) repo tree commit 64 (register_repo repo st) = (Inr x, st')"
    for read repo tree commit st
    by (simp add: index_repository_def Let_def eff_bind_def range_batches_def embed_batches [OF embeds] replace_repo_chunks_def)
       (simp add: sample_index_env_def register_repo_def)
  moreover have "\<exists>ctx s'. build_context default_settings null_write (rv_retrieval plain_env st' repo) (case_pull_request plain_case)
      (Some repo) s = (Inr ctx, s')" for st' repo s
    by (simp add: build_context_def Let_def note_index_drift_def retrieve_chunks_def source_files_def plain_env_def plain_case_def
        case_pull_request_def split: prod.split)
  ultimately have runs: "\<exists>x st' ctx s'. index_repository (sample_index_env\<lparr>in_read := read\<rparr>) repo tree commit 64 (register_repo repo st) = (Inr x, st') \<and>
      build_context default_settings null_write (rv_retrieval plain_env st' repo) (case_pull_request plain_case) (Some repo) s = (Inr ctx, s')"
    for read repo tree commit st s
    by blast
  have env: "rv_index plain_env = sample_index_env" by (simp add: plain_env_def)
  show ?thesis
  proof (cases "ec_context_chunks plain_case = []")
    case False
    let ?repo = "rv_row_id plain_env (eval_github_id (rv_hash plain_env (ec_id plain_case)))"
    from runs [of "written (ec_context_chunks plain_case)" ?repo "rv_tree plain_env (map ck_file_path (ec_context_chunks plain_case))"
        "take 40 (ec_id plain_case)" st "new_spine (Some 1) None None (1 + 1)"]
    obtain x st' ctx s' where "index_repository (sample_index_env\<lparr>in_read := written (ec_context_chunks plain_case)\<rparr>) ?repo
        (rv_tree plain_env (map ck_file_path (ec_context_chunks plain_case))) (take 40 (ec_id plain_case)) 64
        (register_repo ?repo st) = (Inr x, st')"
      "build_context default_settings null_write (rv_retrieval plain_env st' ?repo) (case_pull_request plain_case) (Some ?repo)
        (new_spine (Some 1) None None (1 + 1)) = (Inr ctx, s')" by blast
    with False show ?thesis by (simp only: retrieve_for_def Let_def env) simp
  qed (simp add: retrieve_for_def)
qed

lemma retrieved_from_case_witness:
  "\<exists>chunks. fst (retrieve_for default_settings plain_env plain_case (case_pull_request plain_case) 1
       \<lparr>ix_chunks = [other_row], ix_repos = Map.empty\<rparr>) = Inr chunks \<and>
     list_all (\<lambda>ck. \<exists>body. written [sample_chunk] (ck_file_path ck) = Some body \<and> shows_lines body ck) chunks"
proof -
  obtain chunks where got: "fst (retrieve_for default_settings plain_env plain_case (case_pull_request plain_case) 1
      \<lparr>ix_chunks = [other_row], ix_repos = Map.empty\<rparr>) = Inr chunks"
    using plain_retrieves by blast
  have search: "\<exists>r rank. r \<in> set (ix_chunks st') \<and> cr_repo r = repo \<and> ck = row_chunk r rank"
    if "re_search (rv_retrieval plain_env st' repo) p v t k ex = Inr hits" "ck \<in> set hits" for st' repo p v t k ex hits ck
    using that by (auto simp: plain_env_def) blast
  have "list_all (\<lambda>ck. \<exists>body. written (ec_context_chunks plain_case) (ck_file_path ck) = Some body \<and> shows_lines body ck) chunks"
    by (rule conjunct1 [OF retrieved_from_case [OF got]]) (rule search)
  moreover have "ec_context_chunks plain_case = [sample_chunk]" by (simp add: plain_case_def)
  ultimately show ?thesis using got by auto
qed

end
