(* ===== verification/Spec2Isabelle.thy ===== *)
theory Spec2Isabelle
  imports Gate Engines Ingress Pipeline EvalRunner Migrate Index Rescore Echo BuildFixtures Ledger Dashboard Learning
    PoolLife Worker Cli CompareArms RetrievalEval Mining Labels Costs Console Readiness BlindAudit Diagnose Demo
    QueueLife Services Schema EvalRetrieval
begin

text \<open>
  \<^bold>\<open>Verification of PR Sentinel\<close>

  PR Sentinel reviews pull requests. A GitHub webhook is authenticated, deduplicated and enqueued; a worker
  fetches the pull request, parses its diff, retrieves context, asks four specialist agents (language-model
  calls under a cost guard, a circuit breaker and retries), grounds their answers on the lines of the diff,
  merges the findings, and a gate decides whether the review is posted, left to a human or kept quiet. An
  offline harness scores the panel against labelled cases. Source paths below are under
  \<^verbatim>\<open>src/src/pr_sentinel/\<close>, those of scripts under \<^verbatim>\<open>src/scripts/\<close>.

  \<^bold>\<open>The language.\<close> A Python function is a HOL function; a method that changes its object takes and returns
  the record; an operation that may raise returns \<open>exc + 'a\<close> (\<^verbatim>\<open>Exceptions\<close>), and one that also changes a
  state is an effect \<open>'s \<Rightarrow> (exc + 'a) \<times> 's\<close> (\<^verbatim>\<open>Effects\<close>). Text is a list of bytes, integers are \<open>int\<close> or,
  where they cannot be negative, \<open>nat\<close>, floats are reals (no rounding error) and, where infinities and NaN
  can enter, the type \<open>pyfloat\<close> (\<^verbatim>\<open>Json\<close>). Log lines are left out, and timestamps where nothing reads them; the
  ledger has them as microseconds (\<^verbatim>\<open>Costs\<close>). What lies outside the
  sources (HTTP, SQL engine, HMAC and hashes, JSON reader, embedder, model, clock, random numbers, the
  scheduler of concurrent tasks) is an argument of the definitions that use it; where a theorem needs more of
  it than its type says, the hypothesis is in the statement and the witness instantiates it.

  \<^bold>\<open>Theories.\<close>
  \<^item> \<^verbatim>\<open>Prelude\<close>, \<^verbatim>\<open>PyStr\<close>, \<^verbatim>\<open>Regex\<close>, \<^verbatim>\<open>Json\<close>, \<^verbatim>\<open>Exceptions\<close>, \<^verbatim>\<open>Effects\<close>, \<^verbatim>\<open>Transition\<close>: the parts of
    Python the program uses (rounding, grouping, string methods, a backtracking matcher for its regular
    expressions with the lemmas that make a greedy match deterministic, JSON values, the exception hierarchy),
    sequencing of effects with the locale \<open>frame\<close> for what a handler leaves alone, and reachability with the
    locale \<open>invariant_system\<close> for inductive invariants.
  \<^item> \<^verbatim>\<open>Domain\<close>: \<^verbatim>\<open>domain/enums.py\<close>, \<^verbatim>\<open>domain/models.py\<close>, \<^verbatim>\<open>config.py\<close>.
  \<^item> \<^verbatim>\<open>Diff\<close>: \<^verbatim>\<open>forge/diff.py\<close>; the streaming patch parser equals a reference that cuts the patch at its
    headers, its addressable lines are a range, hunk headers survive printing and parsing.
  \<^item> \<^verbatim>\<open>Grounding\<close>, \<^verbatim>\<open>Agents\<close>: \<^verbatim>\<open>agents/\<close>; every finding kept from a model answer lies on the diff, and a run of
    an agent ends in one of its verdicts on every path.
  \<^item> \<^verbatim>\<open>Retry\<close>, \<^verbatim>\<open>Circuit\<close>, \<^verbatim>\<open>Budget\<close>: \<^verbatim>\<open>reliability/\<close>; outcomes and numbers of attempts, the breaker and the
    cost guard under any interleaving of their callers - how far a review exceeds its cap depends on how many calls
    run at once and how much they cost beyond their estimates - and the recovery of a tripped breaker.
  \<^item> \<^verbatim>\<open>Spine\<close>: \<^verbatim>\<open>events/spine.py\<close>; spans are balanced, and misattributed when agents overlap.
  \<^item> \<^verbatim>\<open>Llm\<close>, \<^verbatim>\<open>Echo\<close>: \<^verbatim>\<open>llm/\<close> without the embeddings; \<open>call_llm\<close> with its charge and event on every path,
    and the offline provider, which reads back what the agents are shown.
  \<^item> \<^verbatim>\<open>Ledger\<close>, \<^verbatim>\<open>Costs\<close>, \<^verbatim>\<open>Dashboard\<close>, \<^verbatim>\<open>Learning\<close>: \<^verbatim>\<open>db/repositories/metrics.py\<close> with the views of its
    migration, the decisions of \<^verbatim>\<open>dashboard/app.py\<close>, \<^verbatim>\<open>feedback/learning.py\<close>; the rows of a review and
    the costs of those that were lost say what its guard was charged, to the six places of the column, the spend of the day is exact where midnight is on a full hour, every call is in one row of the
    costs, an item of the queue is decided once, a preference rests on several disputes.
  \<^item> \<^verbatim>\<open>Context\<close>, \<^verbatim>\<open>Chunking\<close>, \<^verbatim>\<open>Embeddings\<close>, \<^verbatim>\<open>Index\<close>: \<^verbatim>\<open>retrieval/\<close>, \<^verbatim>\<open>llm/embeddings.py\<close> and
    \<^verbatim>\<open>db/repositories/chunks.py\<close>; what is indexed, stored, found and shown to an agent.
  \<^item> \<^verbatim>\<open>Engines\<close>: \<^verbatim>\<open>orchestration/engine.py\<close> and its implementations, which refine the locale
    \<open>panel_collector\<close>: one verdict for every agent, a failed one for a run that crashed, for any interleaving the
    libraries may choose (\<open>gathers\<close>, \<open>fans_out\<close>).
  \<^item> \<^verbatim>\<open>Aggregator\<close>, \<^verbatim>\<open>Gate\<close>: \<^verbatim>\<open>orchestration/aggregator.py\<close>, \<^verbatim>\<open>gate/confidence.py\<close>; the merge invents and
    loses nothing, and the decision of the gate, branch by branch; a critical security finding is not posted unless
    repeated test requests are folded over it, which is a defect shown by example.
  \<^item> \<^verbatim>\<open>Store\<close>, \<^verbatim>\<open>Migrate\<close>, \<^verbatim>\<open>PoolLife\<close>: \<^verbatim>\<open>db/repositories/reviews.py\<close>, \<^verbatim>\<open>db/migrate.py\<close>,
    \<^verbatim>\<open>db/pool.py\<close>; tables as maps and lists, the migration runner with its splitter, and the connection pool as
    a transition system of the tasks that ask for it and close it. \<^verbatim>\<open>Schema\<close>: the files of \<^verbatim>\<open>src/migrations/\<close> as
    relations with their columns, keys and checks, and what every statement names of them; which statements can be
    prepared, and that the texts of the enumerations are admitted by their columns.
  \<^item> \<^verbatim>\<open>Ingress\<close>, \<^verbatim>\<open>QueueLife\<close>: \<^verbatim>\<open>ingress/\<close> and \<^verbatim>\<open>queue/dispatch.py\<close>; nothing happens before the signature is
    verified, a delivery is enqueued at most once over any sequence of requests, and each client of the queue is
    made once.
  \<^item> \<^verbatim>\<open>Services\<close>: \<^verbatim>\<open>ingress/app.py\<close>, \<^verbatim>\<open>logging.py\<close> and the start and stop of the worker and the dashboard; outside
    development no request signed with the placeholder secret is served.
  \<^item> \<^verbatim>\<open>GitHub\<close>, \<^verbatim>\<open>Pipeline\<close>, \<^verbatim>\<open>Worker\<close>: \<^verbatim>\<open>forge/github.py\<close>, \<^verbatim>\<open>orchestration/pipeline.py\<close>,
    \<^verbatim>\<open>queue/worker.py\<close>; a whole review with every database statement and every request as a step that can
    fail, run on the job that came through the queue; what is sent to GitHub is what the gate made of the verdicts
    stored for the review that the run opened.
  \<^item> \<^verbatim>\<open>Fixtures\<close>, \<^verbatim>\<open>Matching\<close>, \<^verbatim>\<open>Metrics\<close>, \<^verbatim>\<open>EvalRunner\<close>, \<^verbatim>\<open>EvalRetrieval\<close>, \<^verbatim>\<open>Report\<close>:
    \<^verbatim>\<open>evaluation/\<close>; findings are judged once, scores account for every label, what is retrieved for a case comes
    from its own context files, the printed report and the comparison with a saved one.
  \<^item> \<^verbatim>\<open>Cli\<close>, \<^verbatim>\<open>Console\<close>: \<^verbatim>\<open>cli.py\<close> and the pages of \<^verbatim>\<open>dashboard/app.py\<close>; doctor leaves no trace and passes
    exactly if its checks hold, what \<^verbatim>\<open>eval\<close> saves comes from healthy runs and is read by the scripts, the queue
    shows the most urgent items first, a trace is complete and in order.
  \<^item> \<^verbatim>\<open>Rescore\<close>, \<^verbatim>\<open>CompareArms\<close>, \<^verbatim>\<open>BuildFixtures\<close>, \<^verbatim>\<open>RetrievalEval\<close>, \<^verbatim>\<open>Diagnose\<close>, \<^verbatim>\<open>Mining\<close>, \<^verbatim>\<open>Labels\<close>,
    \<^verbatim>\<open>BlindAudit\<close>, \<^verbatim>\<open>Demo\<close>, \<^verbatim>\<open>Readiness\<close>: the scripts \<^verbatim>\<open>rescore.py\<close>, \<^verbatim>\<open>compare_arms.py\<close>,
    \<^verbatim>\<open>build_eval_fixtures.py\<close>, \<^verbatim>\<open>eval_retrieval.py\<close>, \<^verbatim>\<open>diagnose_retrieval.py\<close>, the three \<^verbatim>\<open>mine_\<close> scripts,
    \<^verbatim>\<open>holdout_manifest.py\<close>, \<^verbatim>\<open>blind_label_audit.py\<close>, \<^verbatim>\<open>demo_end_to_end.py\<close> and
    \<^verbatim>\<open>wait_for_services.py\<close>.

  \<^bold>\<open>Interfaces.\<close> The locales are \<open>invariant_system\<close> (breaker, cost guard, ingress, connection pool, the clients of the queue), \<open>frame\<close> (tables, client and
  posts of the pipeline), \<open>event_sink\<close> (the spine and the null spine), \<open>claim_ledger\<close> (the delivery table, the
  keys in Redis and the items of the human queue) and \<open>panel_collector\<close> (both engines); each is interpreted on the definitions of the code.

  \<^bold>\<open>Bounds and termination.\<close> No definition uses fuel: the loops of the program are structural or decrease a
  measure (retries left, files still wanted, lines left of a window, text left of a scan), so every function
  is total and a theorem about its result is about the result the code returns. The one exception is the loop of
  \<^verbatim>\<open>wait_for_services.py\<close>, which ends only if its clock advances: it is a partial function with an optional result, and
  proved to return by its deadline where a sleep takes its second.

  \<^bold>\<open>Not modelled.\<close> Log lines, the declarations of the web applications and of the options of the command line, the HTML
  templates, the calls of git and gh, and what only assembles printed text in \<^verbatim>\<open>eval_retrieval.py\<close> and
  \<^verbatim>\<open>build_eval_fixtures.py\<close> call libraries or format text. Foreign keys (but that of the chunks of an index on their
  repository), indexes, triggers and refresh policies of the database are not modelled beyond the probes of doctor. Rounding errors of floats and the behaviour of text outside ASCII
  in lengths and character classes are not modelled.
\<close>

end
